(* ===== verification/Prelude.thy ===== *)
theory Prelude
  imports Complex_Main "HOL-Library.Char_ord" "HOL-Library.List_Lexorder"
begin

text \<open>
  Shared vocabulary of the development: the state-and-exception programs every service of the
  backend is translated into, the combinators for the control flow the Python code uses
  (sequencing, \<open>try/except\<close>, \<open>for\<close> loops, \<open>async with uow.transaction()\<close>), the two proof
  calculi over them (\<open>keeps\<close> for invariants, \<open>hoare\<close> for pre/postconditions) and the generic
  lemmas on lists and maps the components share.

  A program takes a state and returns a result, \<open>Inl\<close> of the exception it raised or \<open>Inr\<close> of
  the value it returned, with the state it left: a Python exception does not undo the writes that
  came before it, so the state is returned on both branches. Undoing is the transaction's job
  (\<open>atomic\<close>).
\<close>

named_theorems prog_simps "unfolding rules of the program combinators"
named_theorems keeps_intros "introduction rules of the invariant calculus"

section \<open>Programs\<close>

type_synonym ('e, 'w, 'a) prog = "'w \<Rightarrow> ('e + 'a) \<times> 'w"

definition ret :: "'a \<Rightarrow> ('e, 'w, 'a) prog" where
  "ret x = (\<lambda>w. (Inr x, w))"

definition raise :: "'e \<Rightarrow> ('e, 'w, 'a) prog" where
  "raise e = (\<lambda>w. (Inl e, w))"

definition bnd :: "('e, 'w, 'a) prog \<Rightarrow> ('a \<Rightarrow> ('e, 'w, 'b) prog) \<Rightarrow> ('e, 'w, 'b) prog" where
  "bnd m f = (\<lambda>w. case m w of (Inl e, w') \<Rightarrow> (Inl e, w') | (Inr x, w') \<Rightarrow> f x w')"

definition thn :: "('e, 'w, 'a) prog \<Rightarrow> ('e, 'w, 'b) prog \<Rightarrow> ('e, 'w, 'b) prog" where
  "thn m n = bnd m (\<lambda>_. n)"

text \<open>\<open>try: m except: h\<close>; a handler that does not match re-raises.\<close>

definition catch :: "('e, 'w, 'a) prog \<Rightarrow> ('e \<Rightarrow> ('e, 'w, 'a) prog) \<Rightarrow> ('e, 'w, 'a) prog" where
  "catch m h = (\<lambda>w. case m w of (Inl e, w') \<Rightarrow> h e w' | (Inr x, w') \<Rightarrow> (Inr x, w'))"

definition gets :: "('w \<Rightarrow> 'a) \<Rightarrow> ('e, 'w, 'a) prog" where
  "gets g = (\<lambda>w. (Inr (g w), w))"

definition modify :: "('w \<Rightarrow> 'w) \<Rightarrow> ('e, 'w, unit) prog" where
  "modify g = (\<lambda>w. (Inr (), g w))"

fun for_each :: "'a list \<Rightarrow> ('a \<Rightarrow> ('e, 'w, unit) prog) \<Rightarrow> ('e, 'w, unit) prog" where
  "for_each [] f = ret ()"
| "for_each (x # xs) f = thn (f x) (for_each xs f)"

text \<open>
  One database transaction: every write of the body is kept when it returns and none of them when
  it raises. \<open>Unit_Of_Work\<close> proves that this is what the nested \<open>transaction()\<close> blocks of
  \<^verbatim>\<open>shared/db/unit_of_work.py\<close> do.
\<close>

definition atomic :: "('e, 'w, 'a) prog \<Rightarrow> ('e, 'w, 'a) prog" where
  "atomic m = (\<lambda>w. case m w of (Inl e, _) \<Rightarrow> (Inl e, w) | (Inr x, w') \<Rightarrow> (Inr x, w'))"

lemma ret_run [simp, prog_simps]: "ret x w = (Inr x, w)"
  by (simp add: ret_def)

lemma raise_run [simp, prog_simps]: "raise e w = (Inl e, w)"
  by (simp add: raise_def)

lemma gets_run [simp, prog_simps]: "gets g w = (Inr (g w), w)"
  by (simp add: gets_def)

lemma modify_run [simp, prog_simps]: "modify g w = (Inr (), g w)"
  by (simp add: modify_def)

lemma bnd_run [prog_simps]:
  "bnd m f w = (case m w of (Inl e, w') \<Rightarrow> (Inl e, w') | (Inr x, w') \<Rightarrow> f x w')"
  by (simp add: bnd_def)

lemma thn_run [prog_simps]:
  "thn m n w = (case m w of (Inl e, w') \<Rightarrow> (Inl e, w') | (Inr x, w') \<Rightarrow> n w')"
  by (simp add: thn_def bnd_def)

lemma catch_run [prog_simps]:
  "catch m h w = (case m w of (Inl e, w') \<Rightarrow> h e w' | (Inr x, w') \<Rightarrow> (Inr x, w'))"
  by (simp add: catch_def)

lemma atomic_run [prog_simps]:
  "atomic m w = (case m w of (Inl e, _) \<Rightarrow> (Inl e, w) | (Inr x, w') \<Rightarrow> (Inr x, w'))"
  by (simp add: atomic_def)

lemma bnd_eqs [simp]:
  "bnd (ret x) f = f x"
  "bnd (raise e) f = raise e"
  "bnd (gets g) f w = f (g w) w"
  by (simp_all add: bnd_def fun_eq_iff)

lemma bnd_assoc: "bnd (bnd m f) g = bnd m (\<lambda>x. bnd (f x) g)"
  by (auto simp: bnd_def fun_eq_iff split: prod.splits sum.splits)

lemma thn_ret_unit [simp]: "thn m (ret ()) = m" for m :: "('e, 'w, unit) prog"
  by (auto simp: thn_def bnd_def fun_eq_iff split: prod.splits sum.splits)

lemma atomic_Inl: "atomic m w = (Inl e, w') \<Longrightarrow> w' = w"
  by (auto simp: atomic_def split: prod.splits sum.splits)

lemma atomic_Inr: "atomic m w = (Inr x, w') \<longleftrightarrow> m w = (Inr x, w')"
  by (auto simp: atomic_def split: prod.splits sum.splits)

lemma atomic_atomic [simp]: "atomic (atomic m) = atomic m"
  by (auto simp: atomic_def fun_eq_iff split: prod.splits sum.splits)

lemma bnd_Inr_E:
  assumes "bnd m f w = (Inr y, w'')"
  obtains x w' where "m w = (Inr x, w')" and "f x w' = (Inr y, w'')"
  using assms by (auto simp: bnd_def split: prod.splits sum.splits)

section \<open>Invariants of programs\<close>

text \<open>\<open>keeps I m\<close>: whatever \<open>m\<close> does, return or raise, it re-establishes \<open>I\<close>.\<close>

definition keeps :: "('w \<Rightarrow> bool) \<Rightarrow> ('e, 'w, 'a) prog \<Rightarrow> bool" where
  "keeps I m \<longleftrightarrow> (\<forall>w. I w \<longrightarrow> I (snd (m w)))"

lemma keepsI: "(\<And>w r w'. I w \<Longrightarrow> m w = (r, w') \<Longrightarrow> I w') \<Longrightarrow> keeps I m"
  by (metis keeps_def prod.collapse)

lemma keepsD: "keeps I m \<Longrightarrow> I w \<Longrightarrow> m w = (r, w') \<Longrightarrow> I w'"
  by (metis keeps_def snd_conv)

lemma keeps_ret [keeps_intros]: "keeps I (ret x)"
  by (simp add: keeps_def)

lemma keeps_raise [keeps_intros]: "keeps I (raise e)"
  by (simp add: keeps_def)

lemma keeps_gets [keeps_intros]: "keeps I (gets g)"
  by (simp add: keeps_def)

lemma keeps_modify: "(\<And>w. I w \<Longrightarrow> I (g w)) \<Longrightarrow> keeps I (modify g)"
  by (simp add: keeps_def)

lemma keeps_bnd [keeps_intros]:
  assumes m: "keeps I m" and f: "\<And>x. keeps I (f x)"
  shows "keeps I (bnd m f)"
proof (rule keepsI)
  fix w r w'
  assume w: "I w" and run: "bnd m f w = (r, w')"
  obtain r1 w1 where m1: "m w = (r1, w1)" by fastforce
  have "I w1" using keepsD [OF m w m1] .
  then show "I w'"
    using run m1 keepsD [OF f] by (cases r1) (auto simp: bnd_def)
qed

lemma keeps_thn [keeps_intros]: "keeps I m \<Longrightarrow> keeps I n \<Longrightarrow> keeps I (thn m n)"
  by (simp add: thn_def keeps_bnd)

lemma keeps_catch [keeps_intros]:
  assumes m: "keeps I m" and h: "\<And>e. keeps I (h e)"
  shows "keeps I (catch m h)"
proof (rule keepsI)
  fix w r w'
  assume w: "I w" and run: "catch m h w = (r, w')"
  obtain r1 w1 where m1: "m w = (r1, w1)" by fastforce
  have "I w1" using keepsD [OF m w m1] .
  then show "I w'"
    using run m1 keepsD [OF h] by (cases r1) (auto simp: catch_def)
qed

lemma keeps_atomic [keeps_intros]: "keeps I m \<Longrightarrow> keeps I (atomic m)"
  by (auto simp: keeps_def atomic_def split: prod.splits sum.splits)

lemma keeps_for_each [keeps_intros]: "(\<And>x. keeps I (f x)) \<Longrightarrow> keeps I (for_each xs f)"
  by (induction xs) (auto intro: keeps_intros)

lemma keeps_if [keeps_intros]:
  "(b \<Longrightarrow> keeps I m) \<Longrightarrow> (\<not> b \<Longrightarrow> keeps I n) \<Longrightarrow> keeps I (if b then m else n)"
  by simp

lemma keeps_case_option [keeps_intros]:
  "(x = None \<Longrightarrow> keeps I m) \<Longrightarrow> (\<And>y. x = Some y \<Longrightarrow> keeps I (f y)) \<Longrightarrow>
     keeps I (case x of None \<Rightarrow> m | Some y \<Rightarrow> f y)"
  by (cases x) auto

lemma keeps_case_prod [keeps_intros]:
  "(\<And>a b. p = (a, b) \<Longrightarrow> keeps I (f a b)) \<Longrightarrow> keeps I (case p of (a, b) \<Rightarrow> f a b)"
  by (cases p) auto

lemma keeps_case_sum [keeps_intros]:
  "(\<And>a. x = Inl a \<Longrightarrow> keeps I (f a)) \<Longrightarrow> (\<And>b. x = Inr b \<Longrightarrow> keeps I (g b)) \<Longrightarrow>
     keeps I (case x of Inl a \<Rightarrow> f a | Inr b \<Rightarrow> g b)"
  by (cases x) auto

lemma keeps_case_bool [keeps_intros]:
  "(x \<Longrightarrow> keeps I m) \<Longrightarrow> (\<not> x \<Longrightarrow> keeps I n) \<Longrightarrow>
     keeps I (case x of True \<Rightarrow> m | False \<Rightarrow> n)"
  by (cases x) auto

section \<open>Pre- and postconditions\<close>

text \<open>
  \<open>hoare P m Q E\<close>: from a state with \<open>P\<close>, a return value and its state satisfy \<open>Q\<close>, an
  exception and its state satisfy \<open>E\<close>. Programs are total functions, so this is total
  correctness: one of the two always applies.
\<close>

definition hoare ::
  "('w \<Rightarrow> bool) \<Rightarrow> ('e, 'w, 'a) prog \<Rightarrow> ('a \<Rightarrow> 'w \<Rightarrow> bool) \<Rightarrow> ('e \<Rightarrow> 'w \<Rightarrow> bool) \<Rightarrow> bool" where
  "hoare P m Q E \<longleftrightarrow>
     (\<forall>w. P w \<longrightarrow> (case m w of (Inl e, w') \<Rightarrow> E e w' | (Inr x, w') \<Rightarrow> Q x w'))"

lemma hoareI:
  assumes "\<And>w x w'. P w \<Longrightarrow> m w = (Inr x, w') \<Longrightarrow> Q x w'"
    and "\<And>w e w'. P w \<Longrightarrow> m w = (Inl e, w') \<Longrightarrow> E e w'"
  shows "hoare P m Q E"
  using assms by (auto simp: hoare_def split: prod.splits sum.splits)

lemma hoareD_Inr: "hoare P m Q E \<Longrightarrow> P w \<Longrightarrow> m w = (Inr x, w') \<Longrightarrow> Q x w'"
  by (fastforce simp: hoare_def)

lemma hoareD_Inl: "hoare P m Q E \<Longrightarrow> P w \<Longrightarrow> m w = (Inl e, w') \<Longrightarrow> E e w'"
  by (fastforce simp: hoare_def)

lemma hoare_conseq:
  assumes "hoare P' m Q' E'" and "\<And>w. P w \<Longrightarrow> P' w"
    and "\<And>x w. Q' x w \<Longrightarrow> Q x w" and "\<And>e w. E' e w \<Longrightarrow> E e w"
  shows "hoare P m Q E"
  using assms by (fastforce simp: hoare_def split: prod.splits sum.splits)

lemma hoare_ret: "(\<And>w. P w \<Longrightarrow> Q x w) \<Longrightarrow> hoare P (ret x) Q E"
  by (simp add: hoare_def)

lemma hoare_raise: "(\<And>w. P w \<Longrightarrow> E e w) \<Longrightarrow> hoare P (raise e) Q E"
  by (simp add: hoare_def)

lemma hoare_bnd:
  assumes "hoare P m R E" and "\<And>x. hoare (R x) (f x) Q E"
  shows "hoare P (bnd m f) Q E"
  using assms by (fastforce simp: hoare_def bnd_def split: prod.splits sum.splits)

lemma hoare_thn:
  assumes "hoare P m (\<lambda>_. R) E" and "hoare R n Q E"
  shows "hoare P (thn m n) Q E"
  unfolding thn_def using assms by (rule hoare_bnd)

lemma hoare_catch:
  assumes "hoare P m Q R" and "\<And>e. hoare (R e) (h e) Q E"
  shows "hoare P (catch m h) Q E"
  using assms by (fastforce simp: hoare_def catch_def split: prod.splits sum.splits)

lemma hoare_if: "(b \<Longrightarrow> hoare P m Q E) \<Longrightarrow> (\<not> b \<Longrightarrow> hoare P n Q E) \<Longrightarrow> hoare P (if b then m else n) Q E"
  by simp

lemma hoare_case_option:
  "(x = None \<Longrightarrow> hoare P m Q E) \<Longrightarrow> (\<And>y. x = Some y \<Longrightarrow> hoare P (f y) Q E) \<Longrightarrow>
     hoare P (case x of None \<Rightarrow> m | Some y \<Rightarrow> f y) Q E"
  by (cases x) auto

lemma hoare_keeps: "keeps I m \<Longrightarrow> hoare I m (\<lambda>_. I) (\<lambda>_. I)"
  by (auto intro!: hoareI dest: keepsD)

section \<open>Lists\<close>

text \<open>Rows of a table updated in place: \<open>UPDATE t SET .. WHERE p\<close>.\<close>

definition update_where :: "('r \<Rightarrow> bool) \<Rightarrow> ('r \<Rightarrow> 'r) \<Rightarrow> 'r list \<Rightarrow> 'r list" where
  "update_where p f rs = map (\<lambda>r. if p r then f r else r) rs"

lemma update_where_simps [simp]:
  "update_where p f [] = []"
  "update_where p f (r # rs) = (if p r then f r else r) # update_where p f rs"
  "length (update_where p f rs) = length rs"
  by (simp_all add: update_where_def)

lemma update_where_append [simp]:
  "update_where p f (rs @ qs) = update_where p f rs @ update_where p f qs"
  by (simp add: update_where_def)

lemma update_where_none: "(\<And>r. r \<in> set rs \<Longrightarrow> \<not> p r) \<Longrightarrow> update_where p f rs = rs"
  by (simp add: update_where_def map_idI)

lemma set_update_where: "set (update_where p f rs) = (\<lambda>r. if p r then f r else r) ` set rs"
  by (simp add: update_where_def)

lemma map_update_where: "(\<And>r. g (f r) = g r) \<Longrightarrow> map g (update_where p f rs) = map g rs"
  by (induction rs) auto

text \<open>\<open>SELECT .. WHERE p LIMIT 1\<close>.\<close>

lemma find_Some_mem: "find p xs = Some x \<Longrightarrow> x \<in> set xs \<and> p x"
  by (induction xs) (auto split: if_splits)

lemma find_None: "find p xs = None \<longleftrightarrow> (\<forall>x \<in> set xs. \<not> p x)"
  by (induction xs) auto

lemma find_append: "find p (xs @ ys) = (case find p xs of None \<Rightarrow> find p ys | Some x \<Rightarrow> Some x)"
  by (induction xs) auto

lemma find_update_where:
  assumes "\<And>r. q (f r) = q r"
  shows "find q (update_where p f rs) = map_option (\<lambda>r. if p r then f r else r) (find q rs)"
  using assms by (induction rs) auto

lemma find_unique:
  assumes "distinct (map g xs)" and "x \<in> set xs"
  shows "find (\<lambda>y. g y = g x) xs = Some x"
  using assms by (induction xs) (auto simp: image_iff)

lemma sum_list_filter_split:
  "sum_list (map g (filter p xs)) =
     sum_list (map g (filter (\<lambda>x. p x \<and> q x) xs)) + sum_list (map g (filter (\<lambda>x. p x \<and> \<not> q x) xs))"
  for g :: "'a \<Rightarrow> int"
  by (induction xs) auto

lemma sum_list_filter_nonneg:
  "(\<And>x. x \<in> set xs \<Longrightarrow> p x \<Longrightarrow> 0 \<le> g x) \<Longrightarrow> 0 \<le> sum_list (map g (filter p xs))"
  for g :: "'a \<Rightarrow> int"
  by (intro sum_list_nonneg) auto

lemma member_le_sum_list_filter:
  fixes g :: "'a \<Rightarrow> int"
  assumes "x \<in> set xs" and "p x" and "\<And>y. y \<in> set xs \<Longrightarrow> p y \<Longrightarrow> 0 \<le> g y"
  shows "g x \<le> sum_list (map g (filter p xs))"
  using assms
proof (induction xs)
  case (Cons y ys)
  have nonneg: "0 \<le> sum_list (map g (filter p ys))"
    using Cons.prems(3) by (intro sum_list_filter_nonneg) auto
  show ?case
  proof (cases "x = y")
    case True
    with Cons.prems(2) nonneg show ?thesis by simp
  next
    case False
    with Cons have "g x \<le> sum_list (map g (filter p ys))" by auto
    with Cons.prems(3) show ?thesis by (auto simp: add_increasing)
  qed
qed simp

end
