(* ===== verification/Errors.thy ===== *)
theory Errors
  imports Prelude
begin

text \<open>
  The exceptions of \<^verbatim>\<open>shared/errors/exceptions.py\<close> and the Python built-ins the code raises or
  catches, as one datatype, and the HTTP boundary of \<^verbatim>\<open>shared/errors/exception_handlers.py\<close>:
  which handler Starlette dispatches an exception to and the status it answers.

  A message that only interpolates its arguments is represented by those arguments; a fixed
  message is kept as text, because two branches that raise the same class differ in it.
\<close>

section \<open>Exceptions\<close>

text \<open>
  What cancelled a task: the deadline of one step, the deadline over the whole drive (the
  \<open>asyncio.timeout\<close> blocks turn their own cancellation into \<open>TimeoutError\<close>), or somebody outside
  (client gone, shutdown).
\<close>

datatype canceller = StepDeadline | OverallDeadline | Outside

text \<open>
  The classes of python-keycloak's exceptions the code tells apart; all carry a \<open>response_code\<close> that may be
  absent.
\<close>

datatype keycloak_class = KeycloakGetError | KeycloakConnectionError | OtherKeycloakError

datatype (plugins only: code size) exn =
    InvalidCursorError string
  | InvalidQueryParamError string string
  | InvalidUploadError string
  | InvalidCartOperationError string int
  | InvalidPaymentMethodError string
  | PaymentIdempotencyConflictError
  | CheckoutIdempotencyConflictError
  | CartChangedError string
  | OrderStateConflictError string
  | UnknownPaymentRefError string
  | InvalidReservationError string int
  | AuthenticationError string
  | AuthorizationError string
  | RateLimitExceededError int
  | InsufficientStockError string int
  | StockBelowReservedError string int int
  | ReservationConflictError string int int
  | ReservationContendedError string
  | ConcurrentUpdateError string
  | PreconditionFailedError string
  | StockMutationError string
  | DependencyUnavailableError string
  | CircuitOpenError string
  | DependencyBudgetExhaustedError string
  | KeycloakEntityNotFoundError string
  | KeycloakConflictError string
  | KeycloakInvalidRequestError string
  | ProductNotFoundError
  | CartLineNotFoundError
  | ProductTombstonedError
  | IntegrityError string
  | KeycloakError keycloak_class "int option"
  | TimeoutError
  | ConnectionError
  | RuntimeError string
  | TypeError string
  | AttributeError string
  | ValueError string
  | KeyError string
  | AssertionError string
  | UnknownEventError string
  | ValidationError string
  | InvalidOperation string
  | CancelledError canceller
  | ProcessCrash

text \<open>
  \<open>except Exception\<close> catches everything but the cancellation of a task and the death of the
  process (the latter is no Python exception at all: nothing of the frame runs after it).
\<close>

definition is_Exception :: "exn \<Rightarrow> bool" where
  "is_Exception e = (case e of CancelledError _ \<Rightarrow> False | ProcessCrash \<Rightarrow> False | _ \<Rightarrow> True)"

definition is_DependencyUnavailable :: "exn \<Rightarrow> bool" where
  "is_DependencyUnavailable e =
     (case e of DependencyUnavailableError _ \<Rightarrow> True | CircuitOpenError _ \<Rightarrow> True
        | DependencyBudgetExhaustedError _ \<Rightarrow> True | _ \<Rightarrow> False)"

definition is_OrderStateConflict :: "exn \<Rightarrow> bool" where
  "is_OrderStateConflict e = (case e of OrderStateConflictError _ \<Rightarrow> True | _ \<Rightarrow> False)"

section \<open>The class names and their method resolution order\<close>

primrec class_name :: "exn \<Rightarrow> string" where
  "class_name (InvalidCursorError _) = ''InvalidCursorError''"
| "class_name (InvalidQueryParamError _ _) = ''InvalidQueryParamError''"
| "class_name (InvalidUploadError _) = ''InvalidUploadError''"
| "class_name (InvalidCartOperationError _ _) = ''InvalidCartOperationError''"
| "class_name (InvalidPaymentMethodError _) = ''InvalidPaymentMethodError''"
| "class_name PaymentIdempotencyConflictError = ''PaymentIdempotencyConflictError''"
| "class_name CheckoutIdempotencyConflictError = ''CheckoutIdempotencyConflictError''"
| "class_name (CartChangedError _) = ''CartChangedError''"
| "class_name (OrderStateConflictError _) = ''OrderStateConflictError''"
| "class_name (UnknownPaymentRefError _) = ''UnknownPaymentRefError''"
| "class_name (InvalidReservationError _ _) = ''InvalidReservationError''"
| "class_name (AuthenticationError _) = ''AuthenticationError''"
| "class_name (AuthorizationError _) = ''AuthorizationError''"
| "class_name (RateLimitExceededError _) = ''RateLimitExceededError''"
| "class_name (InsufficientStockError _ _) = ''InsufficientStockError''"
| "class_name (StockBelowReservedError _ _ _) = ''StockBelowReservedError''"
| "class_name (ReservationConflictError _ _ _) = ''ReservationConflictError''"
| "class_name (ReservationContendedError _) = ''ReservationContendedError''"
| "class_name (ConcurrentUpdateError _) = ''ConcurrentUpdateError''"
| "class_name (PreconditionFailedError _) = ''PreconditionFailedError''"
| "class_name (StockMutationError _) = ''StockMutationError''"
| "class_name (DependencyUnavailableError _) = ''DependencyUnavailableError''"
| "class_name (CircuitOpenError _) = ''CircuitOpenError''"
| "class_name (DependencyBudgetExhaustedError _) = ''DependencyBudgetExhaustedError''"
| "class_name (KeycloakEntityNotFoundError _) = ''KeycloakEntityNotFoundError''"
| "class_name (KeycloakConflictError _) = ''KeycloakConflictError''"
| "class_name (KeycloakInvalidRequestError _) = ''KeycloakInvalidRequestError''"
| "class_name ProductNotFoundError = ''ProductNotFoundError''"
| "class_name CartLineNotFoundError = ''CartLineNotFoundError''"
| "class_name ProductTombstonedError = ''ProductTombstonedError''"
| "class_name (IntegrityError _) = ''IntegrityError''"
| "class_name (KeycloakError k _) =
     (case k of KeycloakGetError \<Rightarrow> ''KeycloakGetError'' | KeycloakConnectionError \<Rightarrow> ''KeycloakConnectionError''
        | OtherKeycloakError \<Rightarrow> ''KeycloakError'')"
| "class_name TimeoutError = ''TimeoutError''"
| "class_name ConnectionError = ''ConnectionError''"
| "class_name (RuntimeError _) = ''RuntimeError''"
| "class_name (TypeError _) = ''TypeError''"
| "class_name (AttributeError _) = ''AttributeError''"
| "class_name (ValueError _) = ''ValueError''"
| "class_name (KeyError _) = ''KeyError''"
| "class_name (AssertionError _) = ''AssertionError''"
| "class_name (UnknownEventError _) = ''UnknownEventError''"
| "class_name (ValidationError _) = ''ValidationError''"
| "class_name (InvalidOperation _) = ''InvalidOperation''"
| "class_name (CancelledError _) = ''CancelledError''"
| "class_name ProcessCrash = ''ProcessCrash''"

text \<open>The base classes each exception class names, most derived first.\<close>

definition mro :: "exn \<Rightarrow> string list" where
  "mro e = class_name e #
     (case e of
        InvalidCursorError _ \<Rightarrow> [''ValueError'', ''Exception'']
      | InvalidQueryParamError _ _ \<Rightarrow> [''ValueError'', ''Exception'']
      | InvalidUploadError _ \<Rightarrow> [''ValueError'', ''Exception'']
      | InvalidCartOperationError _ _ \<Rightarrow> [''ValueError'', ''Exception'']
      | InvalidPaymentMethodError _ \<Rightarrow> [''ValueError'', ''Exception'']
      | InvalidReservationError _ _ \<Rightarrow> [''ValueError'', ''Exception'']
      | CircuitOpenError _ \<Rightarrow> [''DependencyUnavailableError'', ''Exception'']
      | DependencyBudgetExhaustedError _ \<Rightarrow> [''DependencyUnavailableError'', ''Exception'']
      | InvalidOperation _ \<Rightarrow> [''DecimalException'', ''ArithmeticError'', ''Exception'']
      | KeyError _ \<Rightarrow> [''LookupError'', ''Exception'']
      | UnknownEventError _ \<Rightarrow> [''LookupError'', ''Exception'']
      | ValidationError _ \<Rightarrow> [''ValueError'', ''Exception'']
      | KeycloakError _ _ \<Rightarrow> [''KeycloakError'', ''Exception'']
      | TimeoutError \<Rightarrow> [''OSError'', ''Exception'']
      | ConnectionError \<Rightarrow> [''OSError'', ''Exception'']
      | CancelledError _ \<Rightarrow> [''BaseException'']
      | ProcessCrash \<Rightarrow> []
      | _ \<Rightarrow> [''Exception''])"

section \<open>The HTTP boundary\<close>

text \<open>
  The registry \<open>register_exception_handlers\<close> builds: class, status and title of the Problem
  Details the registered handler answers. \<open>StarletteHTTPException\<close>, \<open>RequestValidationError\<close> and
  \<open>StaleDataError\<close> belong to the frameworks and are left out.
\<close>

definition registered_handlers :: "(string \<times> nat \<times> string) list" where
  "registered_handlers =
    [(''AuthenticationError'', 401, ''Unauthorized''),
     (''AuthorizationError'', 403, ''Forbidden''),
     (''RateLimitExceededError'', 429, ''Too Many Requests''),
     (''InvalidQueryParamError'', 400, ''Bad Request''),
     (''InvalidCursorError'', 400, ''Bad Request''),
     (''InvalidUploadError'', 400, ''Bad Request''),
     (''InvalidReservationError'', 400, ''Bad Request''),
     (''InvalidCartOperationError'', 400, ''Bad Request''),
     (''KeycloakInvalidRequestError'', 400, ''Bad Request''),
     (''InsufficientStockError'', 409, ''Conflict''),
     (''ReservationConflictError'', 409, ''Reservation Conflict''),
     (''ReservationContendedError'', 409, ''Reservation Contention''),
     (''StockBelowReservedError'', 409, ''Conflict''),
     (''PaymentIdempotencyConflictError'', 409, ''Idempotency Conflict''),
     (''CheckoutIdempotencyConflictError'', 409, ''Idempotency Conflict''),
     (''CartChangedError'', 409, ''Cart Changed''),
     (''OrderStateConflictError'', 409, ''Conflict''),
     (''UnknownPaymentRefError'', 404, ''Not Found''),
     (''ConcurrentUpdateError'', 409, ''Conflict''),
     (''PreconditionFailedError'', 412, ''Precondition Failed''),
     (''DependencyUnavailableError'', 503, ''Service Unavailable''),
     (''KeycloakEntityNotFoundError'', 404, ''Not Found''),
     (''ProductNotFoundError'', 404, ''Not Found''),
     (''CartLineNotFoundError'', 404, ''Not Found''),
     (''KeycloakConflictError'', 409, ''Conflict''),
     (''Exception'', 500, ''Internal Server Error'')]"

text \<open>Starlette's lookup: the first class of the MRO with a registered handler.\<close>

fun lookup_handler :: "string list \<Rightarrow> (nat \<times> string) option" where
  "lookup_handler [] = None"
| "lookup_handler (c # cs) =
     (case map_of registered_handlers c of Some h \<Rightarrow> Some h | None \<Rightarrow> lookup_handler cs)"

definition http_status :: "exn \<Rightarrow> nat option" where
  "http_status e = map_option fst (lookup_handler (mro e))"

text \<open>
  What the docstring of each exception class promises (\<open>-> 400\<close> and so on); the three classes the
  docstrings give no client status are not part of it.
\<close>

definition documented_status :: "exn \<Rightarrow> nat option" where
  "documented_status e =
     (case e of
        InvalidCursorError _ \<Rightarrow> Some 400
      | InvalidQueryParamError _ _ \<Rightarrow> Some 400
      | InvalidUploadError _ \<Rightarrow> Some 400
      | InvalidCartOperationError _ _ \<Rightarrow> Some 400
      | InvalidPaymentMethodError _ \<Rightarrow> Some 400
      | PaymentIdempotencyConflictError \<Rightarrow> Some 409
      | CheckoutIdempotencyConflictError \<Rightarrow> Some 409
      | CartChangedError _ \<Rightarrow> Some 409
      | OrderStateConflictError _ \<Rightarrow> Some 409
      | UnknownPaymentRefError _ \<Rightarrow> Some 404
      | InvalidReservationError _ _ \<Rightarrow> Some 400
      | AuthenticationError _ \<Rightarrow> Some 401
      | AuthorizationError _ \<Rightarrow> Some 403
      | RateLimitExceededError _ \<Rightarrow> Some 429
      | InsufficientStockError _ _ \<Rightarrow> Some 409
      | StockBelowReservedError _ _ _ \<Rightarrow> Some 409
      | ReservationConflictError _ _ _ \<Rightarrow> Some 409
      | ReservationContendedError _ \<Rightarrow> Some 409
      | ConcurrentUpdateError _ \<Rightarrow> Some 409
      | PreconditionFailedError _ \<Rightarrow> Some 412
      | StockMutationError _ \<Rightarrow> Some 500
      | DependencyUnavailableError _ \<Rightarrow> Some 503
      | CircuitOpenError _ \<Rightarrow> Some 503
      | DependencyBudgetExhaustedError _ \<Rightarrow> Some 503
      | KeycloakEntityNotFoundError _ \<Rightarrow> Some 404
      | KeycloakConflictError _ \<Rightarrow> Some 409
      | KeycloakInvalidRequestError _ \<Rightarrow> Some 400
      | ProductNotFoundError \<Rightarrow> Some 404
      | CartLineNotFoundError \<Rightarrow> Some 404
      | _ \<Rightarrow> None)"

lemma http_status_InvalidPaymentMethodError: "http_status (InvalidPaymentMethodError d) = Some 500"
  by (simp add: http_status_def mro_def registered_handlers_def)

lemma http_status_of_documented:
  "documented_status e = Some c \<Longrightarrow> (\<forall>d. e \<noteq> InvalidPaymentMethodError d) \<Longrightarrow> http_status e = Some c"
  by (cases e) (simp_all add: http_status_def documented_status_def mro_def registered_handlers_def)

lemma is_Exception_simps [simp]:
  "is_Exception (OrderStateConflictError d)"
  "is_Exception TimeoutError"
  "is_Exception (AttributeError a)"
  "is_Exception (RuntimeError d)"
  "\<not> is_Exception (CancelledError c)"
  "\<not> is_Exception ProcessCrash"
  by (simp_all add: is_Exception_def)

section \<open>Failing calls\<close>

text \<open>
  A call to a store is answered, is lost before it had an effect, or has its effect while the answer is
  lost (a timeout, a cancelled task, a dropped connection, the death of the process).
\<close>

datatype fault = Fine | Lost exn | Landed exn

end
