(* ===== verification/Schema.thy ===== *)
theory Schema
  imports Errors
begin

text \<open>
  The data of the backend: identifiers and decimals, the domain enums and entities
  (\<^verbatim>\<open>inventory/domain\<close>, \<^verbatim>\<open>orders/domain\<close>, \<^verbatim>\<open>payments/domain\<close>), the events of the transactional
  outbox and the tables of the \<open>inventory\<close>, \<open>orders\<close> and \<open>payments\<close> schemas
  (\<^verbatim>\<open>*/adapters/db/models.py\<close>), gathered in one \<open>database\<close> record: the modules own a schema each but
  share one Postgres database, and one session's transaction spans all of them.

  Timestamps are integers (microseconds). \<open>clock\<close> is what \<open>now()\<close> answers. \<open>next_uuid\<close> supplies
  \<open>uuid.uuid4()\<close>: every draw is a value no row carries yet. Column widths (\<open>Integer\<close>, \<open>String(64)\<close>,
  \<open>Numeric(12, 2)\<close>) are not modelled.
\<close>

section \<open>Identifiers and decimals\<close>

type_synonym uuid = nat
type_synonym sku = string
type_synonym timestamp = int
type_synonym decimal = rat

text \<open>\<open>timedelta(seconds=n)\<close> in the unit of the clock.\<close>

definition seconds :: "int \<Rightarrow> int" where
  "seconds n = n * 1000000"

definition hex_digit :: "nat \<Rightarrow> char" where
  "hex_digit d = (if d < 10 then char_of (48 + d) else char_of (87 + d))"

definition hex_value :: "char \<Rightarrow> nat" where
  "hex_value c = (if of_char c < (58::nat) then of_char c - 48 else of_char c - 87)"

fun hex :: "nat \<Rightarrow> string" where
  "hex n = (if n < 16 then [hex_digit n] else hex (n div 16) @ [hex_digit (n mod 16)])"

declare hex.simps [simp del]

text \<open>\<open>str(uuid.UUID)\<close>: 32 lower-case hex digits in groups of 8, 4, 4, 4 and 12.\<close>

definition str_uuid :: "uuid \<Rightarrow> string" where
  "str_uuid u =
     (let h = hex u; p = replicate (32 - length h) (CHR ''0'') @ h in
      take 8 p @ ''-'' @ take 4 (drop 8 p) @ ''-'' @ take 4 (drop 12 p) @ ''-'' @
      take 4 (drop 16 p) @ ''-'' @ drop 20 p)"

text \<open>\<open>uuid.UUID(s).int\<close> on a canonical text.\<close>

definition uuid_of_str :: "string \<Rightarrow> uuid" where
  "uuid_of_str s = foldl (\<lambda>a c. 16 * a + hex_value c) 0 (filter (\<lambda>c. c \<noteq> CHR ''-'') s)"

lemma hex_value_digit: "d < 16 \<Longrightarrow> hex_value (hex_digit d) = d"
  by (auto simp: hex_value_def hex_digit_def)

lemma hex_digit_no_dash: "d < 16 \<Longrightarrow> hex_digit d \<noteq> CHR ''-''"
proof
  assume "d < 16" and "hex_digit d = CHR ''-''"
  then have "(of_char (hex_digit d) :: nat) = 45" by simp
  with \<open>d < 16\<close> show False by (auto simp: hex_digit_def split: if_splits)
qed

lemma hex_no_dash: "CHR ''-'' \<notin> set (hex n)"
  by (induction n rule: hex.induct)
    (subst hex.simps, auto dest: sym simp: hex_digit_no_dash)

lemma foldl_hex: "foldl (\<lambda>a c. 16 * a + hex_value c) 0 (hex n) = n"
proof (induction n rule: hex.induct)
  case (1 n)
  show ?case
  proof (cases "n < 16")
    case True
    then show ?thesis by (subst hex.simps) (simp add: hex_value_digit)
  next
    case False
    with 1 have "foldl (\<lambda>a c. 16 * a + hex_value c) 0 (hex (n div 16)) = n div 16" by simp
    with False show ?thesis by (subst hex.simps) (simp add: hex_value_digit)
  qed
qed

lemma foldl_zeros: "foldl (\<lambda>a c. 16 * a + hex_value c) 0 (replicate k (CHR ''0'')) = 0"
  by (induction k) (auto simp: hex_value_def)

lemma take_take_drop_pieces: "take 8 p @ take 4 (drop 8 p) @ take 4 (drop 12 p) @
    take 4 (drop 16 p) @ drop 20 p = p"
proof -
  have "take 4 (drop 16 p) @ drop 20 p = drop 16 p"
    using append_take_drop_id [of 4 "drop 16 p"] by simp
  moreover have "take 4 (drop 12 p) @ drop 16 p = drop 12 p"
    using append_take_drop_id [of 4 "drop 12 p"] by simp
  moreover have "take 4 (drop 8 p) @ drop 12 p = drop 8 p"
    using append_take_drop_id [of 4 "drop 8 p"] by simp
  ultimately show ?thesis by simp
qed

lemma uuid_of_str_uuid [simp]: "uuid_of_str (str_uuid u) = u"
proof -
  define p where "p = replicate (32 - length (hex u)) (CHR ''0'') @ hex u"
  have str: "str_uuid u = take 8 p @ ''-'' @ take 4 (drop 8 p) @ ''-'' @ take 4 (drop 12 p) @ ''-'' @
      take 4 (drop 16 p) @ ''-'' @ drop 20 p"
    by (simp only: str_uuid_def Let_def p_def)
  have nodash: "CHR ''-'' \<notin> set p"
    using hex_no_dash by (auto simp: p_def)
  then have keep: "filter (\<lambda>c. c \<noteq> CHR ''-'') (take k (drop j p)) = take k (drop j p)"
    and keep': "filter (\<lambda>c. c \<noteq> CHR ''-'') (drop j p) = drop j p" for j k
    by (auto simp: filter_id_conv dest: in_set_takeD in_set_dropD)
  have "filter (\<lambda>c. c \<noteq> CHR ''-'') (str_uuid u) = p"
    using keep [of 8 0] keep take_take_drop_pieces [of p]
    by (simp add: str keep')
  then show ?thesis
    by (simp add: uuid_of_str_def p_def foldl_zeros foldl_hex)
qed

lemma inj_str_uuid: "inj str_uuid"
  by (metis injI uuid_of_str_uuid)

lemma str_uuid_eq_iff [simp]: "str_uuid u = str_uuid v \<longleftrightarrow> u = v"
  by (metis uuid_of_str_uuid)

text \<open>\<open>s.lower()\<close>, on ASCII letters.\<close>

definition lower :: "string \<Rightarrow> string" where
  "lower s = map (\<lambda>c. if 65 \<le> (of_char c :: nat) \<and> of_char c \<le> (90 :: nat) then char_of (of_char c + (32 :: nat)) else c) s"

text \<open>\<open>Decimal(text)\<close> on the plain notation \<open>Numeric\<close> columns print (\<open>12\<close>, \<open>12.50\<close>, \<open>-3.1\<close>).\<close>

definition is_digit :: "char \<Rightarrow> bool" where
  "is_digit c \<longleftrightarrow> 48 \<le> (of_char c :: nat) \<and> of_char c \<le> (57 :: nat)"

definition digits_value :: "string \<Rightarrow> int" where
  "digits_value ds = foldl (\<lambda>a c. 10 * a + (of_char c - 48)) 0 ds"

definition parse_decimal :: "string \<Rightarrow> decimal option" where
  "parse_decimal s =
     (let neg = (s \<noteq> [] \<and> hd s = CHR ''-''); t = (if neg then tl s else s);
          whole = takeWhile is_digit t; rest = dropWhile is_digit t;
          frac = (if rest \<noteq> [] \<and> hd rest = CHR ''.'' then tl rest else []) in
      if (rest \<noteq> [] \<and> hd rest \<noteq> CHR ''.'') \<or> \<not> list_all is_digit frac \<or> whole @ frac = [] then None
      else Some ((if neg then -1 else 1) *
             (of_int (digits_value (whole @ frac)) / of_int (10 ^ length frac))))"

section \<open>Domain enums and entities\<close>

datatype reservation_status = HELD | RELEASED | COMMITTED

datatype order_status = PENDING | PAID | SHIPPED | CANCELLED

datatype payment_status = PAY_PENDING | SUCCEEDED | FAILED | REFUNDED

record inventory_row =
  on_hand :: int
  reserved :: int
  version :: int

record reservation =
  res_id :: uuid
  res_sku :: sku
  res_qty :: int
  res_order :: uuid
  res_status :: reservation_status
  res_expires :: timestamp

record order_item =
  item_id :: uuid
  item_product :: uuid
  item_name :: string
  item_price :: decimal
  item_qty :: int

record order =
  order_id :: uuid
  order_user :: uuid
  order_state :: order_status
  order_total :: decimal
  order_items :: "order_item list"
  order_created :: timestamp
  order_updated :: timestamp
  order_key :: string
  order_body_hash :: string
  order_email :: string

record saga_step =
  log_order :: uuid
  log_step :: string
  log_status :: string
  log_created :: timestamp
  log_updated :: timestamp

record payment =
  pay_id :: uuid
  pay_order :: uuid
  pay_key :: string
  pay_status :: payment_status
  pay_amount :: decimal
  pay_ref :: "string option"
  pay_reason :: "string option"
  pay_created :: timestamp

section \<open>Events and outboxes\<close>

datatype event =
    StockReserved sku uuid int
  | StockReleased sku uuid int
  | OrderPlaced uuid uuid decimal "string option" "(uuid \<times> string \<times> int \<times> decimal) list"
  | PaymentSucceeded uuid uuid decimal "string option"
  | PaymentFailed uuid uuid decimal string
  | PaymentRefunded uuid uuid decimal "string option"

primrec event_type :: "event \<Rightarrow> string" where
  "event_type (StockReserved _ _ _) = ''StockReserved''"
| "event_type (StockReleased _ _ _) = ''StockReleased''"
| "event_type (OrderPlaced _ _ _ _ _) = ''OrderPlaced''"
| "event_type (PaymentSucceeded _ _ _ _) = ''PaymentSucceeded''"
| "event_type (PaymentFailed _ _ _ _) = ''PaymentFailed''"
| "event_type (PaymentRefunded _ _ _ _) = ''PaymentRefunded''"

record outbox_row =
  out_id :: uuid
  out_event :: event
  out_occurred :: timestamp
  out_published :: "timestamp option"

section \<open>The database\<close>

record database =
  stock :: "sku \<Rightarrow> inventory_row option"
  reservations :: "reservation list"
  inv_outbox :: "outbox_row list"
  orders :: "order list"
  saga_log :: "saga_step list"
  ord_outbox :: "outbox_row list"
  payments :: "payment list"
  pay_outbox :: "outbox_row list"
  next_uuid :: uuid
  clock :: timestamp

type_synonym 'a txn = "(exn, database, 'a) prog"

definition empty_database :: database where
  "empty_database = \<lparr>stock = (\<lambda>_. None), reservations = [], inv_outbox = [], orders = [],
     saga_log = [], ord_outbox = [], payments = [], pay_outbox = [], next_uuid = 0, clock = 0\<rparr>"

text \<open>\<open>uuid.uuid4()\<close>.\<close>

definition fresh_uuid :: "uuid txn" where
  "fresh_uuid = (\<lambda>d. (Inr (next_uuid d), d\<lparr>next_uuid := Suc (next_uuid d)\<rparr>))"

lemma fresh_uuid_run [simp, prog_simps]:
  "fresh_uuid d = (Inr (next_uuid d), d\<lparr>next_uuid := Suc (next_uuid d)\<rparr>)"
  by (simp add: fresh_uuid_def)

lemmas schema_splits = prod.splits sum.splits option.splits if_splits

end
