(* ===== verification/Inventory_Repository.thy ===== *)
theory Inventory_Repository
  imports Schema
begin

text \<open>
  \<^verbatim>\<open>inventory/adapters/db/repository.py\<close>: the SQL statements of the module with their guards and
  row counts, and the repository methods composed of them. A method is a \<open>txn\<close>: it runs inside the
  unit of work its service opened, and only flushes.

  Isolation. A method runs as one step of the database. Its claims take row locks and every write is
  a guarded single statement, so a transaction that commits concurrently is seen either before or
  after it. \<open>FOR UPDATE SKIP LOCKED\<close> therefore has nothing to skip here.
\<close>

section \<open>The statements\<close>

type_synonym sql = "database \<Rightarrow> nat \<times> database"

definition set_stock :: "sku \<Rightarrow> inventory_row \<Rightarrow> database \<Rightarrow> database" where
  "set_stock s row d = d\<lparr>stock := (stock d)(s := Some row)\<rparr>"

definition decrement_sql :: "sku \<Rightarrow> int \<Rightarrow> sql" where
  "decrement_sql s q d =
     (case stock d s of
        None \<Rightarrow> (0, d)
      | Some row \<Rightarrow>
          if on_hand row - reserved row \<ge> q
          then (1, set_stock s (row\<lparr>reserved := reserved row + q, version := version row + 1\<rparr>) d)
          else (0, d))"

definition unreserve_sql :: "sku \<Rightarrow> int \<Rightarrow> sql" where
  "unreserve_sql s q d =
     (case stock d s of
        None \<Rightarrow> (0, d)
      | Some row \<Rightarrow>
          if reserved row \<ge> q
          then (1, set_stock s (row\<lparr>reserved := reserved row - q, version := version row + 1\<rparr>) d)
          else (0, d))"

definition consume_sql :: "sku \<Rightarrow> int \<Rightarrow> sql" where
  "consume_sql s q d =
     (case stock d s of
        None \<Rightarrow> (0, d)
      | Some row \<Rightarrow>
          if reserved row \<ge> q \<and> on_hand row \<ge> q
          then (1, set_stock s (row\<lparr>on_hand := on_hand row - q, reserved := reserved row - q,
                   version := version row + 1\<rparr>) d)
          else (0, d))"

definition restock_sql :: "sku \<Rightarrow> int \<Rightarrow> sql" where
  "restock_sql s q d =
     (case stock d s of
        None \<Rightarrow> (0, d)
      | Some row \<Rightarrow> (1, set_stock s (row\<lparr>on_hand := on_hand row + q, version := version row + 1\<rparr>) d))"

text \<open>
  The upsert. The insert path trips \<open>ck_inventory_on_hand_non_negative\<close> on a negative level; the
  conflict path keeps \<open>reserved\<close> and bumps \<open>version\<close> only when \<open>on_hand\<close> really changes.
\<close>

definition upsert_sql :: "sku \<Rightarrow> int \<Rightarrow> inventory_row option txn" where
  "upsert_sql s n = (\<lambda>d.
     if n < 0 then (Inl (IntegrityError ''23514''), d)
     else case stock d s of
       None \<Rightarrow>
         let row = \<lparr>on_hand = n, reserved = 0, version = 1\<rparr> in (Inr (Some row), set_stock s row d)
     | Some row \<Rightarrow>
         if reserved row \<le> n
         then let row' = row\<lparr>on_hand := n,
                version := (if on_hand row \<noteq> n then version row + 1 else version row)\<rparr>
              in (Inr (Some row'), set_stock s row' d)
         else (Inr None, d))"

definition mark_status :: "uuid list \<Rightarrow> reservation_status \<Rightarrow> database \<Rightarrow> database" where
  "mark_status ids st d =
     d\<lparr>reservations := update_where (\<lambda>r. res_id r \<in> set ids) (\<lambda>r. r\<lparr>res_status := st\<rparr>) (reservations d)\<rparr>"

definition is_active :: "reservation \<Rightarrow> bool" where
  "is_active r \<longleftrightarrow> res_status r = HELD \<or> res_status r = COMMITTED"

text \<open>
  \<open>INSERT INTO reservations\<close>: Postgres evaluates the CHECK on the new row first, then the partial
  unique index over the active statuses, then the foreign key to the stock row.
\<close>

definition insert_reservation :: "sku \<Rightarrow> int \<Rightarrow> uuid \<Rightarrow> timestamp \<Rightarrow> reservation txn" where
  "insert_reservation s q oid expires = (\<lambda>d.
     if q \<le> 0 then (Inl (IntegrityError ''23514''), d)
     else if \<exists>r \<in> set (reservations d). is_active r \<and> res_order r = oid \<and> res_sku r = s
       then (Inl (IntegrityError ''23505''), d)
     else if stock d s = None then (Inl (IntegrityError ''23503''), d)
     else let r = \<lparr>res_id = next_uuid d, res_sku = s, res_qty = q, res_order = oid,
                   res_status = HELD, res_expires = expires\<rparr>
          in (Inr r, d\<lparr>reservations := reservations d @ [r], next_uuid := Suc (next_uuid d)\<rparr>))"

definition add_inv_outbox :: "event \<Rightarrow> unit txn" where
  "add_inv_outbox e = modify (\<lambda>d.
     d\<lparr>inv_outbox := inv_outbox d @ [\<lparr>out_id = next_uuid d, out_event = e, out_occurred = clock d,
        out_published = None\<rparr>], next_uuid := Suc (next_uuid d)\<rparr>)"

text \<open>\<open>_require_one\<close>: a guarded mutation that must hit exactly one row, or fail loudly.\<close>

definition require_one :: "sql \<Rightarrow> string \<Rightarrow> unit txn" where
  "require_one sql what = (\<lambda>d. let (n, d') = sql d in
     if n \<noteq> 1 then (Inl (StockMutationError what), d') else (Inr (), d'))"

section \<open>Reads\<close>

definition get_by_sku :: "sku \<Rightarrow> inventory_row option txn" where
  "get_by_sku s = gets (\<lambda>d. stock d s)"

definition get_many_by_skus :: "sku list \<Rightarrow> (sku \<Rightarrow> inventory_row option) txn" where
  "get_many_by_skus skus =
     (if skus = [] then ret (\<lambda>_. None) else gets (\<lambda>d s. if s \<in> set skus then stock d s else None))"

definition repo_upsert_stock :: "sku \<Rightarrow> int \<Rightarrow> inventory_row option txn" where
  "repo_upsert_stock s n = upsert_sql s n"

definition try_reserve_decrement :: "sku \<Rightarrow> int \<Rightarrow> nat txn" where
  "try_reserve_decrement s q = (\<lambda>d. let (n, d') = decrement_sql s q d in (Inr n, d'))"

text \<open>\<open>_active_map\<close>: this order's reservations that still own stock, by SKU.\<close>

definition active_map :: "uuid \<Rightarrow> sku list \<Rightarrow> database \<Rightarrow> sku \<Rightarrow> reservation option" where
  "active_map oid skus d s =
     find (\<lambda>r. res_order r = oid \<and> res_sku r = s \<and> s \<in> set skus \<and> is_active r) (reservations d)"

section \<open>Reserving\<close>

text \<open>
  How one attempt can stop: the private exceptions \<open>_AttemptRejection\<close>, \<open>_AttemptConflict\<close> and
  \<open>_AttemptRaced\<close>, the returned \<open>StockRejection\<close> of a SKU without a stock row, and exceptions that
  are not the attempt's to interpret.
\<close>

datatype attempt_stop =
    AttemptRejection sku int
  | AttemptNoStockRow sku int
  | AttemptConflict sku int int
  | AttemptRaced sku
  | AttemptRaises exn

definition insert_line :: "sku \<Rightarrow> int \<Rightarrow> uuid \<Rightarrow> timestamp \<Rightarrow> (attempt_stop, database, reservation) prog" where
  "insert_line s q oid expires = (\<lambda>d.
     case insert_reservation s q oid expires d of
       (Inr r, d') \<Rightarrow> (Inr r, d')
     | (Inl e, d') \<Rightarrow>
         (Inl (if e = IntegrityError ''23503'' then AttemptNoStockRow s q
               else if e = IntegrityError ''23514'' then AttemptRaises (InvalidReservationError s q)
               else if e \<noteq> IntegrityError ''23505'' then AttemptRaises e
               else AttemptRaced s), d'))"

definition decrement_line :: "sku \<Rightarrow> int \<Rightarrow> (attempt_stop, database, unit) prog" where
  "decrement_line s q = (\<lambda>d. let (n, d') = decrement_sql s q d in
     if n = 0 then (Inl (AttemptRejection s q), d') else (Inr (), d'))"

definition announce_line :: "event \<Rightarrow> (attempt_stop, database, unit) prog" where
  "announce_line e = (\<lambda>d. (Inr (), snd (add_inv_outbox e d)))"

fun place_lines ::
  "(sku \<Rightarrow> reservation option) \<Rightarrow> uuid \<Rightarrow> timestamp \<Rightarrow> (sku \<Rightarrow> uuid \<Rightarrow> int \<Rightarrow> event) \<Rightarrow>
   (sku \<times> int) list \<Rightarrow> reservation list \<Rightarrow> (attempt_stop, database, reservation list) prog" where
  "place_lines existing oid expires factory [] placed = ret placed"
| "place_lines existing oid expires factory ((s, q) # lines) placed =
     (case existing s of
        Some current \<Rightarrow>
          if res_qty current \<noteq> q then raise (AttemptConflict s (res_qty current) q)
          else place_lines existing oid expires factory lines (placed @ [current])
      | None \<Rightarrow>
          bnd (insert_line s q oid expires) (\<lambda>r.
          thn (decrement_line s q)
         (thn (announce_line (factory s oid q))
              (place_lines existing oid expires factory lines (placed @ [r])))))"

text \<open>
  \<open>_reserve_attempt\<close>: the whole attempt sits in a savepoint. Every stop unwinds it, the returned
  \<open>StockRejection\<close> too: the failed flush has already rolled the savepoint back.
\<close>

definition reserve_attempt ::
  "(sku \<times> int) list \<Rightarrow> sku list \<Rightarrow> uuid \<Rightarrow> timestamp \<Rightarrow> (sku \<Rightarrow> uuid \<Rightarrow> int \<Rightarrow> event) \<Rightarrow> nat \<Rightarrow>
   (attempt_stop, database, reservation list) prog" where
  "reserve_attempt ordered skus oid expires factory attempt = (\<lambda>d.
     let existing = (if attempt > 0 then active_map oid skus d else (\<lambda>_. None))
     in atomic (place_lines existing oid expires factory ordered []) d)"

text \<open>\<open>StockRejection\<close>: an answer of \<open>reserve_many\<close>, not an exception.\<close>

record stock_rejection =
  rej_sku :: sku
  rej_qty :: int

type_synonym reserve_answer = "stock_rejection + reservation list"

fun reserve_loop ::
  "nat \<Rightarrow> nat \<Rightarrow> sku \<Rightarrow> (sku \<times> int) list \<Rightarrow> sku list \<Rightarrow> uuid \<Rightarrow> timestamp \<Rightarrow>
   (sku \<Rightarrow> uuid \<Rightarrow> int \<Rightarrow> event) \<Rightarrow> reserve_answer txn" where
  "reserve_loop 0 attempt raced ordered skus oid expires factory = raise (ReservationContendedError raced)"
| "reserve_loop (Suc left) attempt raced ordered skus oid expires factory = (\<lambda>d.
     case reserve_attempt ordered skus oid expires factory attempt d of
       (Inr rows, d') \<Rightarrow> (Inr (Inr rows), d')
     | (Inl (AttemptRaced s), d') \<Rightarrow> reserve_loop left (Suc attempt) s ordered skus oid expires factory d'
     | (Inl (AttemptRejection s q), d') \<Rightarrow> (Inr (Inl \<lparr>rej_sku = s, rej_qty = q\<rparr>), d')
     | (Inl (AttemptNoStockRow s q), d') \<Rightarrow> (Inr (Inl \<lparr>rej_sku = s, rej_qty = q\<rparr>), d')
     | (Inl (AttemptConflict s held q), d') \<Rightarrow> (Inl (ReservationConflictError s held q), d')
     | (Inl (AttemptRaises e), d') \<Rightarrow> (Inl e, d'))"

definition repo_reserve_many ::
  "(sku \<times> int) list \<Rightarrow> uuid \<Rightarrow> timestamp \<Rightarrow> (sku \<Rightarrow> uuid \<Rightarrow> int \<Rightarrow> event) \<Rightarrow> reserve_answer txn" where
  "repo_reserve_many lines oid expires factory =
     (if lines = [] then ret (Inr [])
      else let ordered = sort_key fst lines; skus = map fst ordered
           in reserve_loop 2 0 (hd skus) ordered skus oid expires factory)"

definition repo_reserve ::
  "sku \<Rightarrow> int \<Rightarrow> uuid \<Rightarrow> timestamp \<Rightarrow> event \<Rightarrow> reservation option txn" where
  "repo_reserve s q oid expires outbox =
     bnd (repo_reserve_many [(s, q)] oid expires (\<lambda>_ _ _. outbox)) (\<lambda>answer.
       case answer of Inl _ \<Rightarrow> ret None | Inr rows \<Rightarrow> ret (Some (hd rows)))"

section \<open>Releasing, committing, restocking\<close>

definition release_one :: "(sku \<Rightarrow> uuid \<Rightarrow> int \<Rightarrow> event) \<Rightarrow> string \<Rightarrow> reservation \<Rightarrow> unit txn" where
  "release_one factory what r =
     thn (require_one (unreserve_sql (res_sku r) (res_qty r)) what)
         (add_inv_outbox (factory (res_sku r) (res_order r) (res_qty r)))"

definition repo_release :: "uuid \<Rightarrow> (sku \<Rightarrow> uuid \<Rightarrow> int \<Rightarrow> event) \<Rightarrow> bool txn" where
  "repo_release rid factory =
     bnd (gets (\<lambda>d. find (\<lambda>r. res_id r = rid \<and> res_status r = HELD) (reservations d))) (\<lambda>row.
       case row of
         None \<Rightarrow> ret False
       | Some r \<Rightarrow>
           thn (modify (mark_status [res_id r] RELEASED))
          (thn (release_one factory ''release unreserve'' r)
               (ret True)))"

definition repo_commit_reservation :: "uuid \<Rightarrow> bool txn" where
  "repo_commit_reservation rid =
     bnd (gets (\<lambda>d. find (\<lambda>r. res_id r = rid \<and> res_status r = HELD) (reservations d))) (\<lambda>row.
       case row of
         None \<Rightarrow> ret False
       | Some r \<Rightarrow>
           thn (modify (mark_status [res_id r] COMMITTED))
          (thn (require_one (consume_sql (res_sku r) (res_qty r)) ''commit consume'')
               (ret True)))"

text \<open>The body \<open>release_expired\<close> and \<open>release_for_order\<close> share once the rows are claimed.\<close>

definition release_rows ::
  "(sku \<Rightarrow> uuid \<Rightarrow> int \<Rightarrow> event) \<Rightarrow> string \<Rightarrow> reservation list \<Rightarrow> nat txn" where
  "release_rows factory what rows =
     (if rows = [] then ret 0
      else thn (for_each rows (release_one factory what))
          (thn (modify (mark_status (map res_id rows) RELEASED))
               (ret (length rows))))"

definition expired_holds :: "nat \<Rightarrow> database \<Rightarrow> reservation list" where
  "expired_holds batch d =
     take batch (sort_key res_expires
       (filter (\<lambda>r. res_status r = HELD \<and> res_expires r \<le> clock d) (reservations d)))"

definition repo_release_expired :: "nat \<Rightarrow> (sku \<Rightarrow> uuid \<Rightarrow> int \<Rightarrow> event) \<Rightarrow> nat txn" where
  "repo_release_expired batch factory =
     bnd (gets (expired_holds batch)) (release_rows factory ''reaper unreserve'')"

definition order_rows :: "reservation_status \<Rightarrow> uuid \<Rightarrow> database \<Rightarrow> reservation list" where
  "order_rows st oid d = filter (\<lambda>r. res_order r = oid \<and> res_status r = st) (reservations d)"

definition repo_release_for_order :: "uuid \<Rightarrow> (sku \<Rightarrow> uuid \<Rightarrow> int \<Rightarrow> event) \<Rightarrow> nat txn" where
  "repo_release_for_order oid factory =
     bnd (gets (order_rows HELD oid)) (release_rows factory ''order release unreserve'')"

definition restock_one :: "(sku \<Rightarrow> uuid \<Rightarrow> int \<Rightarrow> event) \<Rightarrow> reservation \<Rightarrow> unit txn" where
  "restock_one factory r =
     thn (require_one (restock_sql (res_sku r) (res_qty r)) ''order restock'')
         (add_inv_outbox (factory (res_sku r) (res_order r) (res_qty r)))"

definition repo_restock_for_order :: "uuid \<Rightarrow> (sku \<Rightarrow> uuid \<Rightarrow> int \<Rightarrow> event) \<Rightarrow> nat txn" where
  "repo_restock_for_order oid factory =
     bnd (gets (order_rows COMMITTED oid)) (\<lambda>rows.
       if rows = [] then ret 0
       else thn (for_each rows (restock_one factory))
           (thn (modify (mark_status (map res_id rows) RELEASED))
                (ret (length rows))))"

definition repo_commit_for_order :: "uuid \<Rightarrow> nat \<Rightarrow> nat txn" where
  "repo_commit_for_order oid expected =
     bnd (gets (order_rows HELD oid)) (\<lambda>rows.
     bnd (gets (\<lambda>d. length (order_rows COMMITTED oid d))) (\<lambda>already_committed.
       if rows = [] then ret already_committed
       else if already_committed + length rows < expected then ret already_committed
       else thn (for_each rows (\<lambda>r.
                   require_one (consume_sql (res_sku r) (res_qty r)) ''order commit consume''))
           (thn (modify (mark_status (map res_id rows) COMMITTED))
                (ret (already_committed + length rows)))))"

end
