(* ===== verification/Stock_Invariant.thy ===== *)
theory Stock_Invariant
  imports Inventory_Repository
begin

text \<open>
  The invariant of the \<open>inventory\<close> schema and its preservation by every repository method:
  \<open>reserved\<close> is exactly what the \<open>held\<close> rows add up to and never exceeds \<open>on_hand\<close>, so a guarded
  statement that refuses means insufficient stock and never a broken counter. The loops of the
  batch methods are given in closed form first (\<open>give_back\<close>, \<open>consume\<close>, \<open>put_back\<close>).
\<close>

section \<open>The invariant\<close>

definition weigh :: "(reservation \<Rightarrow> int) \<Rightarrow> (reservation \<Rightarrow> bool) \<Rightarrow> reservation list \<Rightarrow> int" where
  "weigh g p rs = sum_list (map g (filter p rs))"

abbreviation qty_of :: "(reservation \<Rightarrow> bool) \<Rightarrow> reservation list \<Rightarrow> int" where
  "qty_of \<equiv> weigh res_qty"

definition held_qty :: "database \<Rightarrow> sku \<Rightarrow> int" where
  "held_qty d s = qty_of (\<lambda>r. res_sku r = s \<and> res_status r = HELD) (reservations d)"

definition committed_qty :: "database \<Rightarrow> sku \<Rightarrow> int" where
  "committed_qty d s = qty_of (\<lambda>r. res_sku r = s \<and> res_status r = COMMITTED) (reservations d)"

definition line_key :: "reservation \<Rightarrow> uuid \<times> sku" where
  "line_key r = (res_order r, res_sku r)"

definition rows_ok :: "database \<Rightarrow> bool" where
  "rows_ok d \<longleftrightarrow>
     (\<forall>r \<in> set (reservations d). 0 < res_qty r \<and> stock d (res_sku r) \<noteq> None \<and> res_id r < next_uuid d) \<and>
     distinct (map res_id (reservations d)) \<and>
     distinct (map line_key (filter is_active (reservations d)))"

definition counters_ok :: "database \<Rightarrow> bool" where
  "counters_ok d \<longleftrightarrow>
     (\<forall>s row. stock d s = Some row \<longrightarrow> reserved row = held_qty d s \<and> reserved row \<le> on_hand row)"

definition stock_ok :: "database \<Rightarrow> bool" where
  "stock_ok d \<longleftrightarrow> rows_ok d \<and> counters_ok d"

section \<open>Quantities\<close>

text \<open>A weight and a class of rows that do not look at the status.\<close>

definition status_blind :: "(reservation \<Rightarrow> 'a) \<Rightarrow> bool" where
  "status_blind f \<longleftrightarrow> (\<forall>r st. f (r\<lparr>res_status := st\<rparr>) = f r)"

lemma status_blindD [simp]: "status_blind f \<Longrightarrow> f (r\<lparr>res_status := st\<rparr>) = f r"
  by (simp add: status_blind_def)

lemma weigh_simps [simp]:
  "weigh g p [] = 0"
  "weigh g p (r # rs) = (if p r then g r + weigh g p rs else weigh g p rs)"
  "weigh g p (rs @ rs') = weigh g p rs + weigh g p rs'"
  by (simp_all add: weigh_def)

lemma qty_of_nonneg: "(\<And>r. r \<in> set rs \<Longrightarrow> 0 < res_qty r) \<Longrightarrow> 0 \<le> qty_of p rs"
  unfolding weigh_def by (intro sum_list_filter_nonneg) (simp add: less_imp_le)

lemma weigh_cong: "(\<And>r. r \<in> set rs \<Longrightarrow> p r = q r) \<Longrightarrow> weigh g p rs = weigh g q rs"
  unfolding weigh_def by (simp cong: filter_cong)

lemma weigh_split: "weigh g p rs = weigh g (\<lambda>r. p r \<and> q r) rs + weigh g (\<lambda>r. p r \<and> \<not> q r) rs"
  unfolding weigh_def by (rule sum_list_filter_split)

lemma weigh_as_sum:
  assumes "distinct rs"
  shows "weigh g p rs = (\<Sum>r \<in> {r \<in> set rs. p r}. g r)"
  using assms by (simp add: weigh_def sum_list_distinct_conv_sum_set set_filter)

text \<open>The rows a batch method claimed carry what the same ids carry in the table.\<close>

lemma weigh_claimed:
  assumes ids: "distinct (map res_id rs)" "distinct (map res_id rows)"
    and sub: "set rows \<subseteq> set rs" and p: "\<And>r. r \<in> set rows \<Longrightarrow> p r"
  shows "weigh g (\<lambda>r. (c r \<and> p r) \<and> res_id r \<in> res_id ` set rows) rs = weigh g c rows"
proof -
  have inj: "inj_on res_id (set rs)" and "distinct rs" "distinct rows"
    using ids by (simp_all add: distinct_map)
  have "{r \<in> set rs. (c r \<and> p r) \<and> res_id r \<in> res_id ` set rows} = {r \<in> set rows. c r}"
    using sub p inj by (auto simp: inj_on_image_mem_iff subset_iff dest: inj_onD)
  then show ?thesis
    using \<open>distinct rs\<close> \<open>distinct rows\<close> by (simp add: weigh_as_sum)
qed

lemma weigh_mark_other:
  assumes "st \<noteq> st'" and "status_blind g" "status_blind c"
  shows "weigh g (\<lambda>r. c r \<and> res_status r = st) (update_where p (\<lambda>r. r\<lparr>res_status := st'\<rparr>) rs) =
         weigh g (\<lambda>r. (c r \<and> res_status r = st) \<and> \<not> p r) rs"
  using assms by (induction rs) auto

lemma weigh_mark_same:
  assumes "status_blind g" "status_blind c"
  shows "weigh g (\<lambda>r. c r \<and> res_status r = st) (update_where p (\<lambda>r. r\<lparr>res_status := st\<rparr>) rs) =
         weigh g (\<lambda>r. c r \<and> (res_status r = st \<or> p r)) rs"
  using assms by (induction rs) auto

lemma status_blind_facts [simp]:
  "status_blind res_qty" "status_blind (\<lambda>r. res_sku r = s)" "status_blind (\<lambda>r. res_order r = oid)"
  "status_blind (\<lambda>_. k)"
  by (simp_all add: status_blind_def)

section \<open>Claimed rows\<close>

text \<open>What a claim query answers: some rows of the table, each once, all in one status.\<close>

definition claimed :: "reservation_status \<Rightarrow> reservation list \<Rightarrow> database \<Rightarrow> bool" where
  "claimed st rows d \<longleftrightarrow>
     set rows \<subseteq> set (reservations d) \<and> distinct (map res_id rows) \<and>
     (\<forall>r \<in> set rows. res_status r = st)"

lemma distinct_map_filter_id: "distinct (map f xs) \<Longrightarrow> distinct (map f (filter p xs))"
  by (simp add: distinct_map inj_on_def)

lemma claimed_order_rows: "rows_ok d \<Longrightarrow> claimed st (order_rows st oid d) d"
  by (auto simp: claimed_def order_rows_def rows_ok_def distinct_map_filter_id)

lemma claimed_expired:
  assumes "rows_ok d"
  shows "claimed HELD (expired_holds n d) d"
proof -
  let ?f = "filter (\<lambda>r. res_status r = HELD \<and> res_expires r \<le> clock d) (reservations d)"
  have "distinct (map res_id ?f)"
    using assms by (simp add: rows_ok_def distinct_map_filter_id)
  then have "distinct (map res_id (sort_key res_expires ?f))"
    by (simp add: distinct_map)
  then have "distinct (map res_id (take n (sort_key res_expires ?f)))"
    by (simp add: take_map [symmetric] distinct_take)
  moreover have "set (take n (sort_key res_expires ?f)) \<subseteq> set ?f"
    using set_take_subset [of n "sort_key res_expires ?f"] by simp
  ultimately show ?thesis
    by (auto simp: claimed_def expired_holds_def)
qed

lemma claimed_single:
  assumes "find (\<lambda>r. res_id r = rid \<and> res_status r = st) (reservations d) = Some r"
  shows "claimed st [r] d"
  using find_Some_mem [OF assms] by (simp add: claimed_def)

text \<open>Moving the claimed rows to another status moves exactly their weight.\<close>

lemma claimed_weight:
  assumes ok: "rows_ok d" and cl: "claimed st rows d"
  shows "weigh g (\<lambda>r. (c r \<and> res_status r = st) \<and> res_id r \<in> res_id ` set rows) (reservations d) =
         weigh g c rows"
  using ok cl by (intro weigh_claimed) (auto simp: rows_ok_def claimed_def)

lemma weight_leaving:
  assumes ok: "rows_ok d" and cl: "claimed st rows d" and ne: "st \<noteq> st'"
    and blind: "status_blind g" "status_blind c"
  shows "weigh g (\<lambda>r. c r \<and> res_status r = st) (reservations (mark_status (map res_id rows) st' d)) =
         weigh g (\<lambda>r. c r \<and> res_status r = st) (reservations d) - weigh g c rows"
  using weigh_split [of g "\<lambda>r. c r \<and> res_status r = st" "reservations d"
      "\<lambda>r. res_id r \<in> res_id ` set rows"] claimed_weight [OF ok cl, of g c]
  by (simp add: mark_status_def weigh_mark_other [OF ne blind])

lemma claimed_id_status:
  assumes "rows_ok d" "claimed st rows d" "r \<in> set (reservations d)" "res_id r \<in> res_id ` set rows"
  shows "r \<in> set rows" and "res_status r = st"
proof -
  have "inj_on res_id (set (reservations d))" "set rows \<subseteq> set (reservations d)"
    using assms by (simp_all add: rows_ok_def claimed_def distinct_map)
  with assms(3,4) show "r \<in> set rows" by (auto dest: inj_onD)
  with assms(2) show "res_status r = st" by (simp add: claimed_def)
qed

lemma weight_arriving:
  assumes ok: "rows_ok d" and cl: "claimed st rows d" and ne: "st \<noteq> st'"
    and blind: "status_blind g" "status_blind c"
  shows "weigh g (\<lambda>r. c r \<and> res_status r = st') (reservations (mark_status (map res_id rows) st' d)) =
         weigh g (\<lambda>r. c r \<and> res_status r = st') (reservations d) + weigh g c rows"
proof -
  let ?in = "\<lambda>r. res_id r \<in> res_id ` set rows"
  have st: "?in r \<Longrightarrow> r \<in> set (reservations d) \<Longrightarrow> res_status r = st" for r
    using claimed_id_status [OF ok cl] by blast
  have "weigh g (\<lambda>r. c r \<and> (res_status r = st' \<or> ?in r)) (reservations d) =
        weigh g (\<lambda>r. (c r \<and> (res_status r = st' \<or> ?in r)) \<and> ?in r) (reservations d) +
        weigh g (\<lambda>r. (c r \<and> (res_status r = st' \<or> ?in r)) \<and> \<not> ?in r) (reservations d)"
    by (rule weigh_split)
  also have "weigh g (\<lambda>r. (c r \<and> (res_status r = st' \<or> ?in r)) \<and> ?in r) (reservations d) =
        weigh g (\<lambda>r. (c r \<and> res_status r = st) \<and> ?in r) (reservations d)"
    using st by (intro weigh_cong) blast
  also have "\<dots> = weigh g c rows"
    using claimed_weight [OF ok cl] .
  also have "weigh g (\<lambda>r. (c r \<and> (res_status r = st' \<or> ?in r)) \<and> \<not> ?in r) (reservations d) =
        weigh g (\<lambda>r. c r \<and> res_status r = st') (reservations d)"
    using st ne by (intro weigh_cong) blast
  finally show ?thesis
    by (simp add: mark_status_def weigh_mark_same [OF blind])
qed

lemma weight_untouched:
  assumes ok: "rows_ok d" and cl: "claimed st rows d" and ne: "st'' \<noteq> st" "st'' \<noteq> st'"
    and blind: "status_blind g" "status_blind c"
  shows "weigh g (\<lambda>r. c r \<and> res_status r = st'') (reservations (mark_status (map res_id rows) st' d)) =
         weigh g (\<lambda>r. c r \<and> res_status r = st'') (reservations d)"
  unfolding mark_status_def
  using claimed_id_status(2) [OF ok cl] ne
  by (auto simp: weigh_mark_other [OF _ blind] intro!: weigh_cong)

lemma map_line_key_mark:
  assumes "\<And>r. r \<in> set rs \<Longrightarrow> p r \<Longrightarrow> is_active r"
  shows "\<exists>q. map line_key (filter is_active (update_where p (\<lambda>r. r\<lparr>res_status := st\<rparr>) rs)) =
             map line_key (filter q (filter is_active rs))"
proof (cases "st = RELEASED")
  case True
  then have "map line_key (filter is_active (update_where p (\<lambda>r. r\<lparr>res_status := st\<rparr>) rs)) =
             map line_key (filter (\<lambda>r. \<not> p r) (filter is_active rs))"
    by (induction rs) (auto simp: is_active_def)
  then show ?thesis by blast
next
  case False
  then have act: "is_active (r\<lparr>res_status := st\<rparr>)" for r
    by (cases st) (auto simp: is_active_def)
  from assms have "map line_key (filter is_active (update_where p (\<lambda>r. r\<lparr>res_status := st\<rparr>) rs)) =
             map line_key (filter (\<lambda>_. True) (filter is_active rs))"
    by (induction rs) (auto simp: act line_key_def)
  then show ?thesis by blast
qed

lemma rows_ok_mark:
  assumes ok: "rows_ok d" and cl: "claimed st rows d" and st: "st \<noteq> RELEASED"
  shows "rows_ok (mark_status (map res_id rows) st' d)"
proof -
  let ?p = "\<lambda>r. res_id r \<in> res_id ` set rows"
  have "is_active r" if "r \<in> set (reservations d)" "?p r" for r
    using claimed_id_status(2) [OF ok cl that] st by (cases st) (auto simp: is_active_def)
  then have "\<exists>q. map line_key (filter is_active (update_where ?p (\<lambda>r. r\<lparr>res_status := st'\<rparr>) (reservations d))) =
      map line_key (filter q (filter is_active (reservations d)))"
    by (rule map_line_key_mark)
  then obtain q where "map line_key (filter is_active (update_where ?p (\<lambda>r. r\<lparr>res_status := st'\<rparr>) (reservations d))) =
      map line_key (filter q (filter is_active (reservations d)))" ..
  moreover have "distinct (map line_key (filter q (filter is_active (reservations d))))"
    using ok unfolding rows_ok_def by (intro distinct_map_filter_id [of line_key "filter is_active (reservations d)"]) simp
  ultimately have "distinct (map line_key (filter is_active (reservations (mark_status (map res_id rows) st' d))))"
    by (simp add: mark_status_def)
  moreover have "map res_id (reservations (mark_status (map res_id rows) st' d)) = map res_id (reservations d)"
    by (simp add: mark_status_def map_update_where)
  moreover have "0 < res_qty r \<and> stock d (res_sku r) \<noteq> None \<and> res_id r < next_uuid d"
    if "r \<in> set (reservations (mark_status (map res_id rows) st' d))" for r
  proof -
    from that obtain r0 where "r0 \<in> set (reservations d)" "r = r0 \<or> r = r0\<lparr>res_status := st'\<rparr>"
      by (auto simp: mark_status_def set_update_where)
    with ok show ?thesis by (auto simp: rows_ok_def)
  qed
  ultimately show ?thesis
    using ok by (simp add: rows_ok_def) (simp add: mark_status_def)
qed

section \<open>The batch loops in closed form\<close>

definition move_stock :: "(sku \<Rightarrow> int) \<Rightarrow> (sku \<Rightarrow> int) \<Rightarrow> (sku \<Rightarrow> nat) \<Rightarrow> database \<Rightarrow> database" where
  "move_stock h r k d = d\<lparr>stock := (\<lambda>s. map_option (\<lambda>row.
     row\<lparr>on_hand := on_hand row + h s, reserved := reserved row + r s,
         version := version row + int (k s)\<rparr>) (stock d s))\<rparr>"

fun outbox_rows :: "(sku \<Rightarrow> uuid \<Rightarrow> int \<Rightarrow> event) \<Rightarrow> timestamp \<Rightarrow> uuid \<Rightarrow> reservation list \<Rightarrow> outbox_row list" where
  "outbox_rows factory t u [] = []"
| "outbox_rows factory t u (r # rs) =
     \<lparr>out_id = u, out_event = factory (res_sku r) (res_order r) (res_qty r), out_occurred = t,
      out_published = None\<rparr> # outbox_rows factory t (Suc u) rs"

definition announce :: "(sku \<Rightarrow> uuid \<Rightarrow> int \<Rightarrow> event) \<Rightarrow> reservation list \<Rightarrow> database \<Rightarrow> database" where
  "announce factory rs d =
     d\<lparr>inv_outbox := inv_outbox d @ outbox_rows factory (clock d) (next_uuid d) rs,
       next_uuid := next_uuid d + length rs\<rparr>"

definition row_total :: "reservation list \<Rightarrow> sku \<Rightarrow> int" where
  "row_total rs s = qty_of (\<lambda>r. res_sku r = s) rs"

definition row_count :: "reservation list \<Rightarrow> sku \<Rightarrow> nat" where
  "row_count rs s = length (filter (\<lambda>r. res_sku r = s) rs)"

definition give_back :: "(sku \<Rightarrow> uuid \<Rightarrow> int \<Rightarrow> event) \<Rightarrow> reservation list \<Rightarrow> database \<Rightarrow> database" where
  "give_back factory rs d =
     announce factory rs (move_stock (\<lambda>_. 0) (\<lambda>s. - row_total rs s) (row_count rs) d)"

definition consume :: "reservation list \<Rightarrow> database \<Rightarrow> database" where
  "consume rs = move_stock (\<lambda>s. - row_total rs s) (\<lambda>s. - row_total rs s) (row_count rs)"

definition put_back :: "(sku \<Rightarrow> uuid \<Rightarrow> int \<Rightarrow> event) \<Rightarrow> reservation list \<Rightarrow> database \<Rightarrow> database" where
  "put_back factory rs d =
     announce factory rs (move_stock (row_total rs) (\<lambda>_. 0) (row_count rs) d)"

lemma row_total_simps [simp]:
  "row_total [] s = 0"
  "row_total (r # rs) s = (if res_sku r = s then res_qty r else 0) + row_total rs s"
  "row_count [] s = 0"
  "row_count (r # rs) s = (if res_sku r = s then 1 else 0) + row_count rs s"
  by (simp_all add: row_total_def row_count_def)

lemma row_total_Nil [simp]: "row_total [] = (\<lambda>_. 0)" "row_count [] = (\<lambda>_. 0)"
  by (simp_all add: fun_eq_iff)

lemma row_total_nonneg: "(\<And>r. r \<in> set rs \<Longrightarrow> 0 < res_qty r) \<Longrightarrow> 0 \<le> row_total rs s"
  unfolding row_total_def by (rule qty_of_nonneg)

text \<open>Rows whose stock counters can give up their quantity.\<close>

definition covered :: "reservation list \<Rightarrow> database \<Rightarrow> bool" where
  "covered rs d \<longleftrightarrow>
     (\<forall>r \<in> set rs. 0 < res_qty r \<and> stock d (res_sku r) \<noteq> None) \<and>
     (\<forall>s row. stock d s = Some row \<longrightarrow> row_total rs s \<le> reserved row \<and> reserved row \<le> on_hand row)"

lemma coveredD:
  assumes "covered (r # rs) d" and "stock d (res_sku r) = Some row"
  shows "0 < res_qty r" "0 \<le> row_total rs s" "res_qty r + row_total rs (res_sku r) \<le> reserved row"
    "reserved row \<le> on_hand row"
proof -
  have "row_total (r # rs) (res_sku r) \<le> reserved row" and "reserved row \<le> on_hand row"
    using assms unfolding covered_def by blast+
  then show "res_qty r + row_total rs (res_sku r) \<le> reserved row" "reserved row \<le> on_hand row"
    by simp_all
  show "0 < res_qty r" "0 \<le> row_total rs s"
    using assms(1) by (auto simp: covered_def intro!: row_total_nonneg)
qed

lemma covered_step:
  assumes cov: "covered (r # rs) d" and row: "stock d (res_sku r) = Some row"
    and d1: "stock d1 = (stock d)(res_sku r := Some rw)"
    and row1: "reserved rw = reserved row - res_qty r" "reserved rw \<le> on_hand rw"
  shows "covered rs d1"
  unfolding covered_def
proof (intro conjI ballI allI impI)
  fix x assume "x \<in> set rs"
  with cov d1 show "0 < res_qty x" "stock d1 (res_sku x) \<noteq> None"
    by (auto simp: covered_def)
next
  fix s row2 assume s: "stock d1 s = Some row2"
  show "row_total rs s \<le> reserved row2" "reserved row2 \<le> on_hand row2"
  proof (atomize (full), cases "s = res_sku r")
    case True
    with s d1 row1 coveredD(3) [OF cov row]
    show "row_total rs s \<le> reserved row2 \<and> reserved row2 \<le> on_hand row2" by auto
  next
    case False
    then have "row_total (r # rs) s = row_total rs s" by simp
    moreover from False s d1 have "stock d s = Some row2" by simp
    ultimately show "row_total rs s \<le> reserved row2 \<and> reserved row2 \<le> on_hand row2"
      using cov unfolding covered_def by metis
  qed
qed

lemma announce_Nil [simp]: "announce f [] d = d"
  by (simp add: announce_def)

lemma move_stock_zero [simp]: "move_stock (\<lambda>_. 0) (\<lambda>_. 0) (\<lambda>_. 0) d = d"
proof -
  have "map_option (\<lambda>row. row\<lparr>on_hand := on_hand row + 0, reserved := reserved row + 0,
      version := version row + int 0\<rparr>) x = x" for x :: "inventory_row option"
    by (cases x) simp_all
  then show ?thesis by (simp add: move_stock_def)
qed

lemma for_each_release:
  assumes "covered rs d"
  shows "for_each rs (release_one f what) d = (Inr (), give_back f rs d)"
  using assms
proof (induction rs arbitrary: d)
  case Nil
  then show ?case by (simp add: give_back_def)
next
  case (Cons r rs)
  obtain row where row: "stock d (res_sku r) = Some row"
    using Cons.prems by (auto simp: covered_def)
  note cov = coveredD [OF Cons.prems row]
  define row1 where "row1 = row\<lparr>reserved := reserved row - res_qty r, version := version row + 1\<rparr>"
  define d1 where "d1 = announce f [r] (set_stock (res_sku r) row1 d)"
  have one: "release_one f what r d = (Inr (), d1)"
    using row cov(2) [of "res_sku r"] cov(3,4)
    by (simp add: release_one_def thn_run require_one_def unreserve_sql_def add_inv_outbox_def
        d1_def row1_def announce_def set_stock_def)
  have "covered rs d1"
    using cov by (auto simp: d1_def row1_def announce_def set_stock_def
        intro!: covered_step [OF Cons.prems row, where rw = row1])
  then have "for_each rs (release_one f what) d1 = (Inr (), give_back f rs d1)"
    by (rule Cons.IH)
  moreover have "give_back f rs d1 = give_back f (r # rs) d"
    using row by (auto simp: give_back_def d1_def row1_def announce_def set_stock_def move_stock_def fun_eq_iff)
  ultimately show ?case by (simp add: thn_run one)
qed

lemma for_each_consume:
  assumes "covered rs d"
  shows "for_each rs (\<lambda>r. require_one (consume_sql (res_sku r) (res_qty r)) what) d = (Inr (), consume rs d)"
  using assms
proof (induction rs arbitrary: d)
  case Nil
  then show ?case by (simp add: consume_def)
next
  case (Cons r rs)
  obtain row where row: "stock d (res_sku r) = Some row"
    using Cons.prems by (auto simp: covered_def)
  note cov = coveredD [OF Cons.prems row]
  define row1 where "row1 = row\<lparr>on_hand := on_hand row - res_qty r,
      reserved := reserved row - res_qty r, version := version row + 1\<rparr>"
  define d1 where "d1 = set_stock (res_sku r) row1 d"
  have one: "require_one (consume_sql (res_sku r) (res_qty r)) what d = (Inr (), d1)"
    using row cov(2) [of "res_sku r"] cov(3,4) by (simp add: require_one_def consume_sql_def d1_def row1_def)
  have "covered rs d1"
    using cov by (auto simp: d1_def row1_def set_stock_def
        intro!: covered_step [OF Cons.prems row, where rw = row1])
  then have "for_each rs (\<lambda>r. require_one (consume_sql (res_sku r) (res_qty r)) what) d1 =
      (Inr (), consume rs d1)"
    by (rule Cons.IH)
  moreover have "consume rs d1 = consume (r # rs) d"
    using row by (auto simp: consume_def d1_def row1_def set_stock_def move_stock_def fun_eq_iff)
  ultimately show ?case by (simp add: thn_run one)
qed

lemma for_each_restock:
  assumes "\<And>r. r \<in> set rs \<Longrightarrow> stock d (res_sku r) \<noteq> None"
  shows "for_each rs (restock_one f) d = (Inr (), put_back f rs d)"
  using assms
proof (induction rs arbitrary: d)
  case Nil
  then show ?case by (simp add: put_back_def)
next
  case (Cons r rs)
  obtain row where row: "stock d (res_sku r) = Some row"
    using Cons.prems by fastforce
  define d1 where "d1 = announce f [r] (set_stock (res_sku r)
      (row\<lparr>on_hand := on_hand row + res_qty r, version := version row + 1\<rparr>) d)"
  have one: "restock_one f r d = (Inr (), d1)"
    using row by (simp add: restock_one_def thn_run require_one_def restock_sql_def add_inv_outbox_def
        d1_def announce_def set_stock_def)
  have "for_each rs (restock_one f) d1 = (Inr (), put_back f rs d1)"
    using Cons.prems by (intro Cons.IH) (auto simp: d1_def announce_def set_stock_def)
  moreover have "put_back f rs d1 = put_back f (r # rs) d"
    using row by (auto simp: put_back_def d1_def announce_def set_stock_def move_stock_def fun_eq_iff)
  ultimately show ?case by (simp add: thn_run one)
qed

section \<open>The batch methods in closed form\<close>

lemma mark_status_Nil [simp]: "mark_status [] st d = d"
  by (simp add: mark_status_def update_where_def)

lemma give_back_Nil [simp]: "give_back f [] d = d" "put_back f [] d = d" "consume [] d = d"
  by (simp_all add: give_back_def put_back_def consume_def)

lemma stock_effects [simp]:
  "reservations (announce f rows d) = reservations d"
  "reservations (move_stock h r k d) = reservations d"
  "stock (announce f rows d) = stock d"
  "next_uuid (announce f rows d) = next_uuid d + length rows"
  "next_uuid (move_stock h r k d) = next_uuid d"
  "stock (mark_status ids st d) = stock d"
  "next_uuid (mark_status ids st d) = next_uuid d"
  by (simp_all add: announce_def move_stock_def mark_status_def)

lemma rows_ok_mono:
  assumes "rows_ok d" and "reservations d' = reservations d" and "next_uuid d \<le> next_uuid d'"
    and "\<And>s. stock d s \<noteq> None \<Longrightarrow> stock d' s \<noteq> None"
  shows "rows_ok d'"
  using assms unfolding rows_ok_def by (auto intro: less_le_trans)

lemma claimed_cong: "reservations d' = reservations d \<Longrightarrow> claimed st rows d' = claimed st rows d"
  by (simp add: claimed_def)

lemma claimed_le_status:
  assumes "rows_ok d" and "claimed st rows d"
  shows "row_total rows s \<le> qty_of (\<lambda>r. res_sku r = s \<and> res_status r = st) (reservations d)"
proof -
  have "0 \<le> qty_of (\<lambda>r. (res_sku r = s \<and> res_status r = st) \<and> res_id r \<notin> res_id ` set rows) (reservations d)"
    using assms(1) by (intro qty_of_nonneg) (simp add: rows_ok_def)
  then show ?thesis
    using weigh_split [of res_qty "\<lambda>r. res_sku r = s \<and> res_status r = st" "reservations d"
        "\<lambda>r. res_id r \<in> res_id ` set rows"] claimed_weight [OF assms, of res_qty "\<lambda>r. res_sku r = s"]
    by (simp add: row_total_def)
qed

lemma claimed_rows_ok:
  assumes "rows_ok d" "claimed st rows d" "r \<in> set rows"
  shows "0 < res_qty r" and "stock d (res_sku r) \<noteq> None"
  using assms by (auto simp: rows_ok_def claimed_def)

lemma counters_okD:
  assumes "stock_ok d" and "stock d s = Some row"
  shows "reserved row = held_qty d s" and "held_qty d s \<le> on_hand row" and "0 \<le> held_qty d s"
proof -
  show "reserved row = held_qty d s" "held_qty d s \<le> on_hand row"
    using assms unfolding stock_ok_def counters_ok_def by metis+
  show "0 \<le> held_qty d s"
    using assms unfolding held_qty_def by (intro qty_of_nonneg) (auto simp: stock_ok_def rows_ok_def)
qed

lemma covered_claimed:
  assumes "stock_ok d" and "claimed HELD rows d"
  shows "covered rows d"
  unfolding covered_def
proof (intro conjI ballI allI impI)
  fix r assume "r \<in> set rows"
  with assms show "0 < res_qty r" "stock d (res_sku r) \<noteq> None"
    by (auto simp: stock_ok_def dest: claimed_rows_ok)
next
  fix s row assume "stock d s = Some row"
  with assms show "row_total rows s \<le> reserved row" "reserved row \<le> on_hand row"
    using claimed_le_status [of d HELD rows s] counters_okD [OF assms(1)]
    by (auto simp: stock_ok_def held_qty_def)
qed

definition released :: "(sku \<Rightarrow> uuid \<Rightarrow> int \<Rightarrow> event) \<Rightarrow> reservation list \<Rightarrow> database \<Rightarrow> database" where
  "released f rows d = mark_status (map res_id rows) RELEASED (give_back f rows d)"

definition consumed :: "reservation list \<Rightarrow> database \<Rightarrow> database" where
  "consumed rows d = mark_status (map res_id rows) COMMITTED (consume rows d)"

definition restocked :: "(sku \<Rightarrow> uuid \<Rightarrow> int \<Rightarrow> event) \<Rightarrow> reservation list \<Rightarrow> database \<Rightarrow> database" where
  "restocked f rows d = mark_status (map res_id rows) RELEASED (put_back f rows d)"

lemma released_Nil [simp]: "released f [] d = d" "consumed [] d = d" "restocked f [] d = d"
  by (simp_all add: released_def consumed_def restocked_def)

lemma release_rows_run:
  assumes "stock_ok d" and "claimed HELD rows d"
  shows "release_rows f what rows d = (Inr (length rows), released f rows d)"
  using for_each_release [OF covered_claimed [OF assms]]
  by (simp add: release_rows_def released_def thn_run)

lemma release_for_order_run:
  assumes "stock_ok d"
  shows "repo_release_for_order oid f d =
    (Inr (length (order_rows HELD oid d)), released f (order_rows HELD oid d) d)"
  using release_rows_run [OF assms claimed_order_rows] assms
  by (simp add: repo_release_for_order_def stock_ok_def)

lemma release_expired_run:
  assumes "stock_ok d"
  shows "repo_release_expired n f d =
    (Inr (length (expired_holds n d)), released f (expired_holds n d) d)"
  using release_rows_run [OF assms claimed_expired] assms
  by (simp add: repo_release_expired_def stock_ok_def)

lemma commit_for_order_run:
  assumes "stock_ok d"
  shows "repo_commit_for_order oid expected d =
    (let rows = order_rows HELD oid d; already = length (order_rows COMMITTED oid d) in
     if already + length rows < expected then (Inr already, d)
     else (Inr (already + length rows), consumed rows d))"
proof -
  have "claimed HELD (order_rows HELD oid d) d"
    using assms by (simp add: stock_ok_def claimed_order_rows)
  from for_each_consume [OF covered_claimed [OF assms this]] show ?thesis
    by (simp add: repo_commit_for_order_def thn_run consumed_def Let_def)
qed

lemma restock_for_order_run:
  assumes "stock_ok d"
  shows "repo_restock_for_order oid f d =
    (Inr (length (order_rows COMMITTED oid d)), restocked f (order_rows COMMITTED oid d) d)"
proof -
  have "stock d (res_sku r) \<noteq> None" if "r \<in> set (order_rows COMMITTED oid d)" for r
    using assms claimed_rows_ok(2) [OF _ claimed_order_rows that] by (simp add: stock_ok_def)
  from for_each_restock [OF this] show ?thesis
    by (simp add: repo_restock_for_order_def thn_run restocked_def)
qed

lemma mark_give_back:
  "give_back f rows (mark_status ids st d) = mark_status ids st (give_back f rows d)"
  "consume rows (mark_status ids st d) = mark_status ids st (consume rows d)"
  by (simp_all add: give_back_def consume_def announce_def move_stock_def mark_status_def)

lemma covered_mark [simp]: "covered rows (mark_status ids st d) = covered rows d"
  by (simp add: covered_def)

lemma release_run:
  assumes "stock_ok d"
  shows "repo_release rid f d =
    (case find (\<lambda>r. res_id r = rid \<and> res_status r = HELD) (reservations d) of
       None \<Rightarrow> (Inr False, d) | Some r \<Rightarrow> (Inr True, released f [r] d))"
proof (cases "find (\<lambda>r. res_id r = rid \<and> res_status r = HELD) (reservations d)")
  case None
  then show ?thesis by (simp add: repo_release_def)
next
  case (Some r)
  have "covered [r] (mark_status [res_id r] RELEASED d)"
    using covered_claimed [OF assms claimed_single [OF Some]] by simp
  then have "for_each [r] (release_one f w) (mark_status [res_id r] RELEASED d) =
      (Inr (), give_back f [r] (mark_status [res_id r] RELEASED d))" for w
    by (rule for_each_release)
  then have "release_one f w r (mark_status [res_id r] RELEASED d) = (Inr (), released f [r] d)" for w
    by (simp add: mark_give_back released_def)
  with Some show ?thesis
    by (simp add: repo_release_def thn_run)
qed

lemma commit_reservation_run:
  assumes "stock_ok d"
  shows "repo_commit_reservation rid d =
    (case find (\<lambda>r. res_id r = rid \<and> res_status r = HELD) (reservations d) of
       None \<Rightarrow> (Inr False, d) | Some r \<Rightarrow> (Inr True, consumed [r] d))"
proof (cases "find (\<lambda>r. res_id r = rid \<and> res_status r = HELD) (reservations d)")
  case None
  then show ?thesis by (simp add: repo_commit_reservation_def)
next
  case (Some r)
  have "covered [r] (mark_status [res_id r] COMMITTED d)"
    using covered_claimed [OF assms claimed_single [OF Some]] by simp
  then have "for_each [r] (\<lambda>r. require_one (consume_sql (res_sku r) (res_qty r)) w)
      (mark_status [res_id r] COMMITTED d) = (Inr (), consume [r] (mark_status [res_id r] COMMITTED d))" for w
    by (rule for_each_consume)
  then have "require_one (consume_sql (res_sku r) (res_qty r)) w (mark_status [res_id r] COMMITTED d) =
      (Inr (), consumed [r] d)" for w
    by (simp add: mark_give_back consumed_def)
  with Some show ?thesis
    by (simp add: repo_commit_reservation_def thn_run)
qed

section \<open>Preservation\<close>

lemma move_stock_row:
  assumes "stock (move_stock h r k d) s = Some row'"
  obtains row where "stock d s = Some row" "on_hand row' = on_hand row + h s"
    "reserved row' = reserved row + r s"
  using assms by (auto simp: move_stock_def)

lemma rows_ok_moved:
  assumes "rows_ok d"
  shows "rows_ok (move_stock h r k d)" "rows_ok (announce f rows d)"
  using assms by (auto intro: rows_ok_mono simp: move_stock_def)

lemma claimed_effects [simp]:
  "claimed st rows (announce f rows' d) = claimed st rows d"
  "claimed st rows (move_stock h r k d) = claimed st rows d"
  by (simp_all add: claimed_def)

lemma counters_ok_released:
  assumes ok: "stock_ok d" and cl: "claimed HELD rows d"
  shows "counters_ok (released f rows d)"
  unfolding counters_ok_def
proof (intro allI impI)
  fix s row assume "stock (released f rows d) s = Some row"
  then obtain row0 where row0: "stock d s = Some row0" "on_hand row = on_hand row0"
      "reserved row = reserved row0 - row_total rows s"
    by (auto simp: released_def give_back_def elim!: move_stock_row)
  have "held_qty (released f rows d) s = held_qty d s - row_total rows s"
    using weight_leaving [of "give_back f rows d" HELD rows RELEASED res_qty "\<lambda>r. res_sku r = s"] ok cl
    by (simp add: held_qty_def released_def row_total_def give_back_def rows_ok_moved stock_ok_def)
  moreover have "0 \<le> row_total rows s"
    using ok cl by (intro row_total_nonneg) (auto simp: stock_ok_def dest: claimed_rows_ok)
  ultimately show "reserved row = held_qty (released f rows d) s \<and> reserved row \<le> on_hand row"
    using row0 counters_okD [OF ok row0(1)] by simp
qed

lemma counters_ok_consumed:
  assumes ok: "stock_ok d" and cl: "claimed HELD rows d"
  shows "counters_ok (consumed rows d)"
  unfolding counters_ok_def
proof (intro allI impI)
  fix s row assume "stock (consumed rows d) s = Some row"
  then obtain row0 where row0: "stock d s = Some row0" "on_hand row = on_hand row0 - row_total rows s"
      "reserved row = reserved row0 - row_total rows s"
    by (auto simp: consumed_def consume_def elim!: move_stock_row)
  have "held_qty (consumed rows d) s = held_qty d s - row_total rows s"
    using weight_leaving [of "consume rows d" HELD rows COMMITTED res_qty "\<lambda>r. res_sku r = s"] ok cl
    by (simp add: held_qty_def consumed_def row_total_def consume_def rows_ok_moved stock_ok_def)
  then show "reserved row = held_qty (consumed rows d) s \<and> reserved row \<le> on_hand row"
    using row0 counters_okD [OF ok row0(1)] by simp
qed

lemma counters_ok_restocked:
  assumes ok: "stock_ok d" and cl: "claimed COMMITTED rows d"
  shows "counters_ok (restocked f rows d)"
  unfolding counters_ok_def
proof (intro allI impI)
  fix s row assume "stock (restocked f rows d) s = Some row"
  then obtain row0 where row0: "stock d s = Some row0" "on_hand row = on_hand row0 + row_total rows s"
      "reserved row = reserved row0"
    by (auto simp: restocked_def put_back_def elim!: move_stock_row)
  have "held_qty (restocked f rows d) s = held_qty d s"
    using weight_untouched [of "put_back f rows d" COMMITTED rows HELD RELEASED res_qty "\<lambda>r. res_sku r = s"] ok cl
    by (simp add: held_qty_def restocked_def put_back_def rows_ok_moved stock_ok_def)
  moreover have "0 \<le> row_total rows s"
    using ok cl by (intro row_total_nonneg) (auto simp: stock_ok_def dest: claimed_rows_ok)
  ultimately show "reserved row = held_qty (restocked f rows d) s \<and> reserved row \<le> on_hand row"
    using row0 counters_okD [OF ok row0(1)] by simp
qed

lemma stock_ok_released: "stock_ok d \<Longrightarrow> claimed HELD rows d \<Longrightarrow> stock_ok (released f rows d)"
  and stock_ok_consumed: "stock_ok d \<Longrightarrow> claimed HELD rows d \<Longrightarrow> stock_ok (consumed rows d)"
  and stock_ok_restocked: "stock_ok d \<Longrightarrow> claimed COMMITTED rows d \<Longrightarrow> stock_ok (restocked f rows d)"
  using counters_ok_released [of d rows f] counters_ok_consumed [of d rows] counters_ok_restocked [of d rows f]
    rows_ok_mark [of "give_back f rows d" HELD rows] rows_ok_mark [of "consume rows d" HELD rows]
    rows_ok_mark [of "put_back f rows d" COMMITTED rows]
  by (simp_all add: stock_ok_def released_def consumed_def restocked_def give_back_def consume_def
      put_back_def rows_ok_moved)

end
