(* ===== verification/Stock_Reserve.thy ===== *)
theory Stock_Reserve
  imports Stock_Invariant
begin

text \<open>
  The reserve step (\<open>reserve_many\<close>): the two-attempt loop of the repository is equivalent to one
  pass that looks each line up first (\<open>lookup_pass\<close>), every outcome but the placed batch leaves the
  database as it was, a placed batch holds every line, and a repeated batch answers the same rows
  without touching a thing.
\<close>

section \<open>The active rows of an order\<close>

definition active_row :: "uuid \<Rightarrow> sku \<Rightarrow> database \<Rightarrow> reservation option" where
  "active_row oid s d = find (\<lambda>r. res_order r = oid \<and> res_sku r = s \<and> is_active r) (reservations d)"

lemma active_map_row: "active_map oid skus d s = (if s \<in> set skus then active_row oid s d else None)"
proof (cases "s \<in> set skus")
  case False
  then have "find (\<lambda>r. res_order r = oid \<and> res_sku r = s \<and> s \<in> set skus \<and> is_active r) (reservations d) = None"
    by (simp add: find_None)
  with False show ?thesis by (simp add: active_map_def)
qed (simp add: active_map_def active_row_def)

lemma active_row_None:
  "active_row oid s d = None \<longleftrightarrow>
     \<not> (\<exists>r \<in> set (reservations d). is_active r \<and> res_order r = oid \<and> res_sku r = s)"
  by (auto simp: active_row_def find_None)

lemma active_row_Some:
  "active_row oid s d = Some r \<Longrightarrow>
     r \<in> set (reservations d) \<and> is_active r \<and> res_order r = oid \<and> res_sku r = s"
  by (auto simp: active_row_def dest: find_Some_mem)

section \<open>One line\<close>

definition held_row :: "sku \<Rightarrow> int \<Rightarrow> uuid \<Rightarrow> timestamp \<Rightarrow> uuid \<Rightarrow> reservation" where
  "held_row s q oid expires u = \<lparr>res_id = u, res_sku = s, res_qty = q, res_order = oid,
     res_status = HELD, res_expires = expires\<rparr>"

text \<open>The state after one line is held: row, counter, outbox row.\<close>

definition hold_line ::
  "uuid \<Rightarrow> timestamp \<Rightarrow> (sku \<Rightarrow> uuid \<Rightarrow> int \<Rightarrow> event) \<Rightarrow> sku \<Rightarrow> int \<Rightarrow> inventory_row \<Rightarrow> database \<Rightarrow> database" where
  "hold_line oid expires factory s q row d =
     d\<lparr>reservations := reservations d @ [held_row s q oid expires (next_uuid d)],
       stock := (stock d)(s := Some (row\<lparr>reserved := reserved row + q, version := version row + 1\<rparr>)),
       inv_outbox := inv_outbox d @ [\<lparr>out_id = Suc (next_uuid d), out_event = factory s oid q,
          out_occurred = clock d, out_published = None\<rparr>],
       next_uuid := next_uuid d + 2\<rparr>"

lemma place_line_new:
  "place_lines existing oid expires factory ((s, q) # lines) placed d =
     (case existing s of
        Some current \<Rightarrow>
          if res_qty current \<noteq> q then (Inl (AttemptConflict s (res_qty current) q), d)
          else place_lines existing oid expires factory lines (placed @ [current]) d
      | None \<Rightarrow>
          if q \<le> 0 then (Inl (AttemptRaises (InvalidReservationError s q)), d)
          else if active_row oid s d \<noteq> None then (Inl (AttemptRaced s), d)
          else (case stock d s of
             None \<Rightarrow> (Inl (AttemptNoStockRow s q), d)
           | Some row \<Rightarrow>
               if on_hand row - reserved row \<ge> q
               then place_lines existing oid expires factory lines
                      (placed @ [held_row s q oid expires (next_uuid d)])
                      (hold_line oid expires factory s q row d)
               else (Inl (AttemptRejection s q),
                     d\<lparr>reservations := reservations d @ [held_row s q oid expires (next_uuid d)],
                       next_uuid := Suc (next_uuid d)\<rparr>)))"
  by (auto simp: bnd_run thn_run insert_line_def insert_reservation_def decrement_line_def
      decrement_sql_def announce_line_def add_inv_outbox_def set_stock_def hold_line_def held_row_def
      active_row_None Let_def split: option.splits)

declare place_lines.simps(2) [simp del]

lemma counters_ok_hold_line:
  assumes ok: "stock_ok d" and row: "stock d s = Some row" and fits: "q \<le> on_hand row - reserved row"
  shows "counters_ok (hold_line oid expires f s q row d)"
  unfolding counters_ok_def
proof (intro allI impI)
  let ?d = "hold_line oid expires f s q row d"
  fix s' row' assume s': "stock ?d s' = Some row'"
  have "held_qty ?d s' = held_qty d s' + (if s' = s then q else 0)"
    by (simp add: held_qty_def hold_line_def held_row_def)
  with s' fits show "reserved row' = held_qty ?d s' \<and> reserved row' \<le> on_hand row'"
    using counters_okD [OF ok row] counters_okD [OF ok, of s']
    by (auto simp: hold_line_def split: if_splits)
qed

lemma stock_ok_hold_line:
  assumes ok: "stock_ok d" and row: "stock d s = Some row" and q: "0 < q"
    and fits: "q \<le> on_hand row - reserved row" and new: "active_row oid s d = None"
  shows "stock_ok (hold_line oid expires f s q row d)"
proof -
  from ok have rows: "rows_ok d" by (simp add: stock_ok_def)
  then have "next_uuid d \<notin> res_id ` set (reservations d)" by (fastforce simp: rows_ok_def)
  moreover have "(oid, s) \<notin> line_key ` {r \<in> set (reservations d). is_active r}"
    using new by (auto simp: active_row_None line_key_def)
  ultimately have "rows_ok (hold_line oid expires f s q row d)"
    using rows q row by (auto simp: rows_ok_def hold_line_def held_row_def is_active_def line_key_def)
  with counters_ok_hold_line [OF ok row fits] show ?thesis by (simp add: stock_ok_def)
qed

section \<open>The attempts\<close>

lemma place_lines_stock_ok:
  assumes "stock_ok d" and "place_lines existing oid expires f lines placed d = (Inr rows, d')"
  shows "stock_ok d'"
  using assms
proof (induction lines arbitrary: placed d)
  case (Cons line lines)
  obtain s q where "line = (s, q)" by fastforce
  with Cons.prems show ?case
    using Cons.IH [OF Cons.prems(1)] Cons.IH [OF stock_ok_hold_line [OF Cons.prems(1)]]
    by (auto simp: place_line_new not_le split: option.splits if_splits)
qed simp

lemma reserve_attempt_stop: "reserve_attempt ordered skus oid expires f n d = (Inl e, d') \<Longrightarrow> d' = d"
  by (auto simp: reserve_attempt_def dest: atomic_Inl)

lemma reserve_attempt_ok:
  "stock_ok d \<Longrightarrow> reserve_attempt ordered skus oid expires f n d = (Inr rows, d') \<Longrightarrow> stock_ok d'"
  by (auto simp: reserve_attempt_def Let_def atomic_Inr dest: place_lines_stock_ok)

lemma reserve_loop_outcome:
  assumes "reserve_loop k n raced ordered skus oid expires f d = (r, d')"
  shows "d' = d \<or> (\<exists>m rows. r = Inr (Inr rows) \<and> reserve_attempt ordered skus oid expires f m d = (Inr rows, d'))"
  using assms
proof (induction k arbitrary: n raced)
  case (Suc k)
  obtain x d1 where att: "reserve_attempt ordered skus oid expires f n d = (x, d1)" by fastforce
  show ?case
  proof (cases x)
    case (Inl e)
    with att have "d1 = d" by (auto dest: reserve_attempt_stop)
    with Suc att Inl show ?thesis by (cases e) auto
  next
    case (Inr rows)
    with Suc.prems att show ?thesis by auto
  qed
qed simp

lemma reserve_many_outcome:
  assumes "repo_reserve_many lines oid expires f d = (r, d')"
  shows "d' = d \<or> (\<exists>m rows. r = Inr (Inr rows) \<and>
    reserve_attempt (sort_key fst lines) (map fst (sort_key fst lines)) oid expires f m d = (Inr rows, d'))"
  using assms reserve_loop_outcome unfolding repo_reserve_many_def Let_def
  by (auto split: if_splits)

lemma keeps_stock_ok_reserve_many: "keeps stock_ok (repo_reserve_many lines oid expires f)"
  by (rule keepsI) (auto dest!: reserve_many_outcome dest: reserve_attempt_ok)

text \<open>Only the events of the batch's own lines matter.\<close>

lemma place_lines_factory_cong:
  assumes "\<And>s q. (s, q) \<in> set lines \<Longrightarrow> f s oid q = g s oid q"
  shows "place_lines ex oid expires f lines placed d = place_lines ex oid expires g lines placed d"
  using assms
proof (induction lines arbitrary: placed d)
  case (Cons line lines)
  obtain s q where line: "line = (s, q)" by fastforce
  with Cons.prems have "hold_line oid expires f s q = hold_line oid expires g s q"
    by (simp add: hold_line_def fun_eq_iff)
  with Cons line show ?case by (auto simp: place_line_new split: option.splits)
qed simp

lemma reserve_loop_factory_cong:
  assumes "\<And>s q. (s, q) \<in> set ordered \<Longrightarrow> f s oid q = g s oid q"
  shows "reserve_loop k n raced ordered skus oid expires f = reserve_loop k n raced ordered skus oid expires g"
proof -
  have "reserve_attempt ordered skus oid expires f m = reserve_attempt ordered skus oid expires g m" for m
    using place_lines_factory_cong [of ordered f oid g] assms by (simp add: reserve_attempt_def atomic_def fun_eq_iff)
  then show ?thesis
    by (induction k arbitrary: n raced) (auto simp: fun_eq_iff split: prod.splits sum.splits attempt_stop.splits)
qed

lemma reserve_many_factory_cong:
  assumes "\<And>s q. (s, q) \<in> set lines \<Longrightarrow> f s oid q = g s oid q"
  shows "repo_reserve_many lines oid expires f = repo_reserve_many lines oid expires g"
proof -
  have "reserve_loop k n raced (sort_key fst lines) skus oid expires f =
      reserve_loop k n raced (sort_key fst lines) skus oid expires g" for k n raced skus
    by (rule reserve_loop_factory_cong) (simp add: assms)
  then show ?thesis by (simp add: repo_reserve_many_def)
qed

section \<open>Equivalence with the one-pass lookup\<close>

definition lookup_pass ::
  "(sku \<times> int) list \<Rightarrow> uuid \<Rightarrow> timestamp \<Rightarrow> (sku \<Rightarrow> uuid \<Rightarrow> int \<Rightarrow> event) \<Rightarrow> reserve_answer txn" where
  "lookup_pass lines oid expires f = (\<lambda>d.
     case atomic (place_lines (\<lambda>s. active_row oid s d) oid expires f (sort_key fst lines) []) d of
       (Inr rows, d') \<Rightarrow> (Inr (Inr rows), d')
     | (Inl (AttemptRejection s q), d') \<Rightarrow> (Inr (Inl \<lparr>rej_sku = s, rej_qty = q\<rparr>), d')
     | (Inl (AttemptNoStockRow s q), d') \<Rightarrow> (Inr (Inl \<lparr>rej_sku = s, rej_qty = q\<rparr>), d')
     | (Inl (AttemptConflict s held q), d') \<Rightarrow> (Inl (ReservationConflictError s held q), d')
     | (Inl (AttemptRaced s), d') \<Rightarrow> (Inl (ReservationContendedError s), d')
     | (Inl (AttemptRaises e), d') \<Rightarrow> (Inl e, d'))"

lemma active_row_hold_line:
  "s' \<noteq> s \<Longrightarrow> active_row oid s' (hold_line oid expires f s q row d) = active_row oid s' d"
  by (auto simp: active_row_def hold_line_def held_row_def find_append split: option.splits)

lemma place_lines_cong:
  "(\<And>s. s \<in> fst ` set lines \<Longrightarrow> ex s = ex' s) \<Longrightarrow>
     place_lines ex oid expires f lines placed d = place_lines ex' oid expires f lines placed d"
  by (induction lines arbitrary: placed d)
    (auto simp: place_line_new split: option.splits)

text \<open>With the active rows in hand no line is ever raced.\<close>

lemma lookup_never_raced:
  assumes "distinct (map fst lines)" and "\<And>s. s \<in> fst ` set lines \<Longrightarrow> active_row oid s d = ex s"
  shows "place_lines ex oid expires f lines placed d \<noteq> (Inl (AttemptRaced s'), d')"
  using assms
proof (induction lines arbitrary: placed d)
  case (Cons line lines)
  obtain s q where line: "line = (s, q)" by fastforce
  with Cons.prems have s: "active_row oid s d = ex s" by auto
  have later: "(s2, q2) \<in> set lines \<Longrightarrow> s2 \<noteq> s \<and> active_row oid s2 d = ex s2" for s2 q2
    using Cons.prems(1) Cons.prems(2) [of s2] by (force simp: line)
  have "place_lines ex oid expires f lines p d1 \<noteq> (Inl (AttemptRaced s'), d')"
    if "d1 = d \<or> (\<exists>row. d1 = hold_line oid expires f s q row d)" for p d1
    using that Cons.prems(1) later by (intro Cons.IH) (auto simp: active_row_hold_line dest!: later)
  with s show ?case
    by (auto simp: line place_line_new split: option.splits)
qed simp

text \<open>A blind attempt does what the lookup does, or is raced on a line the order already holds.\<close>

lemma blind_attempt:
  assumes "distinct (map fst lines)" and "\<And>s. s \<in> fst ` set lines \<Longrightarrow> active_row oid s d = ex s"
    and "\<And>s q. (s, q) \<in> set lines \<Longrightarrow> 0 < q"
  shows "(\<exists>s d'. place_lines (\<lambda>_. None) oid expires f lines placed d = (Inl (AttemptRaced s), d')) \<or>
         place_lines (\<lambda>_. None) oid expires f lines placed d = place_lines ex oid expires f lines placed d"
  using assms
proof (induction lines arbitrary: placed d)
  case (Cons line lines)
  obtain s q where line: "line = (s, q)" by fastforce
  with Cons.prems have s: "active_row oid s d = ex s" and q: "0 < q" by auto
  have later: "(s2, q2) \<in> set lines \<Longrightarrow> s2 \<noteq> s \<and> active_row oid s2 d = ex s2" for s2 q2
    using Cons.prems(1) Cons.prems(2) [of s2] by (force simp: line)
  have "(\<exists>s' d'. place_lines (\<lambda>_. None) oid expires f lines p (hold_line oid expires f s q row d) = (Inl (AttemptRaced s'), d')) \<or>
      place_lines (\<lambda>_. None) oid expires f lines p (hold_line oid expires f s q row d) =
      place_lines ex oid expires f lines p (hold_line oid expires f s q row d)" for p row
    using Cons.prems(1,3) later by (intro Cons.IH) (auto simp: line active_row_hold_line dest: later)
  with s q show ?case
    by (auto simp: line place_line_new split: option.splits)
qed simp

lemma reserve_many_lookup:
  assumes dist: "distinct (map fst lines)" and pos: "\<And>s q. (s, q) \<in> set lines \<Longrightarrow> 0 < q"
  shows "repo_reserve_many lines oid expires f d = lookup_pass lines oid expires f d"
proof -
  let ?o = "sort_key fst lines"
  let ?ex = "\<lambda>s. active_row oid s d"
  have o: "distinct (map fst ?o)" using dist by (simp add: distinct_map)
  have retry: "place_lines (active_map oid (map fst ?o) d) oid expires f ?o [] d =
      place_lines ?ex oid expires f ?o [] d"
    by (rule place_lines_cong) (auto simp: active_map_row)
  have never: "place_lines ?ex oid expires f ?o [] d \<noteq> (Inl (AttemptRaced s'), d')" for s' d'
    by (rule lookup_never_raced [OF o]) simp
  have blind: "(\<exists>s d'. place_lines (\<lambda>_. None) oid expires f ?o [] d = (Inl (AttemptRaced s), d')) \<or>
      place_lines (\<lambda>_. None) oid expires f ?o [] d = place_lines ?ex oid expires f ?o [] d"
    by (rule blind_attempt [OF o]) (auto dest: pos)
  show ?thesis
    using blind never retry
    by (auto simp: repo_reserve_many_def lookup_pass_def Let_def numeral_2_eq_2 reserve_attempt_def
        atomic_run split: prod.splits sum.splits attempt_stop.splits)
qed

section \<open>What a batch does\<close>

text \<open>Free stock covers every line.\<close>

definition stocked :: "(sku \<times> int) list \<Rightarrow> database \<Rightarrow> bool" where
  "stocked lines d \<longleftrightarrow>
     list_all (\<lambda>(s, q). case stock d s of None \<Rightarrow> False | Some row \<Rightarrow> q \<le> on_hand row - reserved row) lines"

definition line_row :: "uuid \<Rightarrow> timestamp \<Rightarrow> sku \<times> int \<Rightarrow> reservation \<Rightarrow> bool" where
  "line_row oid expires line r \<longleftrightarrow>
     res_sku r = fst line \<and> res_qty r = snd line \<and> res_order r = oid \<and> res_status r = HELD \<and>
     res_expires r = expires"

definition asked_qty :: "(sku \<times> int) list \<Rightarrow> sku \<Rightarrow> int" where
  "asked_qty lines s = sum_list (map snd (filter (\<lambda>l. fst l = s) lines))"

text \<open>A held batch: one new \<open>held\<close> row per line, each counted in \<open>reserved\<close>, \<open>on_hand\<close> untouched.\<close>

definition batch_held ::
  "uuid \<Rightarrow> timestamp \<Rightarrow> (sku \<times> int) list \<Rightarrow> reservation list \<Rightarrow> database \<Rightarrow> database \<Rightarrow> bool" where
  "batch_held oid expires lines rows d d' \<longleftrightarrow>
     list_all2 (line_row oid expires) lines rows \<and> reservations d' = reservations d @ rows \<and>
     (\<forall>s. map_option on_hand (stock d' s) = map_option on_hand (stock d s)) \<and>
     (\<forall>s. map_option reserved (stock d' s) = map_option (\<lambda>row. reserved row + asked_qty lines s) (stock d s))"

lemma batch_held_Cons:
  assumes "batch_held oid expires lines rows (hold_line oid expires f s q row d) d'"
    and "s \<notin> fst ` set lines" and row: "stock d s = Some row"
  shows "batch_held oid expires ((s, q) # lines) (held_row s q oid expires (next_uuid d) # rows) d d'"
proof -
  note B = assms(1) [unfolded batch_held_def]
  have "filter (\<lambda>l. fst l = s) lines = []"
    using assms(2) by (auto simp: filter_empty_conv)
  then have "asked_qty lines s = 0" by (simp add: asked_qty_def)
  then have "map_option reserved (stock d' s2) =
      map_option (\<lambda>row. reserved row + asked_qty ((s, q) # lines) s2) (stock d s2)" for s2
    using conjunct2 [OF conjunct2 [OF conjunct2 [OF B]], rule_format, of s2] row
    by (auto simp: hold_line_def asked_qty_def)
  moreover have "map_option on_hand (stock d' s2) = map_option on_hand (stock d s2)" for s2
    using B row by (auto simp: hold_line_def)
  ultimately show ?thesis
    using B by (simp add: batch_held_def line_row_def held_row_def hold_line_def)
qed

lemma place_fresh:
  assumes "distinct (map fst lines)" and "\<forall>(s, q) \<in> set lines. 0 < q"
    and "\<forall>s \<in> fst ` set lines. active_row oid s d = None" and "stocked lines d"
  shows "\<exists>rows d'. place_lines (\<lambda>_. None) oid expires f lines placed d = (Inr (placed @ rows), d') \<and>
     batch_held oid expires lines rows d d'"
  using assms
proof (induction lines arbitrary: placed d)
  case Nil
  then show ?case by (auto simp: batch_held_def asked_qty_def)
next
  case (Cons line lines)
  obtain s q where line: "line = (s, q)" by fastforce
  with Cons.prems(4) obtain row where row: "stock d s = Some row" "q \<le> on_hand row - reserved row"
    by (auto simp: stocked_def split: option.splits)
  have s: "active_row oid s d = None" "0 < q" using Cons.prems(2,3) line by auto
  have fresh: "s \<notin> fst ` set lines" using Cons.prems(1) line by simp
  let ?d = "hold_line oid expires f s q row d"
  let ?r = "held_row s q oid expires (next_uuid d)"
  have "stocked lines ?d"
    using Cons.prems(4) fresh by (force simp: stocked_def hold_line_def list_all_iff line)
  moreover have "\<forall>s2 \<in> fst ` set lines. active_row oid s2 ?d = None"
  proof
    fix s2 assume "s2 \<in> fst ` set lines"
    with fresh Cons.prems(3) show "active_row oid s2 ?d = None" by (subst active_row_hold_line) auto
  qed
  ultimately obtain rows d' where
      "place_lines (\<lambda>_. None) oid expires f lines (placed @ [?r]) ?d = (Inr ((placed @ [?r]) @ rows), d')"
      "batch_held oid expires lines rows ?d d'"
    using Cons.IH [of ?d "placed @ [?r]"] Cons.prems(1,2) by (auto simp: line)
  with row s show ?case
    by (intro exI [of _ "?r # rows"] exI [of _ d']) (auto simp: place_line_new line intro: batch_held_Cons [OF _ fresh])
qed

text \<open>A refused batch names a line the stock does not cover.\<close>

lemma place_refused:
  assumes "distinct (map fst lines)"
    and "place_lines ex oid expires f lines placed d = (Inl e, d')"
    and "e = AttemptRejection s q \<or> e = AttemptNoStockRow s q"
  shows "(s, q) \<in> set lines \<and> \<not> stocked [(s, q)] d"
  using assms
proof (induction lines arbitrary: placed d)
  case (Cons line lines)
  obtain s1 q1 where line: "line = (s1, q1)" by fastforce
  have other: "(s, q) \<in> set lines \<Longrightarrow> s \<noteq> s1"
    using Cons.prems(1) by (force simp: line)
  from Cons.prems(2) consider
      (here) "(s, q) = (s1, q1)" "\<not> stocked [(s, q)] d"
    | (same) p where "place_lines ex oid expires f lines p d = (Inl e, d')"
    | (further) p row where "place_lines ex oid expires f lines p (hold_line oid expires f s1 q1 row d) = (Inl e, d')"
    using Cons.prems(3)
    by (fastforce simp: line place_line_new stocked_def split: option.splits if_splits)
  then show ?case
  proof cases
    case here
    then show ?thesis by (simp add: line)
  next
    case same
    with Cons.IH Cons.prems show ?thesis by auto
  next
    case further
    then have "(s, q) \<in> set lines \<and> \<not> stocked [(s, q)] (hold_line oid expires f s1 q1 row d)"
      using Cons.IH Cons.prems by auto
    with other show ?thesis by (auto simp: stocked_def hold_line_def)
  qed
qed simp

text \<open>Every line already active at the asked quantity: the pass answers those rows and writes nothing.\<close>

lemma place_replayed:
  assumes "list_all2 (\<lambda>l r. ex (fst l) = Some r \<and> res_qty r = snd l) lines rows"
  shows "place_lines ex oid expires f lines placed d = (Inr (placed @ rows), d)"
  using assms
proof (induction lines rows arbitrary: placed rule: list_all2_induct)
  case (Cons l ls r rs)
  then show ?case by (cases l) (auto simp: place_line_new)
qed simp

end
