(* ===== verification/Stock_Ledger.thy ===== *)
theory Stock_Ledger
  imports Stock_Reserve
begin

text \<open>
  What every inventory transaction does to the schema as a whole, beyond keeping \<open>stock_ok\<close>: the
  outbox announces exactly the holds that were placed and given back, a reservation only moves along
  its lifecycle, units are neither lost nor made, and nothing outside the schema is touched.
\<close>

section \<open>Definitions\<close>

definition line_is :: "sku \<Rightarrow> uuid \<Rightarrow> int \<Rightarrow> reservation \<Rightarrow> bool" where
  "line_is s oid q r \<longleftrightarrow> res_sku r = s \<and> res_order r = oid \<and> res_qty r = q"

definition announced :: "event \<Rightarrow> outbox_row list \<Rightarrow> nat" where
  "announced e out = length (filter (\<lambda>x. out_event x = e) out)"

definition stock_events_ok :: "database \<Rightarrow> bool" where
  "stock_events_ok d \<longleftrightarrow>
     (\<forall>s oid q. int (announced (StockReserved s oid q) (inv_outbox d)) = weigh (\<lambda>_. 1) (line_is s oid q) (reservations d) \<and>
        int (announced (StockReleased s oid q) (inv_outbox d)) =
          weigh (\<lambda>_. 1) (\<lambda>r. line_is s oid q r \<and> res_status r = RELEASED) (reservations d))"

definition committed_count :: "uuid \<Rightarrow> database \<Rightarrow> nat" where
  "committed_count oid d = length (order_rows COMMITTED oid d)"

definition units :: "sku \<Rightarrow> database \<Rightarrow> int option" where
  "units s d = map_option (\<lambda>row. on_hand row + committed_qty d s) (stock d s)"

text \<open>The lifecycle of a reservation as the transactions move it.\<close>

fun may_become :: "reservation_status \<Rightarrow> reservation_status \<Rightarrow> bool" where
  "may_become HELD _ = True"
| "may_become COMMITTED st = (st \<noteq> HELD)"
| "may_become RELEASED st = (st = RELEASED)"

definition row_evolves :: "reservation \<Rightarrow> reservation \<Rightarrow> bool" where
  "row_evolves r r' \<longleftrightarrow> r' = r\<lparr>res_status := res_status r'\<rparr> \<and> may_become (res_status r) (res_status r')"

definition rows_evolve :: "reservation list \<Rightarrow> reservation list \<Rightarrow> bool" where
  "rows_evolve rs rs' \<longleftrightarrow>
     list_all2 row_evolves rs (take (length rs) rs') \<and> (\<forall>r \<in> set (drop (length rs) rs'). res_status r = HELD)"

definition other_side :: "database \<Rightarrow> order list \<times> saga_step list \<times> outbox_row list \<times> payment list \<times> outbox_row list \<times> timestamp" where
  "other_side d = (orders d, saga_log d, ord_outbox d, payments d, pay_outbox d, clock d)"

text \<open>The whole effect of a transaction; \<open>give\<close> is the order whose committed rows it may give back.\<close>

definition stock_step :: "uuid option \<Rightarrow> database \<Rightarrow> database \<Rightarrow> bool" where
  "stock_step give d d' \<longleftrightarrow>
     stock_ok d' \<and> stock_events_ok d' \<and> other_side d' = other_side d \<and> next_uuid d \<le> next_uuid d' \<and>
     (\<forall>oid. Some oid \<noteq> give \<longrightarrow> committed_count oid d \<le> committed_count oid d') \<and>
     (\<forall>s. units s d' = units s d) \<and> rows_evolve (reservations d) (reservations d')"

section \<open>Counting\<close>

lemma status_blind_line [simp]: "status_blind (line_is s oid q)"
  by (simp add: status_blind_def line_is_def)

lemma announced_append [simp]: "announced e (out @ out') = announced e out + announced e out'"
  by (simp add: announced_def)

lemma announced_rows_released:
  "int (announced (StockReleased s oid q) (outbox_rows StockReleased t u rows)) = weigh (\<lambda>_. 1) (line_is s oid q) rows"
  "announced (StockReserved s oid q) (outbox_rows StockReleased t u rows) = 0"
  by (induction rows arbitrary: u) (auto simp: announced_def line_is_def)

lemma weigh_mark_blind:
  "status_blind g \<Longrightarrow> status_blind c \<Longrightarrow> weigh g c (update_where p (\<lambda>r. r\<lparr>res_status := st\<rparr>) rs) = weigh g c rs"
  by (induction rs) auto

lemma committed_count_weigh:
  "int (committed_count oid d) = weigh (\<lambda>_. 1) (\<lambda>r. res_order r = oid \<and> res_status r = COMMITTED) (reservations d)"
  by (simp add: committed_count_def order_rows_def weigh_def sum_list_triv)

lemma weigh_ones_nonneg: "0 \<le> weigh (\<lambda>_. 1) p rs"
  by (induction rs) auto

lemma units_eqI:
  assumes "\<And>s. map_option on_hand (stock d' s) = map_option (\<lambda>row. on_hand row + h s) (stock d s)"
    and "\<And>s. committed_qty d' s = committed_qty d s - h s"
  shows "units s d' = units s d"
  using assms(1) [of s] assms(2) [of s] by (cases "stock d s"; cases "stock d' s") (auto simp: units_def)

section \<open>The three closed forms\<close>

lemma rows_evolve_mark:
  assumes "rows_ok d" and "claimed st rows d" and "may_become st st'"
  shows "rows_evolve (reservations d) (reservations (mark_status (map res_id rows) st' d))"
proof -
  have "row_evolves r (if res_id r \<in> res_id ` set rows then r\<lparr>res_status := st'\<rparr> else r)"
    if "r \<in> set (reservations d)" for r
  proof (cases "res_id r \<in> res_id ` set rows")
    case True
    then show ?thesis
      using claimed_id_status(2) [OF assms(1,2) that] assms(3) by (simp add: row_evolves_def)
  next
    case False
    have "may_become x x" for x by (cases x) auto
    with False show ?thesis by (simp add: row_evolves_def)
  qed
  then have "list_all2 row_evolves (reservations d) (reservations (mark_status (map res_id rows) st' d))"
    by (simp add: mark_status_def update_where_def list_all2_map2 list_all2_same)
  then show ?thesis
    by (simp add: rows_evolve_def list_all2_lengthD)
qed

lemma other_side_effects [simp]:
  "other_side (move_stock h r k d) = other_side d"
  "other_side (announce f rows d) = other_side d"
  "other_side (mark_status ids st d) = other_side d"
  by (simp_all add: other_side_def move_stock_def announce_def mark_status_def)

lemma outbox_effects [simp]:
  "inv_outbox (move_stock h r k d) = inv_outbox d"
  "inv_outbox (announce f rows d) = inv_outbox d @ outbox_rows f (clock d) (next_uuid d) rows"
  "inv_outbox (mark_status ids st d) = inv_outbox d"
  "clock (move_stock h r k d) = clock d"
  by (simp_all add: move_stock_def announce_def mark_status_def)

lemmas effect_defs = released_def consumed_def restocked_def give_back_def consume_def put_back_def

text \<open>Marking rows of one status as \<open>released\<close> while announcing each keeps the books.\<close>

lemma stock_events_give:
  assumes "stock_events_ok d" and "rows_ok d" and "claimed st rows d" and "st \<noteq> RELEASED"
  shows "stock_events_ok (mark_status (map res_id rows) RELEASED (announce StockReleased rows (move_stock h r k d)))"
  unfolding stock_events_ok_def
proof (intro allI conjI)
  fix s oid q
  let ?d = "announce StockReleased rows (move_stock h r k d)"
  have ok: "rows_ok ?d" "claimed st rows ?d" using assms by (simp_all add: rows_ok_moved)
  show "int (announced (StockReserved s oid q) (inv_outbox (mark_status (map res_id rows) RELEASED ?d))) =
      weigh (\<lambda>_. 1) (line_is s oid q) (reservations (mark_status (map res_id rows) RELEASED ?d))"
    using assms(1) by (simp add: stock_events_ok_def announced_rows_released weigh_mark_blind mark_status_def)
  show "int (announced (StockReleased s oid q) (inv_outbox (mark_status (map res_id rows) RELEASED ?d))) =
      weigh (\<lambda>_. 1) (\<lambda>r. line_is s oid q r \<and> res_status r = RELEASED) (reservations (mark_status (map res_id rows) RELEASED ?d))"
    using assms(1) weight_arriving [OF ok assms(4), of "\<lambda>_. 1" "line_is s oid q"]
    by (simp add: stock_events_ok_def announced_rows_released)
qed

lemma stock_step_released:
  assumes "stock_ok d" "stock_events_ok d" "claimed HELD rows d"
  shows "stock_step give d (released StockReleased rows d)"
proof -
  have ok: "rows_ok d" using assms(1) by (simp add: stock_ok_def)
  let ?d = "give_back StockReleased rows d"
  have ok': "rows_ok ?d" "claimed HELD rows ?d" using assms ok by (simp_all add: give_back_def rows_ok_moved)
  have "committed_count oid (released StockReleased rows d) = committed_count oid d" for oid
    using weight_untouched [OF ok', of COMMITTED RELEASED "\<lambda>_. 1" "\<lambda>r. res_order r = oid"]
      committed_count_weigh [of oid "released StockReleased rows d"] committed_count_weigh [of oid d]
    by (simp add: released_def give_back_def)
  moreover have "committed_qty (released StockReleased rows d) s = committed_qty d s" for s
    using weight_untouched [OF ok', of COMMITTED RELEASED res_qty "\<lambda>r. res_sku r = s"]
    by (simp add: released_def give_back_def committed_qty_def)
  then have "units s (released StockReleased rows d) = units s d" for s
    by (intro units_eqI [where h = "\<lambda>_. 0"]) (simp_all add: effect_defs move_stock_def option.map_comp comp_def)
  moreover have "rows_evolve (reservations d) (reservations (released StockReleased rows d))"
    using rows_evolve_mark [OF ok' , of RELEASED] by (simp add: released_def give_back_def)
  ultimately show ?thesis
    using stock_ok_released [OF assms(1,3)] stock_events_give [OF assms(2) ok assms(3)]
    by (simp add: stock_step_def) (simp add: effect_defs)
qed

lemma stock_step_consumed:
  assumes "stock_ok d" "stock_events_ok d" "claimed HELD rows d"
  shows "stock_step give d (consumed rows d)"
proof -
  have ok: "rows_ok d" using assms(1) by (simp add: stock_ok_def)
  let ?d = "consume rows d"
  have ok': "rows_ok ?d" "claimed HELD rows ?d" using assms ok by (simp_all add: consume_def rows_ok_moved)
  have "committed_count oid d \<le> committed_count oid (consumed rows d)" for oid
    using weight_arriving [OF ok', of COMMITTED "\<lambda>_. 1" "\<lambda>r. res_order r = oid"]
      committed_count_weigh [of oid "consumed rows d"] committed_count_weigh [of oid d]
      weigh_ones_nonneg [of "\<lambda>r. res_order r = oid" rows]
    by (simp add: consumed_def consume_def)
  moreover have "committed_qty (consumed rows d) s = committed_qty d s + row_total rows s" for s
    using weight_arriving [OF ok', of COMMITTED res_qty "\<lambda>r. res_sku r = s"]
    by (simp add: consumed_def consume_def committed_qty_def row_total_def)
  then have "units s (consumed rows d) = units s d" for s
    by (intro units_eqI [where h = "\<lambda>s. - row_total rows s"])
      (simp_all add: effect_defs move_stock_def option.map_comp comp_def)
  moreover have "rows_evolve (reservations d) (reservations (consumed rows d))"
    using rows_evolve_mark [OF ok', of COMMITTED] by (simp add: consumed_def consume_def)
  moreover have "stock_events_ok (consumed rows d)"
    using assms(2) weight_untouched [OF ok', of RELEASED COMMITTED "\<lambda>_. 1"]
    by (simp add: stock_events_ok_def consumed_def consume_def)
      (simp add: mark_status_def weigh_mark_blind)
  ultimately show ?thesis
    using stock_ok_consumed [OF assms(1,3)] by (simp add: stock_step_def) (simp add: effect_defs)
qed

lemma stock_step_restocked:
  assumes "stock_ok d" "stock_events_ok d" "claimed COMMITTED rows d" and own: "\<And>r. r \<in> set rows \<Longrightarrow> res_order r = oid"
  shows "stock_step (Some oid) d (restocked StockReleased rows d)"
proof -
  have ok: "rows_ok d" using assms(1) by (simp add: stock_ok_def)
  let ?d = "put_back StockReleased rows d"
  have ok': "rows_ok ?d" "claimed COMMITTED rows ?d" using assms ok by (simp_all add: put_back_def rows_ok_moved)
  have "committed_count oid' (restocked StockReleased rows d) = committed_count oid' d" if "oid' \<noteq> oid" for oid'
  proof -
    have "weigh (\<lambda>_. 1) (\<lambda>r. res_order r = oid') rows = 0"
      using own that by (induction rows) auto
    then show ?thesis
      using weight_leaving [OF ok', of RELEASED "\<lambda>_. 1" "\<lambda>r. res_order r = oid'"]
        committed_count_weigh [of oid' "restocked StockReleased rows d"] committed_count_weigh [of oid' d]
      by (simp add: restocked_def put_back_def)
  qed
  moreover have "committed_qty (restocked StockReleased rows d) s = committed_qty d s - row_total rows s" for s
    using weight_leaving [OF ok', of RELEASED res_qty "\<lambda>r. res_sku r = s"]
    by (simp add: restocked_def put_back_def committed_qty_def row_total_def)
  then have "units s (restocked StockReleased rows d) = units s d" for s
    by (intro units_eqI [where h = "row_total rows"])
      (simp_all add: effect_defs move_stock_def option.map_comp comp_def)
  moreover have "rows_evolve (reservations d) (reservations (restocked StockReleased rows d))"
    using rows_evolve_mark [OF ok', of RELEASED] by (simp add: restocked_def put_back_def)
  ultimately show ?thesis
    using stock_ok_restocked [OF assms(1,3)] stock_events_give [OF assms(2) ok assms(3)]
    by (simp add: stock_step_def) (simp add: effect_defs)
qed

section \<open>Reserving\<close>

lemma stock_step_refl: "stock_ok d \<Longrightarrow> stock_events_ok d \<Longrightarrow> stock_step give d d"
proof -
  have "may_become x x" for x by (cases x) auto
  then show "stock_ok d \<Longrightarrow> stock_events_ok d \<Longrightarrow> stock_step give d d"
    by (simp add: stock_step_def rows_evolve_def row_evolves_def list_all2_same)
qed

lemma stock_events_hold_line:
  assumes "stock_events_ok d"
  shows "stock_events_ok (hold_line oid expires StockReserved s q row d)"
  using assms by (auto simp: stock_events_ok_def hold_line_def held_row_def line_is_def announced_def)

text \<open>What placing lines adds: held rows of the order behind the old ones.\<close>

definition only_holds :: "database \<Rightarrow> database \<Rightarrow> bool" where
  "only_holds d d' \<longleftrightarrow>
     (\<exists>new. reservations d' = reservations d @ new \<and> (\<forall>r \<in> set new. res_status r = HELD)) \<and>
     (\<forall>s. map_option on_hand (stock d' s) = map_option on_hand (stock d s)) \<and>
     other_side d' = other_side d \<and> next_uuid d \<le> next_uuid d'"

lemma only_holds_trans: "only_holds d d1 \<Longrightarrow> only_holds d1 d2 \<Longrightarrow> only_holds d d2"
  by (force simp: only_holds_def)

lemma only_holds_hold_line: "stock d s = Some row \<Longrightarrow> only_holds d (hold_line oid expires f s q row d)"
  by (auto simp: only_holds_def hold_line_def held_row_def other_side_def)

lemma place_lines_only_holds:
  assumes "place_lines ex oid expires StockReserved lines placed d = (Inr rows, d')" and "stock_events_ok d"
  shows "only_holds d d' \<and> stock_events_ok d'"
  using assms
proof (induction lines arbitrary: placed d)
  case Nil
  then show ?case by (auto simp: only_holds_def)
next
  case (Cons line lines)
  obtain s q where line: "line = (s, q)" by fastforce
  from Cons.prems(1) consider
      p where "place_lines ex oid expires StockReserved lines p d = (Inr rows, d')"
    | p row where "stock d s = Some row"
        "place_lines ex oid expires StockReserved lines p (hold_line oid expires StockReserved s q row d) = (Inr rows, d')"
    by (auto simp: line place_line_new split: option.splits if_splits)
  then show ?case
  proof cases
    case 1
    with Cons.IH Cons.prems(2) show ?thesis by blast
  next
    case 2
    then show ?thesis
      using Cons.IH stock_events_hold_line [OF Cons.prems(2)] only_holds_hold_line only_holds_trans by blast
  qed
qed

lemma stock_step_only_holds:
  assumes "only_holds d d'" "stock_ok d'" "stock_events_ok d'"
  shows "stock_step give d d'"
proof -
  obtain new where new: "reservations d' = reservations d @ new" "\<forall>r \<in> set new. res_status r = HELD"
    using assms(1) by (auto simp: only_holds_def)
  then have none: "filter (\<lambda>r. p r \<and> res_status r = COMMITTED) new = []" for p
    by (auto simp: filter_empty_conv)
  then have zero: "weigh g (\<lambda>r. p r \<and> res_status r = COMMITTED) new = 0" for g p
    by (simp only: weigh_def list.map sum_list.Nil)
  have "committed_count oid d' = committed_count oid d" for oid
    using none by (simp add: committed_count_def order_rows_def new)
  moreover have "committed_qty d' s = committed_qty d s" for s
    by (simp add: committed_qty_def new zero)
  then have "units s d' = units s d" for s
    using assms(1) by (intro units_eqI [where h = "\<lambda>_. 0"]) (simp_all add: only_holds_def)
  moreover have "may_become x x" for x by (cases x) auto
  then have "rows_evolve (reservations d) (reservations d')"
    using new by (simp add: rows_evolve_def row_evolves_def list_all2_same)
  ultimately show ?thesis
    using assms by (simp add: stock_step_def only_holds_def)
qed

section \<open>The methods\<close>

lemma stock_step_reserve_many:
  assumes "stock_ok d" "stock_events_ok d" "repo_reserve_many lines oid expires StockReserved d = (r, d')"
  shows "stock_step give d d'"
  using reserve_many_outcome [OF assms(3)]
proof (elim disjE exE conjE)
  assume "d' = d"
  with assms show ?thesis by (simp add: stock_step_refl)
next
  fix m rows
  assume att: "reserve_attempt (sort_key fst lines) (map fst (sort_key fst lines)) oid expires StockReserved m d = (Inr rows, d')"
  then have "only_holds d d' \<and> stock_events_ok d'"
    using assms(2) place_lines_only_holds by (auto simp: reserve_attempt_def Let_def atomic_Inr)
  with reserve_attempt_ok [OF assms(1) att] show ?thesis
    by (simp add: stock_step_only_holds)
qed

lemma stock_step_reserve:
  assumes "stock_ok d" "stock_events_ok d" "repo_reserve s q oid expires (StockReserved s oid q) d = (r, d')"
  shows "stock_step give d d'"
proof -
  obtain x d1 where run: "repo_reserve_many [(s, q)] oid expires (\<lambda>_ _ _. StockReserved s oid q) d = (x, d1)"
    by fastforce
  have same: "repo_reserve_many [(s, q)] oid expires (\<lambda>_ _ _. StockReserved s oid q) =
      repo_reserve_many [(s, q)] oid expires StockReserved"
    by (rule reserve_many_factory_cong) simp
  have "d' = d1"
    using assms(3) run by (auto simp: repo_reserve_def bnd_run split: sum.splits)
  with stock_step_reserve_many [OF assms(1,2)] run same show ?thesis by simp
qed

lemma stock_step_release:
  assumes "stock_ok d" "stock_events_ok d" "repo_release rid StockReleased d = (r, d')"
  shows "stock_step give d d'"
  using assms by (auto simp: release_run stock_step_refl split: option.splits
      intro: stock_step_released claimed_single)

lemma stock_step_release_for_order:
  assumes "stock_ok d" "stock_events_ok d" "repo_release_for_order oid StockReleased d = (r, d')"
  shows "stock_step give d d'"
  using assms claimed_order_rows [of d HELD oid]
  by (auto simp: release_for_order_run stock_ok_def intro: stock_step_released)

lemma stock_step_release_expired:
  assumes "stock_ok d" "stock_events_ok d" "repo_release_expired n StockReleased d = (r, d')"
  shows "stock_step give d d'"
  using assms claimed_expired [of d n]
  by (auto simp: release_expired_run stock_ok_def intro: stock_step_released)

lemma stock_step_commit_reservation:
  assumes "stock_ok d" "stock_events_ok d" "repo_commit_reservation rid d = (r, d')"
  shows "stock_step give d d'"
  using assms by (auto simp: commit_reservation_run stock_step_refl split: option.splits
      intro: stock_step_consumed claimed_single)

lemma stock_step_commit_for_order:
  assumes "stock_ok d" "stock_events_ok d" "repo_commit_for_order oid n d = (r, d')"
  shows "stock_step give d d'"
  using assms claimed_order_rows [of d HELD oid]
  by (auto simp: commit_for_order_run Let_def stock_step_refl split: if_splits intro: stock_step_consumed)
    (auto simp: stock_ok_def intro: stock_step_consumed)

lemma stock_step_restock_for_order:
  assumes "stock_ok d" "stock_events_ok d" "repo_restock_for_order oid StockReleased d = (r, d')"
  shows "stock_step (Some oid) d d'"
  using assms claimed_order_rows [of d COMMITTED oid]
  by (auto simp: restock_for_order_run stock_ok_def intro!: stock_step_restocked) (simp add: order_rows_def)

text \<open>What the commit answers is the order's committed total afterwards, and it is all or nothing.\<close>

lemma commit_for_order_count:
  assumes "stock_ok d" "repo_commit_for_order oid n d = (Inr k, d')"
  shows "committed_count oid d' = k"
proof -
  have ok: "rows_ok d" using assms(1) by (simp add: stock_ok_def)
  let ?rows = "order_rows HELD oid d"
  have ok': "rows_ok (consume ?rows d)" "claimed HELD ?rows (consume ?rows d)"
    using ok claimed_order_rows [OF ok] by (simp_all add: consume_def rows_ok_moved)
  have "weigh (\<lambda>_. 1) (\<lambda>r. res_order r = oid) ?rows = int (length ?rows)"
    by (simp add: weigh_def order_rows_def sum_list_triv conj_ac)
  then have "committed_count oid (consumed ?rows d) = committed_count oid d + length ?rows"
    using weight_arriving [OF ok', of COMMITTED "\<lambda>_. 1" "\<lambda>r. res_order r = oid"]
      committed_count_weigh [of oid "consumed ?rows d"] committed_count_weigh [of oid d]
    by (simp add: consumed_def consume_def)
  with assms show ?thesis
    by (auto simp: commit_for_order_run Let_def committed_count_def split: if_splits)
qed

end
