(* ===== verification/Cart_Domain.thy ===== *)
theory Cart_Domain
  imports Schema
begin

text \<open>
  \<^verbatim>\<open>cart/domain/cart.py\<close> and what the Valkey adapter stores: one hash per user, with a field per
  product and the \<open>$meta\<close> field, and one projection per product. A line keeps its price as the text
  the wire carries.
\<close>

record cart_line =
  line_name :: string
  line_price :: string
  line_image :: "string option"
  line_qty :: int
  line_version :: "int option"

record cart_hash =
  hlines :: "(uuid \<times> cart_line) list"
  meta :: "timestamp option"
  expires_at :: timestamp

datatype projection = Tombstone | Projected "int option" string string

text \<open>\<open>HLEN\<close>: the product fields plus \<open>$meta\<close> when it is set.\<close>

definition hlen :: "cart_hash \<Rightarrow> nat" where
  "hlen h = length (hlines h) + (if meta h = None then 0 else 1)"

fun hset :: "uuid \<Rightarrow> cart_line \<Rightarrow> (uuid \<times> cart_line) list \<Rightarrow> (uuid \<times> cart_line) list" where
  "hset p l [] = [(p, l)]"
| "hset p l (f # fs) = (if fst f = p then (p, l) # fs else f # hset p l fs)"

definition hdel :: "uuid \<Rightarrow> (uuid \<times> cart_line) list \<Rightarrow> (uuid \<times> cart_line) list" where
  "hdel p fs = filter (\<lambda>f. fst f \<noteq> p) fs"

definition should_apply_update :: "int option \<Rightarrow> int option \<Rightarrow> bool" where
  "should_apply_update stored incoming =
     (case incoming of
        None \<Rightarrow> stored = None
      | Some i \<Rightarrow> (case stored of None \<Rightarrow> True | Some s \<Rightarrow> i > s))"

lemma map_of_hset: "map_of (hset p l fs) = (map_of fs)(p \<mapsto> l)"
  by (induction fs) (auto simp: fun_eq_iff)

lemma map_of_hdel: "map_of (hdel p fs) = (map_of fs)(p := None)"
  by (induction fs) (auto simp: hdel_def)

lemma fst_hset: "fst ` set (hset p l fs) = insert p (fst ` set fs)"
  by (induction fs) auto

lemma distinct_hset: "distinct (map fst fs) \<Longrightarrow> distinct (map fst (hset p l fs))"
  by (induction fs) (auto simp: fst_hset)

lemma distinct_hdel: "distinct (map fst fs) \<Longrightarrow> distinct (map fst (hdel p fs))"
  by (induction fs) (auto simp: hdel_def)

end
