(* ===== verification/World.thy ===== *)
theory World
  imports Cart_Domain
begin

text \<open>
  The state the services run on: what the processes share (the database, Valkey, the payment
  provider), and how one request meets it. A request is a sequence of calls. Before each call other
  requests may have run (\<open>sched\<close>), and each call may fail (\<open>faults\<close>): the request may be lost before
  it had an effect, or its effect may land with the answer lost (a timeout, a cancelled task, a
  dropped connection, the death of the process). \<open>trail\<close> records the steps the request itself made,
  so that what it guarantees to others can be stated. \<open>counters\<close> are the Prometheus counters.

  A theorem for all \<open>faults\<close> and all \<open>sched\<close> is a theorem for every failure pattern and every
  interleaving at the granularity of calls. Time passes through \<open>sched\<close>.
\<close>

section \<open>Shared state\<close>

record 'g shared =
  db :: database
  carts :: "uuid \<Rightarrow> cart_hash option"
  projections :: "uuid \<Rightarrow> projection option"
  idem :: "uuid \<times> string \<Rightarrow> (string \<times> nat \<times> order) option"
  gate :: 'g

record 'g world =
  sh :: "'g shared"
  faults :: "fault list"
  sched :: "('g shared \<Rightarrow> 'g shared) list"
  trail :: "('g shared \<times> 'g shared) list"
  counters :: "string \<Rightarrow> nat"

type_synonym ('g, 'a) service = "(exn, 'g world, 'a) prog"

section \<open>Calls\<close>

definition interfere :: "'g world \<Rightarrow> 'g shared" where
  "interfere w = (case sched w of [] \<Rightarrow> sh w | i # _ \<Rightarrow> i (sh w))"

definition next_fault :: "'g world \<Rightarrow> fault" where
  "next_fault w = (case faults w of [] \<Rightarrow> Fine | f # _ \<Rightarrow> f)"

definition after_call :: "'g shared \<Rightarrow> ('g shared \<times> 'g shared) list \<Rightarrow> 'g world \<Rightarrow> 'g world" where
  "after_call s steps w =
     w\<lparr>sh := s, faults := tl (faults w), sched := tl (sched w), trail := trail w @ steps\<rparr>"

definition call :: "(exn, 'g shared, 'a) prog \<Rightarrow> ('g, 'a) service" where
  "call step = (\<lambda>w.
     let s = interfere w; (r, s') = step s in
     case next_fault w of
       Fine \<Rightarrow> (r, after_call s' [(s, s')] w)
     | Lost e \<Rightarrow> (Inl e, after_call s [] w)
     | Landed e \<Rightarrow> (Inl e, after_call s' [(s, s')] w))"

text \<open>One database transaction, one call to the payment provider.\<close>

definition on_db :: "'a txn \<Rightarrow> (exn, 'g shared, 'a) prog" where
  "on_db m = (\<lambda>s. let (r, d) = m (db s) in (r, s\<lparr>db := d\<rparr>))"

definition tx :: "'a txn \<Rightarrow> ('g, 'a) service" where
  "tx m = call (on_db (atomic m))"

definition on_gate :: "(timestamp \<Rightarrow> (exn, 'g, 'a) prog) \<Rightarrow> (exn, 'g shared, 'a) prog" where
  "on_gate op = (\<lambda>s. let (r, g) = op (clock (db s)) (gate s) in (r, s\<lparr>gate := g\<rparr>))"

definition inc_by :: "nat \<Rightarrow> string \<Rightarrow> ('g, unit) service" where
  "inc_by n name = modify (\<lambda>w. w\<lparr>counters := (counters w)(name := counters w name + n)\<rparr>)"

abbreviation inc :: "string \<Rightarrow> ('g, unit) service" where
  "inc \<equiv> inc_by 1"

text \<open>\<open>asyncio.timeout\<close>: its own cancellation becomes \<open>TimeoutError\<close>, everything else passes.\<close>

definition with_timeout :: "canceller \<Rightarrow> (exn, 'w, 'a) prog \<Rightarrow> (exn, 'w, 'a) prog" where
  "with_timeout c m = catch m (\<lambda>e. if e = CancelledError c then raise TimeoutError else raise e)"

text \<open>\<open>try: m except Exception: h\<close>.\<close>

definition except_Exception :: "(exn, 'w, 'a) prog \<Rightarrow> (exn \<Rightarrow> (exn, 'w, 'a) prog) \<Rightarrow> (exn, 'w, 'a) prog" where
  "except_Exception m h = catch m (\<lambda>e. if is_Exception e then h e else raise e)"

text \<open>
  A frame with local variables of its own: \<open>run_in\<close> runs a service call in it. What a local was set
  to before an exception is still there in the handler, as in Python.
\<close>

type_synonym ('g, 'l, 'a) frame = "(exn, 'g world \<times> 'l, 'a) prog"

definition run_in :: "('g, 'a) service \<Rightarrow> ('g, 'l, 'a) frame" where
  "run_in m = (\<lambda>(w, l). let (r, w') = m w in (r, (w', l)))"

definition assign :: "('l \<Rightarrow> 'l) \<Rightarrow> ('g, 'l, unit) frame" where
  "assign f = modify (\<lambda>(w, l). (w, f l))"

definition with_locals :: "'l \<Rightarrow> ('g, 'l, 'a) frame \<Rightarrow> ('g, 'a) service" where
  "with_locals l m = (\<lambda>w. let (r, (w', _)) = m (w, l) in (r, w'))"

definition quiet :: "'g shared \<Rightarrow> 'g world" where
  "quiet s = \<lparr>sh = s, faults = [], sched = [], trail = [], counters = (\<lambda>_. 0)\<rparr>"

section \<open>Undisturbed runs\<close>

definition undisturbed :: "'g world \<Rightarrow> bool" where
  "undisturbed w \<longleftrightarrow> faults w = [] \<and> sched w = []"

lemma call_undisturbed:
  "undisturbed w \<Longrightarrow> call step w = (let (r, s') = step (sh w) in (r, after_call s' [(sh w, s')] w))"
  by (simp add: call_def undisturbed_def interfere_def next_fault_def split_beta Let_def)

lemma undisturbed_after [simp]:
  "undisturbed w \<Longrightarrow> undisturbed (after_call s t w)"
  "sh (after_call s t w) = s"
  "counters (after_call s t w) = counters w"
  by (simp_all add: undisturbed_def after_call_def)

section \<open>Rely and guarantee\<close>

text \<open>
  \<open>I\<close> is the invariant of the shared state and \<open>R\<close> what every step of every request respects.
  \<open>env w\<close>: the invariant holds, the others' pending steps respect \<open>R\<close> and so did ours so far.
  \<open>rg P m Q\<close>: started with \<open>P\<close> in such an environment, \<open>m\<close> stays inside it, whatever fails, and a
  returned value satisfies \<open>Q\<close>. Whatever \<open>P\<close> says must be stable.
\<close>

locale rely_guarantee =
  fixes R :: "'g shared \<Rightarrow> 'g shared \<Rightarrow> bool" and I :: "'g shared \<Rightarrow> bool"
  assumes R_refl: "R s s" and I_step: "I s \<Longrightarrow> R s s' \<Longrightarrow> I s'"
begin

definition env :: "'g world \<Rightarrow> bool" where
  "env w \<longleftrightarrow> I (sh w) \<and> (\<forall>i \<in> set (sched w). \<forall>s. I s \<longrightarrow> R s (i s)) \<and> (\<forall>(s, s') \<in> set (trail w). R s s')"

definition stable :: "('g shared \<Rightarrow> bool) \<Rightarrow> bool" where
  "stable P \<longleftrightarrow> (\<forall>s s'. I s \<longrightarrow> R s s' \<longrightarrow> P s \<longrightarrow> P s')"

lemma stable_True [simp]: "stable (\<lambda>_. True)"
  by (simp add: stable_def)

lemma stable_conj [intro]: "stable P \<Longrightarrow> stable Q \<Longrightarrow> stable (\<lambda>s. P s \<and> Q s)"
  unfolding stable_def by blast

lemma stable_imp [intro]: "stable P \<Longrightarrow> stable (\<lambda>s. c \<longrightarrow> P s)"
  unfolding stable_def by blast

definition rgx ::
  "('w \<Rightarrow> 'g world) \<Rightarrow> ('g shared \<Rightarrow> bool) \<Rightarrow> (exn, 'w, 'a) prog \<Rightarrow> ('a \<Rightarrow> 'g shared \<Rightarrow> bool) \<Rightarrow> bool" where
  "rgx wd P m Q \<longleftrightarrow> (\<forall>F. stable F \<longrightarrow>
     hoare (\<lambda>v. (F (sh (wd v)) \<and> P (sh (wd v))) \<and> env (wd v)) m
       (\<lambda>x v. (F (sh (wd v)) \<and> Q x (sh (wd v))) \<and> env (wd v)) (\<lambda>_ v. F (sh (wd v)) \<and> env (wd v)))"

abbreviation rg :: "('g shared \<Rightarrow> bool) \<Rightarrow> ('g, 'a) service \<Rightarrow> ('a \<Rightarrow> 'g shared \<Rightarrow> bool) \<Rightarrow> bool" where
  "rg \<equiv> rgx (\<lambda>w. w)"

abbreviation safe :: "('g, 'a) service \<Rightarrow> bool" where
  "safe m \<equiv> rg (\<lambda>_. True) m (\<lambda>_ _. True)"

lemma rgxI:
  assumes "\<And>F. stable F \<Longrightarrow>
    hoare (\<lambda>v. (F (sh (wd v)) \<and> P (sh (wd v))) \<and> env (wd v)) m
      (\<lambda>x v. (F (sh (wd v)) \<and> Q x (sh (wd v))) \<and> env (wd v)) (\<lambda>_ v. F (sh (wd v)) \<and> env (wd v))"
  shows "rgx wd P m Q"
  using assms by (simp add: rgx_def)

lemma rgxD:
  assumes "rgx wd P m Q" and "stable F"
  shows "hoare (\<lambda>v. (F (sh (wd v)) \<and> P (sh (wd v))) \<and> env (wd v)) m
      (\<lambda>x v. (F (sh (wd v)) \<and> Q x (sh (wd v))) \<and> env (wd v)) (\<lambda>_ v. F (sh (wd v)) \<and> env (wd v))"
  using assms by (simp add: rgx_def)

text \<open>What a triple says of one run.\<close>

lemma rg_run:
  assumes "rg P m Q" and "stable F" and "env w" and "F (sh w)" and "P (sh w)" and "m w = (res, w')"
  shows "F (sh w')" and "env w'" and "\<And>x. res = Inr x \<Longrightarrow> Q x (sh w')"
proof -
  note rgxD [OF assms(1,2), unfolded hoare_def, THEN spec, of w, THEN mp]
  then show "F (sh w')" "env w'" "\<And>x. res = Inr x \<Longrightarrow> Q x (sh w')"
    using assms(3-6) by (cases res; simp)+
qed

text \<open>What is stable is kept, also across an exception.\<close>

lemma rg_frame: "stable F \<Longrightarrow> rgx wd P m Q \<Longrightarrow> rgx wd (\<lambda>s. F s \<and> P s) m (\<lambda>x s. F s \<and> Q x s)"
proof (rule rgxI)
  fix G assume "stable F" "rgx wd P m Q" "stable G"
  then have "stable (\<lambda>s. G s \<and> F s)" by blast
  from rgxD [OF \<open>rgx wd P m Q\<close> this] show "hoare (\<lambda>v. (G (sh (wd v)) \<and> F (sh (wd v)) \<and> P (sh (wd v))) \<and> env (wd v)) m
      (\<lambda>x v. (G (sh (wd v)) \<and> F (sh (wd v)) \<and> Q x (sh (wd v))) \<and> env (wd v)) (\<lambda>_ v. G (sh (wd v)) \<and> env (wd v))"
    by (rule hoare_conseq) auto
qed

lemma rg_conseq: "rgx wd P' m Q' \<Longrightarrow> (\<And>s. P s \<Longrightarrow> P' s) \<Longrightarrow> (\<And>x s. Q' x s \<Longrightarrow> Q x s) \<Longrightarrow> rgx wd P m Q"
  by (rule rgxI, drule (1) rgxD, erule hoare_conseq) auto

lemma rg_keep: "stable F \<Longrightarrow> rgx wd (\<lambda>_. True) m (\<lambda>_ _. True) \<Longrightarrow> rgx wd F m (\<lambda>_. F)"
  by (drule (1) rg_frame) (erule rg_conseq; simp)

lemma rg_weak: "rgx wd (\<lambda>_. True) m (\<lambda>_ _. True) \<Longrightarrow> rgx wd P m (\<lambda>_ _. True)"
  by (erule rg_conseq) auto

lemma rg_ret: "(\<And>s. P s \<Longrightarrow> Q x s) \<Longrightarrow> rgx wd P (ret x) Q"
  by (rule rgxI, rule hoare_ret) auto

text \<open>An assertion about values only is a hypothesis.\<close>

lemma rg_pure: "(b \<Longrightarrow> rgx wd (\<lambda>_. True) m Q) \<Longrightarrow> rgx wd (\<lambda>_. b) m Q"
  by (cases b) (simp_all add: rgx_def hoare_def)

lemma rg_raise: "rgx wd P (raise e) Q"
  by (rule rgxI, rule hoare_raise) auto

lemma rg_bnd: "rgx wd P m S \<Longrightarrow> (\<And>x. rgx wd (S x) (f x) Q) \<Longrightarrow> rgx wd P (bnd m f) Q"
  unfolding rgx_def by (blast intro: hoare_bnd)

lemma rg_thn: "rgx wd P m (\<lambda>_. S) \<Longrightarrow> rgx wd S n Q \<Longrightarrow> rgx wd P (thn m n) Q"
  unfolding thn_def by (rule rg_bnd)

lemma rg_catch:
  assumes "rgx wd P m Q" and "\<And>e. rgx wd (\<lambda>_. True) (h e) Q"
  shows "rgx wd P (catch m h) Q"
proof (rule rgxI)
  fix F assume F: "stable F"
  show "hoare (\<lambda>v. (F (sh (wd v)) \<and> P (sh (wd v))) \<and> env (wd v)) (catch m h)
      (\<lambda>x v. (F (sh (wd v)) \<and> Q x (sh (wd v))) \<and> env (wd v)) (\<lambda>_ v. F (sh (wd v)) \<and> env (wd v))"
    using rgxD [OF assms(1) F] rgxD [OF assms(2) F] by (intro hoare_catch) simp_all
qed

lemma rg_gets: "rgx wd P (gets f) (\<lambda>_. P)"
  by (simp add: rgx_def hoare_def)

lemma rg_inc: "rg P (inc_by n c) (\<lambda>_. P)"
  by (simp add: rgx_def inc_by_def env_def hoare_def)

lemma rg_if: "(b \<Longrightarrow> rgx wd P m Q) \<Longrightarrow> (\<not> b \<Longrightarrow> rgx wd P n Q) \<Longrightarrow> rgx wd P (if b then m else n) Q"
  by simp

lemma rg_case_option:
  "(x = None \<Longrightarrow> rgx wd P m Q) \<Longrightarrow> (\<And>y. x = Some y \<Longrightarrow> rgx wd P (f y) Q) \<Longrightarrow>
     rgx wd P (case x of None \<Rightarrow> m | Some y \<Rightarrow> f y) Q"
  by (cases x) auto

lemma rg_case_sum:
  "(\<And>a. x = Inl a \<Longrightarrow> rgx wd P (f a) Q) \<Longrightarrow> (\<And>b. x = Inr b \<Longrightarrow> rgx wd P (g b) Q) \<Longrightarrow>
     rgx wd P (case x of Inl a \<Rightarrow> f a | Inr b \<Rightarrow> g b) Q"
  by (cases x) auto

lemma rg_case_prod: "(\<And>a b. p = (a, b) \<Longrightarrow> rgx wd P (f a b) Q) \<Longrightarrow> rgx wd P (case p of (a, b) \<Rightarrow> f a b) Q"
  by (cases p) auto

lemma rg_case_bool: "rgx wd P m Q \<Longrightarrow> rgx wd P n Q \<Longrightarrow> rgx wd P (case b of True \<Rightarrow> m | False \<Rightarrow> n) Q"
  by (cases b) auto

lemma rg_with_timeout: "rgx wd P m Q \<Longrightarrow> rgx wd P (with_timeout c m) Q"
  unfolding with_timeout_def by (erule rg_catch) (simp add: rg_raise)

lemma rg_except: "rgx wd P m Q \<Longrightarrow> (\<And>e. rgx wd (\<lambda>_. True) (h e) Q) \<Longrightarrow> rgx wd P (except_Exception m h) Q"
  unfolding except_Exception_def by (erule rg_catch) (simp add: rg_raise)

lemma rg_assign: "rgx fst P (assign f) (\<lambda>_. P)"
  by (auto simp: rgx_def assign_def hoare_def)

lemma hoare_run_in: "hoare P m Q E \<Longrightarrow> hoare (\<lambda>v. P (fst v)) (run_in m) (\<lambda>x v. Q x (fst v)) (\<lambda>e v. E e (fst v))"
  by (fastforce simp: run_in_def hoare_def split: prod.splits sum.splits)

lemma hoare_with_locals:
  "hoare (\<lambda>v. P (fst v)) m (\<lambda>x v. Q x (fst v)) (\<lambda>e v. E e (fst v)) \<Longrightarrow> hoare P (with_locals l m) Q E"
  by (fastforce simp: with_locals_def hoare_def split: prod.splits sum.splits)

lemma rg_run_in: "rg P m Q \<Longrightarrow> rgx fst P (run_in m) Q"
  unfolding rgx_def using hoare_run_in by fastforce

lemma rg_with_locals: "rgx fst P m Q \<Longrightarrow> rg P (with_locals l m) Q"
  unfolding rgx_def by (blast intro: hoare_with_locals)

text \<open>The rules for requests without assertions.\<close>

lemma safe_ret: "rgx wd (\<lambda>_. True) (ret x) (\<lambda>_ _. True)"
  by (simp add: rg_ret)

lemmas safe_rules = rg_bnd [of _ "\<lambda>_. True" _ "\<lambda>_ _. True" _ "\<lambda>_ _. True"]
  rg_thn [of _ "\<lambda>_. True" _ "\<lambda>_. True" _ "\<lambda>_ _. True"] safe_ret rg_gets [of _ "\<lambda>_. True"] rg_inc [of "\<lambda>_. True"]
  rg_assign [of "\<lambda>_. True"] rg_raise rg_if rg_case_option rg_case_sum rg_case_prod rg_case_bool rg_with_timeout rg_run_in
  rg_with_locals rg_catch rg_except

text \<open>The rule everything rests on: a call is one step between the others' steps.\<close>

lemma env_interfere: "env w \<Longrightarrow> I (interfere w) \<and> R (sh w) (interfere w)"
  by (cases "sched w") (auto simp: interfere_def env_def R_refl intro: I_step)

lemma env_after:
  assumes "env w" and "I s" and "\<forall>(a, b) \<in> set t. R a b"
  shows "env (after_call s t w)"
proof -
  have "set (tl (sched w)) \<subseteq> set (sched w)" by (cases "sched w") auto
  with assms show ?thesis by (auto simp: env_def after_call_def)
qed

lemma rg_call:
  assumes st: "stable P" and step: "\<And>s r s'. I s \<Longrightarrow> P s \<Longrightarrow> step s = (r, s') \<Longrightarrow> R s s'"
    and post: "\<And>s x s'. I s \<Longrightarrow> P s \<Longrightarrow> step s = (Inr x, s') \<Longrightarrow> Q x s'"
  shows "rg P (call step) Q"
proof (rule rgxI)
  fix F assume F: "stable F"
  have good: "\<exists>s r s'. step s = (r, s') \<and> I s \<and> P s \<and> F s \<and> F s' \<and> env (after_call s' [(s, s')] w) \<and>
      env (after_call s [] w) \<and> call step w = (case next_fault w of Fine \<Rightarrow> (r, after_call s' [(s, s')] w)
        | Lost e \<Rightarrow> (Inl e, after_call s [] w) | Landed e \<Rightarrow> (Inl e, after_call s' [(s, s')] w))"
    if w: "(F (sh w) \<and> P (sh w)) \<and> env w" for w
  proof -
    let ?s = "interfere w"
    have s: "I ?s" "P ?s" "F ?s" using env_interfere [of w] st F w by (auto simp: stable_def env_def)
    obtain r s' where run: "step ?s = (r, s')" by fastforce
    then have R: "R ?s s'" using step s by blast
    then have "I s'" "F s'" using s F I_step by (auto simp: stable_def)
    then have "env (after_call s' [(?s, s')] w)" "env (after_call ?s [] w)"
      using env_after [of w] w s R by auto
    with run s \<open>F s'\<close> show ?thesis
      by (intro exI [of _ ?s] exI [of _ r] exI [of _ s']) (simp add: call_def Let_def)
  qed
  show "hoare (\<lambda>w. (F (sh w) \<and> P (sh w)) \<and> env w) (call step) (\<lambda>x w. (F (sh w) \<and> Q x (sh w)) \<and> env w)
      (\<lambda>_ w. F (sh w) \<and> env w)"
    by (rule hoareI; drule good; fastforce dest: post split: fault.splits)
qed

lemma rg_tx:
  assumes "stable P"
    and "\<And>s x d. I s \<Longrightarrow> P s \<Longrightarrow> m (db s) = (Inr x, d) \<Longrightarrow> R s (s\<lparr>db := d\<rparr>) \<and> Q x (s\<lparr>db := d\<rparr>)"
  shows "rg P (tx m) Q"
  unfolding tx_def
proof (rule rg_call [OF assms(1)])
  fix s r s' assume I: "I s" and P: "P s" and run: "on_db (atomic m) s = (r, s')"
  obtain r1 d where m: "m (db s) = (r1, d)" by fastforce
  with I P run show "R s s'"
    by (cases r1) (auto simp: on_db_def atomic_run R_refl dest: assms(2))
next
  fix s x s' assume I: "I s" and P: "P s" and run: "on_db (atomic m) s = (Inr x, s')"
  obtain r1 d where m: "m (db s) = (r1, d)" by fastforce
  with I P run show "Q x s'"
    by (cases r1) (auto simp: on_db_def atomic_run dest: assms(2))
qed

lemma rg_gate:
  assumes "stable P" and "\<And>s g. R s (s\<lparr>gate := g\<rparr>)" and "\<And>s g x. P s \<Longrightarrow> Q x (s\<lparr>gate := g\<rparr>)"
  shows "rg P (call (on_gate op)) Q"
  using assms by (intro rg_call) (auto simp: on_gate_def split_beta)

end

end
