(* ===== verification/Inventory_Service.thy ===== *)
theory Inventory_Service
  imports World Inventory_Repository
begin

text \<open>
  \<^verbatim>\<open>inventory/application/service.py\<close>, \<^verbatim>\<open>inventory/application/outbox.py\<close> and the sweep loop of
  \<^verbatim>\<open>inventory/adapters/reaper.py\<close>. Each method is one transaction of the repository plus the
  answer's mapping and its counter. \<open>ttl\<close> is \<open>reservation_ttl_seconds\<close>.
\<close>

section \<open>Reads\<close>

definition svc_get_by_sku :: "sku \<Rightarrow> ('g, inventory_row option) service" where
  "svc_get_by_sku s = tx (get_by_sku s)"

definition svc_get_many_by_skus :: "sku list \<Rightarrow> ('g, sku \<Rightarrow> inventory_row option) service" where
  "svc_get_many_by_skus skus = tx (get_many_by_skus skus)"

section \<open>The stock upsert\<close>

text \<open>
  \<open>upsert\<close> is the repository method the service calls with \<open>expected_version=if_match\<close>;
  \<open>ownership\<close> resolves a SKU to its merchant, and is wired on the HTTP path only.
\<close>

definition upsert_txn ::
  "(sku \<Rightarrow> int \<Rightarrow> int option \<Rightarrow> inventory_row option txn) \<Rightarrow> sku \<Rightarrow> int \<Rightarrow> int option \<Rightarrow> inventory_row option txn" where
  "upsert_txn upsert s n if_match =
     bnd (upsert s n if_match) (\<lambda>row.
       case row of
         Some r \<Rightarrow> ret (Some r)
       | None \<Rightarrow>
           bnd (get_by_sku s) (\<lambda>current.
             if if_match \<noteq> None \<and> (current = None \<or> map_option version current \<noteq> if_match)
             then raise (PreconditionFailedError s)
             else raise (StockBelowReservedError s n (case current of None \<Rightarrow> 0 | Some r \<Rightarrow> reserved r))))"

definition svc_upsert_stock ::
  "(sku \<Rightarrow> int \<Rightarrow> int option \<Rightarrow> inventory_row option txn) \<Rightarrow> (sku \<Rightarrow> uuid option) option \<Rightarrow>
   sku \<Rightarrow> int \<Rightarrow> uuid option \<Rightarrow> bool \<Rightarrow> int option \<Rightarrow> ('g, inventory_row option) service" where
  "svc_upsert_stock upsert ownership s n caller is_admin if_match =
     (case ownership of
        None \<Rightarrow> tx (upsert_txn upsert s n if_match)
      | Some owner_of \<Rightarrow>
          (case owner_of s of
             None \<Rightarrow> ret None
           | Some owner \<Rightarrow>
               if Some owner \<noteq> caller \<and> \<not> is_admin
               then raise (AuthorizationError ''not the owner of this product'')
               else tx (upsert_txn upsert s n if_match)))"

text \<open>
  What the wired repository does with that call: \<open>InventoryRepository.upsert_stock(self, sku, on_hand)\<close>
  has no parameter \<open>expected_version\<close>, so Python refuses the call before its body runs.
\<close>

definition wired_upsert :: "sku \<Rightarrow> int \<Rightarrow> int option \<Rightarrow> inventory_row option txn" where
  "wired_upsert s n v = raise (TypeError ''upsert_stock() got an unexpected keyword argument expected_version'')"

section \<open>Reserving\<close>

definition count_conflict :: "('g, 'a) service \<Rightarrow> ('g, 'a) service" where
  "count_conflict m = catch m (\<lambda>e.
     case e of
       ReservationConflictError _ _ _ \<Rightarrow> thn (inc ''reservation_conflict_total'') (raise e)
     | _ \<Rightarrow> raise e)"

definition svc_reserve :: "int \<Rightarrow> sku \<Rightarrow> int \<Rightarrow> uuid \<Rightarrow> ('g, reservation) service" where
  "svc_reserve ttl s q oid =
     (if q \<le> 0 then raise (InvalidReservationError s q)
      else bnd (count_conflict (tx (\<lambda>d.
             repo_reserve s q oid (clock d + seconds ttl) (StockReserved s oid q) d))) (\<lambda>row.
             case row of
               None \<Rightarrow> thn (inc ''oversell_blocked_total'') (raise (InsufficientStockError s q))
             | Some r \<Rightarrow> ret r))"

text \<open>The validation loop of \<open>reserve_many\<close>: quantities positive, no SKU twice.\<close>

fun check_lines :: "(sku \<times> int) list \<Rightarrow> sku list \<Rightarrow> exn option" where
  "check_lines [] seen = None"
| "check_lines ((s, q) # lines) seen =
     (if q \<le> 0 then Some (InvalidReservationError s q)
      else if s \<in> set seen then Some (InvalidReservationError s q)
      else check_lines lines (s # seen))"

definition svc_reserve_many :: "int \<Rightarrow> (sku \<times> int) list \<Rightarrow> uuid \<Rightarrow> ('g, reservation list) service" where
  "svc_reserve_many ttl lines oid =
     (if lines = [] then ret []
      else case check_lines lines [] of
        Some e \<Rightarrow> raise e
      | None \<Rightarrow>
          bnd (count_conflict (tx (\<lambda>d.
                 repo_reserve_many lines oid (clock d + seconds ttl) StockReserved d))) (\<lambda>answer.
            case answer of
              Inl rej \<Rightarrow> thn (inc ''oversell_blocked_total'') (raise (InsufficientStockError (rej_sku rej) (rej_qty rej)))
            | Inr rows \<Rightarrow> ret rows))"

section \<open>Releasing, restocking, committing\<close>

definition svc_release :: "uuid \<Rightarrow> ('g, bool) service" where
  "svc_release rid = tx (repo_release rid StockReleased)"

definition svc_release_for_order :: "uuid \<Rightarrow> ('g, nat) service" where
  "svc_release_for_order oid = tx (repo_release_for_order oid StockReleased)"

definition svc_restock_for_order :: "uuid \<Rightarrow> ('g, nat) service" where
  "svc_restock_for_order oid = tx (repo_restock_for_order oid StockReleased)"

definition svc_commit_for_order :: "uuid \<Rightarrow> nat \<Rightarrow> ('g, nat) service" where
  "svc_commit_for_order oid expected = tx (repo_commit_for_order oid expected)"

definition svc_commit_reservation :: "uuid \<Rightarrow> ('g, bool) service" where
  "svc_commit_reservation rid = tx (repo_commit_reservation rid)"

definition svc_release_expired :: "nat \<Rightarrow> ('g, nat) service" where
  "svc_release_expired batch =
     bnd (tx (repo_release_expired batch StockReleased)) (\<lambda>n.
       thn (if n \<noteq> 0 then inc_by n ''reaper_released_total'' else ret ()) (ret n))"

section \<open>The reaper\<close>

text \<open>
  One turn of \<open>ReservationReaper.run\<close>: a failed pass counts as nothing released, and only a pass
  that released less than a batch sleeps (\<open>True\<close>).
\<close>

definition reaper_turn :: "nat \<Rightarrow> ('g, bool) service" where
  "reaper_turn batch =
     bnd (except_Exception (svc_release_expired batch) (\<lambda>_. ret 0)) (\<lambda>released. ret (released < batch))"

text \<open>Turns until the reaper sleeps, at most \<open>n\<close> of them; the answer tells whether it went to sleep.\<close>

fun reaper_drain :: "nat \<Rightarrow> nat \<Rightarrow> ('g, bool) service" where
  "reaper_drain 0 batch = ret False"
| "reaper_drain (Suc n) batch =
     bnd (reaper_turn batch) (\<lambda>sleeps. if sleeps then ret True else reaper_drain n batch)"

end
