(* ===== verification/Codec.thy ===== *)
theory Codec
  imports Schema
begin

text \<open>
  What the code uses of Python's text codecs: \<open>int(text)\<close>, \<open>str(int)\<close>, \<open>json.dumps\<close> and
  \<open>json.loads\<close>, \<open>base64.urlsafe_b64encode\<close> and its decoder, and \<open>uuid.UUID(text)\<close>. Text is one byte
  per character: an escape beyond that reads as a question mark. A JSON number is kept as its text.
\<close>

section \<open>Integers\<close>

text \<open>Python's \<open>int(text)\<close> on ASCII: blanks around, a sign, digits with single underscores between.\<close>

fun underscored_digits :: "string \<Rightarrow> bool" where
  "underscored_digits [] = False"
| "underscored_digits [c] = is_digit c"
| "underscored_digits (c # e # s) =
     (is_digit c \<and> (if e = CHR ''_'' then underscored_digits s else underscored_digits (e # s)))"

definition is_blank :: "char \<Rightarrow> bool" where
  "is_blank c \<longleftrightarrow> of_char c \<in> {9 :: nat, 10, 11, 12, 13, 28, 29, 30, 31, 32}"

definition strip :: "string \<Rightarrow> string" where
  "strip s = rev (dropWhile is_blank (rev (dropWhile is_blank s)))"

definition py_int :: "string \<Rightarrow> int option" where
  "py_int s =
     (let t = strip s; signed = (t \<noteq> [] \<and> (hd t = CHR ''-'' \<or> hd t = CHR ''+''));
          ds = (if signed then tl t else t) in
      if \<not> underscored_digits ds then None
      else Some ((if signed \<and> hd t = CHR ''-'' then -1 else 1) * digits_value (filter is_digit ds)))"

fun str_nat :: "nat \<Rightarrow> string" where
  "str_nat n = (if n < 10 then [char_of (48 + n)] else str_nat (n div 10) @ [char_of (48 + n mod 10)])"

declare str_nat.simps [simp del]

definition str_int :: "int \<Rightarrow> string" where
  "str_int i = (if i < 0 then ''-'' @ str_nat (nat (- i)) else str_nat (nat i))"

lemma is_digit_char [simp]: "n < 10 \<Longrightarrow> is_digit (char_of (48 + n :: nat))"
  by (simp add: is_digit_def)

lemma digit_of_char: "n < 10 \<Longrightarrow> (of_char (char_of (48 + n :: nat)) :: int) = 48 + int n"
proof -
  assume n: "n < 10"
  have "(of_char (char_of (48 + n)) :: int) = int (of_char (char_of (48 + n)))" by (rule of_nat_of_char [symmetric])
  also have "\<dots> = int (48 + n)" using n by (simp only: of_char_of) simp
  finally show ?thesis by simp
qed

lemma str_nat_digits: "list_all is_digit (str_nat n) \<and> str_nat n \<noteq> []"
proof (induction n rule: str_nat.induct)
  case (1 n)
  then show ?case by (subst (1 2) str_nat.simps) auto
qed

lemma digits_value_append: "digits_value (ds @ [c]) = 10 * digits_value ds + (of_char c - 48)"
  by (simp add: digits_value_def)

lemma digits_value_str_nat: "digits_value (str_nat n) = int n"
proof (induction n rule: str_nat.induct)
  case (1 n)
  show ?case
  proof (cases "n < 10")
    case True
    then show ?thesis by (subst str_nat.simps) (simp add: digits_value_def digit_of_char)
  next
    case False
    with 1 have "digits_value (str_nat (n div 10)) = int (n div 10)" by simp
    moreover have "int n = 10 * int (n div 10) + int (n mod 10)" by presburger
    ultimately show ?thesis
      using False by (subst str_nat.simps) (simp add: digits_value_append digit_of_char)
  qed
qed

lemma underscored_plain: "list_all is_digit s \<Longrightarrow> s \<noteq> [] \<Longrightarrow> underscored_digits s"
proof (induction s rule: underscored_digits.induct)
  case (3 c e s)
  then show ?case by (auto simp: is_digit_def)
qed auto

lemma digit_not_blank: "is_digit c \<Longrightarrow> \<not> is_blank c \<and> c \<noteq> CHR ''-'' \<and> c \<noteq> CHR ''+''"
  by (auto simp: is_digit_def is_blank_def)

lemma strip_unblank:
  assumes "s \<noteq> []" "\<not> is_blank (hd s)" "\<not> is_blank (last s)"
  shows "strip s = s"
proof -
  have 1: "dropWhile is_blank s = s" using assms by (cases s) auto
  have "dropWhile is_blank (rev s) = rev s"
    using assms by (cases s rule: rev_cases) auto
  with 1 show ?thesis by (simp add: strip_def)
qed

lemma py_int_str_int: "py_int (str_int i) = Some i"
proof -
  define ds where "ds = str_nat (nat \<bar>i\<bar>)"
  have ds: "list_all is_digit ds" "ds \<noteq> []" using str_nat_digits by (simp_all add: ds_def)
  then have ends: "is_digit (hd ds)" "is_digit (last ds)" by (auto simp: list_all_iff)
  have str: "str_int i = (if i < 0 then ''-'' @ ds else ds)" by (simp add: str_int_def ds_def)
  have "strip (str_int i) = str_int i"
    using ds(2) ends digit_not_blank by (intro strip_unblank) (auto simp: str is_blank_def)
  moreover have "filter is_digit ds = ds" using ds(1) by (simp add: filter_id_conv list_all_iff)
  moreover have "digits_value ds = \<bar>i\<bar>" by (simp add: ds_def digits_value_str_nat)
  ultimately show ?thesis
    using ds ends digit_not_blank [OF ends(1)] underscored_plain [OF ds]
    by (auto simp: py_int_def Let_def str)
qed

section \<open>JSON\<close>

text \<open>
  \<open>json.dumps\<close> of a string with its default \<open>ensure_ascii\<close>: everything outside the printable range
  is escaped.
\<close>

definition json_char :: "char \<Rightarrow> string" where
  "json_char c =
     (if c = CHR 0x22 then [CHR 0x5C, CHR 0x22] else if c = CHR 0x5C then [CHR 0x5C, CHR 0x5C]
      else if c = CHR 0x0A then [CHR 0x5C, CHR ''n''] else if c = CHR 0x0D then [CHR 0x5C, CHR ''r'']
      else if c = CHR 0x09 then [CHR 0x5C, CHR ''t''] else if c = CHR 0x08 then [CHR 0x5C, CHR ''b'']
      else if c = CHR 0x0C then [CHR 0x5C, CHR ''f'']
      else if of_char c < (32 :: nat) \<or> (126 :: nat) < of_char c
      then [CHR 0x5C] @ ''u00'' @ [hex_digit (of_char c div 16), hex_digit (of_char c mod 16)]
      else [c])"

definition json_quoted :: "string \<Rightarrow> string" where
  "json_quoted s = CHR 0x22 # concat (map json_char s) @ [CHR 0x22]"

text \<open>\<open>json.dumps([a, b])\<close>.\<close>

definition json_pair :: "string \<Rightarrow> string \<Rightarrow> string" where
  "json_pair a b = ''['' @ json_quoted a @ '', '' @ json_quoted b @ '']''"

datatype json = JNull | JBool bool | JNum string | JStr string | JList "json list" | JObj "(string \<times> json) list"

definition is_json_blank :: "char \<Rightarrow> bool" where
  "is_json_blank c \<longleftrightarrow> of_char c \<in> {9 :: nat, 10, 13, 32}"

definition skip :: "string \<Rightarrow> string" where
  "skip s = dropWhile is_json_blank s"

definition is_hex :: "char \<Rightarrow> bool" where
  "is_hex c \<longleftrightarrow> is_digit c \<or> 97 \<le> (of_char c :: nat) \<and> of_char c \<le> (102 :: nat) \<or> 65 \<le> (of_char c :: nat) \<and> of_char c \<le> (70 :: nat)"

definition hex_val :: "char \<Rightarrow> nat" where
  "hex_val c = (if is_digit c then of_char c - 48 else if 97 \<le> (of_char c :: nat) then of_char c - 87 else of_char c - 55)"

definition simple_escape :: "char \<Rightarrow> char option" where
  "simple_escape e =
     (if e \<in> {CHR 0x22, CHR 0x5C, CHR ''/''} then Some e else if e = CHR ''n'' then Some (CHR 0x0A)
      else if e = CHR ''r'' then Some (CHR 0x0D) else if e = CHR ''t'' then Some (CHR 0x09)
      else if e = CHR ''b'' then Some (CHR 0x08) else if e = CHR ''f'' then Some (CHR 0x0C) else None)"

definition unicode_escape :: "string \<Rightarrow> char option" where
  "unicode_escape ds =
     (if length ds = 4 \<and> list_all is_hex ds
      then let n = foldl (\<lambda>a c. 16 * a + hex_val c) 0 ds in Some (if n < 256 then char_of n else CHR ''?'')
      else None)"

text \<open>The rest of a string after its opening quote: the text and what follows the closing quote.\<close>

function json_str :: "string \<Rightarrow> (string \<times> string) option" where
  "json_str s =
     (case s of
        [] \<Rightarrow> None
      | c # cs \<Rightarrow>
          if c = CHR 0x22 then Some ([], cs)
          else if c = CHR 0x5C
          then (case cs of
                  [] \<Rightarrow> None
                | e # ds \<Rightarrow>
                    (case simple_escape e of
                       Some x \<Rightarrow> map_option (\<lambda>(t, r). (x # t, r)) (json_str ds)
                     | None \<Rightarrow>
                         if e = CHR ''u''
                         then (case unicode_escape (take 4 ds) of
                                 Some x \<Rightarrow> map_option (\<lambda>(t, r). (x # t, r)) (json_str (drop 4 ds))
                               | None \<Rightarrow> None)
                         else None))
          else if of_char c < (32 :: nat) then None
          else map_option (\<lambda>(t, r). (c # t, r)) (json_str cs))"
  by pat_completeness auto
termination
  by (relation "measure length") auto

declare json_str.simps [simp del]

definition json_int :: "string \<Rightarrow> string \<times> string" where
  "json_int s = (case s of [] \<Rightarrow> ([], []) | c # cs \<Rightarrow> if c = CHR ''0'' then ([c], cs) else (takeWhile is_digit s, dropWhile is_digit s))"

definition json_frac :: "string \<Rightarrow> string \<times> string" where
  "json_frac s = (case s of c # d # cs \<Rightarrow>
     if c = CHR ''.'' \<and> is_digit d then (c # takeWhile is_digit (d # cs), dropWhile is_digit (d # cs)) else ([], s) | _ \<Rightarrow> ([], s))"

definition json_exp :: "string \<Rightarrow> string \<times> string" where
  "json_exp s = (case s of
     [] \<Rightarrow> ([], s)
   | c # cs \<Rightarrow>
       let sg = takeWhile (\<lambda>x. x = CHR ''+'' \<or> x = CHR ''-'') (take 1 cs); ds = drop (length sg) cs in
       if (c = CHR ''e'' \<or> c = CHR ''E'') \<and> ds \<noteq> [] \<and> is_digit (hd ds)
       then (c # sg @ takeWhile is_digit ds, dropWhile is_digit ds) else ([], s))"

definition json_num :: "string \<Rightarrow> (string \<times> string) option" where
  "json_num s =
     (let (sg, s1) = (case s of c # cs \<Rightarrow> if c = CHR ''-'' then ([c], cs) else ([], s) | [] \<Rightarrow> ([], s));
          (ip, s2) = json_int s1; (fp, s3) = json_frac s2; (ep, s4) = json_exp s3 in
      if ip = [] then None else Some (sg @ ip @ fp @ ep, s4))"

definition json_word :: "(string \<times> json) list" where
  "json_word = [(''null'', JNull), (''true'', JBool True), (''false'', JBool False), (''NaN'', JNum ''NaN''),
     (''Infinity'', JNum ''Infinity''), (''-Infinity'', JNum ''-Infinity'')]"

text \<open>
  Values, with fuel. A level of nesting takes one character and two units of fuel, a further element
  at least one of each, so twice the length of the text is enough.
\<close>

fun json_val :: "nat \<Rightarrow> string \<Rightarrow> (json \<times> string) option"
  and json_elems :: "nat \<Rightarrow> string \<Rightarrow> (json list \<times> string) option"
  and json_members :: "nat \<Rightarrow> string \<Rightarrow> ((string \<times> json) list \<times> string) option" where
  "json_val 0 s = None"
| "json_val (Suc n) s =
     (case s of
        [] \<Rightarrow> None
      | c # cs \<Rightarrow>
          if c = CHR 0x22 then map_option (\<lambda>(t, r). (JStr t, r)) (json_str cs)
          else if c = CHR ''[''
          then (let r = skip cs in
                if r \<noteq> [] \<and> hd r = CHR '']'' then Some (JList [], tl r)
                else map_option (\<lambda>(vs, r). (JList vs, r)) (json_elems n r))
          else if c = CHR ''{''
          then (let r = skip cs in
                if r \<noteq> [] \<and> hd r = CHR ''}'' then Some (JObj [], tl r)
                else map_option (\<lambda>(vs, r). (JObj vs, r)) (json_members n r))
          else (case find (\<lambda>(w, v). take (length w) s = w) json_word of
                  Some (w, v) \<Rightarrow> Some (v, drop (length w) s)
                | None \<Rightarrow> map_option (\<lambda>(t, r). (JNum t, r)) (json_num s)))"
| "json_elems 0 s = None"
| "json_elems (Suc n) s =
     (case json_val n s of
        None \<Rightarrow> None
      | Some (v, r) \<Rightarrow>
          (case skip r of
             [] \<Rightarrow> None
           | c # r' \<Rightarrow>
               if c = CHR '','' then map_option (\<lambda>(vs, q). (v # vs, q)) (json_elems n (skip r'))
               else if c = CHR '']'' then Some ([v], r') else None))"
| "json_members 0 s = None"
| "json_members (Suc n) s =
     (case s of
        [] \<Rightarrow> None
      | c # cs \<Rightarrow>
          if c \<noteq> CHR 0x22 then None
          else (case json_str cs of
             None \<Rightarrow> None
           | Some (k, r) \<Rightarrow>
               (case skip r of
                  [] \<Rightarrow> None
                | d # r1 \<Rightarrow>
                    if d \<noteq> CHR '':'' then None
                    else (case json_val n (skip r1) of
                       None \<Rightarrow> None
                     | Some (v, r2) \<Rightarrow>
                         (case skip r2 of
                            [] \<Rightarrow> None
                          | e # r3 \<Rightarrow>
                              if e = CHR '','' then map_option (\<lambda>(vs, q). ((k, v) # vs, q)) (json_members n (skip r3))
                              else if e = CHR ''}'' then Some ([(k, v)], r3) else None)))))"

definition json_loads :: "string \<Rightarrow> json option" where
  "json_loads s =
     (case json_val (2 * length s + 2) (skip s) of
        Some (v, r) \<Rightarrow> if skip r = [] then Some v else None
      | None \<Rightarrow> None)"

lemma hex_digit_props: "d < 16 \<Longrightarrow> is_hex (hex_digit d)" "d < 16 \<Longrightarrow> hex_val (hex_digit d) = d"
  by (auto simp: is_hex_def hex_val_def hex_digit_def is_digit_def)

lemma unicode_escape_char: "unicode_escape [CHR ''0'', CHR ''0'', hex_digit (of_char c div 16), hex_digit (of_char c mod 16)] = Some c"
proof -
  have "(of_char c :: nat) div 16 < 16" using nat_of_char_less_256 [of c] by linarith
  moreover have "hex_val (CHR ''0'') = 0" "is_hex (CHR ''0'')" by code_simp+
  ultimately show ?thesis by (simp add: unicode_escape_def hex_digit_props Let_def)
qed

lemma json_str_simple: "simple_escape e = Some x \<Longrightarrow> json_str (CHR 0x5C # e # s) = map_option (\<lambda>(t, r). (x # t, r)) (json_str s)"
  by (subst json_str.simps) simp

lemma json_str_plain:
  "c \<noteq> CHR 0x22 \<Longrightarrow> c \<noteq> CHR 0x5C \<Longrightarrow> 32 \<le> (of_char c :: nat) \<Longrightarrow> json_str (c # s) = map_option (\<lambda>(t, r). (c # t, r)) (json_str s)"
  by (subst json_str.simps) simp

lemma json_str_unicode:
  "unicode_escape [a, b, c, d] = Some x \<Longrightarrow>
     json_str (CHR 0x5C # CHR ''u'' # a # b # c # d # s) = map_option (\<lambda>(t, r). (x # t, r)) (json_str s)"
  by (subst json_str.simps) (simp add: simple_escape_def)

lemma json_str_char: "json_str (json_char c @ s) = map_option (\<lambda>(t, r). (c # t, r)) (json_str s)"
proof -
  have esc: "simple_escape (CHR 0x22) = Some (CHR 0x22)" "simple_escape (CHR 0x5C) = Some (CHR 0x5C)"
      "simple_escape (CHR ''n'') = Some (CHR 0x0A)" "simple_escape (CHR ''r'') = Some (CHR 0x0D)"
      "simple_escape (CHR ''t'') = Some (CHR 0x09)" "simple_escape (CHR ''b'') = Some (CHR 0x08)"
      "simple_escape (CHR ''f'') = Some (CHR 0x0C)"
    by code_simp+
  show ?thesis
    unfolding json_char_def
    by (auto simp: esc [THEN json_str_simple] json_str_plain json_str_unicode [OF unicode_escape_char])
qed

lemma json_str_quoted: "json_str (concat (map json_char s) @ CHR 0x22 # r) = Some (s, r)"
proof (induction s)
  case Nil
  then show ?case by (subst json_str.simps) simp
next
  case (Cons c s)
  then show ?case by (simp add: json_str_char)
qed

lemma json_val_quoted: "json_val (Suc n) (json_quoted s @ r) = Some (JStr s, r)"
  by (simp add: json_quoted_def json_str_quoted)

lemma skip_simps [simp]: "skip [] = []" "skip (json_quoted s @ r) = json_quoted s @ r" "skip (CHR '' '' # r) = skip r"
    "skip (CHR '']'' # r) = CHR '']'' # r" "skip (CHR '','' # r) = CHR '','' # r" "skip (CHR ''['' # r) = CHR ''['' # r"
  by (simp_all add: skip_def is_json_blank_def json_quoted_def)

lemma json_loads_pair: "json_loads (json_pair a b) = Some (JList [JStr a, JStr b])"
proof -
  have quoted: "json_quoted a @ r \<noteq> []" "hd (json_quoted a @ r) \<noteq> CHR '']''" for a r by (simp_all add: json_quoted_def)
  have last: "json_elems (Suc (Suc n)) (json_quoted b @ '']'') = Some ([JStr b], [])" for n
    by (subst json_elems.simps, subst json_val_quoted) simp
  have elems: "json_elems (Suc (Suc (Suc n))) (json_quoted a @ '', '' @ json_quoted b @ '']'') = Some ([JStr a, JStr b], [])" for n
    by (subst json_elems.simps, subst json_val_quoted) (simp add: last del: json_elems.simps)
  have val: "json_val (Suc (Suc (Suc (Suc n)))) (json_pair a b) = Some (JList [JStr a, JStr b], [])" for n
    unfolding json_pair_def by (simp add: elems [unfolded append_Cons append_Nil] quoted del: json_elems.simps append_is_Nil_conv)
  have "2 * length (json_pair a b) + 2 = Suc (Suc (Suc (Suc (2 * length (json_pair a b) - 2))))"
    by (simp add: json_pair_def json_quoted_def)
  moreover have "skip (json_pair a b) = json_pair a b" by (simp add: json_pair_def)
  ultimately show ?thesis unfolding json_loads_def by (simp only: val option.case prod.case) simp
qed

section \<open>Base64\<close>

text \<open>\<open>base64.urlsafe_b64encode\<close>: bytes to text, with its padding.\<close>

definition b64_char :: "nat \<Rightarrow> char" where
  "b64_char n =
     (if n < 26 then char_of (65 + n) else if n < 52 then char_of (71 + n) else if n < 62 then char_of (n - 4)
      else if n = 62 then CHR ''-'' else CHR ''_'')"

fun b64_encode :: "string \<Rightarrow> string" where
  "b64_encode [] = []"
| "b64_encode [a] = [b64_char (of_char a div 4), b64_char (of_char a mod 4 * 16), CHR ''='', CHR ''='']"
| "b64_encode [a, b] =
     [b64_char (of_char a div 4), b64_char (of_char a mod 4 * 16 + of_char b div 16), b64_char (of_char b mod 16 * 4), CHR ''='']"
| "b64_encode (a # b # c # s) =
     [b64_char (of_char a div 4), b64_char (of_char a mod 4 * 16 + of_char b div 16),
      b64_char (of_char b mod 16 * 4 + of_char c div 64), b64_char (of_char c mod 64)] @ b64_encode s"

text \<open>The decoder takes the alphabet of both flavours.\<close>

definition b64_val :: "char \<Rightarrow> nat option" where
  "b64_val c =
     (let n = of_char c :: nat in
      if 65 \<le> n \<and> n \<le> 90 then Some (n - 65) else if 97 \<le> n \<and> n \<le> 122 then Some (n - 71)
      else if 48 \<le> n \<and> n \<le> 57 then Some (n + 4) else if n = 45 \<or> n = 43 then Some 62
      else if n = 95 \<or> n = 47 then Some 63 else None)"

text \<open>
  \<open>binascii.a2b_base64\<close> without strict mode: characters outside the alphabet are passed over, a
  complete padding ends the data, and data that ends inside a group of four is an error. \<open>q\<close> is
  the position in the group, \<open>left\<close> the bits carried over.
\<close>

fun b64_run :: "nat \<Rightarrow> nat \<Rightarrow> nat \<Rightarrow> string \<Rightarrow> string option" where
  "b64_run q left pads [] = (if q = 0 then Some [] else None)"
| "b64_run q left pads (c # cs) =
     (if c = CHR ''=''
      then (if 2 \<le> q \<and> 4 \<le> q + Suc pads then Some [] else b64_run q left (if 2 \<le> q then Suc pads else pads) cs)
      else case b64_val c of
        None \<Rightarrow> b64_run q left pads cs
      | Some v \<Rightarrow>
          if q = 0 then b64_run 1 v 0 cs
          else if q = 1 then map_option ((#) (char_of (left * 4 + v div 16))) (b64_run 2 (v mod 16) 0 cs)
          else if q = 2 then map_option ((#) (char_of (left * 16 + v div 4))) (b64_run 3 (v mod 4) 0 cs)
          else map_option ((#) (char_of (left * 64 + v))) (b64_run 0 0 0 cs))"

definition b64_decode :: "string \<Rightarrow> string option" where
  "b64_decode s = b64_run 0 0 0 s"

lemma b64_val_char: "n < 64 \<Longrightarrow> b64_val (b64_char n) = Some n \<and> b64_char n \<noteq> CHR ''=''"
proof -
  assume n: "n < 64"
  have "of_char (b64_char n) = (if n < 26 then 65 + n else if n < 52 then 71 + n else if n < 62 then n - 4 else if n = 62 then 45 else 95)"
    using n by (simp add: b64_char_def)
  then have v: "b64_val (b64_char n) = Some n" using n by (auto simp: b64_val_def Let_def)
  have "b64_val (CHR ''='') = None" by code_simp
  with v show ?thesis by auto
qed

lemma b64_run_char: "n < 64 \<Longrightarrow> b64_run q left pads (b64_char n # cs) =
     (if q = 0 then b64_run 1 n 0 cs
      else if q = 1 then map_option ((#) (char_of (left * 4 + n div 16))) (b64_run 2 (n mod 16) 0 cs)
      else if q = 2 then map_option ((#) (char_of (left * 16 + n div 4))) (b64_run 3 (n mod 4) 0 cs)
      else map_option ((#) (char_of (left * 64 + n))) (b64_run 0 0 0 cs))"
  using b64_val_char [of n] by simp

lemma b64_run_pad: "b64_run q left pads (CHR ''='' # cs) =
     (if 2 \<le> q \<and> 4 \<le> q + Suc pads then Some [] else b64_run q left (if 2 \<le> q then Suc pads else pads) cs)"
  by simp

lemmas b64_run_steps = b64_run.simps(1) b64_run_char b64_run_pad

lemma b64_bits:
  assumes "(a :: nat) < 256" "b < 256" "c < 256"
  shows "a div 4 < 64" "a mod 4 * 16 + b div 16 < 64" "b mod 16 * 4 + c div 64 < 64" "c mod 64 < 64"
    and "a div 4 * 4 + (a mod 4 * 16 + b div 16) div 16 = a"
    and "(a mod 4 * 16 + b div 16) mod 16 * 16 + (b mod 16 * 4 + c div 64) div 4 = b"
    and "(b mod 16 * 4 + c div 64) mod 4 * 64 + c mod 64 = c"
proof -
  have small: "b div 16 < 16" "c div 64 < 4" "a mod 4 < 4" "b mod 16 < 16" using assms by auto
  show "a div 4 < 64" "c mod 64 < 64" using assms by auto
  show "a mod 4 * 16 + b div 16 < 64" "b mod 16 * 4 + c div 64 < 64" using small by linarith+
  have "(a mod 4 * 16 + b div 16) div 16 = a mod 4" using small by simp
  then show "a div 4 * 4 + (a mod 4 * 16 + b div 16) div 16 = a" by simp
  have "(a mod 4 * 16 + b div 16) mod 16 = b div 16" "(b mod 16 * 4 + c div 64) div 4 = b mod 16" using small by simp_all
  then show "(a mod 4 * 16 + b div 16) mod 16 * 16 + (b mod 16 * 4 + c div 64) div 4 = b" by simp
  have "(b mod 16 * 4 + c div 64) mod 4 = c div 64" using small by simp
  then show "(b mod 16 * 4 + c div 64) mod 4 * 64 + c mod 64 = c" by simp
qed

lemma b64_roundtrip: "b64_run 0 left pads (b64_encode s) = Some s"
proof (induction s arbitrary: left pads rule: b64_encode.induct)
  case (2 a)
  show ?case using b64_bits [OF nat_of_char_less_256 [of a], of 0 0] by (simp add: b64_run_steps del: b64_run.simps(2))
next
  case (3 a b)
  show ?case using b64_bits [OF nat_of_char_less_256 [of a] nat_of_char_less_256 [of b], of 0] by (simp add: b64_run_steps del: b64_run.simps(2))
next
  case (4 a b c s)
  show ?case using b64_bits [OF nat_of_char_less_256 [of a] nat_of_char_less_256 [of b] nat_of_char_less_256 [of c]] 4 by (simp add: b64_run_steps del: b64_run.simps(2))
qed simp

section \<open>UUID texts\<close>

text \<open>\<open>text.replace(w, '')\<close>.\<close>

function remove_text :: "string \<Rightarrow> string \<Rightarrow> string" where
  "remove_text w s =
     (if w = [] \<or> s = [] then s
      else if take (length w) s = w then remove_text w (drop (length w) s) else hd s # remove_text w (tl s))"
  by pat_completeness auto
termination
  by (relation "measure (\<lambda>(w, s). length s)") auto

declare remove_text.simps [simp del]

definition strip_braces :: "string \<Rightarrow> string" where
  "strip_braces s = (let brace = (\<lambda>c. c = CHR ''{'' \<or> c = CHR ''}'') in rev (dropWhile brace (rev (dropWhile brace s))))"

fun underscored_hex :: "string \<Rightarrow> bool" where
  "underscored_hex [] = False"
| "underscored_hex [c] = is_hex c"
| "underscored_hex (c # e # s) = (is_hex c \<and> (if e = CHR ''_'' then underscored_hex s else underscored_hex (e # s)))"

text \<open>\<open>int(text, 16)\<close>.\<close>

definition py_hex_int :: "string \<Rightarrow> int option" where
  "py_hex_int s =
     (let t = strip s; signed = (t \<noteq> [] \<and> (hd t = CHR ''-'' \<or> hd t = CHR ''+'')); u = (if signed then tl t else t);
          v = (if take 2 u = ''0x'' \<or> take 2 u = ''0X'' then (if take 1 (drop 2 u) = ''_'' then drop 3 u else drop 2 u) else u) in
      if \<not> underscored_hex v then None
      else Some ((if signed \<and> hd t = CHR ''-'' then -1 else 1) * int (foldl (\<lambda>a c. 16 * a + hex_val c) 0 (filter is_hex v))))"

definition uuid_parse :: "string \<Rightarrow> uuid option" where
  "uuid_parse s =
     (let h = remove_text ''-'' (strip_braces (remove_text ''uuid:'' (remove_text ''urn:'' s))) in
      if length h \<noteq> 32 then None
      else case py_hex_int h of None \<Rightarrow> None | Some i \<Rightarrow> if 0 \<le> i then Some (nat i) else None)"

lemma remove_text_none: "hd w \<notin> set s \<Longrightarrow> remove_text w s = s"
proof (induction s)
  case Nil
  then show ?case by (subst remove_text.simps) simp
next
  case (Cons c s)
  have "w = [] \<or> take (length w) (c # s) \<noteq> w" using Cons.prems by (cases w) auto
  with Cons show ?case by (subst remove_text.simps) auto
qed

lemma remove_text_char: "remove_text [c] s = filter (\<lambda>x. x \<noteq> c) s"
proof (induction s)
  case Nil
  then show ?case by (subst remove_text.simps) simp
next
  case (Cons d s)
  then show ?case by (subst remove_text.simps) auto
qed

lemma dropWhile_none: "(\<And>c. c \<in> set s \<Longrightarrow> \<not> p c) \<Longrightarrow> dropWhile p s = s"
  by (induction s) auto

lemma underscored_hex_plain: "list_all is_hex s \<Longrightarrow> s \<noteq> [] \<Longrightarrow> underscored_hex s"
proof (induction s rule: underscored_hex.induct)
  case (3 c e s)
  then show ?case by (auto simp: is_hex_def is_digit_def)
qed auto

lemma is_hex_not: "is_hex c \<Longrightarrow> \<not> is_blank c \<and> c \<notin> {CHR ''-'', CHR ''+'', CHR ''x'', CHR ''X'', CHR ''{'', CHR ''}'', CHR ''u'', CHR '':''}"
  by (auto simp: is_hex_def is_blank_def is_digit_def)

lemma py_hex_plain:
  assumes "list_all is_hex s" and "s \<noteq> []"
  shows "py_hex_int s = Some (int (foldl (\<lambda>a c. 16 * a + hex_val c) 0 s))"
proof -
  have ends: "is_hex (hd s)" "is_hex (last s)" and two: "\<And>c. c \<in> set s \<Longrightarrow> is_hex c"
    using assms by (auto simp: list_all_iff)
  have strip: "strip s = s" using assms(2) is_hex_not [OF ends(1)] is_hex_not [OF ends(2)] by (intro strip_unblank) auto
  have "take 2 s \<noteq> ''0x''" "take 2 s \<noteq> ''0X''"
    using two is_hex_not by (metis in_set_takeD insertCI list.set_intros)+
  moreover have "filter is_hex s = s" using assms(1) by (simp add: filter_id_conv list_all_iff)
  ultimately show ?thesis
    using is_hex_not [OF ends(1)] underscored_hex_plain [OF assms] by (simp add: py_hex_int_def strip Let_def)
qed

lemma hex_all: "list_all is_hex (hex n)"
  by (induction n rule: hex.induct) (subst hex.simps, auto simp: hex_digit_props)

lemma foldl_hex_val: "foldl (\<lambda>a c. 16 * a + hex_val c) 0 (hex n) = n"
proof (induction n rule: hex.induct)
  case (1 n)
  then show ?case by (subst hex.simps) (auto simp: hex_digit_props)
qed

lemma length_hex: "0 < k \<Longrightarrow> n < 16 ^ k \<Longrightarrow> length (hex n) \<le> k"
proof (induction k arbitrary: n)
  case (Suc k)
  show ?case
  proof (cases "n < 16")
    case True
    then show ?thesis by (subst hex.simps) simp
  next
    case False
    then have "0 < k" using Suc.prems by (cases k) auto
    moreover have "n div 16 < 16 ^ k" using Suc.prems by (simp add: less_mult_imp_div_less mult.commute)
    ultimately have "length (hex (n div 16)) \<le> k" by (rule Suc.IH)
    with False show ?thesis by (subst hex.simps) simp
  qed
qed simp

lemma str_uuid_chars:
  assumes "c \<in> set (str_uuid u)"
  shows "is_hex c \<or> c = CHR ''-''"
proof -
  define p where "p = replicate (32 - length (hex u)) (CHR ''0'') @ hex u"
  have "is_hex (CHR ''0'')" by code_simp
  then have "list_all is_hex p" using hex_all by (auto simp: p_def list_all_iff)
  moreover have "str_uuid u = take 8 p @ ''-'' @ take 4 (drop 8 p) @ ''-'' @ take 4 (drop 12 p) @ ''-'' @ take 4 (drop 16 p) @ ''-'' @ drop 20 p"
    by (simp only: str_uuid_def Let_def p_def)
  ultimately show ?thesis using assms by (auto simp: list_all_iff dest: in_set_takeD in_set_dropD)
qed

lemma uuid_parse_str:
  assumes "u < 16 ^ 32"
  shows "uuid_parse (str_uuid u) = Some u"
proof -
  define p where "p = replicate (32 - length (hex u)) (CHR ''0'') @ hex u"
  have len: "length p = 32" using length_hex [of 32 u] assms by (simp add: p_def)
  have zero: "is_hex (CHR ''0'')" "hex_val (CHR ''0'') = 0" by code_simp+
  have hexp: "list_all is_hex p" using hex_all zero by (auto simp: p_def list_all_iff)
  have str: "str_uuid u = take 8 p @ ''-'' @ take 4 (drop 8 p) @ ''-'' @ take 4 (drop 12 p) @ ''-'' @ take 4 (drop 16 p) @ ''-'' @ drop 20 p"
    by (simp only: str_uuid_def Let_def p_def)
  have no: "c \<notin> set (str_uuid u)" if "c \<in> {CHR ''u'', CHR ''{'', CHR ''}''}" for c
    using that is_hex_not str_uuid_chars by fastforce
  have urn: "remove_text ''uuid:'' (remove_text ''urn:'' (str_uuid u)) = str_uuid u"
    using no by (simp add: remove_text_none)
  have brace: "strip_braces (str_uuid u) = str_uuid u"
    unfolding strip_braces_def Let_def using no by (subst (1 2) dropWhile_none) auto
  have nodash: "CHR ''-'' \<notin> set p" using hexp is_hex_not by (fastforce simp: list_all_iff)
  then have "filter (\<lambda>c. c \<noteq> CHR ''-'') (take k (drop j p)) = take k (drop j p)"
      "filter (\<lambda>c. c \<noteq> CHR ''-'') (drop j p) = drop j p" for j k
    by (auto simp: filter_id_conv dest: in_set_takeD in_set_dropD)
  note keep = this this(1) [of _ 0, simplified]
  have dash: "remove_text ''-'' (str_uuid u) = p"
    using take_take_drop_pieces [of p] by (simp add: remove_text_char str keep)
  have "foldl (\<lambda>a c. 16 * a + hex_val c) 0 (replicate k (CHR ''0'')) = 0" for k by (induction k) (simp_all add: zero)
  then have "foldl (\<lambda>a c. 16 * a + hex_val c) 0 p = u" by (simp add: p_def foldl_hex_val)
  moreover have "p \<noteq> []" using len by auto
  ultimately show ?thesis using len py_hex_plain [OF hexp] by (simp add: uuid_parse_def urn brace dash Let_def)
qed

section \<open>Splitting\<close>

text \<open>\<open>s.split(c)\<close> on one character.\<close>

fun split_on :: "char \<Rightarrow> string \<Rightarrow> string list" where
  "split_on c [] = [[]]"
| "split_on c (x # xs) = (if x = c then [] # split_on c xs else case split_on c xs of [] \<Rightarrow> [[x]] | p # ps \<Rightarrow> (x # p) # ps)"

lemma split_on_none: "c \<notin> set a \<Longrightarrow> split_on c a = [a]"
  by (induction a) auto

lemma split_on_join: "c \<notin> set a \<Longrightarrow> split_on c (a @ c # b) = a # split_on c b"
  by (induction a) auto

end
