(* ===== verification/Gateway.thy ===== *)
theory Gateway
  imports Schema "HOL-Library.Sublist"
begin

text \<open>
  \<^verbatim>\<open>payments/ports/gateway.py\<close>, the contract of a payment provider, and
  \<^verbatim>\<open>payments/adapters/stub_gateway.py\<close>, the stub that implements it. The locale
  \<open>payment_gateway\<close> states what the payments service relies on (a key is decided once, every answer
  under it agrees), and is interpreted on the stub here and on the resilient shell around it in
  \<open>Resilient_Gateway\<close>.

  A gateway operation takes the time it runs at. Text is ASCII: \<open>lower\<close> folds \<open>A\<close> to \<open>Z\<close>.
\<close>

section \<open>The port\<close>

datatype gateway_outcome = G_SUCCEEDED | G_FAILED | G_PENDING

record gateway_charge =
  gc_ref :: string
  gc_outcome :: gateway_outcome
  gc_reason :: "string option"

record gateway_refund =
  gr_ref :: string
  gr_outcome :: gateway_outcome
  gr_reason :: "string option"

record 'g gateway =
  gw_charge :: "decimal \<Rightarrow> string \<Rightarrow> string \<Rightarrow> timestamp \<Rightarrow> (exn, 'g, gateway_charge) prog"
  gw_lookup :: "string \<Rightarrow> timestamp \<Rightarrow> (exn, 'g, gateway_charge option) prog"
  gw_refund :: "decimal \<Rightarrow> string \<Rightarrow> string option \<Rightarrow> timestamp \<Rightarrow> (exn, 'g, gateway_refund) prog"

section \<open>The deferred-charge window\<close>

record deferred_charge =
  def_ref :: string
  settle_at :: timestamp
  def_expires :: timestamp

definition window_defer ::
  "int \<Rightarrow> string \<Rightarrow> string \<Rightarrow> timestamp \<Rightarrow> (string \<Rightarrow> deferred_charge option) \<Rightarrow> string \<Rightarrow> deferred_charge option" where
  "window_defer settle key ref now ws =
     ws(key \<mapsto> \<lparr>def_ref = ref, settle_at = now + seconds settle, def_expires = now + seconds (settle + 3600)\<rparr>)"

definition window_state ::
  "string \<Rightarrow> timestamp \<Rightarrow> (string \<Rightarrow> deferred_charge option) \<Rightarrow> gateway_charge option" where
  "window_state key now ws =
     (case ws key of
        None \<Rightarrow> None
      | Some e \<Rightarrow>
          if def_expires e \<le> now then None
          else Some \<lparr>gc_ref = def_ref e, gc_outcome = (if now < settle_at e then G_PENDING else G_SUCCEEDED),
                     gc_reason = None\<rparr>)"

section \<open>The stub\<close>

record stub_config =
  fail_substring :: string
  pending_substring :: string
  settle_seconds :: "int option"

record stub_state =
  stub_charges :: "string \<Rightarrow> gateway_charge option"
  stub_refunds :: "string \<Rightarrow> gateway_refund option"
  stub_window :: "string \<Rightarrow> deferred_charge option"
  stub_next :: nat

definition fresh_ref :: "stub_state \<Rightarrow> string" where
  "fresh_ref g = ''stub_'' @ hex (stub_next g)"

definition stub_deferred :: "stub_config \<Rightarrow> string \<Rightarrow> timestamp \<Rightarrow> stub_state \<Rightarrow> gateway_charge option" where
  "stub_deferred cfg key now g =
     (case settle_seconds cfg of None \<Rightarrow> None | Some _ \<Rightarrow> window_state key now (stub_window g))"

definition stub_charge ::
  "stub_config \<Rightarrow> decimal \<Rightarrow> string \<Rightarrow> string \<Rightarrow> timestamp \<Rightarrow> (exn, stub_state, gateway_charge) prog" where
  "stub_charge cfg amount key token now = (\<lambda>g.
     case stub_charges g key of
       Some existing \<Rightarrow> (Inr existing, g)
     | None \<Rightarrow>
         (case stub_deferred cfg key now g of
            Some c \<Rightarrow> (Inr c, g)
          | None \<Rightarrow>
              let t = lower token; ref = fresh_ref g; g1 = g\<lparr>stub_next := Suc (stub_next g)\<rparr> in
              if sublist (lower (fail_substring cfg)) t
              then let c = \<lparr>gc_ref = ref, gc_outcome = G_FAILED, gc_reason = Some ''declined_by_stub''\<rparr>
                   in (Inr c, g1\<lparr>stub_charges := (stub_charges g)(key \<mapsto> c)\<rparr>)
              else if pending_substring cfg \<noteq> [] \<and> sublist (lower (pending_substring cfg)) t
              then (case settle_seconds cfg of
                      None \<Rightarrow> (Inl (RuntimeError ''pending trigger requires a deferred window''), g1)
                    | Some n \<Rightarrow>
                        (Inr \<lparr>gc_ref = ref, gc_outcome = G_PENDING, gc_reason = None\<rparr>,
                         g1\<lparr>stub_window := window_defer n key ref now (stub_window g)\<rparr>))
              else let c = \<lparr>gc_ref = ref, gc_outcome = G_SUCCEEDED, gc_reason = None\<rparr>
                   in (Inr c, g1\<lparr>stub_charges := (stub_charges g)(key \<mapsto> c)\<rparr>)))"

definition stub_lookup ::
  "stub_config \<Rightarrow> string \<Rightarrow> timestamp \<Rightarrow> (exn, stub_state, gateway_charge option) prog" where
  "stub_lookup cfg key now = (\<lambda>g.
     case stub_charges g key of
       Some c \<Rightarrow> (Inr (Some c), g)
     | None \<Rightarrow> (Inr (stub_deferred cfg key now g), g))"

definition stub_refund ::
  "stub_config \<Rightarrow> decimal \<Rightarrow> string \<Rightarrow> string option \<Rightarrow> timestamp \<Rightarrow> (exn, stub_state, gateway_refund) prog" where
  "stub_refund cfg amount key ref now = (\<lambda>g.
     case stub_refunds g key of
       Some existing \<Rightarrow> (Inr existing, g)
     | None \<Rightarrow>
         let r = (if ref = None
                  then \<lparr>gr_ref = fresh_ref g, gr_outcome = G_FAILED, gr_reason = Some ''no_charge_reference''\<rparr>
                  else if fail_substring cfg \<noteq> [] \<and> sublist (lower (fail_substring cfg)) (lower key)
                  then \<lparr>gr_ref = fresh_ref g, gr_outcome = G_FAILED, gr_reason = Some ''declined_by_stub''\<rparr>
                  else \<lparr>gr_ref = fresh_ref g, gr_outcome = G_SUCCEEDED, gr_reason = None\<rparr>)
         in (Inr r, g\<lparr>stub_refunds := (stub_refunds g)(key \<mapsto> r), stub_next := Suc (stub_next g)\<rparr>))"

definition stub_gateway :: "stub_config \<Rightarrow> stub_state gateway" where
  "stub_gateway cfg = \<lparr>gw_charge = stub_charge cfg, gw_lookup = stub_lookup cfg, gw_refund = stub_refund cfg\<rparr>"

text \<open>\<open>stub_gateway_from_settings\<close>: without the pending trigger no window is wired.\<close>

definition stub_from_settings :: "string \<Rightarrow> string \<Rightarrow> int \<Rightarrow> bool \<Rightarrow> exn + stub_config" where
  "stub_from_settings fail pend settle has_valkey =
     (if pend = [] then Inr \<lparr>fail_substring = fail, pending_substring = '''', settle_seconds = None\<rparr>
      else if \<not> has_valkey then Inl (RuntimeError ''PAYMENT_STUB_PENDING_TOKEN_SUBSTRING requires a Valkey client'')
      else Inr \<lparr>fail_substring = fail, pending_substring = pend, settle_seconds = Some settle\<rparr>)"

definition empty_stub :: stub_state where
  "empty_stub = \<lparr>stub_charges = (\<lambda>_. None), stub_refunds = (\<lambda>_. None), stub_window = (\<lambda>_. None), stub_next = 0\<rparr>"

section \<open>What a client relies on\<close>

text \<open>
  \<open>decided g k\<close> is the terminal charge the provider holds under a key, \<open>returned g k\<close> the refund.
  An answer under a decided key is that decision, a terminal answer is a decision, and no operation
  changes a decision. The laws speak of answers only, so a shell that may refuse a call (a breaker,
  a timeout) satisfies them too.
\<close>

text \<open>The state any number of calls later.\<close>

datatype gateway_call =
    ChargeCall decimal string string timestamp
  | LookupCall string timestamp
  | RefundCall decimal string "string option" timestamp

fun after_calls :: "'g gateway \<Rightarrow> gateway_call list \<Rightarrow> 'g \<Rightarrow> 'g" where
  "after_calls gw [] g = g"
| "after_calls gw (ChargeCall a k t n # cs) g = after_calls gw cs (snd (gw_charge gw a k t n g))"
| "after_calls gw (LookupCall k n # cs) g = after_calls gw cs (snd (gw_lookup gw k n g))"
| "after_calls gw (RefundCall a k r n # cs) g = after_calls gw cs (snd (gw_refund gw a k r n g))"

locale payment_gateway =
  fixes gw :: "'g gateway"
    and decided :: "'g \<Rightarrow> string \<Rightarrow> gateway_charge option"
    and returned :: "'g \<Rightarrow> string \<Rightarrow> gateway_refund option"
  assumes charge_decides:
      "gw_charge gw a k t now g = (Inr c, g') \<Longrightarrow> gc_outcome c \<noteq> G_PENDING \<Longrightarrow> decided g' k = Some c"
    and charge_agrees: "gw_charge gw a k t now g = (Inr c, g') \<Longrightarrow> decided g k = Some c0 \<Longrightarrow> c = c0"
    and lookup_agrees: "gw_lookup gw k now g = (Inr x, g') \<Longrightarrow> decided g k = Some c0 \<Longrightarrow> x = Some c0"
    and refund_decides: "gw_refund gw a k r now g = (Inr rf, g') \<Longrightarrow> returned g' k = Some rf"
    and refund_agrees: "gw_refund gw a k r now g = (Inr rf, g') \<Longrightarrow> returned g k = Some r0 \<Longrightarrow> rf = r0"
    and charge_keeps: "decided g k' = Some c0 \<Longrightarrow> decided (snd (gw_charge gw a k t now g)) k' = Some c0"
    and lookup_keeps: "decided g k' = Some c0 \<Longrightarrow> decided (snd (gw_lookup gw k now g)) k' = Some c0"
    and refund_keeps: "decided g k' = Some c0 \<Longrightarrow> decided (snd (gw_refund gw a k r now g)) k' = Some c0"
    and charge_keeps_returned: "returned g k' = Some r0 \<Longrightarrow> returned (snd (gw_charge gw a k t now g)) k' = Some r0"
    and lookup_keeps_returned: "returned g k' = Some r0 \<Longrightarrow> returned (snd (gw_lookup gw k now g)) k' = Some r0"
    and refund_keeps_returned: "returned g k' = Some r0 \<Longrightarrow> returned (snd (gw_refund gw a k r now g)) k' = Some r0"
begin

lemma decided_later: "decided g k = Some c \<Longrightarrow> decided (after_calls gw cs g) k = Some c"
proof (induction cs arbitrary: g)
  case (Cons x cs)
  then show ?case by (cases x) (auto intro: charge_keeps lookup_keeps refund_keeps)
qed simp

lemma returned_later: "returned g k = Some c \<Longrightarrow> returned (after_calls gw cs g) k = Some c"
proof (induction cs arbitrary: g)
  case (Cons x cs)
  then show ?case by (cases x) (auto intro: charge_keeps_returned lookup_keeps_returned refund_keeps_returned)
qed simp

lemma charge_decided_once:
  assumes "gw_charge gw a k t n g = (Inr c, g')" "gc_outcome c \<noteq> G_PENDING"
    and "gw_charge gw a' k t' n' (after_calls gw cs g') = (Inr c', h')"
  shows "c' = c"
  using assms charge_decides charge_agrees decided_later by metis

lemma refund_answers_once:
  assumes "gw_refund gw a k r n g = (Inr c, g')" and "gw_refund gw a' k r' n' (after_calls gw cs g') = (Inr c', h')"
  shows "c' = c"
  using assms refund_decides refund_agrees returned_later by metis

end

lemmas stub_defs = stub_charge_def stub_lookup_def stub_refund_def

text \<open>
  The stub satisfies it when the deferred-settlement trigger is off (the default). With the trigger
  on, a deferred charge is forgotten an hour after it settled, and the key can be decided again.
\<close>

interpretation stub: payment_gateway "stub_gateway (cfg\<lparr>settle_seconds := None\<rparr>)" stub_charges stub_refunds
  for cfg :: stub_config
  by unfold_locales
    (auto simp: stub_gateway_def stub_defs stub_deferred_def window_state_def Let_def
      split: option.splits if_splits prod.splits)

end
