(* ===== verification/Payments_Repository.thy ===== *)
theory Payments_Repository
  imports Schema
begin

text \<open>
  \<^verbatim>\<open>payments/adapters/db/repository.py\<close> and the outbox builders of
  \<^verbatim>\<open>payments/application/outbox.py\<close>.
\<close>

section \<open>Reads\<close>

definition repo_get_payment :: "uuid \<Rightarrow> payment option txn" where
  "repo_get_payment pid = gets (\<lambda>d. find (\<lambda>p. pay_id p = pid) (payments d))"

definition payment_by_key :: "string \<Rightarrow> database \<Rightarrow> payment option" where
  "payment_by_key key d = find (\<lambda>p. pay_key p = key) (payments d)"

definition repo_payment_by_key :: "string \<Rightarrow> payment option txn" where
  "repo_payment_by_key key = gets (payment_by_key key)"

definition has_succeeded_for_order :: "uuid \<Rightarrow> bool txn" where
  "has_succeeded_for_order oid =
     gets (\<lambda>d. list_ex (\<lambda>p. pay_order p = oid \<and> pay_status p = SUCCEEDED) (payments d))"

definition due_for_reconciliation :: "int \<Rightarrow> int \<Rightarrow> nat \<Rightarrow> payment list txn" where
  "due_for_reconciliation grace max_age batch =
     gets (\<lambda>d. take batch (sort_key pay_created (filter (\<lambda>p. pay_status p = PAY_PENDING \<and>
       pay_created p \<le> clock d - seconds grace \<and> pay_created p > clock d - seconds max_age) (payments d))))"

definition abandonable :: "int \<Rightarrow> nat \<Rightarrow> payment list txn" where
  "abandonable max_age batch =
     gets (\<lambda>d. take batch (sort_key pay_created (filter (\<lambda>p. pay_status p = PAY_PENDING \<and>
       pay_created p \<le> clock d - seconds max_age) (payments d))))"

section \<open>Outbox builders\<close>

definition payment_succeeded_outbox :: "payment \<Rightarrow> event" where
  "payment_succeeded_outbox p = PaymentSucceeded (pay_id p) (pay_order p) (pay_amount p) (pay_ref p)"

definition payment_failed_outbox :: "payment \<Rightarrow> event" where
  "payment_failed_outbox p = PaymentFailed (pay_id p) (pay_order p) (pay_amount p)
     (case pay_reason p of None \<Rightarrow> ''unknown'' | Some r \<Rightarrow> if r = '''' then ''unknown'' else r)"

definition payment_refunded_outbox :: "payment \<Rightarrow> event" where
  "payment_refunded_outbox p = PaymentRefunded (pay_id p) (pay_order p) (pay_amount p) (pay_ref p)"

section \<open>Writes\<close>

text \<open>\<open>INSERT .. ON CONFLICT DO NOTHING\<close> on \<open>uq_payments_idempotency_key\<close>, then the re-select.\<close>

definition repo_create_pending :: "uuid \<Rightarrow> string \<Rightarrow> decimal \<Rightarrow> (payment \<times> bool) txn" where
  "repo_create_pending oid key amount = (\<lambda>d.
     if \<exists>p \<in> set (payments d). pay_key p = key
     then bnd (repo_payment_by_key key) (\<lambda>existing.
            case existing of
              None \<Rightarrow> raise (RuntimeError ''idempotency conflict but no row found'')
            | Some p \<Rightarrow> ret (p, False)) d
     else let p = \<lparr>pay_id = next_uuid d, pay_order = oid, pay_key = key, pay_status = PAY_PENDING,
                   pay_amount = amount, pay_ref = None, pay_reason = None, pay_created = clock d\<rparr>
          in bnd (repo_get_payment (pay_id p)) (\<lambda>row.
               case row of
                 None \<Rightarrow> raise (RuntimeError ''inserted payment not found after commit'')
               | Some r \<Rightarrow> ret (r, True))
             (d\<lparr>payments := payments d @ [p], next_uuid := Suc (next_uuid d)\<rparr>))"

definition add_pay_outbox :: "event \<Rightarrow> unit txn" where
  "add_pay_outbox e = modify (\<lambda>d.
     d\<lparr>pay_outbox := pay_outbox d @ [\<lparr>out_id = next_uuid d, out_event = e, out_occurred = clock d,
        out_published = None\<rparr>], next_uuid := Suc (next_uuid d)\<rparr>)"

definition applied :: "payment_status \<Rightarrow> string option \<Rightarrow> string option \<Rightarrow> payment \<Rightarrow> payment" where
  "applied to ref reason p = p\<lparr>pay_status := to, pay_ref := ref, pay_reason := reason\<rparr>"

text \<open>
  The guarded flip with its outbox row and the \<open>on_succeeded\<close> hook; \<open>expect\<close> is \<open>pending\<close> unless the
  caller says otherwise.
\<close>

definition repo_transition ::
  "uuid \<Rightarrow> payment_status \<Rightarrow> string option \<Rightarrow> string option \<Rightarrow> (payment \<Rightarrow> event) \<Rightarrow> payment_status option \<Rightarrow>
   (uuid \<Rightarrow> unit txn) option \<Rightarrow> payment option txn" where
  "repo_transition pid to ref reason factory expect on_succeeded =
     (let hit = (\<lambda>p. pay_id p = pid \<and> pay_status p = (case expect of None \<Rightarrow> PAY_PENDING | Some e \<Rightarrow> e)) in
      bnd (gets (\<lambda>d. find hit (payments d))) (\<lambda>row.
        case row of
          None \<Rightarrow> ret None
        | Some p \<Rightarrow>
            thn (modify (\<lambda>d. d\<lparr>payments := update_where hit (applied to ref reason) (payments d)\<rparr>))
           (thn (add_pay_outbox (factory (applied to ref reason p)))
           (thn (case on_succeeded of None \<Rightarrow> ret () | Some hook \<Rightarrow> hook (pay_order p))
                (repo_get_payment pid)))))"

end
