(* ===== verification/Orders_Repository.thy ===== *)
theory Orders_Repository
  imports Schema
begin

text \<open>
  \<^verbatim>\<open>orders/adapters/db/repository.py\<close>: the orders, their lines and the saga journal. The rows of a
  table are in insertion order; \<open>ORDER BY\<close> sorts stably on top of it, so equal timestamps keep that
  order (the code breaks such ties by a random id).

  \<open>guard\<close> is \<open>has_succeeded_payment\<close>: absent when the repository is built bare, the payments
  repository's \<open>has_succeeded_for_order\<close> in \<open>orders_repository_with_payment_guard\<close>.
\<close>

section \<open>Reads\<close>

definition find_order :: "uuid \<Rightarrow> database \<Rightarrow> order option" where
  "find_order oid d = find (\<lambda>r. order_id r = oid) (orders d)"

definition repo_get_order :: "uuid \<Rightarrow> order option txn" where
  "repo_get_order oid = gets (find_order oid)"

definition repo_get_order_status :: "uuid \<Rightarrow> order_status option txn" where
  "repo_get_order_status oid = gets (\<lambda>d. map_option order_state (find_order oid d))"

definition repo_get_by_idempotency :: "uuid \<Rightarrow> string \<Rightarrow> order option txn" where
  "repo_get_by_idempotency uid key =
     gets (\<lambda>d. find (\<lambda>r. order_user r = uid \<and> order_key r = key) (orders d))"

section \<open>Writes\<close>

text \<open>\<open>INSERT INTO orders\<close> under \<open>UNIQUE(user_id, idempotency_key)\<close>.\<close>

definition insert_order :: "uuid \<Rightarrow> string \<Rightarrow> string \<Rightarrow> decimal \<Rightarrow> string \<Rightarrow> uuid txn" where
  "insert_order uid key hash amount email = (\<lambda>d.
     if \<exists>r \<in> set (orders d). order_user r = uid \<and> order_key r = key
     then (Inl (IntegrityError ''23505''), d)
     else let r = \<lparr>order_id = next_uuid d, order_user = uid, order_state = PENDING, order_total = amount,
                   order_items = [], order_created = clock d, order_updated = clock d, order_key = key,
                   order_body_hash = hash, order_email = email\<rparr>
          in (Inr (order_id r), d\<lparr>orders := orders d @ [r], next_uuid := Suc (next_uuid d)\<rparr>))"

definition insert_order_item :: "uuid \<Rightarrow> uuid \<times> string \<times> decimal \<times> int \<Rightarrow> unit txn" where
  "insert_order_item oid line = modify (\<lambda>d.
     case line of (pid, name, price, q) \<Rightarrow>
       let item = \<lparr>item_id = next_uuid d, item_product = pid, item_name = name, item_price = price, item_qty = q\<rparr>
       in d\<lparr>orders := update_where (\<lambda>r. order_id r = oid) (\<lambda>r. r\<lparr>order_items := order_items r @ [item]\<rparr>) (orders d),
            next_uuid := Suc (next_uuid d)\<rparr>)"

text \<open>\<open>INSERT INTO saga_log\<close>, with its foreign key to the order.\<close>

definition insert_saga_log :: "uuid \<Rightarrow> string \<Rightarrow> string \<Rightarrow> unit txn" where
  "insert_saga_log oid step st = (\<lambda>d.
     if find_order oid d = None then (Inl (IntegrityError ''23503''), d)
     else (Inr (), d\<lparr>saga_log := saga_log d @ [\<lparr>log_order = oid, log_step = step, log_status = st,
                    log_created = clock d, log_updated = clock d\<rparr>]\<rparr>))"

definition loser_reads_winner :: "uuid \<Rightarrow> string \<Rightarrow> (order \<times> bool) txn" where
  "loser_reads_winner uid key =
     bnd (repo_get_by_idempotency uid key) (\<lambda>existing.
       case existing of
         None \<Rightarrow> raise (RuntimeError ''idempotency conflict but no order found'')
       | Some r \<Rightarrow> ret (r, False))"

definition repo_create_pending_order ::
  "uuid \<Rightarrow> string \<Rightarrow> string \<Rightarrow> decimal \<Rightarrow> (uuid \<times> string \<times> decimal \<times> int) list \<Rightarrow> string \<Rightarrow> (order \<times> bool) txn" where
  "repo_create_pending_order uid key hash amount lines email = (\<lambda>d.
     case atomic (insert_order uid key hash amount email) d of
       (Inl e, d') \<Rightarrow>
         if e \<noteq> IntegrityError ''23505'' then (Inl e, d') else loser_reads_winner uid key d'
     | (Inr oid, d') \<Rightarrow>
         thn (for_each lines (insert_order_item oid))
        (thn (insert_saga_log oid ''create'' ''completed'')
        (bnd (repo_get_order oid) (\<lambda>row.
           case row of
             None \<Rightarrow> raise (RuntimeError ''inserted order not found after commit'')
           | Some r \<Rightarrow> ret (r, True)))) d')"

text \<open>\<open>_request_refund_once\<close>: one refund intent per order, ever.\<close>

definition request_refund_once :: "uuid \<Rightarrow> unit txn" where
  "request_refund_once oid =
     bnd (gets (\<lambda>d. find (\<lambda>l. log_order l = oid \<and> log_step l = ''refund'') (saga_log d))) (\<lambda>existing.
       case existing of
         None \<Rightarrow> insert_saga_log oid ''refund'' ''requested''
       | Some _ \<Rightarrow> ret ())"

definition add_ord_outbox :: "event \<Rightarrow> unit txn" where
  "add_ord_outbox e = modify (\<lambda>d.
     d\<lparr>ord_outbox := ord_outbox d @ [\<lparr>out_id = next_uuid d, out_event = e, out_occurred = clock d,
        out_published = None\<rparr>], next_uuid := Suc (next_uuid d)\<rparr>)"

text \<open>The guarded \<open>UPDATE orders SET status WHERE id AND status IN expect RETURNING id\<close>.\<close>

definition flip_order :: "uuid \<Rightarrow> order_status list \<Rightarrow> order_status \<Rightarrow> database \<Rightarrow> database" where
  "flip_order oid expect to d =
     d\<lparr>orders := update_where (\<lambda>r. order_id r = oid \<and> order_state r \<in> set expect)
        (\<lambda>r. r\<lparr>order_state := to, order_updated := clock d\<rparr>) (orders d)\<rparr>"

definition repo_transition_status ::
  "(uuid \<Rightarrow> bool txn) option \<Rightarrow> uuid \<Rightarrow> order_status list \<Rightarrow> order_status \<Rightarrow> event option \<Rightarrow> order option txn" where
  "repo_transition_status guard oid expect to outbox =
     bnd (gets (\<lambda>d. find (\<lambda>r. order_id r = oid \<and> order_state r \<in> set expect) (orders d))) (\<lambda>row.
       case row of
         None \<Rightarrow> ret None
       | Some _ \<Rightarrow>
           thn (modify (flip_order oid expect to))
          (thn (case outbox of None \<Rightarrow> ret () | Some e \<Rightarrow> add_ord_outbox e)
          (thn (case guard of
                  None \<Rightarrow> ret ()
                | Some has_succeeded_payment \<Rightarrow>
                    if to = CANCELLED
                    then bnd (has_succeeded_payment oid) (\<lambda>b. if b then request_refund_once oid else ret ())
                    else ret ())
               (repo_get_order oid))))"

definition repo_log_saga_step :: "uuid \<Rightarrow> string \<Rightarrow> string \<Rightarrow> unit txn" where
  "repo_log_saga_step oid step st = insert_saga_log oid step st"

definition repo_journal_refund_if_cancelled :: "uuid \<Rightarrow> unit txn" where
  "repo_journal_refund_if_cancelled oid =
     bnd (repo_get_order_status oid) (\<lambda>st.
       if st = Some CANCELLED then request_refund_once oid else ret ())"

section \<open>The journal\<close>

text \<open>\<open>ORDER BY created_at DESC LIMIT 1\<close>: the latest of the newest rows.\<close>

fun newest :: "saga_step list \<Rightarrow> saga_step option" where
  "newest [] = None"
| "newest (l # ls) =
     (case newest ls of
        None \<Rightarrow> Some l
      | Some m \<Rightarrow> if log_created m \<ge> log_created l then Some m else Some l)"

definition repo_latest_saga_step :: "uuid \<Rightarrow> string \<Rightarrow> string option txn" where
  "repo_latest_saga_step oid step =
     gets (\<lambda>d. map_option log_status
       (newest (filter (\<lambda>l. log_order l = oid \<and> log_step l = step) (saga_log d))))"

definition repo_has_recent_saga_activity :: "uuid \<Rightarrow> timestamp \<Rightarrow> bool txn" where
  "repo_has_recent_saga_activity oid since =
     gets (\<lambda>d. list_ex (\<lambda>l. log_order l = oid \<and> log_updated l \<ge> since) (saga_log d))"

definition repo_list_saga_steps :: "uuid \<Rightarrow> saga_step list txn" where
  "repo_list_saga_steps oid =
     gets (\<lambda>d. sort_key log_created (filter (\<lambda>l. log_order l = oid) (saga_log d)))"

section \<open>The leases of the recovery poller\<close>

definition stuck_pending :: "timestamp \<Rightarrow> database \<Rightarrow> order \<Rightarrow> bool" where
  "stuck_pending cutoff d r \<longleftrightarrow>
     order_state r = PENDING \<and> order_updated r < cutoff \<and>
     \<not> list_ex (\<lambda>l. log_order l = order_id r \<and> log_updated l \<ge> cutoff) (saga_log d)"

definition open_refund :: "timestamp \<Rightarrow> database \<Rightarrow> order \<Rightarrow> bool" where
  "open_refund cutoff d r \<longleftrightarrow>
     order_state r = CANCELLED \<and> order_updated r < cutoff \<and>
     list_ex (\<lambda>l. log_order l = order_id r \<and> log_step l = ''refund'' \<and> log_status l = ''requested'' \<and>
        log_created l < cutoff) (saga_log d) \<and>
     \<not> list_ex (\<lambda>l. log_order l = order_id r \<and> log_step l = ''refund'' \<and>
        (log_status l = ''completed'' \<or> log_status l = ''refused'')) (saga_log d)"

text \<open>The claim: oldest first, at most a batch, touched with \<open>updated_at = now()\<close>, which is the lease.\<close>

definition lease :: "(database \<Rightarrow> order \<Rightarrow> bool) \<Rightarrow> nat \<Rightarrow> uuid list txn" where
  "lease p batch = (\<lambda>d.
     let ids = map order_id (take batch (sort_key order_updated (filter (p d) (orders d))))
     in (Inr ids, d\<lparr>orders := update_where (\<lambda>r. order_id r \<in> set ids) (\<lambda>r. r\<lparr>order_updated := clock d\<rparr>) (orders d)\<rparr>))"

fun load_orders :: "uuid list \<Rightarrow> order list txn" where
  "load_orders [] = ret []"
| "load_orders (i # is) =
     bnd (repo_get_order i) (\<lambda>row. bnd (load_orders is) (\<lambda>rows.
       ret (case row of None \<Rightarrow> rows | Some r \<Rightarrow> r # rows)))"

definition repo_claim_stuck_pending :: "timestamp \<Rightarrow> nat \<Rightarrow> order list txn" where
  "repo_claim_stuck_pending cutoff batch = bnd (lease (stuck_pending cutoff) batch) load_orders"

definition repo_claim_cancelled_with_pending_refund :: "timestamp \<Rightarrow> nat \<Rightarrow> order list txn" where
  "repo_claim_cancelled_with_pending_refund cutoff batch = bnd (lease (open_refund cutoff) batch) load_orders"

end
