(* ===== verification/Payments_Service.thy ===== *)
theory Payments_Service
  imports World Codec Gateway Payments_Repository Orders_Repository
begin

text \<open>
  \<^verbatim>\<open>payments/application/service.py\<close>: the charge, webhook, refund and reconciliation use-cases over
  one guarded state machine, and the pass of \<^verbatim>\<open>bootstrap/payment_reconciler.py\<close>.

  Parameters that are not code of the repository: \<open>hmac secret message\<close>, the hex digest of
  HMAC-SHA256, and \<open>loads\<close>, the JSON parser. \<open>hook\<close> is \<open>on_payment_succeeded\<close>.
\<close>

record 'g payments_config =
  pc_gateway :: "'g gateway option"
  pc_hook :: "(uuid \<Rightarrow> unit txn) option"
  pc_secret :: "string option"
  pc_tolerance :: int
  pc_grace :: int
  pc_max_age :: int

text \<open>The hook the composition root wires (\<^verbatim>\<open>bootstrap/payment_refund.py\<close>).\<close>

definition cancelled_order_refund_hook :: "uuid \<Rightarrow> unit txn" where
  "cancelled_order_refund_hook = repo_journal_refund_if_cancelled"

definition require_gateway :: "'g payments_config \<Rightarrow> ('g, 'g gateway) service" where
  "require_gateway cfg =
     (case pc_gateway cfg of
        None \<Rightarrow> raise (RuntimeError ''payments service requires a configured gateway'')
      | Some gw \<Rightarrow> ret gw)"

section \<open>Reads\<close>

definition svc_payment_by_key :: "string \<Rightarrow> ('g, payment option) service" where
  "svc_payment_by_key key = tx (repo_payment_by_key key)"

section \<open>Applying an outcome\<close>

definition outcome_txn ::
  "(uuid \<Rightarrow> unit txn) option \<Rightarrow> uuid \<Rightarrow> gateway_outcome \<Rightarrow> string option \<Rightarrow> string option \<Rightarrow> payment option txn" where
  "outcome_txn hook pid out ref reason =
     (case out of
        G_PENDING \<Rightarrow> ret None
      | G_SUCCEEDED \<Rightarrow> repo_transition pid SUCCEEDED ref None payment_succeeded_outbox None hook
      | G_FAILED \<Rightarrow> repo_transition pid FAILED ref
          (Some (case reason of None \<Rightarrow> ''unknown'' | Some r \<Rightarrow> if r = '''' then ''unknown'' else r))
          payment_failed_outbox None None)"

definition apply_outcome ::
  "(uuid \<Rightarrow> unit txn) option \<Rightarrow> uuid \<Rightarrow> gateway_outcome \<Rightarrow> string option \<Rightarrow> string option \<Rightarrow>
   ('g, payment option) service" where
  "apply_outcome hook pid out ref reason =
     (if out = G_PENDING then ret None else tx (outcome_txn hook pid out ref reason))"

definition apply_charge :: "(uuid \<Rightarrow> unit txn) option \<Rightarrow> uuid \<Rightarrow> gateway_charge \<Rightarrow> ('g, payment) service" where
  "apply_charge hook pid c =
     bnd (apply_outcome hook pid (gc_outcome c) (Some (gc_ref c)) (gc_reason c)) (\<lambda>updated.
       case updated of
         Some p \<Rightarrow> ret p
       | None \<Rightarrow>
           bnd (tx (repo_get_payment pid)) (\<lambda>row.
             case row of
               None \<Rightarrow> raise (RuntimeError ''payment vanished mid-charge'')
             | Some p \<Rightarrow> ret p))"

section \<open>The charge\<close>

text \<open>\<open>_PAN_SHAPED\<close> on the token with blanks and dashes removed: 12 to 21 digits and nothing else.\<close>

definition looks_like_pan :: "string \<Rightarrow> bool" where
  "looks_like_pan token \<longleftrightarrow>
     (let t = filter (\<lambda>c. c \<noteq> CHR '' '' \<and> c \<noteq> CHR ''-'') token
      in list_all is_digit t \<and> 12 \<le> length t \<and> length t \<le> 21)"

definition svc_charge ::
  "'g payments_config \<Rightarrow> uuid \<Rightarrow> string \<Rightarrow> decimal \<Rightarrow> string \<Rightarrow> ('g, payment) service" where
  "svc_charge cfg oid key amount token =
     (if looks_like_pan token
      then raise (InvalidPaymentMethodError ''payment_method_token looks like raw card data; use a hosted-checkout token'')
      else bnd (require_gateway cfg) (\<lambda>gw.
           bnd (tx (repo_create_pending oid key amount)) (\<lambda>(row, created).
             if \<not> created \<and> (pay_order row \<noteq> oid \<or> pay_amount row \<noteq> amount)
             then raise PaymentIdempotencyConflictError
             else if \<not> created \<and> pay_status row \<noteq> PAY_PENDING then ret row
             else bnd (call (on_gate (gw_charge gw amount key token)))
                      (apply_charge (pc_hook cfg) (pay_id row)))))"

section \<open>The refund\<close>

definition svc_refund :: "'g payments_config \<Rightarrow> string \<Rightarrow> ('g, bool) service" where
  "svc_refund cfg key =
     bnd (require_gateway cfg) (\<lambda>gw.
     bnd (tx (repo_payment_by_key key)) (\<lambda>row.
       case row of
         None \<Rightarrow> ret False
       | Some p \<Rightarrow>
           if pay_status p \<noteq> SUCCEEDED then ret (pay_status p = REFUNDED)
           else bnd (call (on_gate (gw_refund gw (pay_amount p) key (pay_ref p)))) (\<lambda>result.
             if gr_outcome result \<noteq> G_SUCCEEDED then ret False
             else bnd (tx (repo_transition (pay_id p) REFUNDED (pay_ref p) None payment_refunded_outbox
                         (Some SUCCEEDED) None)) (\<lambda>updated.
               case updated of
                 Some _ \<Rightarrow> ret True
               | None \<Rightarrow>
                   bnd (tx (repo_get_payment (pay_id p))) (\<lambda>current.
                     ret (case current of None \<Rightarrow> False | Some q \<Rightarrow> pay_status q = REFUNDED))))))"

section \<open>The webhook\<close>

definition sign_webhook :: "(string \<Rightarrow> string \<Rightarrow> string) \<Rightarrow> string \<Rightarrow> string \<Rightarrow> int \<Rightarrow> string" where
  "sign_webhook hmac body secret ts = ''sha256='' @ hmac secret (str_int ts @ ''.'' @ body)"

definition removeprefix :: "string \<Rightarrow> string \<Rightarrow> string" where
  "removeprefix p s = (if take (length p) s = p then drop (length p) s else s)"

definition verify_signature ::
  "(string \<Rightarrow> string \<Rightarrow> string) \<Rightarrow> 'g payments_config \<Rightarrow> timestamp \<Rightarrow> string \<Rightarrow> string option \<Rightarrow> string option \<Rightarrow> exn option" where
  "verify_signature hmac cfg now body signature ts_text =
     (case pc_secret cfg of
        None \<Rightarrow> Some (DependencyUnavailableError ''PAYMENT_WEBHOOK_SECRET is not configured; refusing webhooks (fail closed)'')
      | Some secret \<Rightarrow>
          if secret = []
          then Some (DependencyUnavailableError ''PAYMENT_WEBHOOK_SECRET is not configured; refusing webhooks (fail closed)'')
          else case ts_text of
            None \<Rightarrow> Some (AuthenticationError ''invalid webhook signature'')
          | Some text \<Rightarrow>
              (case py_int text of
                 None \<Rightarrow> Some (AuthenticationError ''invalid webhook signature'')
               | Some ts \<Rightarrow>
                   if \<bar>now - seconds ts\<bar> > seconds (pc_tolerance cfg)
                   then Some (AuthenticationError ''invalid webhook signature'')
                   else let expected = hmac secret (str_int ts @ ''.'' @ body);
                            received = (case signature of None \<Rightarrow> [] | Some s \<Rightarrow> removeprefix ''sha256='' s)
                        in if received = [] \<or> expected \<noteq> received
                           then Some (AuthenticationError ''invalid webhook signature'') else None))"

text \<open>A parsed webhook body: an object's fields (only strings matter) or something else.\<close>

datatype webhook_json = JObject "(string \<times> string option) list" | JOther

definition str_field :: "(string \<times> string option) list \<Rightarrow> string \<Rightarrow> string option" where
  "str_field fs k = (case map_of fs k of Some (Some s) \<Rightarrow> Some s | _ \<Rightarrow> None)"

definition webhook_outcome :: "string \<Rightarrow> gateway_outcome option" where
  "webhook_outcome t =
     (if t = ''payment.succeeded'' then Some G_SUCCEEDED
      else if t = ''payment.failed'' then Some G_FAILED else None)"

definition svc_handle_webhook ::
  "(string \<Rightarrow> string \<Rightarrow> string) \<Rightarrow> (string \<Rightarrow> webhook_json option) \<Rightarrow> 'g payments_config \<Rightarrow>
   string \<Rightarrow> string option \<Rightarrow> string option \<Rightarrow> ('g, bool) service" where
  "svc_handle_webhook hmac loads cfg body signature ts =
     bnd (gets (\<lambda>w. clock (db (sh w)))) (\<lambda>now.
       case verify_signature hmac cfg now body signature ts of
         Some e \<Rightarrow> raise e
       | None \<Rightarrow>
           (case loads body of
              None \<Rightarrow> raise (UnknownPaymentRefError ''webhook body is not a valid event'')
            | Some JOther \<Rightarrow> raise (UnknownPaymentRefError ''webhook body is not a valid event: expected a JSON object'')
            | Some (JObject fs) \<Rightarrow>
                (case (Option.bind (str_field fs ''type'') webhook_outcome, str_field fs ''idempotency_key'') of
                   (Some out, Some key) \<Rightarrow>
                     bnd (tx (repo_payment_by_key key)) (\<lambda>row.
                       case row of
                         None \<Rightarrow> raise (UnknownPaymentRefError key)
                       | Some p \<Rightarrow>
                           bnd (tx (outcome_txn (pc_hook cfg) (pay_id p) out
                                  (str_field fs ''gateway_ref'') (str_field fs ''reason''))) (\<lambda>updated.
                             ret (updated \<noteq> None)))
                 | _ \<Rightarrow> raise (UnknownPaymentRefError ''webhook type or idempotency_key missing or unrecognised''))))"

section \<open>Reconciliation\<close>

text \<open>One candidate of the window: a failed lookup or an unknown charge is left for a later pass.\<close>

definition reconcile_due :: "'g gateway \<Rightarrow> (uuid \<Rightarrow> unit txn) option \<Rightarrow> payment \<Rightarrow> ('g, nat) service" where
  "reconcile_due gw hook p =
     bnd (except_Exception (bnd (call (on_gate (gw_lookup gw (pay_key p)))) (\<lambda>x. ret (Some x))) (\<lambda>_. ret None)) (\<lambda>answer.
       case answer of
         None \<Rightarrow> ret 0
       | Some None \<Rightarrow> ret 0
       | Some (Some c) \<Rightarrow>
           bnd (apply_outcome hook (pay_id p) (gc_outcome c) (Some (gc_ref c)) (gc_reason c)) (\<lambda>updated.
             ret (if updated \<noteq> None then 1 else 0)))"

text \<open>One stale row: only the provider's affirmative \<open>never saw it\<close> abandons it.\<close>

definition reconcile_stale :: "'g gateway \<Rightarrow> (uuid \<Rightarrow> unit txn) option \<Rightarrow> payment \<Rightarrow> ('g, nat) service" where
  "reconcile_stale gw hook p =
     bnd (except_Exception (bnd (call (on_gate (gw_lookup gw (pay_key p)))) (\<lambda>x. ret (Some x))) (\<lambda>_. ret None)) (\<lambda>answer.
       case answer of
         None \<Rightarrow> ret 0
       | Some (Some c) \<Rightarrow>
           bnd (apply_outcome hook (pay_id p) (gc_outcome c) (Some (gc_ref c)) (gc_reason c)) (\<lambda>updated.
             ret (if updated \<noteq> None then 1 else 0))
       | Some None \<Rightarrow>
           bnd (apply_outcome hook (pay_id p) G_FAILED None (Some ''abandoned_by_reconciler'')) (\<lambda>updated.
             ret (if updated \<noteq> None then 1 else 0)))"

fun sum_each :: "'b list \<Rightarrow> ('b \<Rightarrow> ('g, nat) service) \<Rightarrow> nat \<Rightarrow> ('g, nat) service" where
  "sum_each [] f n = ret n"
| "sum_each (x # xs) f n = bnd (f x) (\<lambda>m. sum_each xs f (n + m))"

definition svc_reconcile :: "'g payments_config \<Rightarrow> nat \<Rightarrow> ('g, nat) service" where
  "svc_reconcile cfg batch =
     bnd (require_gateway cfg) (\<lambda>gw.
     bnd (tx (due_for_reconciliation (pc_grace cfg) (pc_max_age cfg) batch)) (\<lambda>due.
     bnd (sum_each due (reconcile_due gw (pc_hook cfg)) 0) (\<lambda>resolved.
     bnd (tx (abandonable (pc_max_age cfg) batch)) (\<lambda>stale.
       sum_each stale (reconcile_stale gw (pc_hook cfg)) resolved))))"

text \<open>One turn of \<open>PaymentReconciler.run\<close>; \<open>True\<close> when it sleeps afterwards.\<close>

definition reconciler_turn :: "'g payments_config \<Rightarrow> nat \<Rightarrow> ('g, bool) service" where
  "reconciler_turn cfg batch =
     bnd (except_Exception (svc_reconcile cfg batch) (\<lambda>_. ret 0)) (\<lambda>resolved. ret (resolved < batch))"

end
