(* ===== verification/Cart_Repository.thy ===== *)
theory Cart_Repository
  imports World
begin

text \<open>
  \<^verbatim>\<open>cart/adapters/valkey/repository.py\<close>: the Lua scripts, each one atomic step on the user's hash,
  and the repository methods over them. A key whose TTL has passed reads as absent. A script that
  answers \<open>redis.error_reply\<close> changes nothing, as all of them reply before their first write.
\<close>

datatype script_error = CART_FULL | PRODUCT_DELETED | LINE_ABSENT | CART_QTY_RANGE

type_synonym 'a script = "cart_hash option \<Rightarrow> (script_error + 'a) \<times> cart_hash option"

definition touch :: "timestamp \<Rightarrow> int \<Rightarrow> (uuid \<times> cart_line) list \<Rightarrow> cart_hash" where
  "touch now ttl fs = \<lparr>hlines = fs, meta = Some now, expires_at = now + seconds ttl\<rparr>"

definition lines_of_hash :: "cart_hash option \<Rightarrow> (uuid \<times> cart_line) list" where
  "lines_of_hash h = (case h of None \<Rightarrow> [] | Some c \<Rightarrow> hlines c)"

section \<open>Add\<close>

text \<open>The snapshot an increment stores: name, price and version (lines 70 to 90 of the script).\<close>

definition merge_increment ::
  "cart_line \<Rightarrow> projection option \<Rightarrow> string \<Rightarrow> string \<Rightarrow> int option \<Rightarrow> string \<times> string \<times> int option" where
  "merge_increment old proj name price incoming =
     (case incoming of
        None \<Rightarrow> (name, price, line_version old)
      | Some i \<Rightarrow>
          let (n, p, v) =
            (case line_version old of
               Some v \<Rightarrow> if i < v then (line_name old, line_price old, Some v)
                         else if i > v then (name, price, Some i) else (name, price, Some v)
             | None \<Rightarrow> (name, price, Some i))
          in (case proj of
                Some (Projected (Some sv) pn pp) \<Rightarrow>
                  if i < sv \<and> (case v of None \<Rightarrow> True | Some x \<Rightarrow> x < sv) then (pn, pp, Some sv) else (n, p, v)
              | _ \<Rightarrow> (n, p, v)))"

text \<open>The snapshot a new line stores (lines 96 to 112).\<close>

definition merge_new ::
  "projection option \<Rightarrow> string \<Rightarrow> string \<Rightarrow> int option \<Rightarrow> string \<times> string \<times> int option" where
  "merge_new proj name price incoming =
     (case proj of
        Some (Projected (Some sv) pn pp) \<Rightarrow>
          (case incoming of
             Some i \<Rightarrow> if i \<ge> sv then (name, price, Some i) else (pn, pp, Some sv)
           | None \<Rightarrow> (name, price, Some sv))
      | Some (Projected None pn pp) \<Rightarrow> (name, price, Some (case incoming of None \<Rightarrow> 0 | Some i \<Rightarrow> i))
      | _ \<Rightarrow> (name, price, incoming))"

definition add_lua ::
  "uuid \<Rightarrow> string \<Rightarrow> string \<Rightarrow> string option \<Rightarrow> int \<Rightarrow> int \<Rightarrow> nat \<Rightarrow> int \<Rightarrow> int option \<Rightarrow> timestamp \<Rightarrow>
   projection option \<Rightarrow> cart_hash script" where
  "add_lua pid name price img qty_add cap max_items ttl incoming now proj h =
     (if proj = Some Tombstone then (Inl PRODUCT_DELETED, h)
      else case map_of (lines_of_hash h) pid of
        Some old \<Rightarrow>
          let (n, p, v) = merge_increment old proj name price incoming;
              line = \<lparr>line_name = n, line_price = p, line_image = img,
                      line_qty = min cap (line_qty old + qty_add), line_version = v\<rparr>;
              c = touch now ttl (hset pid line (lines_of_hash h))
          in (Inr c, Some c)
      | None \<Rightarrow>
          if length (lines_of_hash h) \<ge> max_items then (Inl CART_FULL, h)
          else
            let (n, p, v) = merge_new proj name price incoming;
                line = \<lparr>line_name = n, line_price = p, line_image = img,
                        line_qty = min cap qty_add, line_version = v\<rparr>;
                c = touch now ttl (hset pid line (lines_of_hash h))
            in (Inr c, Some c))"

section \<open>Set, remove, clear, consume\<close>

text \<open>The common tail: a hash left with nothing but \<open>$meta\<close> is deleted, otherwise stamped and kept.\<close>

definition keep_or_drop :: "timestamp \<Rightarrow> int \<Rightarrow> cart_hash \<Rightarrow> cart_hash option" where
  "keep_or_drop now ttl h = (if hlen h \<le> 1 then None else Some (touch now ttl (hlines h)))"

definition set_lua :: "uuid \<Rightarrow> int \<Rightarrow> int \<Rightarrow> int \<Rightarrow> timestamp \<Rightarrow> cart_hash option script" where
  "set_lua pid q cap ttl now h =
     (case h of
        None \<Rightarrow> (Inl LINE_ABSENT, h)
      | Some c \<Rightarrow>
          (case map_of (hlines c) pid of
             None \<Rightarrow> (Inl LINE_ABSENT, h)
           | Some line \<Rightarrow>
               if q \<noteq> 0 \<and> q > cap then (Inl CART_QTY_RANGE, h)
               else let c' = (if q = 0 then c\<lparr>hlines := hdel pid (hlines c)\<rparr>
                              else c\<lparr>hlines := hset pid (line\<lparr>line_qty := q\<rparr>) (hlines c)\<rparr>);
                        r = keep_or_drop now ttl c'
                    in (Inr r, r)))"

definition remove_lua :: "uuid \<Rightarrow> int \<Rightarrow> timestamp \<Rightarrow> cart_hash option script" where
  "remove_lua pid ttl now h =
     (case h of
        None \<Rightarrow> (Inr None, None)
      | Some c \<Rightarrow>
          if map_of (hlines c) pid = None then (Inr (Some c), Some c)
          else let r = keep_or_drop now ttl (c\<lparr>hlines := hdel pid (hlines c)\<rparr>) in (Inr r, r))"

definition clear_lua :: "unit script" where
  "clear_lua h = (Inr (), None)"

fun consume_lines :: "(uuid \<times> int) list \<Rightarrow> (uuid \<times> cart_line) list \<Rightarrow> (uuid \<times> cart_line) list" where
  "consume_lines [] fs = fs"
| "consume_lines ((pid, q) # sold) fs =
     consume_lines sold
       (if q > 0 then
          (case map_of fs pid of
             None \<Rightarrow> fs
           | Some line \<Rightarrow>
               if line_qty line - q \<le> 0 then hdel pid fs
               else hset pid (line\<lparr>line_qty := line_qty line - q\<rparr>) fs)
        else fs)"

definition consume_lua :: "(uuid \<times> int) list \<Rightarrow> int \<Rightarrow> timestamp \<Rightarrow> bool script" where
  "consume_lua sold ttl now h =
     (case h of
        None \<Rightarrow> (Inr False, None)
      | Some c \<Rightarrow>
          let r = keep_or_drop now ttl (c\<lparr>hlines := consume_lines sold (hlines c)\<rparr>) in (Inr (r \<noteq> None), r))"

section \<open>Lazy reconciliation\<close>

definition apply_updated_lua ::
  "uuid \<Rightarrow> string \<Rightarrow> string \<Rightarrow> int option \<Rightarrow> int \<Rightarrow> timestamp \<Rightarrow> bool script" where
  "apply_updated_lua pid name price incoming ttl now h =
     (case map_of (lines_of_hash h) pid of
        None \<Rightarrow> (Inr False, h)
      | Some line \<Rightarrow>
          let line' = line\<lparr>line_name := name, line_price := price\<rparr> in
          (case incoming of
             None \<Rightarrow>
               if line_version line \<noteq> None then (Inr False, h)
               else if line_name line = name \<and> line_price line = price then (Inr False, h)
               else (Inr True, Some (touch now ttl (hset pid line' (lines_of_hash h))))
           | Some i \<Rightarrow>
               if (case line_version line of None \<Rightarrow> False | Some v \<Rightarrow> i \<le> v) then (Inr False, h)
               else (Inr True, Some (touch now ttl (hset pid (line'\<lparr>line_version := Some i\<rparr>) (lines_of_hash h))))))"

definition apply_deleted_lua :: "uuid \<Rightarrow> int \<Rightarrow> timestamp \<Rightarrow> bool script" where
  "apply_deleted_lua pid ttl now h =
     (case h of
        None \<Rightarrow> (Inr False, None)
      | Some c \<Rightarrow>
          if map_of (hlines c) pid = None then (Inr False, h)
          else (Inr True, keep_or_drop now ttl (c\<lparr>hlines := hdel pid (hlines c)\<rparr>)))"

definition project_lua :: "int option \<Rightarrow> string \<Rightarrow> string \<Rightarrow> projection option \<Rightarrow> bool \<times> projection option" where
  "project_lua incoming name price old =
     (case old of
        Some Tombstone \<Rightarrow> (False, old)
      | Some (Projected (Some v) _ _) \<Rightarrow>
          (case incoming of
             None \<Rightarrow> (False, old)
           | Some i \<Rightarrow> if i \<le> v then (False, old) else (True, Some (Projected incoming name price)))
      | _ \<Rightarrow> (True, Some (Projected incoming name price)))"

definition tombstone_lua :: "projection option \<Rightarrow> bool \<times> projection option" where
  "tombstone_lua old = (if old = Some Tombstone then (False, old) else (True, Some Tombstone))"

section \<open>The methods\<close>

text \<open>Running a script on the user's key: an expired hash is absent.\<close>

definition live_cart :: "timestamp \<Rightarrow> cart_hash option \<Rightarrow> cart_hash option" where
  "live_cart now h = (case h of None \<Rightarrow> None | Some c \<Rightarrow> if expires_at c \<le> now then None else Some c)"

definition eval_cart :: "uuid \<Rightarrow> (timestamp \<Rightarrow> 'a script) \<Rightarrow> ('g, script_error + 'a) service" where
  "eval_cart uid script = call (\<lambda>s.
     let now = clock (db s); (r, h) = script now (live_cart now (carts s uid))
     in (Inr r, s\<lparr>carts := (carts s)(uid := h)\<rparr>))"

record cart =
  cart_items :: "(uuid \<times> cart_line) list"
  cart_updated :: "timestamp option"

text \<open>\<open>_to_cart\<close>: the lines sorted by product id; a hash without lines is no cart.\<close>

definition to_cart :: "cart_hash option \<Rightarrow> cart option" where
  "to_cart h =
     (case h of
        None \<Rightarrow> None
      | Some c \<Rightarrow>
          if hlines c = [] then None
          else Some \<lparr>cart_items = sort_key (\<lambda>l. str_uuid (fst l)) (hlines c), cart_updated = meta c\<rparr>)"

definition read_and_touch :: "int \<Rightarrow> timestamp \<Rightarrow> cart_hash option script" where
  "read_and_touch ttl now h = (Inr h, map_option (\<lambda>c. c\<lparr>expires_at := now + seconds ttl\<rparr>) h)"

definition read_only :: "timestamp \<Rightarrow> cart_hash option script" where
  "read_only now h = (Inr h, h)"

text \<open>A script without an error reply.\<close>

definition sure :: "('g, script_error + 'a) service \<Rightarrow> ('g, 'a) service" where
  "sure m = bnd m (\<lambda>r. case r of Inr x \<Rightarrow> ret x | Inl _ \<Rightarrow> raise (RuntimeError ''unexpected script error''))"

definition reconcile_line ::
  "int \<Rightarrow> uuid \<Rightarrow> uuid \<times> cart_line \<Rightarrow> projection option \<Rightarrow> ('g, bool) service" where
  "reconcile_line ttl uid l state =
     (case state of
        None \<Rightarrow> ret False
      | Some Tombstone \<Rightarrow> sure (eval_cart uid (apply_deleted_lua (fst l) ttl))
      | Some (Projected v n p) \<Rightarrow>
          if \<not> should_apply_update (line_version (snd l)) v then ret False
          else if v = None \<and> line_name (snd l) = n \<and> line_price (snd l) = p then ret False
          else sure (eval_cart uid (apply_updated_lua (fst l) n p v ttl)))"

fun reconcile_lines ::
  "int \<Rightarrow> uuid \<Rightarrow> ((uuid \<times> cart_line) \<times> projection option) list \<Rightarrow> bool \<Rightarrow> ('g, bool) service" where
  "reconcile_lines ttl uid [] changed = ret changed"
| "reconcile_lines ttl uid ((l, st) # ls) changed =
     bnd (reconcile_line ttl uid l st) (\<lambda>applied. reconcile_lines ttl uid ls (changed \<or> applied))"

definition mget :: "uuid list \<Rightarrow> ('g, projection option list) service" where
  "mget pids = call (\<lambda>s. (Inr (map (projections s) pids), s))"

definition repo_get_cart :: "int \<Rightarrow> uuid \<Rightarrow> ('g, cart option) service" where
  "repo_get_cart ttl uid =
     bnd (sure (eval_cart uid (read_and_touch ttl))) (\<lambda>h.
       case to_cart h of
         None \<Rightarrow> ret None
       | Some c \<Rightarrow>
           bnd (mget (map fst (cart_items c))) (\<lambda>states.
           bnd (reconcile_lines ttl uid (zip (cart_items c) states) False) (\<lambda>changed.
             if changed then bnd (sure (eval_cart uid read_only)) (\<lambda>h'. ret (to_cart h'))
             else ret (Some c))))"

definition repo_add_item ::
  "int \<Rightarrow> uuid \<Rightarrow> uuid \<Rightarrow> string \<Rightarrow> string \<Rightarrow> string option \<Rightarrow> int \<Rightarrow> nat \<Rightarrow> int \<Rightarrow> int option \<Rightarrow> ('g, cart) service" where
  "repo_add_item ttl uid pid name price img q max_items cap v =
     bnd (call (\<lambda>s.
        let now = clock (db s);
            (r, h) = add_lua pid name price (if img = Some '''' then None else img) q cap max_items ttl v now
                       (projections s pid) (live_cart now (carts s uid))
        in (Inr r, s\<lparr>carts := (carts s)(uid := h)\<rparr>))) (\<lambda>r.
       case r of
         Inl CART_FULL \<Rightarrow> raise (InvalidCartOperationError ''cart holds the maximum of lines'' (int max_items))
       | Inl PRODUCT_DELETED \<Rightarrow> raise ProductTombstonedError
       | Inl _ \<Rightarrow> raise (RuntimeError ''unexpected script error'')
       | Inr h \<Rightarrow>
           (case to_cart (Some h) of
              None \<Rightarrow> raise (RuntimeError ''add always leaves a line behind'')
            | Some c \<Rightarrow> ret c))"

definition repo_set_quantity :: "int \<Rightarrow> uuid \<Rightarrow> uuid \<Rightarrow> int \<Rightarrow> int \<Rightarrow> ('g, cart option) service" where
  "repo_set_quantity ttl uid pid q cap =
     bnd (eval_cart uid (set_lua pid q cap ttl)) (\<lambda>r.
       case r of
         Inl LINE_ABSENT \<Rightarrow> ret None
       | Inl CART_QTY_RANGE \<Rightarrow> raise (InvalidCartOperationError ''quantity out of range'' q)
       | Inl _ \<Rightarrow> raise (RuntimeError ''unexpected script error'')
       | Inr h \<Rightarrow>
           (case to_cart h of
              None \<Rightarrow> bnd (gets (\<lambda>w. clock (db (sh w)))) (\<lambda>now. ret (Some \<lparr>cart_items = [], cart_updated = Some now\<rparr>))
            | Some c \<Rightarrow> ret (Some c)))"

definition repo_remove_item :: "int \<Rightarrow> uuid \<Rightarrow> uuid \<Rightarrow> ('g, cart option) service" where
  "repo_remove_item ttl uid pid = bnd (sure (eval_cart uid (remove_lua pid ttl))) (\<lambda>h. ret (to_cart h))"

definition repo_clear_cart :: "uuid \<Rightarrow> ('g, unit) service" where
  "repo_clear_cart uid = sure (eval_cart uid (\<lambda>_. clear_lua))"

definition repo_consume_lines :: "int \<Rightarrow> uuid \<Rightarrow> (uuid \<times> int) list \<Rightarrow> ('g, unit) service" where
  "repo_consume_lines ttl uid sold = bnd (sure (eval_cart uid (consume_lua sold ttl))) (\<lambda>_. ret ())"

definition repo_refresh_product :: "uuid \<Rightarrow> string \<Rightarrow> string \<Rightarrow> int option \<Rightarrow> ('g, bool) service" where
  "repo_refresh_product pid name price v = call (\<lambda>s.
     let (b, p) = project_lua v name price (projections s pid)
     in (Inr b, s\<lparr>projections := (projections s)(pid := p)\<rparr>))"

definition repo_prune_product :: "uuid \<Rightarrow> ('g, bool) service" where
  "repo_prune_product pid = call (\<lambda>s.
     let (b, p) = tombstone_lua (projections s pid)
     in (Inr b, s\<lparr>projections := (projections s)(pid := p)\<rparr>))"

end
