(* ===== verification/Orders_Service.thy ===== *)
theory Orders_Service
  imports World Inventory_Repository Orders_Repository
begin

text \<open>
  \<^verbatim>\<open>orders/application/service.py\<close>: the owner-checked reads and the cancel. The holds port of the
  request shares its session, so the release nests into the cancel's transaction as a savepoint:
  flip, release and journal row are one transaction. \<open>holds\<close> is the release of that port.
\<close>

definition assert_owner :: "uuid \<Rightarrow> uuid \<Rightarrow> bool \<Rightarrow> ('g, unit) service" where
  "assert_owner owner caller is_admin =
     (if owner \<noteq> caller \<and> \<not> is_admin then raise (AuthorizationError ''not the owner of this order'') else ret ())"

definition svc_get_order :: "uuid \<Rightarrow> ('g, order option) service" where
  "svc_get_order oid = tx (repo_get_order oid)"

definition svc_get_order_detail :: "uuid \<Rightarrow> uuid \<Rightarrow> bool \<Rightarrow> ('g, order option) service" where
  "svc_get_order_detail uid oid is_admin =
     bnd (tx (repo_get_order oid)) (\<lambda>row.
       case row of
         None \<Rightarrow> ret None
       | Some r \<Rightarrow> thn (assert_owner (order_user r) uid is_admin) (ret (Some r)))"

definition svc_get_execution ::
  "uuid \<Rightarrow> uuid \<Rightarrow> bool \<Rightarrow> ('g, (uuid \<times> order_status \<times> saga_step list) option) service" where
  "svc_get_execution uid oid is_admin =
     bnd (tx (repo_get_order oid)) (\<lambda>row.
       case row of
         None \<Rightarrow> ret None
       | Some r \<Rightarrow>
           thn (assert_owner (order_user r) uid is_admin)
          (bnd (tx (repo_list_saga_steps oid)) (\<lambda>steps. ret (Some (order_id r, order_state r, steps)))))"

text \<open>The body of the cancel's transaction.\<close>

definition cancel_txn :: "(uuid \<Rightarrow> bool txn) option \<Rightarrow> (uuid \<Rightarrow> nat txn) \<Rightarrow> uuid \<Rightarrow> order txn" where
  "cancel_txn guard holds oid =
     bnd (repo_transition_status guard oid [PENDING] CANCELLED None) (\<lambda>updated.
       case updated of
         None \<Rightarrow>
           bnd (repo_get_order oid) (\<lambda>final.
             case final of
               None \<Rightarrow> raise (OrderStateConflictError ''the order settled while cancelling; re-read it'')
             | Some r \<Rightarrow>
                 if order_state r \<noteq> CANCELLED
                 then raise (OrderStateConflictError ''the order settled while cancelling; re-read it'')
                 else ret r)
       | Some _ \<Rightarrow>
           thn (atomic (holds oid))
          (thn (repo_log_saga_step oid ''cancel'' ''completed'')
          (bnd (repo_get_order oid) (\<lambda>final.
             case final of
               None \<Rightarrow> raise (RuntimeError ''cancelled order not found after flip'')
             | Some r \<Rightarrow> ret r))))"

definition svc_cancel_order ::
  "(uuid \<Rightarrow> bool txn) option \<Rightarrow> (uuid \<Rightarrow> nat txn) option \<Rightarrow> uuid \<Rightarrow> uuid \<Rightarrow> bool \<Rightarrow> ('g, order option) service" where
  "svc_cancel_order guard holds uid oid is_admin =
     (case holds of
        None \<Rightarrow> raise (RuntimeError ''orders service requires stock holds to cancel'')
      | Some release \<Rightarrow>
          bnd (tx (repo_get_order oid)) (\<lambda>row.
            case row of
              None \<Rightarrow> ret None
            | Some r \<Rightarrow>
                thn (assert_owner (order_user r) uid is_admin)
                (if order_state r = CANCELLED then thn (tx (atomic (release oid))) (ret (Some r))
                 else if order_state r \<noteq> PENDING
                 then raise (OrderStateConflictError ''only pending orders can be cancelled'')
                 else bnd (tx (repo_latest_saga_step oid ''charge'')) (\<lambda>charge_state.
                   if charge_state \<in> {Some ''started'', Some ''completed'', Some ''unknown''}
                   then raise (OrderStateConflictError ''payment for this order is in progress; try again once it settles'')
                   else bnd (tx (cancel_txn guard release oid)) (\<lambda>r. ret (Some r))))))"

end
