(* ===== verification/Checkout_Saga.thy ===== *)
theory Checkout_Saga
  imports Inventory_Service Payments_Service Cart_Repository Orders_Service "HOL-Library.Multiset"
begin

text \<open>
  \<^verbatim>\<open>orders/application/checkout_saga.py\<close>: the checkout state machine, its compensation and its
  recovery, over the ports \<^verbatim>\<open>bootstrap/saga_factory.py\<close> builds (\<open>SagaBasket\<close>, \<open>SagaStockHolds\<close>,
  \<open>SagaCharges\<close>). A call of a port is the service method behind it.

  Parameters that are not modelled code: \<open>sc_prices\<close>, the catalog's current price of a product
  (absent when it is gone), and \<open>sc_sha256\<close>, the hex digest. \<open>sc_depth\<close> is what reading
  \<open>orders.uow.depth\<close> gives: a number, or nothing where the object has no such attribute.
  Log lines are left out.
\<close>

section \<open>Configuration, lines, keys\<close>

record 'g saga_config =
  sc_ttl :: int
  sc_cart_ttl :: int
  sc_payments :: "'g payments_config"
  sc_idempotency :: bool
  sc_prices :: "uuid \<Rightarrow> decimal option"
  sc_sha256 :: "string \<Rightarrow> string"
  sc_guard :: "(uuid \<Rightarrow> bool txn) option"
  sc_depth :: "nat option"
  sc_fresh :: bool

record checkout_line =
  cl_product :: uuid
  cl_name :: string
  cl_price :: decimal
  cl_qty :: int

definition payment_key_for :: "uuid \<Rightarrow> string \<Rightarrow> string" where
  "payment_key_for uid key = ''checkout:'' @ str_uuid uid @ '':'' @ key"

definition body_hash_for :: "(string \<Rightarrow> string) \<Rightarrow> string \<Rightarrow> string" where
  "body_hash_for sha token =
     sha (''{'' @ [CHR 0x22] @ ''payment_token'' @ [CHR 0x22] @ '':'' @ [CHR 0x22] @
          concat (map json_char token) @ [CHR 0x22] @ ''}'')"

definition total_of :: "checkout_line list \<Rightarrow> decimal" where
  "total_of lines = sum_list (map (\<lambda>l. cl_price l * of_int (cl_qty l)) lines)"

definition lines_of :: "order \<Rightarrow> checkout_line list" where
  "lines_of r = map (\<lambda>i. \<lparr>cl_product = item_product i, cl_name = item_name i, cl_price = item_price i,
     cl_qty = item_qty i\<rparr>) (order_items r)"

definition order_placed_outbox :: "order \<Rightarrow> event" where
  "order_placed_outbox r =
     OrderPlaced (order_id r) (order_user r) (order_total r)
       (if order_email r = '''' then None else Some (order_email r))
       (map (\<lambda>i. (item_product i, item_name i, item_qty i, item_price i)) (order_items r))"

section \<open>The ports\<close>

fun to_checkout_lines :: "(uuid \<times> cart_line) list \<Rightarrow> exn + checkout_line list" where
  "to_checkout_lines [] = Inr []"
| "to_checkout_lines ((p, l) # ls) =
     (case parse_decimal (line_price l) of
        None \<Rightarrow> Inl (InvalidOperation (line_price l))
      | Some price \<Rightarrow>
          (case to_checkout_lines ls of
             Inl e \<Rightarrow> Inl e
           | Inr rest \<Rightarrow> Inr (\<lparr>cl_product = p, cl_name = line_name l, cl_price = price, cl_qty = line_qty l\<rparr> # rest)))"

definition basket_get_lines :: "'g saga_config \<Rightarrow> uuid \<Rightarrow> ('g, checkout_line list) service" where
  "basket_get_lines cfg uid =
     bnd (repo_get_cart (sc_cart_ttl cfg) uid) (\<lambda>c.
       case c of
         None \<Rightarrow> ret []
       | Some cart \<Rightarrow>
           (case to_checkout_lines (cart_items cart) of Inl e \<Rightarrow> raise e | Inr ls \<Rightarrow> ret ls))"

definition basket_consume :: "'g saga_config \<Rightarrow> uuid \<Rightarrow> checkout_line list \<Rightarrow> ('g, unit) service" where
  "basket_consume cfg uid lines =
     repo_consume_lines (sc_cart_ttl cfg) uid (map (\<lambda>l. (cl_product l, cl_qty l)) lines)"

definition holds_reserve_many :: "'g saga_config \<Rightarrow> (sku \<times> int) list \<Rightarrow> uuid \<Rightarrow> ('g, unit) service" where
  "holds_reserve_many cfg lines oid = bnd (svc_reserve_many (sc_ttl cfg) lines oid) (\<lambda>_. ret ())"

definition charges_charge ::
  "'g saga_config \<Rightarrow> uuid \<Rightarrow> string \<Rightarrow> decimal \<Rightarrow> string \<Rightarrow> ('g, payment_status) service" where
  "charges_charge cfg oid key amount token =
     bnd (svc_charge (sc_payments cfg) oid key amount token) (\<lambda>p. ret (pay_status p))"

definition charges_find :: "string \<Rightarrow> ('g, payment_status option) service" where
  "charges_find key = bnd (svc_payment_by_key key) (\<lambda>p. ret (map_option pay_status p))"

definition charges_refund :: "'g saga_config \<Rightarrow> string \<Rightarrow> ('g, bool) service" where
  "charges_refund cfg key = svc_refund (sc_payments cfg) key"

text \<open>The idempotency store degrades to a miss, and to a lost write.\<close>

definition idem_get :: "uuid \<Rightarrow> string \<Rightarrow> ('g, (string \<times> nat \<times> order) option) service" where
  "idem_get uid key = except_Exception (call (\<lambda>s. (Inr (idem s (uid, key)), s))) (\<lambda>_. ret None)"

definition idem_put :: "uuid \<Rightarrow> string \<Rightarrow> string \<Rightarrow> nat \<Rightarrow> order \<Rightarrow> ('g, unit) service" where
  "idem_put uid key hash st response =
     except_Exception (call (\<lambda>s. (Inr (), s\<lparr>idem := (idem s)((uid, key) \<mapsto> (hash, st, response))\<rparr>))) (\<lambda>_. ret ())"

section \<open>Internals\<close>

definition log_on :: "'g saga_config \<Rightarrow> uuid \<Rightarrow> string \<Rightarrow> string \<Rightarrow> ('g, unit) service" where
  "log_on cfg oid step st =
     (case sc_depth cfg of
        None \<Rightarrow> raise (AttributeError ''UnitOfWork object has no attribute depth'')
      | Some n \<Rightarrow>
          if n \<noteq> 0 then raise (RuntimeError ''saga journal must commit at depth 0'')
          else tx (repo_log_saga_step oid step st))"

definition remember :: "'g saga_config \<Rightarrow> uuid \<Rightarrow> string \<Rightarrow> string \<Rightarrow> nat \<Rightarrow> order \<Rightarrow> ('g, unit) service" where
  "remember cfg uid key hash st response =
     (if \<not> sc_idempotency cfg then ret ()
      else except_Exception (idem_put uid key hash st response) (\<lambda>_. ret ()))"

definition clear_basket :: "uuid \<Rightarrow> ('g, unit) service" where
  "clear_basket uid = except_Exception (repo_clear_cart uid) (\<lambda>_. ret ())"

definition consume_basket :: "'g saga_config \<Rightarrow> uuid \<Rightarrow> checkout_line list \<Rightarrow> ('g, unit) service" where
  "consume_basket cfg uid lines = except_Exception (basket_consume cfg uid lines) (\<lambda>_. ret ())"

definition mop_up :: "'g saga_config \<Rightarrow> uuid \<Rightarrow> order_item list \<Rightarrow> ('g, unit) service" where
  "mop_up cfg uid items =
     bnd (basket_get_lines cfg uid) (\<lambda>lines.
       if lines = [] then ret ()
       else if mset (map (\<lambda>l. (cl_product l, cl_qty l)) lines) \<noteq> mset (map (\<lambda>i. (item_product i, item_qty i)) items)
       then ret ()
       else clear_basket uid)"

definition commit_holds :: "'g saga_config \<Rightarrow> uuid \<Rightarrow> nat \<Rightarrow> ('g, bool) service" where
  "commit_holds cfg oid expected =
     bnd (svc_commit_for_order oid expected) (\<lambda>committed.
       if committed \<ge> expected then ret True
       else thn (inc ''checkout_paid_without_consume_total'') (ret False))"

text \<open>\<open>rollback()\<close> of the session: no transaction of ours is open between calls, so it changes nothing.\<close>

definition rollback :: "('g, unit) service" where
  "rollback = call (\<lambda>s. (Inr (), s))"

section \<open>Compensation\<close>

definition compensate_with :: "'g saga_config \<Rightarrow> uuid \<Rightarrow> string \<Rightarrow> ('g, unit) service" where
  "compensate_with cfg oid step =
     thn (inc (''checkout_compensation_total:'' @ step))
    (thn (log_on cfg oid ''compensate'' ''started'')
    (thn (svc_release_for_order oid)
    (thn (tx (repo_transition_status (sc_guard cfg) oid [PENDING] CANCELLED None))
         (log_on cfg oid ''compensate'' ''completed''))))"

definition compensate :: "'g saga_config \<Rightarrow> uuid \<Rightarrow> string \<Rightarrow> ('g, unit) service" where
  "compensate cfg oid step = compensate_with cfg oid step"

text \<open>\<open>fresh_compensate\<close> runs the same compensation on a new session.\<close>

definition compensate_after_cancel :: "'g saga_config \<Rightarrow> uuid \<Rightarrow> string \<Rightarrow> ('g, unit) service" where
  "compensate_after_cancel cfg oid step =
     thn (except_Exception rollback (\<lambda>_. ret ()))
         (if sc_fresh cfg then compensate_with cfg oid step else compensate cfg oid step)"

section \<open>Refunding an orphaned charge\<close>

definition journal_refund :: "'g saga_config \<Rightarrow> uuid \<Rightarrow> string \<Rightarrow> ('g, bool) service" where
  "journal_refund cfg oid st =
     except_Exception (thn (log_on cfg oid ''refund'' st) (ret True)) (\<lambda>_. ret False)"

definition restock_cancelled_order :: "uuid \<Rightarrow> ('g, bool) service" where
  "restock_cancelled_order oid =
     except_Exception
       (bnd (tx (repo_get_order_status oid)) (\<lambda>st.
          if st \<noteq> Some CANCELLED then ret True
          else thn (svc_restock_for_order oid) (ret True)))
       (\<lambda>_. ret False)"

definition refund_orphaned_charge :: "'g saga_config \<Rightarrow> uuid \<Rightarrow> uuid \<Rightarrow> string \<Rightarrow> ('g, string) service" where
  "refund_orphaned_charge cfg oid uid key =
     bnd (journal_refund cfg oid ''requested'') (\<lambda>intent.
     bnd (restock_cancelled_order oid) (\<lambda>restocked.
     bnd (except_Exception (bnd (charges_refund cfg (payment_key_for uid key)) (\<lambda>b. ret (Some b)))
            (\<lambda>_. ret (if intent then None else Some False))) (\<lambda>refunded.
       case refunded of
         None \<Rightarrow> ret ''deferred''
       | Some True \<Rightarrow>
           thn (if restocked then bnd (journal_refund cfg oid ''completed'') (\<lambda>_. ret ()) else ret ())
               (ret ''refunded'')
       | Some False \<Rightarrow>
           if intent
           then bnd (journal_refund cfg oid ''refused'') (\<lambda>written.
                  thn (if written then inc ''checkout_orphaned_paid_payments_total'' else ret ())
                      (ret ''refused''))
           else thn (inc ''checkout_orphaned_paid_payments_total'') (ret ''refused''))))"

definition refund_outcome_detail :: "string \<Rightarrow> string" where
  "refund_outcome_detail out =
     (if out = ''refunded'' then ''the payment was refunded''
      else if out = ''deferred'' then ''the refund is in progress and will complete automatically''
      else ''it will be reconciled'')"

section \<open>The drive\<close>

record drive_locals =
  charged :: bool
  charge_uncertain :: bool
  compensated :: bool
  settled_paid :: bool
  failed_step :: string

definition drive_start :: drive_locals where
  "drive_start = \<lparr>charged = False, charge_uncertain = False, compensated = False, settled_paid = False,
     failed_step = ''reserve''\<rparr>"

text \<open>Reserve, with its own deadline (lines 358 to 390).\<close>

definition drive_reserve :: "'g saga_config \<Rightarrow> uuid \<Rightarrow> checkout_line list \<Rightarrow> ('g, drive_locals, unit) frame" where
  "drive_reserve cfg oid lines =
     thn (run_in (log_on cfg oid ''reserve'' ''started''))
    (thn (catch
           (run_in (with_timeout StepDeadline
              (holds_reserve_many cfg (map (\<lambda>l. (str_uuid (cl_product l), cl_qty l)) lines) oid)))
           (\<lambda>e. if e \<noteq> TimeoutError then raise e
              else thn (assign (\<lambda>l. l\<lparr>compensated := True\<rparr>))
                  (thn (run_in (except_Exception (compensate_after_cancel cfg oid ''reserve'') (\<lambda>_. ret ())))
                       (raise (OrderStateConflictError ''checkout reservation timed out'')))))
    (thn (run_in (log_on cfg oid ''reserve'' ''completed''))
         (assign (\<lambda>l. l\<lparr>failed_step := ''charge''\<rparr>))))"

text \<open>The last look before money moves (lines 392 to 416): an order paid meanwhile is replayed.\<close>

definition drive_look ::
  "'g saga_config \<Rightarrow> uuid \<Rightarrow> uuid \<Rightarrow> string \<Rightarrow> string \<Rightarrow> ('g, drive_locals, (order \<times> bool) option) frame" where
  "drive_look cfg oid uid key hash =
     thn (run_in (log_on cfg oid ''charge'' ''started''))
    (bnd (run_in (tx (repo_get_order oid))) (\<lambda>live.
       case live of
         None \<Rightarrow> raise (OrderStateConflictError ''the order was cancelled while checking out; start a new checkout'')
       | Some r \<Rightarrow>
           if order_state r = PAID
           then thn (assign (\<lambda>l. l\<lparr>settled_paid := True\<rparr>))
               (thn (run_in (remember cfg uid key hash 201 r))
               (thn (run_in (mop_up cfg uid (order_items r)))
                    (ret (Some (r, False)))))
           else if order_state r \<noteq> PENDING
           then raise (OrderStateConflictError ''the order was cancelled while checking out; start a new checkout'')
           else ret None))"

text \<open>A charge whose answer did not come back is settled from the recorded outcome (lines 427 to 452).\<close>

definition charge_unknown :: "'g saga_config \<Rightarrow> uuid \<Rightarrow> uuid \<Rightarrow> string \<Rightarrow> ('g, drive_locals, 'a) frame" where
  "charge_unknown cfg oid uid key =
     thn (assign (\<lambda>l. l\<lparr>charge_uncertain := True\<rparr>))
    (bnd (run_in (except_Exception (charges_find (payment_key_for uid key)) (\<lambda>_. ret None))) (\<lambda>charge.
       if charge \<noteq> Some FAILED
       then thn (run_in (log_on cfg oid ''charge'' ''unknown''))
                (raise (OrderStateConflictError ''payment outcome unknown; retry with the same Idempotency-Key to settle''))
       else thn (run_in (log_on cfg oid ''charge'' ''failed''))
           (thn (assign (\<lambda>l. l\<lparr>charge_uncertain := False\<rparr>))
           (thn (run_in (compensate cfg oid ''charge''))
                (raise (OrderStateConflictError ''checkout payment failed; the order was cancelled''))))))"

text \<open>Charge (lines 417 to 483): only a succeeded charge passes.\<close>

definition drive_charge ::
  "'g saga_config \<Rightarrow> uuid \<Rightarrow> uuid \<Rightarrow> string \<Rightarrow> string \<Rightarrow> decimal \<Rightarrow> ('g, drive_locals, unit) frame" where
  "drive_charge cfg oid uid key token amount =
     bnd (catch
            (run_in (with_timeout StepDeadline (charges_charge cfg oid (payment_key_for uid key) amount token)))
            (\<lambda>e. case e of
                CircuitOpenError _ \<Rightarrow> raise e
              | DependencyBudgetExhaustedError _ \<Rightarrow> raise e
              | TimeoutError \<Rightarrow> charge_unknown cfg oid uid key
              | DependencyUnavailableError _ \<Rightarrow> charge_unknown cfg oid uid key
              | _ \<Rightarrow> raise e)) (\<lambda>charge.
       case charge of
         REFUNDED \<Rightarrow>
           thn (run_in (log_on cfg oid ''charge'' ''refunded''))
          (thn (run_in (compensate cfg oid ''charge''))
               (raise (OrderStateConflictError
                  ''the payment for this checkout was refunded; start a new checkout with a new Idempotency-Key'')))
       | PAY_PENDING \<Rightarrow>
           thn (run_in (log_on cfg oid ''charge'' ''unknown''))
               (raise (OrderStateConflictError ''payment outcome unknown; retry with the same Idempotency-Key to settle''))
       | FAILED \<Rightarrow>
           thn (run_in (log_on cfg oid ''charge'' ''failed''))
          (thn (run_in (compensate cfg oid ''charge''))
               (raise (OrderStateConflictError ''payment was declined; the order was cancelled'')))
       | SUCCEEDED \<Rightarrow>
           assign (\<lambda>l. l\<lparr>charged := True, charge_uncertain := False\<rparr>))"

text \<open>
  Commit (lines 484 to 536): one retry after a timeout, then the guard that the order's committed
  total covers its lines.
\<close>

definition drive_commit ::
  "'g saga_config \<Rightarrow> uuid \<Rightarrow> uuid \<Rightarrow> string \<Rightarrow> nat \<Rightarrow> ('g, drive_locals, unit) frame" where
  "drive_commit cfg oid uid key n =
     thn (run_in (log_on cfg oid ''charge'' ''completed''))
    (thn (assign (\<lambda>l. l\<lparr>failed_step := ''commit''\<rparr>))
    (thn (run_in (log_on cfg oid ''commit'' ''started''))
    (thn (catch (run_in (with_timeout StepDeadline (bnd (svc_commit_for_order oid n) (\<lambda>_. ret ()))))
            (\<lambda>e. if e \<noteq> TimeoutError then raise e
               else catch (run_in (with_timeout StepDeadline (bnd (svc_commit_for_order oid n) (\<lambda>_. ret ()))))
                 (\<lambda>e. if e \<noteq> TimeoutError then raise e
                    else raise (OrderStateConflictError ''checkout commit timed out; it will be settled automatically''))))
    (bnd (run_in (commit_holds cfg oid n)) (\<lambda>full.
       if full then run_in (log_on cfg oid ''commit'' ''completed'')
       else thn (run_in (log_on cfg oid ''commit'' ''shortfall''))
           (bnd (run_in (tx (repo_get_order_status oid))) (\<lambda>st.
              if st = Some CANCELLED
              then bnd (run_in (refund_orphaned_charge cfg oid uid key)) (\<lambda>refund.
                     raise (OrderStateConflictError
                       (''the order was cancelled while the payment was completing; '' @ refund_outcome_detail refund)))
              else raise (OrderStateConflictError
                     ''checkout stock could not be committed; the order will be settled automatically''))))))))"

text \<open>The guarded flip to \<open>paid\<close> and its aftermath (lines 538 to 595).\<close>

definition drive_paid ::
  "'g saga_config \<Rightarrow> uuid \<Rightarrow> uuid \<Rightarrow> string \<Rightarrow> checkout_line list \<Rightarrow> string \<Rightarrow> ('g, drive_locals, order \<times> bool) frame" where
  "drive_paid cfg oid uid key lines hash =
     bnd (run_in (tx (repo_get_order oid))) (\<lambda>row.
       case row of
         None \<Rightarrow> raise (RuntimeError ''checkout order vanished mid-saga'')
       | Some r \<Rightarrow>
           thn (run_in (log_on cfg oid ''mark_paid'' ''started''))
          (bnd (run_in (tx (repo_transition_status (sc_guard cfg) oid [PENDING] PAID (Some (order_placed_outbox r))))) (\<lambda>flipped.
           bnd (case flipped of
                  None \<Rightarrow>
                    bnd (run_in (tx (repo_get_order oid))) (\<lambda>current.
                      case current of
                        None \<Rightarrow> raise (RuntimeError ''checkout order vanished mid-saga'')
                      | Some p \<Rightarrow>
                          if order_state p = PAID then ret p
                          else bnd (run_in (refund_orphaned_charge cfg oid uid key)) (\<lambda>refund.
                            raise (OrderStateConflictError
                              (''the order was cancelled while the payment was completing; '' @ refund_outcome_detail refund))))
                | Some p \<Rightarrow> thn (run_in (log_on cfg oid ''mark_paid'' ''completed'')) (ret p)) (\<lambda>paid.
             thn (if order_state paid = PAID
                  then thn (run_in (consume_basket cfg uid lines)) (run_in (remember cfg uid key hash 201 paid))
                  else ret ())
                 (ret (paid, True))))))"

text \<open>The arms of the outer \<open>try\<close> (lines 596 to 647), in their order.\<close>

definition drive_failed :: "'g saga_config \<Rightarrow> uuid \<Rightarrow> exn \<Rightarrow> ('g, drive_locals, 'a) frame" where
  "drive_failed cfg oid e =
     bnd (gets snd) (\<lambda>l.
       if is_OrderStateConflict e \<or> e = CheckoutIdempotencyConflictError then raise e
       else if e = TimeoutError then
         (if settled_paid l
          then raise (OrderStateConflictError ''checkout timed out; retry with the same Idempotency-Key to settle'')
          else if charged l \<or> charge_uncertain l
          then raise (OrderStateConflictError ''checkout could not complete after payment; it will be settled automatically'')
          else thn (if compensated l then ret ()
                    else run_in (except_Exception (compensate_after_cancel cfg oid (failed_step l)) (\<lambda>_. ret ())))
                   (raise (OrderStateConflictError ''checkout timed out; retry with the same Idempotency-Key to settle'')))
       else if is_Exception e then
         (if charged l \<or> charge_uncertain l
          then raise (OrderStateConflictError ''checkout could not complete after payment; it will be settled automatically'')
          else thn (run_in (compensate cfg oid ''reserve'')) (raise e))
       else raise e)"

definition drive ::
  "'g saga_config \<Rightarrow> uuid \<Rightarrow> uuid \<Rightarrow> string \<Rightarrow> string \<Rightarrow> checkout_line list \<Rightarrow> string \<Rightarrow> ('g, order \<times> bool) service" where
  "drive cfg oid uid key token lines hash =
     with_locals drive_start
       (catch
         (with_timeout OverallDeadline
           (thn (drive_reserve cfg oid lines)
           (bnd (drive_look cfg oid uid key hash) (\<lambda>early.
              case early of
                Some answer \<Rightarrow> ret answer
              | None \<Rightarrow>
                  thn (drive_charge cfg oid uid key token (total_of lines))
                 (thn (drive_commit cfg oid uid key (length lines))
                      (drive_paid cfg oid uid key lines hash))))))
         (drive_failed cfg oid))"

section \<open>The checkout\<close>

fun check_prices :: "(uuid \<Rightarrow> decimal option) \<Rightarrow> checkout_line list \<Rightarrow> exn option" where
  "check_prices current [] = None"
| "check_prices current (l # ls) =
     (case current (cl_product l) of
        None \<Rightarrow> Some (CartChangedError ''a product in the cart is no longer available; review the cart and retry'')
      | Some price \<Rightarrow>
          if price \<noteq> cl_price l
          then Some (CartChangedError ''a price in the cart changed; review the updated cart and retry'')
          else check_prices current ls)"

definition revalidate_prices :: "'g saga_config \<Rightarrow> checkout_line list \<Rightarrow> ('g, unit) service" where
  "revalidate_prices cfg lines =
     bnd (call (\<lambda>s. (Inr (sc_prices cfg), s))) (\<lambda>current.
       case check_prices current lines of Some e \<Rightarrow> raise e | None \<Rightarrow> ret ())"

definition replay_or_resume ::
  "'g saga_config \<Rightarrow> uuid \<Rightarrow> string \<Rightarrow> string \<Rightarrow> string \<Rightarrow> order \<Rightarrow> ('g, order \<times> bool) service" where
  "replay_or_resume cfg uid key token hash r =
     (if order_body_hash r \<noteq> hash then raise CheckoutIdempotencyConflictError
      else if order_state r = PAID
      then thn (remember cfg uid key hash 201 r) (thn (mop_up cfg uid (order_items r)) (ret (r, False)))
      else if order_state r = PENDING
      then bnd (drive cfg (order_id r) uid key token (lines_of r) hash) (\<lambda>(response, _). ret (response, False))
      else raise (OrderStateConflictError
             ''this checkout was already cancelled; start a new one with a new Idempotency-Key''))"

text \<open>A fresh checkout: no order under this key yet (lines 209 to 240).\<close>

definition checkout_fresh ::
  "'g saga_config \<Rightarrow> uuid \<Rightarrow> string \<Rightarrow> string \<Rightarrow> string \<Rightarrow> string \<Rightarrow> ('g, order \<times> bool) service" where
  "checkout_fresh cfg uid key token hash email =
     bnd (basket_get_lines cfg uid) (\<lambda>lines.
       if lines = [] then raise (OrderStateConflictError ''cart is empty; nothing to check out'')
       else thn (revalidate_prices cfg lines)
           (bnd (tx (repo_create_pending_order uid key hash (total_of lines)
                   (map (\<lambda>l. (cl_product l, cl_name l, cl_price l, cl_qty l)) lines) email)) (\<lambda>(r, created).
              if \<not> created then replay_or_resume cfg uid key token hash r
              else drive cfg (order_id r) uid key token lines hash)))"

definition checkout_body ::
  "'g saga_config \<Rightarrow> uuid \<Rightarrow> string \<Rightarrow> string \<Rightarrow> string \<Rightarrow> ('g, order \<times> bool) service" where
  "checkout_body cfg uid key token email =
     (let hash = body_hash_for (sc_sha256 cfg) token in
      bnd (if sc_idempotency cfg then idem_get uid key else ret None) (\<lambda>record.
        case record of
          Some (stored, _, response) \<Rightarrow>
            if stored \<noteq> hash then raise CheckoutIdempotencyConflictError
            else thn (if order_state response = PAID then mop_up cfg uid (order_items response) else ret ())
                (thn (inc ''checkout_attempts_total:replayed'') (ret (response, False)))
        | None \<Rightarrow>
            bnd (tx (repo_get_by_idempotency uid key)) (\<lambda>existing.
            bnd (case existing of
                   Some r \<Rightarrow> replay_or_resume cfg uid key token hash r
                 | None \<Rightarrow> checkout_fresh cfg uid key token hash email) (\<lambda>(r, created).
              thn (inc (if created then ''checkout_attempts_total:paid'' else ''checkout_attempts_total:replayed''))
                  (ret (r, created))))))"

definition attempt_label :: "exn \<Rightarrow> string" where
  "attempt_label e =
     (case e of
        InsufficientStockError _ _ \<Rightarrow> ''checkout_attempts_total:out_of_stock''
      | CheckoutIdempotencyConflictError \<Rightarrow> ''checkout_attempts_total:idempotency_conflict''
      | CartChangedError _ \<Rightarrow> ''checkout_attempts_total:cart_changed''
      | OrderStateConflictError _ \<Rightarrow> ''checkout_attempts_total:conflict''
      | _ \<Rightarrow> ''checkout_attempts_total:error'')"

definition checkout ::
  "'g saga_config \<Rightarrow> uuid \<Rightarrow> string \<Rightarrow> string \<Rightarrow> string \<Rightarrow> ('g, order \<times> bool) service" where
  "checkout cfg uid key token email =
     except_Exception (checkout_body cfg uid key token email)
       (\<lambda>e. thn (inc (attempt_label e)) (raise e))"

end
