(* ===== verification/Saga_Recovery.thy ===== *)
theory Saga_Recovery
  imports Checkout_Saga
begin

text \<open>
  The recovery half of \<^verbatim>\<open>orders/application/checkout_saga.py\<close> and the poller of
  \<^verbatim>\<open>bootstrap/saga_recovery.py\<close>: the two claims of a pass, how a crashed order is settled from its
  payment row, and how an open refund intent is retried.
\<close>

section \<open>Settling one crashed order\<close>

text \<open>Paid, but the holds are gone (lines 1003 to 1034): refund first, then compensate.\<close>

definition settle_shortfall :: "'g saga_config \<Rightarrow> order \<Rightarrow> ('g, string) service" where
  "settle_shortfall cfg r =
     bnd (charges_refund cfg (payment_key_for (order_user r) (order_key r))) (\<lambda>refunded.
       thn (if \<not> refunded
            then thn (log_on cfg (order_id r) ''refund'' ''refused'') (inc ''checkout_orphaned_paid_payments_total'')
            else log_on cfg (order_id r) ''refund'' ''completed'')
      (thn (compensate cfg (order_id r) ''paid-without-consume'')
           (ret ''compensated'')))"

text \<open>Paid and consumed (lines 1035 to 1063): flip, or undo when a cancel won the flip.\<close>

definition settle_paid :: "'g saga_config \<Rightarrow> order \<Rightarrow> ('g, string) service" where
  "settle_paid cfg r =
     thn (log_on cfg (order_id r) ''commit'' ''completed'')
    (thn (log_on cfg (order_id r) ''mark_paid'' ''started'')
    (bnd (tx (repo_transition_status (sc_guard cfg) (order_id r) [PENDING] PAID (Some (order_placed_outbox r)))) (\<lambda>paid.
       if (case paid of Some p \<Rightarrow> order_state p = PAID | None \<Rightarrow> False)
       then thn (log_on cfg (order_id r) ''mark_paid'' ''completed'')
           (thn (consume_basket cfg (order_user r) (lines_of r))
                (ret ''completed''))
       else if paid = None
       then bnd (tx (repo_get_order_status (order_id r))) (\<lambda>st.
              if st = Some CANCELLED
              then bnd (refund_orphaned_charge cfg (order_id r) (order_user r) (order_key r)) (\<lambda>refund.
                     ret (if refund = ''refunded'' then ''refunded''
                          else if refund = ''deferred'' then ''deferred'' else ''refund_failed''))
              else ret ''completed'')
       else ret ''completed'')))"

definition settle_crashed :: "'g saga_config \<Rightarrow> order \<Rightarrow> ('g, string) service" where
  "settle_crashed cfg r =
     bnd (charges_find (payment_key_for (order_user r) (order_key r))) (\<lambda>payment.
       if payment = Some SUCCEEDED
       then bnd (commit_holds cfg (order_id r) (length (order_items r))) (\<lambda>full.
              if \<not> full then settle_shortfall cfg r else settle_paid cfg r)
       else if payment = Some REFUNDED
       then thn (compensate cfg (order_id r) ''crashed'') (ret ''compensated'')
       else if payment = None \<or> payment = Some FAILED
       then thn (compensate cfg (order_id r) ''crashed'') (ret ''compensated'')
       else ret ''deferred'')"

definition retry_journaled_refund :: "'g saga_config \<Rightarrow> order \<Rightarrow> ('g, string) service" where
  "retry_journaled_refund cfg r =
     bnd (restock_cancelled_order (order_id r)) (\<lambda>restocked.
       if \<not> restocked then ret ''deferred''
       else bnd (charges_find (payment_key_for (order_user r) (order_key r))) (\<lambda>payment.
         if payment = Some REFUNDED
         then thn (log_on cfg (order_id r) ''refund'' ''completed'') (ret ''refunded'')
         else if payment = Some SUCCEEDED
         then bnd (charges_refund cfg (payment_key_for (order_user r) (order_key r))) (\<lambda>refunded.
                if refunded then thn (log_on cfg (order_id r) ''refund'' ''completed'') (ret ''refunded'')
                else thn (log_on cfg (order_id r) ''refund'' ''refused'')
                    (thn (inc ''checkout_orphaned_paid_payments_total'')
                         (ret ''refund_failed'')))
         else ret ''deferred''))"

section \<open>A pass\<close>

definition no_outcomes :: "string \<Rightarrow> nat" where
  "no_outcomes = (\<lambda>_. 0)"

text \<open>One claimed order: any exception rolls back and defers it, so the batch goes on.\<close>

fun settle_each ::
  "uuid list \<Rightarrow> (uuid \<Rightarrow> ('g, string) service) \<Rightarrow> (string \<Rightarrow> nat) \<Rightarrow> ('g, string \<Rightarrow> nat) service" where
  "settle_each [] settle outcome = ret outcome"
| "settle_each (oid # ids) settle outcome =
     bnd (except_Exception (settle oid) (\<lambda>_. thn rollback (ret ''deferred''))) (\<lambda>label.
     thn (inc (''checkout_recovery_total:'' @ label))
         (settle_each ids settle (outcome(label := outcome label + 1))))"

definition settle_stuck :: "'g saga_config \<Rightarrow> timestamp \<Rightarrow> uuid \<Rightarrow> ('g, string) service" where
  "settle_stuck cfg cutoff oid =
     bnd (tx (repo_get_order oid)) (\<lambda>row.
       case row of
         None \<Rightarrow> ret ''deferred''
       | Some r \<Rightarrow>
           bnd (tx (repo_has_recent_saga_activity oid cutoff)) (\<lambda>live.
             if live then ret ''deferred'' else settle_crashed cfg r))"

definition settle_refund :: "'g saga_config \<Rightarrow> uuid \<Rightarrow> ('g, string) service" where
  "settle_refund cfg oid =
     bnd (tx (repo_get_order oid)) (\<lambda>row.
       case row of None \<Rightarrow> ret ''deferred'' | Some r \<Rightarrow> retry_journaled_refund cfg r)"

definition recover_stuck :: "'g saga_config \<Rightarrow> timestamp \<Rightarrow> nat \<Rightarrow> ('g, string \<Rightarrow> nat) service" where
  "recover_stuck cfg cutoff batch =
     bnd (tx (repo_claim_stuck_pending cutoff batch)) (\<lambda>stuck.
     bnd (settle_each (map order_id stuck) (settle_stuck cfg cutoff) no_outcomes) (\<lambda>outcome.
     bnd (tx (repo_claim_cancelled_with_pending_refund cutoff batch)) (\<lambda>claims.
       settle_each (map order_id claims) (settle_refund cfg) outcome)))"

text \<open>\<open>SagaRecovery.sweep_once\<close>: the cutoff lies one step timeout back.\<close>

definition sweep_once :: "'g saga_config \<Rightarrow> int \<Rightarrow> nat \<Rightarrow> ('g, string \<Rightarrow> nat) service" where
  "sweep_once cfg step_timeout batch =
     bnd (gets (\<lambda>w. clock (db (sh w)))) (\<lambda>now. recover_stuck cfg (now - seconds step_timeout) batch)"

definition recovery_labels :: "string list" where
  "recovery_labels = [''completed'', ''compensated'', ''deferred'', ''refunded'', ''refund_failed'']"

text \<open>One turn of \<open>SagaRecovery.run\<close>: sleep only when the pass settled nothing.\<close>

definition recovery_turn :: "'g saga_config \<Rightarrow> int \<Rightarrow> nat \<Rightarrow> ('g, bool) service" where
  "recovery_turn cfg step_timeout batch =
     bnd (except_Exception (sweep_once cfg step_timeout batch) (\<lambda>_. ret no_outcomes)) (\<lambda>settled.
       ret (sum_list (map settled recovery_labels) = 0))"

end
