(* ===== verification/Shop_Invariant.thy ===== *)
theory Shop_Invariant
  imports Stock_Ledger Saga_Recovery
begin

text \<open>
  The invariant of the whole database and the relation every transaction of the system respects.
  \<open>paid_ok\<close> is what the saga exists for: a paid order owns all of its stock. \<open>refund_ok\<close>: money
  standing on a cancelled order always has a refund intent in the journal. Both span modules that
  never share a transaction with the saga, so they are statements about every interleaving.
\<close>

section \<open>Invariants\<close>

definition orders_ok :: "database \<Rightarrow> bool" where
  "orders_ok d \<longleftrightarrow>
     distinct (map order_id (orders d)) \<and> (\<forall>r \<in> set (orders d). order_id r < next_uuid d) \<and>
     distinct (map (\<lambda>r. (order_user r, order_key r)) (orders d))"

definition payments_ok :: "database \<Rightarrow> bool" where
  "payments_ok d \<longleftrightarrow>
     distinct (map pay_id (payments d)) \<and> (\<forall>p \<in> set (payments d). pay_id p < next_uuid d) \<and>
     distinct (map pay_key (payments d))"

definition paid_ok :: "database \<Rightarrow> bool" where
  "paid_ok d \<longleftrightarrow>
     (\<forall>r \<in> set (orders d). order_state r = PAID \<longrightarrow> length (order_items r) \<le> committed_count (order_id r) d)"

definition refund_ok :: "database \<Rightarrow> bool" where
  "refund_ok d \<longleftrightarrow>
     (\<forall>r \<in> set (orders d). order_state r = CANCELLED \<longrightarrow>
        (\<exists>p \<in> set (payments d). pay_order p = order_id r \<and> pay_status p = SUCCEEDED) \<longrightarrow>
        (\<exists>l \<in> set (saga_log d). log_order l = order_id r \<and> log_step l = ''refund''))"

definition placed_events :: "uuid \<Rightarrow> database \<Rightarrow> nat" where
  "placed_events oid d =
     length (filter (\<lambda>x. case out_event x of OrderPlaced i _ _ _ _ \<Rightarrow> i = oid | _ \<Rightarrow> False) (ord_outbox d))"

definition orders_announced :: "database \<Rightarrow> bool" where
  "orders_announced d \<longleftrightarrow>
     (\<forall>r \<in> set (orders d). placed_events (order_id r) d = (if order_state r = PAID then 1 else 0)) \<and>
     (\<forall>i \<ge> next_uuid d. placed_events i d = 0)"

definition shop_ok :: "database \<Rightarrow> bool" where
  "shop_ok d \<longleftrightarrow> stock_ok d \<and> stock_events_ok d \<and> orders_ok d \<and> payments_ok d \<and> paid_ok d \<and> refund_ok d \<and>
     orders_announced d"

section \<open>The step relation\<close>

fun order_may_become :: "order_status \<Rightarrow> order_status \<Rightarrow> bool" where
  "order_may_become PENDING st = (st \<noteq> SHIPPED)"
| "order_may_become st st' = (st' = st)"

fun payment_may_become :: "payment_status \<Rightarrow> payment_status \<Rightarrow> bool" where
  "payment_may_become PAY_PENDING st = True"
| "payment_may_become SUCCEEDED st = (st = SUCCEEDED \<or> st = REFUNDED)"
| "payment_may_become st st' = (st' = st)"

definition order_evolves :: "order \<Rightarrow> order \<Rightarrow> bool" where
  "order_evolves r r' \<longleftrightarrow>
     r' = r\<lparr>order_state := order_state r', order_updated := order_updated r'\<rparr> \<and>
     order_may_become (order_state r) (order_state r')"

definition payment_evolves :: "payment \<Rightarrow> payment \<Rightarrow> bool" where
  "payment_evolves p p' \<longleftrightarrow>
     p' = p\<lparr>pay_status := pay_status p', pay_ref := pay_ref p', pay_reason := pay_reason p'\<rparr> \<and>
     payment_may_become (pay_status p) (pay_status p')"

definition has_state :: "uuid \<Rightarrow> order_status \<Rightarrow> database \<Rightarrow> bool" where
  "has_state oid st d \<longleftrightarrow> (\<exists>r \<in> set (orders d). order_id r = oid \<and> order_state r = st)"

definition db_step :: "database \<Rightarrow> database \<Rightarrow> bool" where
  "db_step d d' \<longleftrightarrow>
     (shop_ok d \<longrightarrow>
        shop_ok d' \<and> next_uuid d \<le> next_uuid d' \<and>
        (\<forall>r \<in> set (orders d). \<exists>r' \<in> set (orders d'). order_evolves r r') \<and>
        (\<forall>p \<in> set (payments d). \<exists>p' \<in> set (payments d'). payment_evolves p p') \<and>
        (\<forall>oid. committed_count oid d \<le> committed_count oid d' \<or> has_state oid CANCELLED d') \<and>
        set (saga_log d) \<subseteq> set (saga_log d'))"

lemma may_become_refl [simp]: "order_may_become st st" "payment_may_become ps ps"
  by (cases st; simp) (cases ps; simp)

lemma evolves_refl [simp]: "order_evolves r r" "payment_evolves p p"
  by (simp_all add: order_evolves_def payment_evolves_def)

lemma evolves_refl_bex [simp]:
  "r \<in> set rs \<Longrightarrow> \<exists>r' \<in> set rs. order_evolves r r'"
  "p \<in> set ps \<Longrightarrow> \<exists>p' \<in> set ps. payment_evolves p p'"
  using evolves_refl by blast+

lemma db_step_refl: "db_step d d"
  by (auto simp: db_step_def intro: evolves_refl)

lemma has_state_evolves:
  assumes "\<forall>r \<in> set (orders d). \<exists>r' \<in> set (orders d'). order_evolves r r'" and "has_state oid CANCELLED d"
  shows "has_state oid CANCELLED d'"
proof -
  obtain r where "r \<in> set (orders d)" "order_id r = oid" "order_state r = CANCELLED"
    using assms(2) by (auto simp: has_state_def)
  moreover from this obtain r' where r': "r' \<in> set (orders d')" "order_evolves r r'" using assms(1) by blast
  then have "order_id r' = order_id r" unfolding order_evolves_def by (metis order.select_convs(1) order.surjective order.update_convs(3,7))
  ultimately show ?thesis using r' by (auto simp: has_state_def order_evolves_def)
qed

lemma order_evolves_trans: "order_evolves r r1 \<Longrightarrow> order_evolves r1 r2 \<Longrightarrow> order_evolves r r2"
  by (cases r; cases r1; cases r2; cases "order_state r"; cases "order_state r1") (auto simp: order_evolves_def)

lemma payment_evolves_trans: "payment_evolves p p1 \<Longrightarrow> payment_evolves p1 p2 \<Longrightarrow> payment_evolves p p2"
  by (cases p; cases p1; cases p2; cases "pay_status p"; cases "pay_status p1") (auto simp: payment_evolves_def)

lemma db_step_trans:
  assumes "db_step d d1" and "db_step d1 d2"
  shows "db_step d d2"
  unfolding db_step_def
proof
  assume ok: "shop_ok d"
  have 1: "shop_ok d1" "next_uuid d \<le> next_uuid d1" "\<forall>r \<in> set (orders d). \<exists>r' \<in> set (orders d1). order_evolves r r'"
      "\<forall>p \<in> set (payments d). \<exists>p' \<in> set (payments d1). payment_evolves p p'"
      "\<And>oid. committed_count oid d \<le> committed_count oid d1 \<or> has_state oid CANCELLED d1"
      "set (saga_log d) \<subseteq> set (saga_log d1)"
    using assms(1) ok by (simp_all add: db_step_def)
  have 2: "shop_ok d2" "next_uuid d1 \<le> next_uuid d2" "\<forall>r \<in> set (orders d1). \<exists>r' \<in> set (orders d2). order_evolves r r'"
      "\<forall>p \<in> set (payments d1). \<exists>p' \<in> set (payments d2). payment_evolves p p'"
      "\<And>oid. committed_count oid d1 \<le> committed_count oid d2 \<or> has_state oid CANCELLED d2"
      "set (saga_log d1) \<subseteq> set (saga_log d2)"
    using assms(2) 1(1) by (simp_all add: db_step_def)
  have "\<exists>r' \<in> set (orders d2). order_evolves r r'" if "r \<in> set (orders d)" for r
    using that 1(3) 2(3) order_evolves_trans by meson
  moreover have "\<exists>p' \<in> set (payments d2). payment_evolves p p'" if "p \<in> set (payments d)" for p
    using that 1(4) 2(4) payment_evolves_trans by meson
  moreover have "committed_count oid d \<le> committed_count oid d2 \<or> has_state oid CANCELLED d2" for oid
    using 1(5) [of oid] 2(5) [of oid] has_state_evolves [OF 2(3), of oid] by auto
  ultimately show "shop_ok d2 \<and> next_uuid d \<le> next_uuid d2 \<and>
      (\<forall>r \<in> set (orders d). \<exists>r' \<in> set (orders d2). order_evolves r r') \<and>
      (\<forall>p \<in> set (payments d). \<exists>p' \<in> set (payments d2). payment_evolves p p') \<and>
      (\<forall>oid. committed_count oid d \<le> committed_count oid d2 \<or> has_state oid CANCELLED d2) \<and>
      set (saga_log d) \<subseteq> set (saga_log d2)"
    using 1(2,6) 2(1,2,6) by auto
qed

section \<open>Steps that leave a module alone\<close>

lemma stock_step_db_step:
  assumes step: "shop_ok d \<Longrightarrow> stock_step give d d'" and give: "\<And>oid. give = Some oid \<Longrightarrow> has_state oid CANCELLED d"
  shows "db_step d d'"
  unfolding db_step_def
proof
  assume ok: "shop_ok d"
  from step [OF ok] have st: "stock_step give d d'" .
  then have side: "orders d' = orders d" "saga_log d' = saga_log d" "ord_outbox d' = ord_outbox d"
      "payments d' = payments d" and nxt: "next_uuid d \<le> next_uuid d'"
    by (simp_all add: stock_step_def other_side_def)
  have same: "has_state oid st d' = has_state oid st d" for oid st by (simp add: has_state_def side)
  have count: "committed_count oid d \<le> committed_count oid d' \<or> has_state oid CANCELLED d" for oid
    using st give by (cases "give = Some oid") (auto simp: stock_step_def)
  have live: "\<not> has_state (order_id r) CANCELLED d" if "r \<in> set (orders d)" "order_state r = PAID" for r
    using that ok unfolding shop_ok_def orders_ok_def has_state_def distinct_map
    by (metis inj_on_def order_status.distinct)
  have "paid_ok d'"
    unfolding paid_ok_def side
  proof (intro ballI impI)
    fix r assume r: "r \<in> set (orders d)" "order_state r = PAID"
    then have "length (order_items r) \<le> committed_count (order_id r) d"
      using ok by (simp add: shop_ok_def paid_ok_def)
    also have "\<dots> \<le> committed_count (order_id r) d'" using live [OF r] count by blast
    finally show "length (order_items r) \<le> committed_count (order_id r) d'" .
  qed
  moreover have "orders_ok d'" "payments_ok d'"
    using ok nxt by (auto simp: shop_ok_def orders_ok_def payments_ok_def side)
  moreover have "refund_ok d'" "orders_announced d'"
    using ok nxt by (auto simp: shop_ok_def refund_ok_def orders_announced_def placed_events_def side)
  ultimately have "shop_ok d'" using st by (simp add: shop_ok_def stock_step_def)
  with count nxt show "shop_ok d' \<and> next_uuid d \<le> next_uuid d' \<and>
        (\<forall>r \<in> set (orders d). \<exists>r' \<in> set (orders d'). order_evolves r r') \<and>
        (\<forall>p \<in> set (payments d). \<exists>p' \<in> set (payments d'). payment_evolves p p') \<and>
        (\<forall>oid. committed_count oid d \<le> committed_count oid d' \<or> has_state oid CANCELLED d') \<and>
        set (saga_log d) \<subseteq> set (saga_log d')"
    by (simp add: side same)
qed

text \<open>A transaction of the orders or payments module does not touch the inventory schema.\<close>

definition same_stock :: "database \<Rightarrow> database \<Rightarrow> bool" where
  "same_stock d d' \<longleftrightarrow> stock d' = stock d \<and> reservations d' = reservations d \<and> inv_outbox d' = inv_outbox d \<and>
     next_uuid d \<le> next_uuid d'"

lemma committed_count_same: "same_stock d d' \<Longrightarrow> committed_count oid d' = committed_count oid d"
  by (simp add: same_stock_def committed_count_def order_rows_def)

lemma same_stock_ok:
  assumes "same_stock d d'" and "stock_ok d" and "stock_events_ok d"
  shows "stock_ok d'" and "stock_events_ok d'"
proof -
  have "rows_ok d'"
    by (rule rows_ok_mono [of d]) (use assms in \<open>simp_all add: same_stock_def stock_ok_def\<close>)
  moreover have "counters_ok d' = counters_ok d"
    using assms(1) by (simp add: same_stock_def counters_ok_def held_qty_def)
  ultimately show "stock_ok d'" using assms(2) by (simp add: stock_ok_def)
  show "stock_events_ok d'" using assms by (simp add: same_stock_def stock_events_ok_def)
qed

lemma books_db_step:
  assumes same: "same_stock d d'"
    and ord: "shop_ok d \<Longrightarrow> orders_ok d'" and pay: "shop_ok d \<Longrightarrow> payments_ok d'"
    and paid: "shop_ok d \<Longrightarrow> paid_ok d'" and ref: "shop_ok d \<Longrightarrow> refund_ok d'"
    and ann: "shop_ok d \<Longrightarrow> orders_announced d'"
    and oe: "\<And>r. shop_ok d \<Longrightarrow> r \<in> set (orders d) \<Longrightarrow> \<exists>r' \<in> set (orders d'). order_evolves r r'"
    and pe: "\<And>p. shop_ok d \<Longrightarrow> p \<in> set (payments d) \<Longrightarrow> \<exists>p' \<in> set (payments d'). payment_evolves p p'"
    and log: "set (saga_log d) \<subseteq> set (saga_log d')"
  shows "db_step d d'"
  unfolding db_step_def
proof
  assume ok: "shop_ok d"
  then have "stock_ok d'" "stock_events_ok d'"
    using same_stock_ok [OF same] by (simp_all add: shop_ok_def)
  moreover have "next_uuid d \<le> next_uuid d'" using same by (simp add: same_stock_def)
  ultimately show "shop_ok d' \<and> next_uuid d \<le> next_uuid d' \<and>
      (\<forall>r \<in> set (orders d). \<exists>r' \<in> set (orders d'). order_evolves r r') \<and>
      (\<forall>p \<in> set (payments d). \<exists>p' \<in> set (payments d'). payment_evolves p p') \<and>
      (\<forall>oid. committed_count oid d \<le> committed_count oid d' \<or> has_state oid CANCELLED d') \<and>
      set (saga_log d) \<subseteq> set (saga_log d')"
    using assms ok by (simp add: shop_ok_def committed_count_same)
qed

section \<open>The journal\<close>

definition add_log :: "uuid \<Rightarrow> string \<Rightarrow> string \<Rightarrow> database \<Rightarrow> database" where
  "add_log oid step st d = d\<lparr>saga_log := saga_log d @ [\<lparr>log_order = oid, log_step = step, log_status = st,
     log_created = clock d, log_updated = clock d\<rparr>]\<rparr>"

lemma insert_saga_log_run:
  "insert_saga_log oid step st d =
     (if find_order oid d = None then (Inl (IntegrityError ''23503''), d) else (Inr (), add_log oid step st d))"
  by (simp add: insert_saga_log_def add_log_def)

lemma add_log_simps [simp]:
  "orders (add_log oid step st d) = orders d" "payments (add_log oid step st d) = payments d"
  "ord_outbox (add_log oid step st d) = ord_outbox d" "next_uuid (add_log oid step st d) = next_uuid d"
  "reservations (add_log oid step st d) = reservations d" "stock (add_log oid step st d) = stock d"
  "inv_outbox (add_log oid step st d) = inv_outbox d" "pay_outbox (add_log oid step st d) = pay_outbox d"
  "set (saga_log d) \<subseteq> set (saga_log (add_log oid step st d))"
  by (auto simp: add_log_def)

lemma refund_ok_log: "refund_ok d \<Longrightarrow> refund_ok (add_log oid step st d)"
  by (fastforce simp: refund_ok_def add_log_def)

lemma db_step_add_log: "db_step d (add_log oid step st d)"
  by (rule books_db_step)
    (auto simp: same_stock_def shop_ok_def orders_ok_def payments_ok_def paid_ok_def committed_count_def
      order_rows_def refund_ok_log orders_announced_def placed_events_def)

lemma db_step_log: "repo_log_saga_step oid step st d = (r, d') \<Longrightarrow> db_step d d'"
  by (auto simp: repo_log_saga_step_def insert_saga_log_run db_step_refl db_step_add_log split: if_splits)

text \<open>Requesting a refund: afterwards the intent is there, and nothing else changed.\<close>

lemma request_refund_once_run:
  "request_refund_once oid d =
     (if list_ex (\<lambda>l. log_order l = oid \<and> log_step l = ''refund'') (saga_log d) then (Inr (), d)
      else insert_saga_log oid ''refund'' ''requested'' d)"
proof (cases "find (\<lambda>l. log_order l = oid \<and> log_step l = ''refund'') (saga_log d)")
  case None
  then have "\<not> list_ex (\<lambda>l. log_order l = oid \<and> log_step l = ''refund'') (saga_log d)"
    by (auto simp: find_None list_ex_iff)
  with None show ?thesis by (simp add: request_refund_once_def)
next
  case (Some l)
  then have "list_ex (\<lambda>l. log_order l = oid \<and> log_step l = ''refund'') (saga_log d)"
    using find_Some_mem [OF Some] by (auto simp: list_ex_iff)
  with Some show ?thesis by (simp add: request_refund_once_def)
qed

end
