(* ===== verification/Shop_Steps.thy ===== *)
theory Shop_Steps
  imports Shop_Invariant
begin

text \<open>
  Every transaction of the orders and payments modules is a step of the shop: it keeps \<open>shop_ok\<close>
  and moves orders, payments, committed counts and the journal only forward.
\<close>

section \<open>Creating an order\<close>

fun items_from :: "uuid \<Rightarrow> (uuid \<times> string \<times> decimal \<times> int) list \<Rightarrow> order_item list" where
  "items_from u [] = []"
| "items_from u ((pid, name, price, q) # lines) =
     \<lparr>item_id = u, item_product = pid, item_name = name, item_price = price, item_qty = q\<rparr> # items_from (Suc u) lines"

lemma length_items_from [simp]: "length (items_from u lines) = length lines"
  by (induction u lines rule: items_from.induct) auto

lemma insert_items_run:
  "for_each lines (insert_order_item oid) d =
     (Inr (), d\<lparr>orders := update_where (\<lambda>r. order_id r = oid) (\<lambda>r. r\<lparr>order_items := order_items r @ items_from (next_uuid d) lines\<rparr>) (orders d),
        next_uuid := next_uuid d + length lines\<rparr>)"
proof (induction lines arbitrary: d)
  case Nil
  then show ?case by (simp add: update_where_def)
next
  case (Cons l lines)
  then show ?case
    by (cases l) (simp add: thn_run insert_order_item_def Let_def update_where_def comp_def if_distrib cong: if_cong)
qed

definition new_order :: "uuid \<Rightarrow> string \<Rightarrow> string \<Rightarrow> decimal \<Rightarrow> (uuid \<times> string \<times> decimal \<times> int) list \<Rightarrow> string \<Rightarrow> database \<Rightarrow> order" where
  "new_order uid key hash amount lines email d =
     \<lparr>order_id = next_uuid d, order_user = uid, order_state = PENDING, order_total = amount,
      order_items = items_from (Suc (next_uuid d)) lines, order_created = clock d, order_updated = clock d, order_key = key,
      order_body_hash = hash, order_email = email\<rparr>"

definition with_order :: "order \<Rightarrow> nat \<Rightarrow> database \<Rightarrow> database" where
  "with_order r n d = d\<lparr>orders := orders d @ [r], next_uuid := next_uuid d + n\<rparr>"

lemma create_pending_run:
  assumes ok: "orders_ok d"
  shows "repo_create_pending_order uid key hash amount lines email d =
     (case find (\<lambda>r. order_user r = uid \<and> order_key r = key) (orders d) of
        Some r \<Rightarrow> (Inr (r, False), d)
      | None \<Rightarrow> let r = new_order uid key hash amount lines email d in
          (Inr (r, True), add_log (order_id r) ''create'' ''completed'' (with_order r (Suc (length lines)) d)))"
proof (cases "find (\<lambda>r. order_user r = uid \<and> order_key r = key) (orders d)")
  case None
  then have no: "\<not> (\<exists>r \<in> set (orders d). order_user r = uid \<and> order_key r = key)" by (simp add: find_None)
  from no have cond: "(\<exists>r \<in> set (orders d). order_user r = uid \<and> order_key r = key) = False" by simp
  have old: "order_id r \<noteq> next_uuid d" if "r \<in> set (orders d)" for r
    using ok that by (auto simp: orders_ok_def)
  then have "find (\<lambda>r. order_id r = next_uuid d) (orders d) = None" by (simp add: find_None)
  with None old show ?thesis
    by (simp add: cond repo_create_pending_order_def insert_order_def atomic_run Let_def thn_run bnd_run insert_items_run
        insert_saga_log_run find_order_def repo_get_order_def find_append update_where_none new_order_def with_order_def
        add_log_def)
next
  case (Some r)
  then have "\<exists>r \<in> set (orders d). order_user r = uid \<and> order_key r = key" using find_Some_mem by fastforce
  with Some show ?thesis
    by (simp add: repo_create_pending_order_def insert_order_def atomic_run loser_reads_winner_def
        repo_get_by_idempotency_def bnd_run)
qed

lemma db_step_with_order:
  assumes fresh: "\<not> (\<exists>q \<in> set (orders d). order_user q = order_user r \<and> order_key q = order_key r)"
    and r: "order_id r = next_uuid d" "order_state r = PENDING" and n: "0 < n"
  shows "db_step d (with_order r n d)"
proof (rule books_db_step)
  show "orders_ok (with_order r n d)" if "shop_ok d"
    using that fresh r n by (fastforce simp: shop_ok_def orders_ok_def with_order_def)
  show "orders_announced (with_order r n d)" if "shop_ok d"
    using that r by (simp add: shop_ok_def orders_announced_def placed_events_def with_order_def)
  show "paid_ok (with_order r n d)" if "shop_ok d"
    using that r by (simp add: shop_ok_def paid_ok_def with_order_def committed_count_def order_rows_def)
  show "refund_ok (with_order r n d)" if "shop_ok d"
    using that r by (simp add: shop_ok_def refund_ok_def with_order_def)
qed (auto simp: same_stock_def with_order_def shop_ok_def payments_ok_def)

lemma db_step_create_pending:
  assumes "repo_create_pending_order uid key hash amount lines email d = (x, d')"
  shows "db_step d d'"
  unfolding db_step_def
proof (rule impI)
  assume ok: "shop_ok d"
  then have "orders_ok d" by (simp add: shop_ok_def)
  note run = create_pending_run [OF this, of uid key hash amount lines email]
  have "db_step d d'"
  proof (cases "find (\<lambda>r. order_user r = uid \<and> order_key r = key) (orders d)")
    case None
    then have fresh: "\<not> (\<exists>q \<in> set (orders d). order_user q = uid \<and> order_key q = key)" by (simp add: find_None)
    let ?r = "new_order uid key hash amount lines email d"
    have "db_step d (with_order ?r (Suc (length lines)) d)"
      by (rule db_step_with_order) (use fresh in \<open>auto simp: new_order_def\<close>)
    with None run assms show ?thesis by (auto simp: Let_def intro: db_step_trans db_step_add_log)
  qed (use run assms in \<open>auto intro: db_step_refl\<close>)
  with ok show "shop_ok d' \<and> next_uuid d \<le> next_uuid d' \<and>
      (\<forall>r \<in> set (orders d). \<exists>r' \<in> set (orders d'). order_evolves r r') \<and>
      (\<forall>p \<in> set (payments d). \<exists>p' \<in> set (payments d'). payment_evolves p p') \<and>
      (\<forall>oid. committed_count oid d \<le> committed_count oid d' \<or> has_state oid CANCELLED d') \<and>
      set (saga_log d) \<subseteq> set (saga_log d')"
    by (simp add: db_step_def)
qed

section \<open>The guarded flip\<close>

lemma flip_simps [simp]:
  "payments (flip_order oid ex to d) = payments d" "saga_log (flip_order oid ex to d) = saga_log d"
  "ord_outbox (flip_order oid ex to d) = ord_outbox d" "next_uuid (flip_order oid ex to d) = next_uuid d"
  "clock (flip_order oid ex to d) = clock d"
  by (simp_all add: flip_order_def)

lemma same_stock_flip [simp]: "same_stock d (flip_order oid ex to d)"
  by (simp add: same_stock_def flip_order_def)

definition flipped :: "uuid \<Rightarrow> order_status list \<Rightarrow> order_status \<Rightarrow> timestamp \<Rightarrow> order \<Rightarrow> order" where
  "flipped oid ex to now r =
     (if order_id r = oid \<and> order_state r \<in> set ex then r\<lparr>order_state := to, order_updated := now\<rparr> else r)"

lemma flipped_simps [simp]:
  "order_id (flipped oid ex to now r) = order_id r" "order_items (flipped oid ex to now r) = order_items r"
  "order_user (flipped oid ex to now r) = order_user r" "order_key (flipped oid ex to now r) = order_key r"
  "order_state (flipped oid ex to now r) = (if order_id r = oid \<and> order_state r \<in> set ex then to else order_state r)"
  by (simp_all add: flipped_def)

lemma orders_flip: "orders (flip_order oid ex to d) = map (flipped oid ex to (clock d)) (orders d)"
  by (simp add: flip_order_def update_where_def flipped_def)

lemma orders_ok_flip: "orders_ok d \<Longrightarrow> orders_ok (flip_order oid ex to d)"
  by (simp add: orders_ok_def orders_flip comp_def)

lemma flip_evolves:
  assumes "r \<in> set (orders d)" and "to \<noteq> SHIPPED"
  shows "\<exists>r' \<in> set (orders (flip_order oid [PENDING] to d)). order_evolves r r'"
proof -
  have "order_evolves r (flipped oid [PENDING] to (clock d) r)"
    using assms(2) by (simp add: flipped_def order_evolves_def)
  with assms(1) show ?thesis by (auto simp: orders_flip)
qed

lemma order_unique:
  "orders_ok d \<Longrightarrow> r \<in> set (orders d) \<Longrightarrow> q \<in> set (orders d) \<Longrightarrow> order_id q = order_id r \<Longrightarrow> q = r"
  by (auto simp: orders_ok_def distinct_map inj_on_def)

lemma find_order_unique: "orders_ok d \<Longrightarrow> r \<in> set (orders d) \<Longrightarrow> find_order (order_id r) d = Some r"
  by (simp add: find_order_def orders_ok_def find_unique)

lemma placed_events_flip [simp]: "placed_events i (flip_order oid ex to d) = placed_events i d"
  by (simp add: placed_events_def)

text \<open>To \<open>paid\<close>: allowed once the committed rows cover the order's lines.\<close>

definition mark_paid :: "uuid \<Rightarrow> event \<Rightarrow> database \<Rightarrow> database" where
  "mark_paid oid e d = snd (add_ord_outbox e (flip_order oid [PENDING] PAID d))"

lemma mark_paid_simps [simp]:
  "orders (mark_paid oid e d) = orders (flip_order oid [PENDING] PAID d)" "payments (mark_paid oid e d) = payments d"
  "saga_log (mark_paid oid e d) = saga_log d" "next_uuid (mark_paid oid e d) = Suc (next_uuid d)"
  "same_stock d (mark_paid oid e d)"
  by (simp_all add: mark_paid_def add_ord_outbox_def same_stock_def flip_order_def)

lemma placed_events_mark_paid:
  "placed_events i (mark_paid oid (OrderPlaced oid a b c l) d) = placed_events i d + (if i = oid then 1 else 0)"
  by (simp add: mark_paid_def add_ord_outbox_def placed_events_def)

lemma transition_paid_run:
  "repo_transition_status guard oid [PENDING] PAID (Some e) d =
     (if has_state oid PENDING d then (Inr (find_order oid (mark_paid oid e d)), mark_paid oid e d) else (Inr None, d))"
proof (cases "find (\<lambda>r. order_id r = oid \<and> order_state r \<in> set [PENDING]) (orders d)")
  case None
  then have "\<not> has_state oid PENDING d" by (auto simp: find_None has_state_def)
  with None show ?thesis by (simp add: repo_transition_status_def)
next
  case (Some r)
  then have "has_state oid PENDING d" using find_Some_mem [OF Some] by (auto simp: has_state_def)
  with Some show ?thesis
    by (cases guard) (simp_all add: repo_transition_status_def thn_run add_ord_outbox_def mark_paid_def repo_get_order_def
        find_order_def flip_order_def)
qed

lemma db_step_mark_paid:
  assumes r: "r \<in> set (orders d)" "order_id r = oid" "order_state r = PENDING"
    and cover: "length (order_items r) \<le> committed_count oid d"
  shows "db_step d (mark_paid oid (OrderPlaced oid a b c l) d)"
proof (rule books_db_step)
  let ?d = "mark_paid oid (OrderPlaced oid a b c l) d"
  assume ok: "shop_ok d"
  then have ord: "orders_ok d" by (simp add: shop_ok_def)
  have uniq: "q = r" if "q \<in> set (orders d)" "order_id q = oid" for q
    using order_unique [OF ord r(1) that(1)] that r by simp
  show "orders_ok ?d" using orders_ok_flip [OF ord, of oid "[PENDING]" PAID] by (auto simp: orders_ok_def)
  have count: "committed_count i ?d = committed_count i d" for i by (simp add: committed_count_same)
  show "paid_ok ?d"
    using ok cover uniq by (auto simp: shop_ok_def paid_ok_def orders_flip count)
  show "refund_ok ?d" using ok by (auto simp: shop_ok_def refund_ok_def orders_flip)
  have z: "placed_events oid d = 0" using ok r by (auto simp: shop_ok_def orders_announced_def)
  have lt: "oid < next_uuid d" using ord r by (auto simp: orders_ok_def)
  have "placed_events (order_id q) d + (if order_id q = oid then 1 else 0) =
      (if (if order_id q = oid \<and> order_state q = PENDING then PAID else order_state q) = PAID then 1 else 0)"
    if "q \<in> set (orders d)" for q
    using ok z r(3) uniq [OF that] that by (cases "order_id q = oid") (simp_all add: shop_ok_def orders_announced_def)
  then show "orders_announced ?d"
    using ok lt by (simp add: shop_ok_def orders_announced_def orders_flip placed_events_mark_paid split: if_split)
qed (auto simp: shop_ok_def payments_ok_def flip_evolves)

text \<open>To \<open>cancelled\<close>: money standing on the order leaves a refund intent in the same transaction.\<close>

definition refund_wanted :: "uuid \<Rightarrow> database \<Rightarrow> bool" where
  "refund_wanted oid d \<longleftrightarrow> (\<exists>l \<in> set (saga_log d). log_order l = oid \<and> log_step l = ''refund'')"

definition ensure_refund :: "uuid \<Rightarrow> database \<Rightarrow> database" where
  "ensure_refund oid d = (if refund_wanted oid d then d else add_log oid ''refund'' ''requested'' d)"

definition charged_order :: "uuid \<Rightarrow> database \<Rightarrow> bool" where
  "charged_order oid d \<longleftrightarrow> (\<exists>p \<in> set (payments d). pay_order p = oid \<and> pay_status p = SUCCEEDED)"

definition mark_cancelled :: "uuid \<Rightarrow> database \<Rightarrow> database" where
  "mark_cancelled oid d =
     (let d1 = flip_order oid [PENDING] CANCELLED d in if charged_order oid d then ensure_refund oid d1 else d1)"

lemma request_refund_ensures:
  "find_order oid d \<noteq> None \<Longrightarrow> request_refund_once oid d = (Inr (), ensure_refund oid d)"
  by (auto simp: request_refund_once_run insert_saga_log_run ensure_refund_def refund_wanted_def list_ex_iff)

lemma ensure_refund_simps [simp]:
  "orders (ensure_refund oid d) = orders d" "payments (ensure_refund oid d) = payments d"
  "ord_outbox (ensure_refund oid d) = ord_outbox d" "next_uuid (ensure_refund oid d) = next_uuid d"
  "same_stock d (ensure_refund oid d)" "same_stock d1 (ensure_refund oid d) = same_stock d1 d"
  "refund_wanted oid (ensure_refund oid d)" "set (saga_log d) \<subseteq> set (saga_log (ensure_refund oid d))"
  by (auto simp: ensure_refund_def same_stock_def add_log_def refund_wanted_def)

lemma refund_ok_alt:
  "refund_ok d \<longleftrightarrow> (\<forall>r \<in> set (orders d). order_state r = CANCELLED \<longrightarrow> charged_order (order_id r) d \<longrightarrow> refund_wanted (order_id r) d)"
  by (simp add: refund_ok_def charged_order_def refund_wanted_def)

lemma refund_wanted_mono: "refund_wanted oid d \<Longrightarrow> set (saga_log d) \<subseteq> set (saga_log d') \<Longrightarrow> refund_wanted oid d'"
  by (auto simp: refund_wanted_def)

lemma transition_cancel_run:
  "repo_transition_status (Some has_succeeded_for_order) oid [PENDING] CANCELLED None d =
     (if has_state oid PENDING d then (Inr (find_order oid (mark_cancelled oid d)), mark_cancelled oid d) else (Inr None, d))"
proof (cases "find (\<lambda>r. order_id r = oid \<and> order_state r \<in> set [PENDING]) (orders d)")
  case None
  then have "\<not> has_state oid PENDING d" by (auto simp: find_None has_state_def)
  with None show ?thesis by (simp add: repo_transition_status_def)
next
  case (Some r)
  then have mem: "has_state oid PENDING d" using find_Some_mem [OF Some] by (auto simp: has_state_def)
  then have "find_order oid (flip_order oid [PENDING] CANCELLED d) \<noteq> None"
    unfolding find_order_def find_None by (auto simp: orders_flip has_state_def)
  note req = request_refund_ensures [OF this]
  have charged: "list_ex (\<lambda>p. pay_order p = oid \<and> pay_status p = SUCCEEDED) (payments d) = charged_order oid d"
    by (simp add: charged_order_def list_ex_iff)
  from Some mem show ?thesis
    by (simp add: repo_transition_status_def thn_run bnd_run has_succeeded_for_order_def charged req mark_cancelled_def
        repo_get_order_def Let_def)
qed

lemma mark_cancelled_simps [simp]:
  "orders (mark_cancelled oid d) = orders (flip_order oid [PENDING] CANCELLED d)"
  "payments (mark_cancelled oid d) = payments d" "next_uuid (mark_cancelled oid d) = next_uuid d"
  "placed_events i (mark_cancelled oid d) = placed_events i d"
  "same_stock d (mark_cancelled oid d)" "set (saga_log d) \<subseteq> set (saga_log (mark_cancelled oid d))"
  "charged_order i (mark_cancelled oid d) = charged_order i d"
  using ensure_refund_simps(8) [of "flip_order oid [PENDING] CANCELLED d" oid]
  by (simp_all add: mark_cancelled_def Let_def placed_events_def charged_order_def)

lemma db_step_mark_cancelled: "db_step d (mark_cancelled oid d)"
proof (rule books_db_step)
  assume ok: "shop_ok d"
  show "orders_ok (mark_cancelled oid d)"
    using ok orders_ok_flip [of d oid "[PENDING]" CANCELLED] by (simp add: shop_ok_def orders_ok_def)
  show "paid_ok (mark_cancelled oid d)"
    using ok by (simp add: shop_ok_def paid_ok_def orders_flip committed_count_same [of d])
  have "refund_wanted oid (mark_cancelled oid d)" if "charged_order oid d"
    using that by (simp add: mark_cancelled_def Let_def)
  then show "refund_ok (mark_cancelled oid d)"
    using ok refund_wanted_mono [OF _ mark_cancelled_simps(6)]
    by (fastforce simp: shop_ok_def refund_ok_alt orders_flip split: if_splits)
  show "orders_announced (mark_cancelled oid d)"
    using ok by (auto simp: shop_ok_def orders_announced_def orders_flip)
qed (auto simp: shop_ok_def payments_ok_def flip_evolves)

section \<open>Payments\<close>

definition with_payment :: "payment \<Rightarrow> database \<Rightarrow> database" where
  "with_payment p d = d\<lparr>payments := payments d @ [p], next_uuid := Suc (next_uuid d)\<rparr>"

definition new_payment :: "uuid \<Rightarrow> string \<Rightarrow> decimal \<Rightarrow> database \<Rightarrow> payment" where
  "new_payment oid key amount d = \<lparr>pay_id = next_uuid d, pay_order = oid, pay_key = key, pay_status = PAY_PENDING,
     pay_amount = amount, pay_ref = None, pay_reason = None, pay_created = clock d\<rparr>"

lemma create_payment_run:
  assumes ok: "payments_ok d"
  shows "repo_create_pending oid key amount d =
     (case payment_by_key key d of
        Some p \<Rightarrow> (Inr (p, False), d)
      | None \<Rightarrow> (Inr (new_payment oid key amount d, True), with_payment (new_payment oid key amount d) d))"
proof (cases "payment_by_key key d")
  case None
  then have no: "(\<exists>p \<in> set (payments d). pay_key p = key) = False" by (simp add: payment_by_key_def find_None)
  have "find (\<lambda>p. pay_id p = next_uuid d) (payments d) = None"
    using ok by (auto simp: payments_ok_def find_None)
  with None show ?thesis
    by (simp add: repo_create_pending_def no Let_def bnd_run repo_get_payment_def find_append new_payment_def with_payment_def)
next
  case (Some p)
  then have "\<exists>p \<in> set (payments d). pay_key p = key" using find_Some_mem by (fastforce simp: payment_by_key_def)
  with Some show ?thesis by (simp add: repo_create_pending_def bnd_run repo_payment_by_key_def)
qed

lemma db_step_create_payment:
  assumes "repo_create_pending oid key amount d = (x, d')"
  shows "db_step d d'"
proof (cases "payments_ok d")
  case True
  let ?p = "new_payment oid key amount d"
  have "db_step d (with_payment ?p d)" if "payment_by_key key d = None"
  proof (rule books_db_step)
    assume ok: "shop_ok d"
    have "pay_key q \<noteq> key" if "q \<in> set (payments d)" for q
      using \<open>payment_by_key key d = None\<close> that by (simp add: payment_by_key_def find_None)
    then show "payments_ok (with_payment ?p d)"
      using True by (fastforce simp: payments_ok_def with_payment_def new_payment_def)
    show "refund_ok (with_payment ?p d)"
      using ok by (simp add: shop_ok_def refund_ok_def with_payment_def new_payment_def)
  qed (auto simp: same_stock_def with_payment_def shop_ok_def orders_ok_def paid_ok_def committed_count_def order_rows_def
        orders_announced_def placed_events_def)
  with assms create_payment_run [OF True, of oid key amount] show ?thesis
    by (auto simp: db_step_refl split: option.splits)
qed (simp add: db_step_def shop_ok_def)

definition settled :: "uuid \<Rightarrow> payment_status \<Rightarrow> payment_status \<Rightarrow> string option \<Rightarrow> string option \<Rightarrow> payment \<Rightarrow> payment" where
  "settled pid ex to ref reason p = (if pay_id p = pid \<and> pay_status p = ex then applied to ref reason p else p)"

lemma settled_simps [simp]:
  "pay_id (settled pid ex to ref reason p) = pay_id p" "pay_key (settled pid ex to ref reason p) = pay_key p"
  "pay_order (settled pid ex to ref reason p) = pay_order p" "pay_amount (settled pid ex to ref reason p) = pay_amount p"
  "pay_status (settled pid ex to ref reason p) = (if pay_id p = pid \<and> pay_status p = ex then to else pay_status p)"
  by (simp_all add: settled_def applied_def)

definition settle_payment ::
  "uuid \<Rightarrow> payment_status \<Rightarrow> payment_status \<Rightarrow> string option \<Rightarrow> string option \<Rightarrow> event \<Rightarrow> database \<Rightarrow> database" where
  "settle_payment pid ex to ref reason e d =
     snd (add_pay_outbox e (d\<lparr>payments := map (settled pid ex to ref reason) (payments d)\<rparr>))"

lemma settle_payment_simps [simp]:
  "orders (settle_payment pid ex to ref reason e d) = orders d"
  "payments (settle_payment pid ex to ref reason e d) = map (settled pid ex to ref reason) (payments d)"
  "saga_log (settle_payment pid ex to ref reason e d) = saga_log d"
  "next_uuid (settle_payment pid ex to ref reason e d) = Suc (next_uuid d)"
  "same_stock d (settle_payment pid ex to ref reason e d)"
  "placed_events i (settle_payment pid ex to ref reason e d) = placed_events i d"
  "committed_count oid (settle_payment pid ex to ref reason e d) = committed_count oid d"
  "find_order oid (settle_payment pid ex to ref reason e d) = find_order oid d"
  by (simp_all add: settle_payment_def add_pay_outbox_def same_stock_def placed_events_def committed_count_def
      order_rows_def find_order_def)

abbreviation due_payment :: "uuid \<Rightarrow> payment_status \<Rightarrow> database \<Rightarrow> payment option" where
  "due_payment pid ex d \<equiv> find (\<lambda>p. pay_id p = pid \<and> pay_status p = ex) (payments d)"

lemma transition_run:
  "repo_transition pid to ref reason factory expect hook d =
     (let ex = (case expect of None \<Rightarrow> PAY_PENDING | Some e \<Rightarrow> e) in
      case due_payment pid ex d of
        None \<Rightarrow> (Inr None, d)
      | Some p \<Rightarrow>
          thn (case hook of None \<Rightarrow> ret () | Some h \<Rightarrow> h (pay_order p)) (repo_get_payment pid)
            (settle_payment pid ex to ref reason (factory (applied to ref reason p)) d))"
  by (cases "due_payment pid (case expect of None \<Rightarrow> PAY_PENDING | Some e \<Rightarrow> e) d")
    (simp_all add: repo_transition_def Let_def thn_run [of "modify _"] thn_run [of "add_pay_outbox _"] add_pay_outbox_def
      settle_payment_def settled_def [abs_def] update_where_def)

lemma settled_evolves: "payment_may_become ex to \<Longrightarrow> payment_evolves p (settled pid ex to ref reason p)"
  by (simp add: settled_def applied_def payment_evolves_def)

lemma settled_evolves_bex:
  "p \<in> set ps \<Longrightarrow> payment_may_become ex to \<Longrightarrow> \<exists>p' \<in> settled pid ex to ref reason ` set ps. payment_evolves p p'"
  using settled_evolves by blast

lemma charged_settled:
  assumes "charged_order oid (settle_payment pid ex to ref reason e d)"
  shows "charged_order oid d \<or> to = SUCCEEDED \<and> (\<exists>p \<in> set (payments d). pay_id p = pid \<and> pay_order p = oid)"
  using assms by (auto simp: charged_order_def split: if_splits)

lemma db_step_settle:
  assumes "payment_may_become ex to" and "to \<noteq> SUCCEEDED"
  shows "db_step d (settle_payment pid ex to ref reason e d)"
proof (rule books_db_step)
  assume ok: "shop_ok d"
  show "refund_ok (settle_payment pid ex to ref reason e d)"
    using ok charged_settled [of _ pid ex to ref reason e d] assms(2)
    by (auto simp: shop_ok_def refund_ok_alt refund_wanted_def)
  show "\<exists>p' \<in> set (payments (settle_payment pid ex to ref reason e d)). payment_evolves p p'" if "p \<in> set (payments d)" for p
    unfolding settle_payment_simps set_map by (rule settled_evolves_bex) (simp_all add: that assms)
qed (auto simp: shop_ok_def orders_ok_def payments_ok_def paid_ok_def orders_announced_def comp_def)

text \<open>A success lands together with the refund intent when the order is already cancelled.\<close>

definition settle_success :: "uuid \<Rightarrow> string option \<Rightarrow> event \<Rightarrow> uuid \<Rightarrow> database \<Rightarrow> database" where
  "settle_success pid ref e oid d =
     (let d1 = settle_payment pid PAY_PENDING SUCCEEDED ref None e d in
      if map_option order_state (find_order oid d) = Some CANCELLED then ensure_refund oid d1 else d1)"

lemma hook_run:
  "cancelled_order_refund_hook oid d =
     (Inr (), if map_option order_state (find_order oid d) = Some CANCELLED then ensure_refund oid d else d)"
  by (auto simp: cancelled_order_refund_hook_def repo_journal_refund_if_cancelled_def repo_get_order_status_def
      intro: request_refund_ensures)

lemma transition_success_run:
  "repo_transition pid SUCCEEDED ref None factory None (Some cancelled_order_refund_hook) d =
     (case due_payment pid PAY_PENDING d of
        None \<Rightarrow> (Inr None, d)
      | Some p \<Rightarrow>
          let d' = settle_success pid ref (factory (applied SUCCEEDED ref None p)) (pay_order p) d
          in (Inr (find (\<lambda>p. pay_id p = pid) (payments d')), d'))"
  by (cases "due_payment pid PAY_PENDING d")
    (auto simp: transition_run thn_run hook_run settle_success_def repo_get_payment_def Let_def)

lemma db_step_settle_success:
  assumes p: "p \<in> set (payments d)" "pay_id p = pid" "pay_order p = oid"
  shows "db_step d (settle_success pid ref e oid d)"
proof (rule books_db_step)
  let ?d = "settle_success pid ref e oid d"
  have simps: "orders ?d = orders d" "payments ?d = map (settled pid PAY_PENDING SUCCEEDED ref None) (payments d)"
      "same_stock d ?d" "placed_events i ?d = placed_events i d" "next_uuid ?d = Suc (next_uuid d)" for i
    by (simp_all add: settle_success_def Let_def same_stock_def placed_events_def ensure_refund_def add_log_def)
      (simp_all add: settle_payment_def add_pay_outbox_def)
  show "same_stock d ?d" by (rule simps)
  show log: "set (saga_log d) \<subseteq> set (saga_log ?d)"
    using ensure_refund_simps(8) [of "settle_payment pid PAY_PENDING SUCCEEDED ref None e d" oid]
    by (simp add: settle_success_def Let_def)
  assume ok: "shop_ok d"
  have uniq: "q = p" if "q \<in> set (payments d)" "pay_id q = pid" for q
    using ok that p by (auto simp: shop_ok_def payments_ok_def distinct_map inj_on_def)
  have "refund_wanted (order_id r) ?d" if r: "r \<in> set (orders d)" "order_state r = CANCELLED" "charged_order (order_id r) ?d" for r
  proof (cases "charged_order (order_id r) d")
    case True
    then show ?thesis using ok r log by (auto simp: shop_ok_def refund_ok_alt intro: refund_wanted_mono)
  next
    case False
    from r(3) obtain q where q: "q \<in> set (payments d)" "pay_order q = order_id r"
        "(if pay_id q = pid \<and> pay_status q = PAY_PENDING then SUCCEEDED else pay_status q) = SUCCEEDED"
      by (auto simp only: charged_order_def simps set_map settled_simps)
    with False have "pay_id q = pid" by (auto simp: charged_order_def split: if_splits)
    then have "order_id r = oid" using uniq [OF q(1)] q(2) p(3) by simp
    moreover have "find_order (order_id r) d = Some r"
      using ok r by (simp add: shop_ok_def find_order_unique)
    ultimately show ?thesis using r(2) by (simp add: settle_success_def Let_def)
  qed
  then show "refund_ok ?d" by (simp add: refund_ok_alt simps)
  show "\<exists>p' \<in> set (payments ?d). payment_evolves q p'" if "q \<in> set (payments d)" for q
    unfolding simps set_map by (rule settled_evolves_bex) (simp_all add: that)
  show "paid_ok ?d" using ok committed_count_same [OF simps(3)] by (simp add: shop_ok_def paid_ok_def simps)
  show "payments_ok ?d" using ok by (simp add: shop_ok_def payments_ok_def simps comp_def less_Suc_eq)
  show "orders_ok ?d" "orders_announced ?d"
    using ok by (auto simp: shop_ok_def orders_ok_def orders_announced_def simps)
  show "\<exists>r' \<in> set (orders ?d). order_evolves r r'" if "r \<in> set (orders d)" for r
    using that by (simp add: simps)
qed

lemma db_step_outcome:
  assumes "outcome_txn (Some cancelled_order_refund_hook) pid out ref reason d = (x, d')"
  shows "db_step d d'"
proof (cases out)
  case G_SUCCEEDED
  with assms show ?thesis
    by (cases "due_payment pid PAY_PENDING d")
      (auto simp: outcome_txn_def transition_success_run Let_def db_step_refl dest!: find_Some_mem
        intro!: db_step_settle_success)
next
  case G_FAILED
  with assms show ?thesis
    by (cases "due_payment pid PAY_PENDING d")
      (auto simp: outcome_txn_def transition_run thn_run repo_get_payment_def db_step_refl intro!: db_step_settle)
qed (use assms in \<open>simp add: outcome_txn_def db_step_refl\<close>)

lemma db_step_refunded:
  assumes "repo_transition pid REFUNDED ref None payment_refunded_outbox (Some SUCCEEDED) None d = (x, d')"
  shows "db_step d d'"
  using assms
  by (cases "due_payment pid SUCCEEDED d")
    (auto simp: transition_run thn_run repo_get_payment_def db_step_refl intro!: db_step_settle)

section \<open>The leases\<close>

definition touched :: "uuid set \<Rightarrow> timestamp \<Rightarrow> order \<Rightarrow> order" where
  "touched ids now r = (if order_id r \<in> ids then r\<lparr>order_updated := now\<rparr> else r)"

lemma touched_simps [simp]:
  "order_id (touched ids now r) = order_id r" "order_items (touched ids now r) = order_items r"
  "order_user (touched ids now r) = order_user r" "order_key (touched ids now r) = order_key r"
  "order_state (touched ids now r) = order_state r" "order_evolves r (touched ids now r)"
  by (simp_all add: touched_def order_evolves_def)

lemma orders_update_simps [simp]:
  "placed_events i (d\<lparr>orders := rs\<rparr>) = placed_events i d" "committed_count i (d\<lparr>orders := rs\<rparr>) = committed_count i d"
  "same_stock d (d\<lparr>orders := rs\<rparr>)"
  by (simp_all add: placed_events_def committed_count_def order_rows_def same_stock_def)

lemma db_step_touched: "db_step d (d\<lparr>orders := map (touched ids now) (orders d)\<rparr>)"
proof (rule books_db_step)
  fix r assume "r \<in> set (orders d)"
  then show "\<exists>r' \<in> set (orders (d\<lparr>orders := map (touched ids now) (orders d)\<rparr>)). order_evolves r r'"
    by (auto intro!: bexI [of _ r])
qed (simp_all add: shop_ok_def orders_ok_def payments_ok_def paid_ok_def refund_ok_def orders_announced_def comp_def)

lemma load_orders_run: "\<exists>rows. load_orders ids d = (Inr rows, d)"
  by (induction ids) (auto simp: bnd_run repo_get_order_def)

lemma db_step_claim:
  assumes "bnd (lease p n) load_orders d = (x, d')"
  shows "db_step d d'"
proof -
  let ?ids = "map order_id (take n (sort_key order_updated (filter (p d) (orders d))))"
  let ?d = "d\<lparr>orders := map (touched (set ?ids) (clock d)) (orders d)\<rparr>"
  have "lease p n d = (Inr ?ids, ?d)"
    by (simp add: lease_def Let_def update_where_def touched_def [abs_def])
  with assms load_orders_run [of ?ids ?d] have "d' = ?d" by (auto simp: bnd_run)
  then show ?thesis using db_step_touched by blast
qed

section \<open>The cancel's transaction\<close>

lemma db_step_release_for_order:
  "repo_release_for_order oid StockReleased d = (x, d') \<Longrightarrow> db_step d d'"
  by (rule stock_step_db_step [of _ None]) (auto simp: shop_ok_def intro: stock_step_release_for_order)

lemma db_step_cancel:
  assumes "cancel_txn (Some has_succeeded_for_order) (\<lambda>oid. repo_release_for_order oid StockReleased) oid d = (x, d')"
  shows "db_step d d'"
proof (cases "has_state oid PENDING d")
  case True
  let ?d1 = "mark_cancelled oid d"
  obtain y d2 where rel: "repo_release_for_order oid StockReleased ?d1 = (y, d2)" by fastforce
  have 1: "db_step d ?d1" by (rule db_step_mark_cancelled)
  have 2: "db_step ?d1 d2" using rel by (rule db_step_release_for_order)
  obtain r where "find_order oid ?d1 = Some r"
    using True unfolding has_state_def by (cases "find_order oid ?d1") (auto simp: find_order_def find_None orders_flip)
  with assms True rel have "d' = ?d1 \<or> d' = d2 \<or> d' = add_log oid ''cancel'' ''completed'' d2"
    by (cases y) (auto simp: cancel_txn_def bnd_run thn_run transition_cancel_run atomic_run repo_log_saga_step_def
        insert_saga_log_run repo_get_order_def split: if_splits option.splits)
  with 1 2 show ?thesis by (auto intro: db_step_trans db_step_add_log)
next
  case False
  with assms have "d' = d"
    by (auto simp: cancel_txn_def bnd_run transition_cancel_run repo_get_order_def split: option.splits if_splits)
  then show ?thesis by (simp add: db_step_refl)
qed

end
