(* ===== verification/Valkey_Rely.thy ===== *)
theory Valkey_Rely
  imports Saga_Recovery
begin

text \<open>
  The requests that only read the database and only write Valkey (carts, projections, the
  idempotency cache) are safe for every step relation that does not speak about Valkey. They are
  proved once, in a locale that extends \<open>rely_guarantee\<close>; each relation of the development interprets
  it.
\<close>

locale valkey_rely = rely_guarantee R I
  for R :: "'g shared \<Rightarrow> 'g shared \<Rightarrow> bool" and I :: "'g shared \<Rightarrow> bool" +
  assumes R_valkey: "db s' = db s \<Longrightarrow> gate s' = gate s \<Longrightarrow> R s s'"
begin

lemma safe_local_call: "(\<And>s r s'. step s = (r, s') \<Longrightarrow> db s' = db s \<and> gate s' = gate s) \<Longrightarrow> safe (call step)"
  by (rule rg_call [OF stable_True]) (auto intro: R_valkey)

lemma safe_read: "safe (tx (gets f))"
  by (rule rg_tx [OF stable_True]) (auto intro: R_valkey)

lemma safe_eval_cart: "safe (eval_cart uid script)"
  unfolding eval_cart_def by (rule safe_local_call) (auto simp: Let_def split_beta)

lemma safe_sure: "safe m \<Longrightarrow> safe (sure m)"
  unfolding sure_def by (intro safe_rules)

lemma safe_reconcile_line: "safe (reconcile_line ttl uid l st)"
  unfolding reconcile_line_def
  by (intro safe_rules safe_sure safe_eval_cart | split projection.split, intro conjI allI impI)+

lemma safe_reconcile_lines: "safe (reconcile_lines ttl uid ls b)"
proof (induction ls arbitrary: b)
  case (Cons x ls)
  then show ?case by (cases x) (simp only: reconcile_lines.simps, intro safe_rules safe_reconcile_line)
qed (unfold reconcile_lines.simps, rule safe_ret)

lemma safe_mget: "safe (mget pids)"
  unfolding mget_def by (rule safe_local_call) auto

lemma safe_cart:
  "safe (repo_get_cart ttl uid)" "safe (repo_remove_item ttl uid pid)" "safe (repo_clear_cart uid)"
  "safe (repo_consume_lines ttl uid sold)" "safe (repo_refresh_product pid name price v)" "safe (repo_prune_product pid)"
  unfolding repo_get_cart_def repo_remove_item_def repo_clear_cart_def repo_consume_lines_def repo_refresh_product_def
    repo_prune_product_def
  by (intro safe_rules safe_sure safe_eval_cart safe_mget safe_reconcile_lines | (rule safe_local_call, auto simp: split_beta))+

lemma safe_cart_writes:
  "safe (repo_add_item ttl uid pid name price img q max_items cap v)" "safe (repo_set_quantity ttl uid pid q cap)"
  unfolding repo_add_item_def repo_set_quantity_def
  by (intro safe_rules safe_eval_cart | (rule safe_local_call, auto simp: split_beta Let_def)
      | (split script_error.split, intro conjI impI))+

lemma safe_idem: "safe (idem_get uid key)" "safe (idem_put uid key hash st r)"
  unfolding idem_get_def idem_put_def by (intro safe_rules safe_local_call; auto)+

lemma safe_basket:
  "safe (basket_get_lines cfg uid)" "safe (basket_consume cfg uid lines)" "safe (clear_basket uid)"
  "safe (consume_basket cfg uid lines)"
  unfolding consume_basket_def clear_basket_def basket_get_lines_def basket_consume_def
  by (intro safe_rules safe_cart)+

lemma safe_internals:
  "safe (remember cfg uid key hash st r)" "safe (mop_up cfg uid items)" "safe rollback" "safe (revalidate_prices cfg lines)"
  unfolding remember_def mop_up_def rollback_def revalidate_prices_def
  by (intro safe_rules safe_idem safe_basket | (rule safe_local_call; auto))+

end

end
