(* ===== verification/Shop_Safety.thy ===== *)
theory Shop_Safety
  imports Shop_Steps Valkey_Rely
begin

text \<open>
  Every request of the shop stays inside the step relation: whatever fails and whatever the others do
  in between, each of its writes is a \<open>db_step\<close>. The interface is the locale \<open>rely_guarantee\<close>; here it
  is interpreted on \<open>db_step\<close> and \<open>shop_ok\<close>, and the services are walked through with its rules.
\<close>

named_theorems safe_intros "requests that stay inside the step relation"

section \<open>The shop\<close>

definition shop_step :: "'g shared \<Rightarrow> 'g shared \<Rightarrow> bool" where
  "shop_step s s' \<longleftrightarrow> db_step (db s) (db s')"

interpretation shop: valkey_rely shop_step "\<lambda>s. shop_ok (db s)"
  by unfold_locales (auto simp: shop_step_def db_step_refl db_step_def)


text \<open>A transaction is safe when its body is a step; a call that leaves the database alone is safe.\<close>

lemma safe_tx: "(\<And>d x d'. m d = (Inr x, d') \<Longrightarrow> db_step d d') \<Longrightarrow> shop.safe (tx m)"
  by (rule shop.rg_tx) (auto simp: shop_step_def)

lemma safe_call: "(\<And>s r s'. step s = (r, s') \<Longrightarrow> db s' = db s) \<Longrightarrow> shop.safe (call step)"
  by (rule shop.rg_call) (auto simp: shop_step_def db_step_refl)

lemma safe_gate [safe_intros]: "shop.safe (call (on_gate op))"
  by (rule safe_call) (auto simp: on_gate_def split_beta)

section \<open>Inventory\<close>

lemma inventory_db_steps:
  "repo_reserve_many lines oid expires StockReserved d = (r1, d') \<Longrightarrow> db_step d d'"
  "repo_reserve s q oid expires (StockReserved s oid q) d = (r2, d') \<Longrightarrow> db_step d d'"
  "repo_release rid StockReleased d = (r3, d') \<Longrightarrow> db_step d d'"
  "repo_release_expired n StockReleased d = (r4, d') \<Longrightarrow> db_step d d'"
  "repo_commit_reservation rid d = (r5, d') \<Longrightarrow> db_step d d'"
  "repo_commit_for_order oid k d = (r6, d') \<Longrightarrow> db_step d d'"
  by (rule stock_step_db_step [of _ None];
      auto simp: shop_ok_def intro: stock_step_reserve_many stock_step_reserve stock_step_release
        stock_step_release_expired stock_step_commit_reservation stock_step_commit_for_order)+

lemma safe_count_conflict: "shop.safe m \<Longrightarrow> shop.safe (count_conflict m)"
  unfolding count_conflict_def
  by (intro shop.rg_catch) (auto split: exn.split intro!: shop.safe_rules)

lemma safe_inventory_txns:
  "shop.safe (tx (\<lambda>d. repo_reserve_many lines oid (t d) StockReserved d))"
  "shop.safe (tx (\<lambda>d. repo_reserve s q oid (t d) (StockReserved s oid q) d))"
  "shop.safe (tx (repo_release rid StockReleased))" "shop.safe (tx (repo_release_for_order oid StockReleased))"
  "shop.safe (tx (repo_release_expired n StockReleased))" "shop.safe (tx (repo_commit_reservation rid))"
  "shop.safe (tx (repo_commit_for_order oid k))"
  by (rule safe_tx; erule inventory_db_steps db_step_release_for_order)+

lemma safe_reads [safe_intros]: "shop.safe (svc_get_by_sku s)" "shop.safe (svc_get_many_by_skus skus)"
  by (rule safe_tx [of "get_by_sku s", folded svc_get_by_sku_def] safe_tx [of "get_many_by_skus skus", folded svc_get_many_by_skus_def];
      auto simp: get_by_sku_def get_many_by_skus_def db_step_refl split: if_splits)+

lemma safe_inventory [safe_intros]:
  "shop.safe (svc_reserve ttl s q oid)" "shop.safe (svc_reserve_many ttl lines oid)"
  "shop.safe (svc_release rid)" "shop.safe (svc_release_for_order oid)"
  "shop.safe (svc_commit_for_order oid n)" "shop.safe (svc_commit_reservation rid)"
  "shop.safe (svc_release_expired batch)"
  unfolding svc_reserve_def svc_reserve_many_def svc_release_def
    svc_release_for_order_def svc_commit_for_order_def svc_commit_reservation_def svc_release_expired_def
  by (intro shop.safe_rules safe_count_conflict safe_inventory_txns)+

lemma safe_reaper [safe_intros]: "shop.safe (reaper_turn batch)" "shop.safe (reaper_drain n batch)"
proof -
  show turn: "shop.safe (reaper_turn batch)"
    unfolding reaper_turn_def by (intro shop.safe_rules safe_intros)
  show "shop.safe (reaper_drain n batch)"
  proof (induction n)
    case (Suc n)
    then show ?case unfolding reaper_drain.simps by (intro shop.safe_rules turn)
  qed (unfold reaper_drain.simps, rule shop.safe_ret)
qed

section \<open>Payments\<close>

abbreviation wired_hook :: "'g payments_config \<Rightarrow> bool" where
  "wired_hook cfg \<equiv> pc_hook cfg = Some cancelled_order_refund_hook"

lemma safe_payment_txns:
  "shop.safe (tx (repo_create_pending oid key amount))"
  "shop.safe (tx (outcome_txn (Some cancelled_order_refund_hook) pid out ref reason))"
  "shop.safe (tx (repo_transition pid REFUNDED ref None payment_refunded_outbox (Some SUCCEEDED) None))"
  "shop.safe (tx (repo_get_payment pid))" "shop.safe (tx (repo_payment_by_key key))"
  "shop.safe (tx (due_for_reconciliation a b n))" "shop.safe (tx (abandonable b n))"
  unfolding repo_get_payment_def repo_payment_by_key_def due_for_reconciliation_def abandonable_def
  by (rule shop.safe_read | (rule safe_tx; erule db_step_create_payment db_step_outcome db_step_refunded))+

lemma safe_require_gateway: "shop.safe (require_gateway cfg)"
  unfolding require_gateway_def by (intro shop.safe_rules)

lemma safe_apply:
  "shop.safe (apply_outcome (Some cancelled_order_refund_hook) pid out ref reason)"
  "shop.safe (apply_charge (Some cancelled_order_refund_hook) pid c)"
  unfolding apply_charge_def apply_outcome_def by (intro shop.safe_rules safe_payment_txns)+

lemma safe_payments:
  assumes "wired_hook cfg"
  shows "shop.safe (svc_charge cfg oid key amount token)" "shop.safe (svc_refund cfg key)"
    "shop.safe (svc_payment_by_key key)" "shop.safe (svc_handle_webhook hmac loads cfg body sig ts)"
  unfolding svc_charge_def svc_refund_def svc_payment_by_key_def svc_handle_webhook_def assms
  by (intro shop.safe_rules safe_payment_txns safe_require_gateway safe_gate safe_apply
      | split webhook_json.split option.split prod.split, intro conjI allI impI)+

lemma safe_sum_each: "(\<And>x. shop.safe (f x)) \<Longrightarrow> shop.safe (sum_each xs f n)"
proof (induction xs arbitrary: n)
  case (Cons x xs)
  then show ?case unfolding sum_each.simps by (intro shop.safe_rules) auto
qed (unfold sum_each.simps, rule shop.safe_ret)

lemma safe_reconcile_each:
  "shop.safe (reconcile_due gw (Some cancelled_order_refund_hook) p)"
  "shop.safe (reconcile_stale gw (Some cancelled_order_refund_hook) p)"
  unfolding reconcile_due_def reconcile_stale_def by (intro shop.safe_rules safe_gate safe_apply)+

lemma safe_reconcile:
  assumes "wired_hook cfg"
  shows "shop.safe (svc_reconcile cfg n)" "shop.safe (reconciler_turn cfg n)"
  unfolding reconciler_turn_def svc_reconcile_def assms
  by (intro shop.safe_rules safe_require_gateway safe_payment_txns safe_sum_each safe_reconcile_each)+

section \<open>Orders\<close>

abbreviation wired_guard :: "(uuid \<Rightarrow> bool txn) option" where
  "wired_guard \<equiv> Some has_succeeded_for_order"

lemma safe_order_txns:
  "shop.safe (tx (repo_get_order oid))" "shop.safe (tx (repo_get_order_status oid))"
  "shop.safe (tx (repo_get_by_idempotency uid key))" "shop.safe (tx (repo_latest_saga_step oid step))"
  "shop.safe (tx (repo_has_recent_saga_activity oid since))" "shop.safe (tx (repo_list_saga_steps oid))"
  "shop.safe (tx (repo_log_saga_step oid step st))"
  "shop.safe (tx (repo_transition_status wired_guard oid [PENDING] CANCELLED None))"
  "shop.safe (tx (cancel_txn wired_guard (\<lambda>oid. repo_release_for_order oid StockReleased) oid))"
  "shop.safe (tx (atomic (repo_release_for_order oid StockReleased)))"
  "shop.safe (tx (repo_claim_stuck_pending cutoff n))" "shop.safe (tx (repo_claim_cancelled_with_pending_refund cutoff n))"
  unfolding repo_get_order_def repo_get_order_status_def repo_get_by_idempotency_def repo_latest_saga_step_def
    repo_has_recent_saga_activity_def repo_list_saga_steps_def repo_claim_stuck_pending_def
    repo_claim_cancelled_with_pending_refund_def
  by (rule shop.safe_read | (rule safe_tx; erule db_step_log db_step_cancel db_step_claim)
      | (rule safe_tx; auto simp: transition_cancel_run atomic_Inr split: if_splits
          intro: db_step_refl db_step_mark_cancelled db_step_release_for_order))+

lemma safe_orders [safe_intros]:
  "shop.safe (svc_get_order oid)" "shop.safe (svc_get_order_detail uid oid adm)" "shop.safe (svc_get_execution uid oid adm)"
  "shop.safe (svc_cancel_order wired_guard (Some (\<lambda>oid. repo_release_for_order oid StockReleased)) uid oid adm)"
  unfolding svc_get_order_def svc_get_order_detail_def svc_get_execution_def svc_cancel_order_def assert_owner_def option.case
  by (intro shop.safe_rules safe_order_txns)+

section \<open>What stays true of an order\<close>

definition cancelled :: "uuid \<Rightarrow> 'g shared \<Rightarrow> bool" where
  "cancelled oid s \<longleftrightarrow> has_state oid CANCELLED (db s)"

definition order_has :: "uuid \<Rightarrow> nat \<Rightarrow> 'g shared \<Rightarrow> bool" where
  "order_has oid n s \<longleftrightarrow> (\<exists>r \<in> set (orders (db s)). order_id r = oid \<and> length (order_items r) = n)"

definition stocked_or_dead :: "uuid \<Rightarrow> nat \<Rightarrow> 'g shared \<Rightarrow> bool" where
  "stocked_or_dead oid n s \<longleftrightarrow> n \<le> committed_count oid (db s) \<or> cancelled oid s"

lemma evolves_same: "order_evolves r r' \<Longrightarrow> order_id r' = order_id r \<and> order_items r' = order_items r"
  by (cases r; cases r') (auto simp: order_evolves_def)

lemma shop_stepD:
  assumes "shop_ok (db s)" and "shop_step s s'"
  shows "\<forall>r \<in> set (orders (db s)). \<exists>r' \<in> set (orders (db s')). order_evolves r r'"
    and "committed_count oid (db s) \<le> committed_count oid (db s') \<or> cancelled oid s'"
  using assms by (auto simp: shop_step_def db_step_def cancelled_def)

lemma stable_cancelled [intro, simp]: "shop.stable (cancelled oid)"
  unfolding shop.stable_def
  by (auto simp: cancelled_def dest: shop_stepD(1) intro: has_state_evolves)

lemma stable_order_has [intro, simp]: "shop.stable (order_has oid n)"
  unfolding shop.stable_def order_has_def
proof (intro allI impI, elim bexE conjE)
  fix s s' r
  assume "shop_ok (db s)" "shop_step s s'" and r: "r \<in> set (orders (db s))" "order_id r = oid" "length (order_items r) = n"
  then obtain r' where "r' \<in> set (orders (db s'))" "order_evolves r r'" using shop_stepD(1) by blast
  with r show "\<exists>r \<in> set (orders (db s')). order_id r = oid \<and> length (order_items r) = n"
    by (auto dest!: evolves_same)
qed

lemma stable_stocked [intro, simp]: "shop.stable (stocked_or_dead oid n)"
proof -
  have "stocked_or_dead oid n s'" if "shop_ok (db s)" "shop_step s s'" "stocked_or_dead oid n s" for s s' :: "'a shared"
    using that stable_cancelled [of oid] shop_stepD(2) [OF that(1,2), of oid]
    by (auto simp: stocked_or_dead_def shop.stable_def)
  then show ?thesis unfolding shop.stable_def by blast
qed

section \<open>The saga's ports and internals\<close>

definition wired :: "'g saga_config \<Rightarrow> bool" where
  "wired cfg \<longleftrightarrow> sc_guard cfg = wired_guard \<and> wired_hook (sc_payments cfg)"

lemma safe_log_on: "shop.safe (log_on cfg oid step st)"
  unfolding log_on_def by (intro shop.safe_rules safe_order_txns)

lemma safe_saga_steps:
  "shop.safe (journal_refund cfg oid label)" "shop.safe (holds_reserve_many cfg ls oid)"
  unfolding journal_refund_def holds_reserve_many_def
  by (intro shop.safe_rules safe_log_on safe_inventory)+

lemma safe_charges:
  assumes "wired cfg"
  shows "shop.safe (charges_charge cfg oid key amount token)" "shop.safe (charges_find key)" "shop.safe (charges_refund cfg key)"
  using assms unfolding charges_charge_def charges_find_def charges_refund_def wired_def
  by (auto intro!: shop.safe_rules safe_payments)

lemma rg_commit: "shop.rg (\<lambda>_. True) (svc_commit_for_order oid n) (\<lambda>k. stocked_or_dead oid k)"
  unfolding svc_commit_for_order_def
  by (rule shop.rg_tx [OF shop.stable_True])
    (auto simp: shop_step_def stocked_or_dead_def shop_ok_def dest: inventory_db_steps(6) commit_for_order_count)

lemma rg_commit_holds:
  "shop.rg (\<lambda>_. True) (commit_holds cfg oid n) (\<lambda>full s. full \<longrightarrow> stocked_or_dead oid n s)"
  unfolding commit_holds_def
proof (rule shop.rg_bnd [OF rg_commit])
  fix k
  show "shop.rg (stocked_or_dead oid k)
      (if k \<ge> n then ret True else thn (inc ''checkout_paid_without_consume_total'') (ret False))
      (\<lambda>full s. full \<longrightarrow> stocked_or_dead oid n s)"
    by (cases "k \<ge> n")
      (auto simp: stocked_or_dead_def intro: shop.rg_ret shop.rg_thn [OF shop.rg_weak [OF shop.rg_inc]])
qed

lemma safe_commit_holds: "shop.safe (commit_holds cfg oid n)"
  by (rule shop.rg_conseq [OF rg_commit_holds]) auto

lemma safe_restock_cancelled: "shop.safe (restock_cancelled_order oid)"
proof -
  have read: "shop.rg (\<lambda>_. True) (tx (repo_get_order_status oid)) (\<lambda>st s. st = Some CANCELLED \<longrightarrow> cancelled oid s)"
    by (rule shop.rg_tx [OF shop.stable_True])
      (auto simp: repo_get_order_status_def find_order_def cancelled_def has_state_def shop_step_def db_step_refl
        dest!: find_Some_mem)
  have "shop.rg (cancelled oid) (svc_restock_for_order oid) (\<lambda>_ _. True)"
    unfolding svc_restock_for_order_def
    by (rule shop.rg_tx [OF stable_cancelled])
      (auto simp: shop_step_def cancelled_def shop_ok_def intro!: stock_step_db_step [of _ "Some oid"]
        dest: stock_step_restock_for_order)
  then have go: "shop.rg (\<lambda>s. st = Some CANCELLED \<longrightarrow> cancelled oid s)
      (if st \<noteq> Some CANCELLED then ret True else thn (svc_restock_for_order oid) (ret True)) (\<lambda>_ _. True)" for st
    by (cases "st = Some CANCELLED") (auto intro: shop.rg_ret shop.rg_thn)
  show ?thesis
    unfolding restock_cancelled_order_def by (intro shop.rg_except shop.rg_bnd [OF read go] shop.safe_ret)
qed

lemma safe_compensate:
  assumes "wired cfg"
  shows "shop.safe (compensate_with cfg oid step)" "shop.safe (compensate cfg oid step)"
    "shop.safe (compensate_after_cancel cfg oid step)"
  using assms unfolding compensate_after_cancel_def compensate_def compensate_with_def wired_def
  by (auto intro!: shop.safe_rules safe_log_on safe_inventory safe_order_txns safe_saga_steps shop.safe_internals)

lemma safe_refund_orphaned:
  assumes "wired cfg"
  shows "shop.safe (refund_orphaned_charge cfg oid uid key)"
  unfolding refund_orphaned_charge_def
  by (intro shop.safe_rules safe_saga_steps shop.safe_internals safe_restock_cancelled safe_charges [OF assms])

section \<open>The flip to paid\<close>

definition payable :: "uuid \<Rightarrow> nat \<Rightarrow> 'g shared \<Rightarrow> bool" where
  "payable oid n s \<longleftrightarrow> order_has oid n s \<and> stocked_or_dead oid n s"

lemma stable_payable [intro, simp]: "shop.stable (payable oid n)"
  unfolding payable_def by (intro shop.stable_conj stable_order_has stable_stocked)

lemma db_step_flip_paid:
  assumes ok: "shop_ok (db s)" and pay: "payable oid n s" and r: "order_id r = oid"
    and run: "repo_transition_status guard oid [PENDING] PAID (Some (order_placed_outbox r)) (db s) = (x, d')"
  shows "db_step (db s) d'"
proof (cases "has_state oid PENDING (db s)")
  case True
  then obtain q where q: "q \<in> set (orders (db s))" "order_id q = oid" "order_state q = PENDING"
    by (auto simp: has_state_def)
  have ord: "orders_ok (db s)" using ok by (simp add: shop_ok_def)
  have uniq: "q' = q" if "q' \<in> set (orders (db s))" "order_id q' = oid" for q'
    using order_unique [OF ord q(1) that(1)] that q by simp
  have "\<not> cancelled oid s" using uniq q(3) by (auto simp: cancelled_def has_state_def)
  moreover have "length (order_items q) = n" using pay uniq by (auto simp: payable_def order_has_def)
  ultimately have "length (order_items q) \<le> committed_count oid (db s)"
    using pay by (simp add: payable_def stocked_or_dead_def)
  from db_step_mark_paid [OF q this] True run r show ?thesis
    by (auto simp: transition_paid_run order_placed_outbox_def)
next
  case False
  with run show ?thesis by (simp add: transition_paid_run db_step_refl)
qed

lemma rg_flip_paid:
  "order_id r = oid \<Longrightarrow>
     shop.rg (payable oid n) (tx (repo_transition_status guard oid [PENDING] PAID (Some (order_placed_outbox r)))) (\<lambda>_ _. True)"
  by (rule shop.rg_tx [OF stable_payable]) (auto simp: shop_step_def intro: db_step_flip_paid)

lemma rg_assume: "(c \<Longrightarrow> shop.rgx wd P m Q) \<Longrightarrow> shop.rgx wd (\<lambda>s. c \<and> P s) m Q"
  by (cases c) (auto simp: shop.rgx_def hoare_def)

lemma rg_read_order:
  assumes "shop.stable P"
  shows "shop.rg P (tx (repo_get_order oid))
    (\<lambda>row s. (\<forall>r. row = Some r \<longrightarrow> order_id r = oid) \<and> P s \<and>
       (\<forall>r. row = Some r \<longrightarrow> order_has oid (length (order_items r)) s))"
  by (rule shop.rg_tx [OF assms])
    (auto simp: repo_get_order_def find_order_def order_has_def shop_step_def db_step_refl dest!: find_Some_mem)

section \<open>The drive\<close>

lemma safe_drive_head:
  assumes "wired cfg"
  shows "shop.rgx fst (\<lambda>_. True) (drive_reserve cfg oid lines) (\<lambda>_ _. True)"
    and "shop.rgx fst (\<lambda>_. True) (drive_look cfg oid uid key hash) (\<lambda>_ _. True)"
    and "shop.rgx fst (\<lambda>_. True) (charge_unknown cfg oid uid key) (\<lambda>_ _. True)"
  unfolding drive_reserve_def drive_look_def charge_unknown_def
  by (intro shop.safe_rules safe_log_on safe_saga_steps shop.safe_internals safe_compensate [OF assms] safe_order_txns safe_charges [OF assms])+

lemma safe_drive_charge:
  assumes "wired cfg"
  shows "shop.rgx fst (\<lambda>_. True) (drive_charge cfg oid uid key token amount) (\<lambda>_ _. True)"
  unfolding drive_charge_def
  by (intro shop.safe_rules safe_log_on safe_compensate [OF assms] safe_charges [OF assms] safe_drive_head [OF assms]
      | (split exn.split payment_status.split, intro conjI allI impI))+

lemma rg_drive_commit:
  assumes "wired cfg"
  shows "shop.rgx fst (\<lambda>_. True) (drive_commit cfg oid uid key n) (\<lambda>_. stocked_or_dead oid n)"
proof -
  let ?commit = "catch (run_in (with_timeout StepDeadline (bnd (svc_commit_for_order oid n) (\<lambda>_. ret ()))))
            (\<lambda>e. if e \<noteq> TimeoutError then raise e
               else catch (run_in (with_timeout StepDeadline (bnd (svc_commit_for_order oid n) (\<lambda>_. ret ()))))
                 (\<lambda>e. if e \<noteq> TimeoutError then raise e
                    else raise (OrderStateConflictError ''checkout commit timed out; it will be settled automatically'')))"
  have commit: "shop.rgx fst (\<lambda>_. True) ?commit (\<lambda>_ _. True)"
    by (intro shop.safe_rules safe_inventory)
  have full: "shop.rgx fst (\<lambda>s. True \<longrightarrow> stocked_or_dead oid n s) (run_in (log_on cfg oid ''commit'' ''completed''))
      (\<lambda>_. stocked_or_dead oid n)"
    by (rule shop.rg_conseq [OF shop.rg_keep [OF stable_stocked shop.rg_run_in [OF safe_log_on]]]) auto
  have short: "shop.rgx fst P (thn (run_in (log_on cfg oid ''commit'' ''shortfall''))
           (bnd (run_in (tx (repo_get_order_status oid))) (\<lambda>st.
              if st = Some CANCELLED
              then bnd (run_in (refund_orphaned_charge cfg oid uid key)) (\<lambda>refund. raise (E1 refund))
              else raise E2))) Q" for P :: "'a shared \<Rightarrow> bool" and Q E1 E2
    by (rule shop.rg_thn [OF shop.rg_weak [OF shop.rg_run_in [OF safe_log_on]]],
        rule shop.rg_bnd [OF shop.rg_run_in [OF safe_order_txns(2)]])
      (intro shop.rg_if shop.rg_raise shop.rg_bnd [OF shop.rg_run_in [OF safe_refund_orphaned [OF assms]]])
  show ?thesis
    unfolding drive_commit_def
    apply (intro shop.rg_thn [OF shop.rg_run_in [OF safe_log_on]] shop.rg_thn [OF shop.rg_assign] shop.rg_thn [OF commit]
        shop.rg_bnd [OF shop.rg_run_in [OF rg_commit_holds]])
    subgoal for b by (cases b) (simp_all only: if_True if_False full short)
    done
qed

lemma rg_log_payable: "shop.rg (payable oid n) (log_on cfg i step st) (\<lambda>_. payable oid n)"
  by (rule shop.rg_keep [OF stable_payable safe_log_on])

lemma safe_drive_paid:
  assumes "wired cfg"
  shows "shop.rgx fst (payable oid n) (drive_paid cfg oid uid key lines hash) (\<lambda>_ _. True)"
  unfolding drive_paid_def
proof (rule shop.rg_bnd [OF shop.rg_run_in [OF rg_read_order [OF stable_payable]]], rule shop.rg_case_option, goal_cases)
  case (2 row r)
  show ?case
    apply (rule rg_assume, rule shop.rg_conseq [where P' = "payable oid n" and Q' = "\<lambda>_ _. True"])
      apply (rule shop.rg_thn [OF shop.rg_run_in [OF rg_log_payable]])
      apply (rule shop.rg_bnd [OF shop.rg_run_in [OF rg_flip_paid]])
       apply (use 2 in simp)
      apply (intro shop.safe_rules safe_order_txns safe_refund_orphaned [OF assms] safe_log_on shop.safe_basket safe_saga_steps shop.safe_internals)
     apply simp_all
    done
qed (rule shop.rg_raise)

lemma safe_drive_failed:
  assumes "wired cfg"
  shows "shop.rgx fst (\<lambda>_. True) (drive_failed cfg oid e) Q"
proof -
  have raise_after: "shop.rgx fst (\<lambda>_. True) m (\<lambda>_ _. True) \<Longrightarrow> shop.rgx fst (\<lambda>_. True) (thn m (raise e)) Q" for m e
    by (rule shop.rg_thn [OF _ shop.rg_raise])
  show ?thesis
    unfolding drive_failed_def
    by (rule shop.rg_bnd [OF shop.rg_gets])
      (intro shop.rg_if shop.rg_raise raise_after shop.safe_rules safe_compensate [OF assms])
qed

lemma rg_drive:
  assumes "wired cfg"
  shows "shop.rg (order_has oid (length lines)) (drive cfg oid uid key token lines hash) (\<lambda>_ _. True)"
proof -
  let ?P = "order_has oid (length lines)"
  note keep = shop.rg_keep [OF stable_order_has [of oid "length lines"]]
  have commit: "shop.rgx fst ?P (drive_commit cfg oid uid key (length lines)) (\<lambda>_. payable oid (length lines))"
    using shop.rg_frame [OF stable_order_has [of oid "length lines"] rg_drive_commit [OF assms, of oid uid key "length lines"]]
    by (rule shop.rg_conseq) (auto simp: payable_def)
  show ?thesis
    unfolding drive_def
    by (intro shop.rg_with_locals shop.rg_catch safe_drive_failed assms shop.rg_with_timeout
        shop.rg_thn [OF keep [OF safe_drive_head(1) [OF assms]]] shop.rg_bnd [OF keep [OF safe_drive_head(2) [OF assms]]]
        shop.rg_case_option shop.rg_thn [OF keep [OF safe_drive_charge [OF assms]]] shop.rg_thn [OF commit] safe_drive_paid)
      (auto intro: shop.rg_ret)
qed

section \<open>The checkout\<close>

lemma rg_replay:
  assumes "wired cfg"
  shows "shop.rg (order_has (order_id r) (length (order_items r))) (replay_or_resume cfg uid key token hash r) (\<lambda>_ _. True)"
proof -
  have "shop.rg (order_has (order_id r) (length (order_items r))) (drive cfg (order_id r) uid key token (lines_of r) hash) (\<lambda>_ _. True)"
    using rg_drive [OF assms, of "order_id r" "lines_of r"] by (simp add: lines_of_def)
  then show ?thesis
    unfolding replay_or_resume_def
    by (intro shop.rg_if shop.rg_raise shop.rg_weak [OF shop.safe_rules(2)] shop.safe_rules safe_saga_steps shop.safe_internals)
      (auto intro!: shop.rg_bnd [of _ _ "drive _ _ _ _ _ _ _"] shop.rg_case_prod shop.rg_ret)
qed

lemma create_pending_post:
  assumes "orders_ok d" and "repo_create_pending_order uid key hash amount ls email d = (Inr (r, created), d')"
  shows "(created \<longrightarrow> length (order_items r) = length ls) \<and> r \<in> set (orders d')"
  using assms
  by (auto simp: create_pending_run new_order_def with_order_def Let_def split: option.splits dest!: find_Some_mem)

lemma safe_checkout_fresh:
  assumes "wired cfg"
  shows "shop.safe (checkout_fresh cfg uid key token hash email)"
proof -
  have create: "shop.rg (\<lambda>_. True) (tx (repo_create_pending_order uid key hash amount ls email))
      (\<lambda>(r, created) s. (created \<longrightarrow> length (order_items r) = length ls) \<and> order_has (order_id r) (length (order_items r)) s)"
    for amount ls
  proof (rule shop.rg_tx [OF shop.stable_True], goal_cases)
    case (1 s x d)
    then have "orders_ok (db s)" by (simp add: shop_ok_def)
    moreover obtain r created where "x = (r, created)" by fastforce
    ultimately show ?case
      using 1 create_pending_post [of "db s" uid key hash amount ls email r created d]
      by (auto simp: shop_step_def order_has_def intro: db_step_create_pending)
  qed
  have go: "shop.rg (case x of (r, created) \<Rightarrow> \<lambda>s. (created \<longrightarrow> length (order_items r) = length lines) \<and>
          order_has (order_id r) (length (order_items r)) s)
        (case x of (r, created) \<Rightarrow> if \<not> created then replay_or_resume cfg uid key token hash r
           else drive cfg (order_id r) uid key token lines hash) (\<lambda>_ _. True)" for x lines
  proof (cases x)
    case (Pair r created)
    then show ?thesis
      using rg_replay [OF assms, of r] rg_drive [OF assms, of "order_id r" lines]
      by (cases created) (auto intro!: rg_assume)
  qed
  have created: "shop.safe (bnd (tx (repo_create_pending_order uid key hash (total_of lines)
       (map (\<lambda>l. (cl_product l, cl_name l, cl_price l, cl_qty l)) lines) email)) (\<lambda>(r, created).
         if \<not> created then replay_or_resume cfg uid key token hash r
         else drive cfg (order_id r) uid key token lines hash))" for lines
    by (rule shop.rg_bnd [OF create]) (use go in \<open>simp add: split_beta\<close>)
  show ?thesis
    unfolding checkout_fresh_def by (intro shop.safe_rules(1) shop.safe_basket shop.rg_if) (intro shop.safe_rules safe_saga_steps shop.safe_internals created)+
qed

lemma rg_read_key:
  "shop.rg (\<lambda>_. True) (tx (repo_get_by_idempotency uid key))
     (\<lambda>row s. \<forall>r. row = Some r \<longrightarrow> order_has (order_id r) (length (order_items r)) s)"
  by (rule shop.rg_tx [OF shop.stable_True])
    (auto simp: repo_get_by_idempotency_def order_has_def shop_step_def db_step_refl dest!: find_Some_mem)

lemma safe_checkout:
  assumes "wired cfg"
  shows "shop.safe (checkout cfg uid key token email)"
proof -
  have resume: "shop.rg (\<lambda>s. \<forall>r. row = Some r \<longrightarrow> order_has (order_id r) (length (order_items r)) s)
      (case row of Some r \<Rightarrow> replay_or_resume cfg uid key token hash r | None \<Rightarrow> checkout_fresh cfg uid key token hash email)
      (\<lambda>_ _. True)" for row hash
    using rg_replay [OF assms] safe_checkout_fresh [OF assms] by (cases row) auto
  have "shop.safe (checkout_body cfg uid key token email)"
    unfolding checkout_body_def Let_def
    by (rule shop.safe_rules(1), intro shop.safe_rules shop.safe_idem, rule shop.rg_case_option)
      (rule shop.rg_bnd [OF rg_read_key] shop.rg_bnd [OF resume], (rule shop.rg_bnd [OF resume])?,
        (intro shop.safe_rules safe_saga_steps shop.safe_internals)+)+
  then show ?thesis unfolding checkout_def by (intro shop.safe_rules)
qed

section \<open>Recovery\<close>

lemma safe_settle_shortfall:
  assumes "wired cfg"
  shows "shop.safe (settle_shortfall cfg r)"
  unfolding settle_shortfall_def
  by (intro shop.safe_rules safe_charges [OF assms] safe_log_on safe_compensate [OF assms])

lemma rg_settle_paid:
  assumes "wired cfg"
  shows "shop.rg (payable (order_id r) n) (settle_paid cfg r) (\<lambda>_ _. True)"
  unfolding settle_paid_def
  by (rule shop.rg_thn [OF rg_log_payable], rule shop.rg_thn [OF rg_log_payable], rule shop.rg_bnd [OF rg_flip_paid], rule refl)
    (intro shop.safe_rules safe_log_on shop.safe_basket safe_order_txns safe_refund_orphaned [OF assms])

lemma rg_settle_crashed:
  assumes "wired cfg"
  shows "shop.rg (order_has (order_id r) (length (order_items r))) (settle_crashed cfg r) (\<lambda>_ _. True)"
proof -
  let ?P = "order_has (order_id r) (length (order_items r))"
  have find: "shop.rg ?P (charges_find key) (\<lambda>_. ?P)" for key
    by (rule shop.rg_keep [OF stable_order_has safe_charges(2) [OF assms]])
  have commit: "shop.rg ?P (bnd (commit_holds cfg (order_id r) (length (order_items r)))
      (\<lambda>full. if \<not> full then settle_shortfall cfg r else settle_paid cfg r)) (\<lambda>_ _. True)"
  proof (rule shop.rg_bnd)
    show "shop.rg ?P (commit_holds cfg (order_id r) (length (order_items r)))
        (\<lambda>full s. full \<longrightarrow> payable (order_id r) (length (order_items r)) s)"
      by (rule shop.rg_conseq [OF shop.rg_frame [OF stable_order_has rg_commit_holds]]) (auto simp: payable_def)
    show "shop.rg (\<lambda>s. full \<longrightarrow> payable (order_id r) (length (order_items r)) s)
        (if \<not> full then settle_shortfall cfg r else settle_paid cfg r) (\<lambda>_ _. True)" for full
      using safe_settle_shortfall [OF assms] rg_settle_paid [OF assms] by (cases full) auto
  qed
  have comp: "shop.rg ?P (thn (compensate cfg (order_id r) ''crashed'') (ret ''compensated'')) (\<lambda>_ _. True)"
    by (rule shop.rg_weak) (intro shop.safe_rules safe_compensate [OF assms])
  show ?thesis
    unfolding settle_crashed_def
    by (rule shop.rg_bnd [OF find]) (intro shop.rg_if commit comp shop.rg_ret TrueI)
qed

lemma safe_retry_refund:
  assumes "wired cfg"
  shows "shop.safe (retry_journaled_refund cfg r)"
  unfolding retry_journaled_refund_def
  by (intro shop.safe_rules safe_restock_cancelled safe_charges [OF assms] safe_log_on)

lemma safe_settle_each: "(\<And>i. shop.safe (f i)) \<Longrightarrow> shop.safe (settle_each ids f out)"
proof (induction ids arbitrary: out)
  case (Cons i ids)
  then show ?case unfolding settle_each.simps by (intro shop.safe_rules safe_saga_steps shop.safe_internals) auto
qed (unfold settle_each.simps, rule shop.safe_ret)

lemma safe_settle_stuck:
  assumes "wired cfg"
  shows "shop.safe (settle_stuck cfg cutoff oid)"
proof -
  have go: "shop.rg (\<lambda>s. (\<forall>r. row = Some r \<longrightarrow> order_id r = oid) \<and> True \<and>
       (\<forall>r. row = Some r \<longrightarrow> order_has oid (length (order_items r)) s))
     (case row of None \<Rightarrow> ret ''deferred''
       | Some r \<Rightarrow> bnd (tx (repo_has_recent_saga_activity oid cutoff)) (\<lambda>live.
             if live then ret ''deferred'' else settle_crashed cfg r)) (\<lambda>_ _. True)" for row
  proof (cases row)
    case (Some r)
    let ?P = "order_has oid (length (order_items r))"
    have "shop.rg ?P (if live then ret ''deferred'' else settle_crashed cfg r) (\<lambda>_ _. True)" if "order_id r = oid" for live
      using rg_settle_crashed [OF assms, of r] that by (cases live) (auto intro: shop.rg_ret)
    then have "shop.rg ?P (bnd (tx (repo_has_recent_saga_activity oid cutoff))
        (\<lambda>live. if live then ret ''deferred'' else settle_crashed cfg r)) (\<lambda>_ _. True)" if "order_id r = oid"
      using that by (intro shop.rg_bnd [OF shop.rg_keep [OF stable_order_has safe_order_txns(5)]]) simp
    then show ?thesis unfolding Some option.case by (intro rg_assume) simp
  qed (simp add: shop.rg_ret)
  show ?thesis
    unfolding settle_stuck_def by (rule shop.rg_bnd [OF rg_read_order [OF shop.stable_True] go])
qed

lemma safe_recovery:
  assumes "wired cfg"
  shows "shop.safe (sweep_once cfg tmo n)" "shop.safe (recovery_turn cfg tmo n)"
  unfolding recovery_turn_def sweep_once_def recover_stuck_def settle_refund_def
  by (intro shop.safe_rules safe_order_txns safe_settle_each safe_settle_stuck [OF assms] safe_retry_refund [OF assms])+

end
