(* ===== verification/Shop_Requests.thy ===== *)
theory Shop_Requests
  imports Shop_Safety
begin

text \<open>
  Everything the processes of the shop do to the shared state, as one datatype of requests, and the
  guarantee they all give: the API's checkout, cancel, webhook and cart calls, the inventory and
  payment operations, and the turns of the three background pollers.
\<close>

datatype request =
    Checkout uuid string string string
  | CancelOrder uuid uuid bool
  | ReadOrder uuid uuid bool
  | ReadExecution uuid uuid bool
  | Webhook string "string option" "string option"
  | ChargeDirect uuid string decimal string
  | RefundDirect string
  | Reserve sku int uuid
  | ReserveMany "(sku \<times> int) list" uuid
  | ReleaseOne uuid
  | ReleaseOrder uuid
  | CommitOne uuid
  | CommitOrder uuid nat
  | ReadCart uuid
  | RemoveItem uuid uuid
  | ClearCart uuid
  | ReaperTurn nat
  | ReconcilerTurn nat
  | RecoveryTurn int nat

definition ignore :: "('g, 'a) service \<Rightarrow> ('g, unit) service" where
  "ignore m = bnd m (\<lambda>_. ret ())"

fun perform ::
  "(string \<Rightarrow> string \<Rightarrow> string) \<Rightarrow> (string \<Rightarrow> webhook_json option) \<Rightarrow> 'g saga_config \<Rightarrow> request \<Rightarrow> ('g, unit) service" where
  "perform hmac loads cfg (Checkout uid key token email) = ignore (checkout cfg uid key token email)"
| "perform hmac loads cfg (CancelOrder uid oid adm) =
     ignore (svc_cancel_order (sc_guard cfg) (Some (\<lambda>oid. repo_release_for_order oid StockReleased)) uid oid adm)"
| "perform hmac loads cfg (ReadOrder uid oid adm) = ignore (svc_get_order_detail uid oid adm)"
| "perform hmac loads cfg (ReadExecution uid oid adm) = ignore (svc_get_execution uid oid adm)"
| "perform hmac loads cfg (Webhook body sig ts) = ignore (svc_handle_webhook hmac loads (sc_payments cfg) body sig ts)"
| "perform hmac loads cfg (ChargeDirect oid key amount token) = ignore (svc_charge (sc_payments cfg) oid key amount token)"
| "perform hmac loads cfg (RefundDirect key) = ignore (svc_refund (sc_payments cfg) key)"
| "perform hmac loads cfg (Reserve s q oid) = ignore (svc_reserve (sc_ttl cfg) s q oid)"
| "perform hmac loads cfg (ReserveMany lines oid) = ignore (svc_reserve_many (sc_ttl cfg) lines oid)"
| "perform hmac loads cfg (ReleaseOne rid) = ignore (svc_release rid)"
| "perform hmac loads cfg (ReleaseOrder oid) = ignore (svc_release_for_order oid)"
| "perform hmac loads cfg (CommitOne rid) = ignore (svc_commit_reservation rid)"
| "perform hmac loads cfg (CommitOrder oid n) = ignore (svc_commit_for_order oid n)"
| "perform hmac loads cfg (ReadCart uid) = ignore (repo_get_cart (sc_cart_ttl cfg) uid)"
| "perform hmac loads cfg (RemoveItem uid pid) = ignore (repo_remove_item (sc_cart_ttl cfg) uid pid)"
| "perform hmac loads cfg (ClearCart uid) = ignore (repo_clear_cart uid)"
| "perform hmac loads cfg (ReaperTurn n) = ignore (reaper_turn n)"
| "perform hmac loads cfg (ReconcilerTurn n) = ignore (reconciler_turn (sc_payments cfg) n)"
| "perform hmac loads cfg (RecoveryTurn tmo n) = ignore (recovery_turn cfg tmo n)"

lemma safe_ignore: "shop.safe m \<Longrightarrow> shop.safe (ignore m)"
  unfolding ignore_def by (intro shop.safe_rules)

lemma safe_perform: "wired cfg \<Longrightarrow> shop.safe (perform hmac loads cfg req)"
proof (cases req)
  case (CancelOrder uid oid adm)
  assume "wired cfg"
  then show ?thesis unfolding CancelOrder perform.simps by (auto simp: wired_def intro: safe_ignore safe_orders)
qed (auto simp: wired_def intro!: safe_ignore safe_checkout safe_orders safe_payments safe_inventory shop.safe_cart safe_reaper
      safe_reconcile safe_recovery)

text \<open>The others: anything that respects the step relation between two of our calls.\<close>

definition tame :: "'g world \<Rightarrow> bool" where
  "tame w \<longleftrightarrow> trail w = [] \<and> (\<forall>i \<in> set (sched w). \<forall>s. shop_ok (db s) \<longrightarrow> db_step (db s) (db (i s)))"

lemma safe_run:
  assumes m: "shop.safe m" and w: "tame w" "shop_ok (db (sh w))"
  shows "shop_ok (db (sh (snd (m w))))" and "db_step (db (sh w)) (db (sh (snd (m w))))"
    and "\<forall>(s, s') \<in> set (trail (snd (m w))). db_step (db s) (db s')"
proof -
  obtain r w' where run: "m w = (r, w')" by fastforce
  have env: "shop.env w" using w by (simp add: shop.env_def tame_def shop_step_def)
  have F: "shop.stable (\<lambda>s. db_step (db (sh w)) (db s))"
    by (auto simp: shop.stable_def shop_step_def intro: db_step_trans)
  have "db_step (db (sh w)) (db (sh w')) \<and> shop.env w'"
    using shop.rg_run(1,2) [OF m F env db_step_refl _ run] by simp
  then show "shop_ok (db (sh (snd (m w))))" "db_step (db (sh w)) (db (sh (snd (m w))))"
      "\<forall>(s, s') \<in> set (trail (snd (m w))). db_step (db s) (db s')"
    by (auto simp: run shop.env_def shop_step_def)
qed

end
