(* ===== verification/Stock_Properties.thy ===== *)
theory Stock_Properties
  imports Stock_Ledger
begin

text \<open>
  What the inventory repository promises, stated over any sequence of its transactions. \<open>stock_op\<close>
  lists the operations of \<^verbatim>\<open>inventory/adapters/db/repository.py\<close> that write; each runs in a
  transaction of its own.
\<close>

section \<open>Sequences of transactions\<close>

datatype stock_op =
    OpUpsert sku int
  | OpReserve sku int uuid timestamp
  | OpReserveMany "(sku \<times> int) list" uuid timestamp
  | OpRelease uuid
  | OpCommit uuid
  | OpExpire nat
  | OpReleaseOrder uuid
  | OpRestockOrder uuid
  | OpCommitOrder uuid nat

fun run_op :: "stock_op \<Rightarrow> unit txn" where
  "run_op (OpUpsert s n) = bnd (repo_upsert_stock s n) (\<lambda>_. ret ())"
| "run_op (OpReserve s q oid t) = bnd (repo_reserve s q oid t (StockReserved s oid q)) (\<lambda>_. ret ())"
| "run_op (OpReserveMany lines oid t) = bnd (repo_reserve_many lines oid t StockReserved) (\<lambda>_. ret ())"
| "run_op (OpRelease rid) = bnd (repo_release rid StockReleased) (\<lambda>_. ret ())"
| "run_op (OpCommit rid) = bnd (repo_commit_reservation rid) (\<lambda>_. ret ())"
| "run_op (OpExpire n) = bnd (repo_release_expired n StockReleased) (\<lambda>_. ret ())"
| "run_op (OpReleaseOrder oid) = bnd (repo_release_for_order oid StockReleased) (\<lambda>_. ret ())"
| "run_op (OpRestockOrder oid) = bnd (repo_restock_for_order oid StockReleased) (\<lambda>_. ret ())"
| "run_op (OpCommitOrder oid n) = bnd (repo_commit_for_order oid n) (\<lambda>_. ret ())"

definition apply_op :: "stock_op \<Rightarrow> database \<Rightarrow> database" where
  "apply_op op d = snd (atomic (run_op op) d)"

definition is_upsert :: "stock_op \<Rightarrow> bool" where
  "is_upsert op \<longleftrightarrow> (case op of OpUpsert _ _ \<Rightarrow> True | _ \<Rightarrow> False)"

definition books_ok :: "database \<Rightarrow> bool" where
  "books_ok d \<longleftrightarrow> stock_ok d \<and> stock_events_ok d"

lemma run_ignored: "bnd m (\<lambda>_. ret ()) d = (r, d') \<Longrightarrow> \<exists>x. m d = (x, d')"
  by (auto simp: bnd_def split: prod.splits sum.splits)

lemma op_stock_step:
  assumes "books_ok d" and "\<not> is_upsert op" and "run_op op d = (r, d')"
  shows "\<exists>give. stock_step give d d'"
proof -
  have ok: "stock_ok d" "stock_events_ok d" using assms(1) by (simp_all add: books_ok_def)
  from assms(2,3) show ?thesis
    by (cases op)
      (auto simp: is_upsert_def dest!: run_ignored intro: stock_step_reserve [OF ok] stock_step_reserve_many [OF ok]
        stock_step_release [OF ok] stock_step_commit_reservation [OF ok] stock_step_release_expired [OF ok]
        stock_step_release_for_order [OF ok] stock_step_restock_for_order [OF ok] stock_step_commit_for_order [OF ok])
qed

lemma apply_op_cases: "apply_op op d = d \<or> run_op op d = (Inr (), apply_op op d)"
  by (auto simp: apply_op_def atomic_def split: prod.splits sum.splits)

lemma apply_op_step:
  assumes "books_ok d" and "\<not> is_upsert op"
  shows "\<exists>give. stock_step give d (apply_op op d)"
  using apply_op_cases [of op d] op_stock_step [OF assms] assms(1)
  by (auto simp: books_ok_def stock_step_refl)

lemma upsert_books_ok:
  assumes ok: "books_ok d" and run: "repo_upsert_stock s n d = (x, d')"
  shows "books_ok d'"
proof -
  have "d' = d \<or> (\<exists>row. d' = set_stock s row d \<and> reserved row \<le> on_hand row \<and>
      reserved row = (case stock d s of None \<Rightarrow> 0 | Some old \<Rightarrow> reserved old))"
    using run by (auto simp: repo_upsert_stock_def upsert_sql_def Let_def split: option.splits if_splits)
  then show ?thesis
  proof (elim disjE exE conjE)
    fix row
    assume d': "d' = set_stock s row d" and row: "reserved row \<le> on_hand row"
        "reserved row = (case stock d s of None \<Rightarrow> 0 | Some old \<Rightarrow> reserved old)"
    have "held_qty d s = 0" if "stock d s = None"
    proof -
      have "filter (\<lambda>r. res_sku r = s \<and> res_status r = HELD) (reservations d) = []"
        using ok that by (auto simp: books_ok_def stock_ok_def rows_ok_def filter_empty_conv)
      then show ?thesis by (simp add: held_qty_def weigh_def)
    qed
    then have "reserved row = held_qty d s"
      using row(2) ok by (cases "stock d s") (auto simp: books_ok_def stock_ok_def counters_ok_def)
    moreover have "counters_ok d" using ok by (simp add: books_ok_def stock_ok_def)
    ultimately have "counters_ok d'"
      using row(1) unfolding counters_ok_def d' set_stock_def held_qty_def
      by (metis (no_types, lifting) database.select_convs(1,2) database.surjective database.update_convs(1) fun_upd_apply option.inject)
    moreover have "rows_ok d'"
      by (rule rows_ok_mono [of d]) (use ok in \<open>auto simp: d' set_stock_def books_ok_def stock_ok_def\<close>)
    ultimately show ?thesis
      using ok by (auto simp: books_ok_def stock_ok_def stock_events_ok_def d' set_stock_def)
  qed (use ok in simp)
qed

lemma books_ok_apply: "books_ok d \<Longrightarrow> books_ok (apply_op op d)"
proof (cases "is_upsert op")
  case True
  assume ok: "books_ok d"
  from True obtain s n where op: "op = OpUpsert s n" by (auto simp: is_upsert_def split: stock_op.splits)
  from apply_op_cases [of op d] show ?thesis
    using upsert_books_ok [OF ok] ok by (auto simp: op dest!: run_ignored)
next
  case False
  assume "books_ok d"
  then show ?thesis using apply_op_step [OF _ False] by (auto simp: stock_step_def books_ok_def)
qed

lemma books_ok_ops: "books_ok d \<Longrightarrow> books_ok (fold apply_op ops d)"
  by (induction ops arbitrary: d) (auto intro: books_ok_apply)

lemma held_qty_nonneg: "rows_ok d \<Longrightarrow> 0 \<le> held_qty d s"
  unfolding rows_ok_def held_qty_def weigh_def by (intro sum_list_filter_nonneg) force

lemma counters: "stock_ok d \<Longrightarrow> stock d s = Some row \<Longrightarrow> reserved row = held_qty d s \<and> reserved row \<le> on_hand row"
  unfolding stock_ok_def counters_ok_def by blast

lemma books_ok_empty: "books_ok empty_database"
  by (simp add: books_ok_def stock_ok_def rows_ok_def counters_ok_def stock_events_ok_def empty_database_def announced_def)

lemma weigh_ones: "weigh (\<lambda>_. 1) p rs = int (length (filter p rs))"
  by (simp add: weigh_def sum_list_triv)

lemma units_apply: "books_ok d \<Longrightarrow> \<not> is_upsert op \<Longrightarrow> units s (apply_op op d) = units s d"
  using apply_op_step by (fastforce simp: stock_step_def)

lemma units_ops:
  assumes "books_ok d" and "list_all (\<lambda>op. \<not> is_upsert op) ops"
  shows "units s (fold apply_op ops d) = units s d"
  using assms
proof (induction ops arbitrary: d)
  case (Cons op ops)
  then show ?case using units_apply [of d op s] books_ok_apply [of d op] by simp
qed simp

lemma row_evolves_refl [simp]: "row_evolves r r"
  by (cases "res_status r") (simp_all add: row_evolves_def)

lemma rows_evolve_apply:
  assumes "books_ok d"
  shows "list_all2 row_evolves (reservations d) (take (length (reservations d)) (reservations (apply_op op d)))"
proof (cases "is_upsert op")
  case True
  then obtain s n where op: "op = OpUpsert s n" by (auto simp: is_upsert_def split: stock_op.splits)
  have "reservations (snd (repo_upsert_stock s n d)) = reservations d"
    by (auto simp: repo_upsert_stock_def upsert_sql_def Let_def set_stock_def split: option.splits)
  then have "reservations (apply_op op d) = reservations d"
    by (auto simp: op apply_op_def atomic_def bnd_def split: prod.splits sum.splits)
  then show ?thesis by (simp add: list_all2_same)
next
  case False
  then show ?thesis using apply_op_step [OF assms False] by (auto simp: stock_step_def rows_evolve_def)
qed

text \<open>What a reserve can raise: never the alarm of a guarded mutation that missed its row.\<close>

lemma place_lines_raises:
  assumes "place_lines ex oid t f lines placed d = (Inl (AttemptRaises e), d')"
  shows "\<nexists>what. e = StockMutationError what"
  using assms
proof (induction lines arbitrary: placed d)
  case (Cons l ls)
  then show ?case
    by (cases l) (auto simp: place_line_new split: option.splits if_splits)
qed simp

lemma reserve_loop_raises:
  assumes "reserve_loop k n raced ordered skus oid t f d = (Inl e, d')"
  shows "\<nexists>what. e = StockMutationError what"
  using assms
proof (induction k arbitrary: n raced d)
  case (Suc k)
  obtain x d1 where run: "reserve_attempt ordered skus oid t f n d = (x, d1)" by fastforce
  have "\<nexists>what. e' = StockMutationError what" if "x = Inl (AttemptRaises e')" for e'
    using run that place_lines_raises
    by (auto simp: reserve_attempt_def Let_def atomic_def split: prod.splits sum.splits)
  with Suc run show ?case by (auto split: sum.splits attempt_stop.splits)
qed auto

lemma reserve_many_raises: "repo_reserve_many lines oid t f d = (Inl e, d') \<Longrightarrow> \<nexists>what. e = StockMutationError what"
  by (auto simp: repo_reserve_many_def Let_def dest!: reserve_loop_raises split: if_splits)

lemma run_op_raises:
  assumes ok: "books_ok d" and run: "run_op op d = (Inl e, d')"
  shows "\<nexists>what. e = StockMutationError what"
proof -
  have stock: "stock_ok d" using ok by (simp add: books_ok_def)
  show ?thesis
  proof (cases op)
    case (OpReserve s q oid t)
    with run have "\<exists>d1. repo_reserve_many [(s, q)] oid t (\<lambda>_ _ _. StockReserved s oid q) d = (Inl e, d1)"
      by (auto simp: repo_reserve_def bnd_def split: prod.splits sum.splits)
    then show ?thesis using reserve_many_raises by blast
  next
    case (OpReserveMany lines oid t)
    with run have "repo_reserve_many lines oid t StockReserved d = (Inl e, d')"
      by (auto simp: bnd_def split: prod.splits sum.splits)
    then show ?thesis by (rule reserve_many_raises)
  qed (use run in \<open>auto simp: bnd_run repo_upsert_stock_def upsert_sql_def Let_def release_run [OF stock]
      commit_reservation_run [OF stock] release_expired_run [OF stock] release_for_order_run [OF stock]
      restock_for_order_run [OF stock] commit_for_order_run [OF stock] split: option.splits if_splits\<close>)
qed

section \<open>Reserving a batch\<close>

lemma lookup_fresh:
  assumes "distinct (map fst lines)" and "\<forall>(s, q) \<in> set lines. 0 < q"
    and "\<forall>s \<in> fst ` set lines. active_row oid s d = None" and "stocked lines d"
  shows "\<exists>rows d'. lookup_pass lines oid t f d = (Inr (Inr rows), d') \<and> batch_held oid t (sort_key fst lines) rows d d'"
proof -
  let ?o = "sort_key fst lines"
  have dist: "distinct (map fst ?o)"
    using assms(1) by (simp add: distinct_map)
  have "place_lines (\<lambda>s. active_row oid s d) oid t f ?o [] d = place_lines (\<lambda>_. None) oid t f ?o [] d"
    using assms(3) by (intro place_lines_cong) auto
  moreover obtain rows d' where "place_lines (\<lambda>_. None) oid t f ?o [] d = (Inr ([] @ rows), d')"
      "batch_held oid t ?o rows d d'"
    using place_fresh [of ?o oid d t f "[]"] dist assms by (auto simp: stocked_def list_all_iff)
  ultimately show ?thesis by (auto simp: lookup_pass_def atomic_def)
qed

lemma lookup_refused:
  assumes "distinct (map fst lines)" and "lookup_pass lines oid t f d = (Inr (Inl rej), d')"
  shows "d' = d \<and> (rej_sku rej, rej_qty rej) \<in> set lines \<and> \<not> stocked [(rej_sku rej, rej_qty rej)] d"
proof -
  let ?o = "sort_key fst lines"
  have dist: "distinct (map fst ?o)"
    using assms(1) by (simp add: distinct_map)
  obtain e d1 where run: "place_lines (\<lambda>s. active_row oid s d) oid t f ?o [] d = (Inl e, d1)"
      and e: "e = AttemptRejection (rej_sku rej) (rej_qty rej) \<or> e = AttemptNoStockRow (rej_sku rej) (rej_qty rej)"
      and "d' = d"
    using assms(2) by (auto simp: lookup_pass_def atomic_def split: prod.splits sum.splits attempt_stop.splits)
  then show ?thesis using place_refused [OF dist run e] by simp
qed

lemma lookup_replayed:
  assumes "list_all2 (\<lambda>l r. active_row oid (fst l) d = Some r \<and> res_qty r = snd l) (sort_key fst lines) rows"
  shows "lookup_pass lines oid t f d = (Inr (Inr rows), d)"
  using place_replayed [OF assms, of oid t f "[]" d] by (simp add: lookup_pass_def atomic_def)

text \<open>What \<open>InventoryService.reserve_many\<close> lets through.\<close>

definition check_lines_ok :: "(sku \<times> int) list \<Rightarrow> bool" where
  "check_lines_ok lines \<longleftrightarrow> distinct (map fst lines) \<and> list_all (\<lambda>l. 0 < snd l) lines"

lemma reserve_many_checked: "check_lines_ok lines \<Longrightarrow> repo_reserve_many lines oid t f d = lookup_pass lines oid t f d"
  by (rule reserve_many_lookup) (auto simp: check_lines_ok_def list_all_iff)

section \<open>The order's rows\<close>

lemma order_rows_consumed:
  assumes "stock_ok d"
  shows "order_rows HELD oid (consumed (order_rows HELD oid d) d) = []"
  by (auto simp: order_rows_def consumed_def consume_def mark_status_def filter_empty_conv set_update_where split: if_splits)

lemma order_rows_released:
  "order_rows HELD oid (released f (order_rows HELD oid d) d) = []"
  by (auto simp: order_rows_def released_def give_back_def mark_status_def filter_empty_conv set_update_where split: if_splits)

section \<open>Properties\<close>

text \<open>A small warehouse for the witnesses.\<close>

definition demo_ops :: "stock_op list" where
  "demo_ops = [OpUpsert ''a'' 5, OpUpsert ''b'' 1, OpReserveMany [(''b'', 1), (''a'', 3)] 100 60, OpReserve ''a'' 3 200 60]"

definition demo_stock :: database where
  "demo_stock = fold apply_op demo_ops empty_database"

lemma demo_stock_ok: "books_ok demo_stock"
  by (simp add: demo_stock_def books_ok_ops books_ok_empty)

text \<open>
  C12. No sequence of inventory transactions oversells: the counter \<open>reserved\<close> is exactly the quantity
  in live holds, it is never negative and never exceeds \<open>on_hand\<close>.
\<close>
theorem stock_never_oversold:
  assumes "books_ok d" and "stock (fold apply_op ops d) s = Some row"
  shows "0 \<le> reserved row \<and> reserved row = held_qty (fold apply_op ops d) s \<and> reserved row \<le> on_hand row"
proof -
  have "stock_ok (fold apply_op ops d)" using books_ok_ops [OF assms(1)] by (simp add: books_ok_def)
  from counters [OF this assms(2)] held_qty_nonneg [of "fold apply_op ops d" s] this show ?thesis
    by (simp add: stock_ok_def)
qed

theorem stock_never_oversold_witness:
  "\<exists>row. stock (fold apply_op demo_ops empty_database) ''a'' = Some row \<and> on_hand row = 5 \<and> reserved row = 3 \<and>
     held_qty (fold apply_op demo_ops empty_database) ''a'' = 3"
proof -
  have "stock (fold apply_op demo_ops empty_database) ''a'' = Some \<lparr>on_hand = 5, reserved = 3, version = 2\<rparr>"
    by code_simp
  from stock_never_oversold [OF books_ok_empty this] this show ?thesis by simp
qed

text \<open>
  The alarm \<open>StockMutationError\<close> (a guarded stock mutation that hit no row) never fires: no
  inventory transaction raises it from a state the transactions can reach.
\<close>
theorem stock_alarm_never_fires:
  assumes "books_ok d"
  shows "run_op op (fold apply_op ops d) \<noteq> (Inl (StockMutationError what), d')"
  using run_op_raises [OF books_ok_ops [OF assms]] by blast

theorem stock_alarm_never_fires_witness:
  "run_op (OpCommitOrder 100 2) (fold apply_op demo_ops empty_database) \<noteq> (Inl (StockMutationError ''order commit consume''), empty_database)"
  using stock_alarm_never_fires [OF books_ok_empty] .

text \<open>
  C13. Units are conserved: reserving, releasing, expiring, committing and restocking never change the
  sum of what is on the shelf and what committed orders have taken.
\<close>
theorem stock_units_conserved:
  assumes "books_ok d" and "list_all (\<lambda>op. \<not> is_upsert op) ops"
  shows "units s (fold apply_op ops d) = units s d"
  using assms by (rule units_ops)

theorem stock_units_conserved_witness:
  "units ''a'' (fold apply_op [OpCommitOrder 100 2, OpRestockOrder 100, OpReleaseOrder 200] demo_stock) = Some 5"
proof -
  have "list_all (\<lambda>op. \<not> is_upsert op) [OpCommitOrder 100 2, OpRestockOrder 100, OpReleaseOrder 200]"
    by (simp add: is_upsert_def)
  from stock_units_conserved [OF demo_stock_ok this, of "''a''"]
  have "units ''a'' (fold apply_op [OpCommitOrder 100 2, OpRestockOrder 100, OpReleaseOrder 200] demo_stock) = units ''a'' demo_stock" .
  also have "units ''a'' demo_stock = Some 5" by code_simp
  finally show ?thesis .
qed

text \<open>
  The outbox tells exactly what happened: one \<open>StockReserved\<close> per reservation row ever placed and one
  \<open>StockReleased\<close> per row that was given back, for every SKU, order and quantity.
\<close>
theorem stock_events_match_rows:
  assumes "books_ok d"
  shows "announced (StockReserved s oid q) (inv_outbox (fold apply_op ops d)) =
      length (filter (line_is s oid q) (reservations (fold apply_op ops d))) \<and>
    announced (StockReleased s oid q) (inv_outbox (fold apply_op ops d)) =
      length (filter (\<lambda>r. line_is s oid q r \<and> res_status r = RELEASED) (reservations (fold apply_op ops d)))"
  using books_ok_ops [OF assms, of ops] by (simp add: books_ok_def stock_events_ok_def weigh_ones)

theorem stock_events_match_rows_witness:
  "announced (StockReleased ''a'' 100 3) (inv_outbox (fold apply_op [OpReleaseOrder 100] demo_stock)) =
     length (filter (\<lambda>r. line_is ''a'' 100 3 r \<and> res_status r = RELEASED) (reservations (fold apply_op [OpReleaseOrder 100] demo_stock)))
   \<and> announced (StockReleased ''a'' 100 3) (inv_outbox (fold apply_op [OpReleaseOrder 100] demo_stock)) = 1"
proof
  show "announced (StockReleased ''a'' 100 3) (inv_outbox (fold apply_op [OpReleaseOrder 100] demo_stock)) =
     length (filter (\<lambda>r. line_is ''a'' 100 3 r \<and> res_status r = RELEASED) (reservations (fold apply_op [OpReleaseOrder 100] demo_stock)))"
    using stock_events_match_rows [OF demo_stock_ok] by blast
  show "announced (StockReleased ''a'' 100 3) (inv_outbox (fold apply_op [OpReleaseOrder 100] demo_stock)) = 1"
    by code_simp
qed

text \<open>
  A reservation row is immutable but for its status, and the status only moves along
  \<open>held\<close> to \<open>committed\<close> or \<open>released\<close>, and \<open>committed\<close> to \<open>released\<close>; rows are never deleted.
\<close>
theorem reservation_lifecycle:
  assumes "books_ok d"
  shows "list_all2 row_evolves (reservations d) (take (length (reservations d)) (reservations (apply_op op d)))"
  using assms by (rule rows_evolve_apply)

theorem reservation_lifecycle_witness:
  "list_all2 row_evolves (reservations demo_stock)
     (take (length (reservations demo_stock)) (reservations (apply_op (OpCommitOrder 100 2) demo_stock)))"
  using reservation_lifecycle [OF demo_stock_ok] .

text \<open>
  The two-attempt loop of \<open>reserve_many\<close>, which inserts blindly first and looks up the order's
  rows only after a unique-index collision, answers and writes exactly what one pass that looks
  every line up first would. (SKUs distinct and quantities positive, as the service checks.)
\<close>
theorem reserve_many_is_lookup_pass:
  assumes "check_lines_ok lines"
  shows "repo_reserve_many lines oid t f d = lookup_pass lines oid t f d"
  using assms by (rule reserve_many_checked)

theorem reserve_many_is_lookup_pass_witness:
  "repo_reserve_many [(''a'', 3), (''b'', 1)] 100 60 StockReserved demo_stock =
     lookup_pass [(''a'', 3), (''b'', 1)] 100 60 StockReserved demo_stock"
  by (rule reserve_many_is_lookup_pass) (simp add: check_lines_ok_def)

text \<open>
  A batch is all or nothing. For lines the order does not hold yet: if the stock covers every line,
  all are held, each with its own row, counted once, \<open>on_hand\<close> untouched.
\<close>
theorem reserve_batch_held:
  assumes "check_lines_ok lines" and "list_all (\<lambda>l. active_row oid (fst l) d = None) lines" and "stocked lines d"
  shows "\<exists>rows d'. repo_reserve_many lines oid t f d = (Inr (Inr rows), d') \<and>
     batch_held oid t (sort_key fst lines) rows d d'"
  unfolding reserve_many_checked [OF assms(1)]
  by (rule lookup_fresh) (use assms in \<open>auto simp: check_lines_ok_def list_all_iff\<close>)

theorem reserve_batch_held_witness:
  "\<exists>rows d'. repo_reserve_many [(''a'', 2)] 300 60 StockReserved demo_stock = (Inr (Inr rows), d') \<and>
     batch_held 300 60 (sort_key fst [(''a'', 2)]) rows demo_stock d'"
proof (rule reserve_batch_held)
  show "check_lines_ok [(''a'', 2)]" by (simp add: check_lines_ok_def)
  show "list_all (\<lambda>l. active_row 300 (fst l) demo_stock = None) [(''a'', 2)]" by code_simp
  show "stocked [(''a'', 2)] demo_stock" by code_simp
qed

text \<open>
  A rejected batch leaves the database as it was, and the rejection names a line of the batch that
  the stock really does not cover.
\<close>
theorem reserve_batch_rejected:
  assumes "check_lines_ok lines" and "repo_reserve_many lines oid t f d = (Inr (Inl rej), d')"
  shows "d' = d \<and> (rej_sku rej, rej_qty rej) \<in> set lines \<and> \<not> stocked [(rej_sku rej, rej_qty rej)] d"
  using assms(2) unfolding reserve_many_checked [OF assms(1)]
  by (intro lookup_refused) (use assms(1) in \<open>simp_all add: check_lines_ok_def\<close>)

theorem reserve_batch_rejected_witness:
  "repo_reserve_many [(''a'', 2), (''b'', 1)] 300 60 StockReserved demo_stock = (Inr (Inl \<lparr>rej_sku = ''b'', rej_qty = 1\<rparr>), demo_stock) \<and>
   \<not> stocked [(''b'', 1)] demo_stock"
proof -
  obtain d' where run: "repo_reserve_many [(''a'', 2), (''b'', 1)] 300 60 StockReserved demo_stock =
      (Inr (Inl \<lparr>rej_sku = ''b'', rej_qty = 1\<rparr>), d')"
  proof -
    have "fst (repo_reserve_many [(''a'', 2), (''b'', 1)] 300 60 StockReserved demo_stock) =
        Inr (Inl \<lparr>rej_sku = ''b'', rej_qty = 1\<rparr>)" by code_simp
    then show thesis using that by (metis prod.collapse)
  qed
  have "check_lines_ok [(''a'', 2), (''b'', 1)]" by (simp add: check_lines_ok_def)
  from reserve_batch_rejected [OF this run] run show ?thesis by simp
qed

text \<open>
  Reserving again is free: when the order already holds (or has already committed) every line at the
  asked quantity, the same rows come back and nothing is written.
\<close>
theorem reserve_batch_replayed:
  assumes "check_lines_ok lines"
    and "list_all2 (\<lambda>l r. active_row oid (fst l) d = Some r \<and> res_qty r = snd l) (sort_key fst lines) rows"
  shows "repo_reserve_many lines oid t f d = (Inr (Inr rows), d)"
  unfolding reserve_many_checked [OF assms(1)] using assms(2) by (rule lookup_replayed)

theorem reserve_batch_replayed_witness:
  "repo_reserve_many [(''a'', 3)] 100 90 StockReserved demo_stock =
     (Inr (Inr [\<lparr>res_id = 0, res_sku = ''a'', res_qty = 3, res_order = 100, res_status = HELD, res_expires = 60\<rparr>]), demo_stock)"
proof (rule reserve_batch_replayed)
  show "check_lines_ok [(''a'', 3)]" by (simp add: check_lines_ok_def)
  show "list_all2 (\<lambda>l r. active_row 100 (fst l) demo_stock = Some r \<and> res_qty r = snd l) (sort_key fst [(''a'', 3)])
     [\<lparr>res_id = 0, res_sku = ''a'', res_qty = 3, res_order = 100, res_status = HELD, res_expires = 60\<rparr>]" by code_simp
qed

text \<open>
  Committing an order is all or nothing and safe to retry: either the order's rows do not cover the
  expected lines and nothing changes, or every held row of it becomes committed; the answer is the
  committed total of the order, and running it again gives the same answer and changes nothing.
\<close>
theorem commit_for_order_retry_safe:
  assumes "books_ok d" and "repo_commit_for_order oid n d = (r, d')"
  shows "r = Inr (committed_count oid d') \<and> repo_commit_for_order oid n d' = (r, d') \<and>
     (d' = d \<and> length (order_rows COMMITTED oid d) + length (order_rows HELD oid d) < n \<or>
      order_rows HELD oid d' = [] \<and> n \<le> committed_count oid d')"
proof -
  have ok: "stock_ok d" "stock_ok d'"
    using assms stock_step_commit_for_order [OF _ _ assms(2)] by (auto simp: books_ok_def stock_step_def)
  obtain k where k: "r = Inr k" using assms(2) by (auto simp: commit_for_order_run [OF ok(1)] Let_def split: if_splits)
  have count: "committed_count oid d' = k"
    using commit_for_order_count [OF ok(1)] assms(2) k by simp
  show ?thesis
  proof (cases "length (order_rows COMMITTED oid d) + length (order_rows HELD oid d) < n")
    case True
    with assms(2) k count ok show ?thesis by (auto simp: commit_for_order_run Let_def)
  next
    case False
    then have d': "d' = consumed (order_rows HELD oid d) d" "k = length (order_rows COMMITTED oid d) + length (order_rows HELD oid d)"
      using assms(2) k ok by (auto simp: commit_for_order_run Let_def)
    then have none: "order_rows HELD oid d' = []" using order_rows_consumed [OF ok(1)] by simp
    moreover have "length (order_rows COMMITTED oid d') = k" using count by (simp add: committed_count_def)
    ultimately have "repo_commit_for_order oid n d' = (Inr k, d')"
      using False d'(2) unfolding commit_for_order_run [OF ok(2)] by (simp add: Let_def)
    with none False d' count k show ?thesis by simp
  qed
qed

theorem commit_for_order_retry_safe_witness:
  "fst (repo_commit_for_order 100 2 demo_stock) = Inr 2 \<and>
   repo_commit_for_order 100 2 (snd (repo_commit_for_order 100 2 demo_stock)) = repo_commit_for_order 100 2 demo_stock"
proof
  show "fst (repo_commit_for_order 100 2 demo_stock) = Inr 2" by code_simp
  show "repo_commit_for_order 100 2 (snd (repo_commit_for_order 100 2 demo_stock)) = repo_commit_for_order 100 2 demo_stock"
    using commit_for_order_retry_safe [OF demo_stock_ok prod.collapse [symmetric]] by simp
qed

text \<open>
  Releasing an order's holds is idempotent: the second call releases nothing, writes nothing and
  announces nothing.
\<close>
theorem release_for_order_idempotent:
  assumes "books_ok d" and "repo_release_for_order oid StockReleased d = (r, d')"
  shows "r = Inr (length (order_rows HELD oid d)) \<and> order_rows HELD oid d' = [] \<and>
     repo_release_for_order oid StockReleased d' = (Inr 0, d')"
proof -
  have ok: "stock_ok d" "stock_ok d'"
    using assms stock_step_release_for_order [OF _ _ assms(2)] by (auto simp: books_ok_def stock_step_def)
  then have "r = Inr (length (order_rows HELD oid d))" "order_rows HELD oid d' = []"
    using assms(2) order_rows_released by (auto simp: release_for_order_run)
  with ok show ?thesis by (simp add: release_for_order_run)
qed

theorem release_for_order_idempotent_witness:
  "fst (repo_release_for_order 100 StockReleased demo_stock) = Inr 2 \<and>
   repo_release_for_order 100 StockReleased (snd (repo_release_for_order 100 StockReleased demo_stock)) =
     (Inr 0, snd (repo_release_for_order 100 StockReleased demo_stock))"
proof
  show "fst (repo_release_for_order 100 StockReleased demo_stock) = Inr 2" by code_simp
  show "repo_release_for_order 100 StockReleased (snd (repo_release_for_order 100 StockReleased demo_stock)) =
     (Inr 0, snd (repo_release_for_order 100 StockReleased demo_stock))"
    using release_for_order_idempotent [OF demo_stock_ok prod.collapse [symmetric]] by simp
qed

end
