(* ===== verification/Shop_Properties.thy ===== *)
theory Shop_Properties
  imports Shop_Requests Stock_Properties
begin

text \<open>
  The properties that span the modules, for every request, every pattern of failures and every
  interference by the other requests. \<open>tame w\<close> says only that what the others do between two calls
  respects \<open>db_step\<close>; the last theorem shows that every request does so itself, which closes the
  circle.
\<close>

section \<open>A small shop for the witnesses\<close>

definition demo_cfg :: "stub_state saga_config" where
  "demo_cfg = \<lparr>sc_ttl = 900, sc_cart_ttl = 3600,
     sc_payments = \<lparr>pc_gateway = Some (stub_gateway \<lparr>fail_substring = ''fail'', pending_substring = '''', settle_seconds = None\<rparr>),
        pc_hook = Some cancelled_order_refund_hook, pc_secret = Some ''whsec'', pc_tolerance = 300, pc_grace = 60, pc_max_age = 3600\<rparr>,
     sc_idempotency = True, sc_prices = (\<lambda>p. if p = 7 then Some (5 / 2) else None), sc_sha256 = (\<lambda>s. s),
     sc_guard = Some has_succeeded_for_order, sc_depth = Some 0, sc_fresh = True\<rparr>"

definition demo_shared :: "stub_state shared" where
  "demo_shared = \<lparr>db = empty_database\<lparr>next_uuid := 100, stock := [str_uuid 7 \<mapsto> \<lparr>on_hand = 5, reserved = 0, version = 1\<rparr>]\<rparr>,
     carts = [1 \<mapsto> \<lparr>hlines = [(7, \<lparr>line_name = ''mug'', line_price = ''2.50'', line_image = None, line_qty = 2, line_version = None\<rparr>)],
        meta = Some 0, expires_at = 1000000000\<rparr>],
     projections = Map.empty, idem = Map.empty, gate = empty_stub\<rparr>"

text \<open>The reaper runs before our first call, our third call loses its answer.\<close>

definition demo_world :: "stub_state world" where
  "demo_world = \<lparr>sh = demo_shared, faults = [Fine, Fine, Landed TimeoutError],
     sched = [\<lambda>s. s\<lparr>db := apply_op (OpExpire 5) (db s)\<rparr>], trail = [], counters = (\<lambda>_. 0)\<rparr>"

lemma wired_demo: "wired demo_cfg"
  by (simp add: wired_def demo_cfg_def)

lemma tame_demo: "tame demo_world"
proof -
  have "db_step d (apply_op (OpExpire 5) d)" for d
    using apply_op_cases [of "OpExpire 5" d] by (auto simp: db_step_refl dest!: run_ignored intro: inventory_db_steps)
  then show ?thesis by (simp add: tame_def demo_world_def)
qed

lemma shop_ok_demo: "shop_ok (db (sh demo_world))"
  by (auto simp: demo_world_def demo_shared_def shop_ok_def stock_ok_def rows_ok_def counters_ok_def stock_events_ok_def
      announced_def empty_database_def orders_ok_def payments_ok_def paid_ok_def refund_ok_def orders_announced_def
      placed_events_def held_qty_def split: if_splits)

text \<open>A shop with a past: a paid order, and a cancelled one whose charge went through.\<close>

definition paid_one :: order where
  "paid_one = \<lparr>order_id = 20, order_user = 1, order_state = PAID, order_total = 5,
     order_items = [\<lparr>item_id = 21, item_product = 7, item_name = ''mug'', item_price = 5 / 2, item_qty = 2\<rparr>],
     order_created = 0, order_updated = 0, order_key = ''k2'', order_body_hash = ''h'', order_email = ''''\<rparr>"

definition cancelled_one :: order where
  "cancelled_one = \<lparr>order_id = 10, order_user = 1, order_state = CANCELLED, order_total = 5, order_items = [], order_created = 0,
     order_updated = 0, order_key = ''k'', order_body_hash = ''h'', order_email = ''''\<rparr>"

definition charge_one :: payment where
  "charge_one = \<lparr>pay_id = 11, pay_order = 10, pay_key = ''pk'', pay_status = SUCCEEDED, pay_amount = 5, pay_ref = Some ''r'',
     pay_reason = None, pay_created = 0\<rparr>"

definition past_db :: database where
  "past_db = empty_database\<lparr>next_uuid := 100, stock := [''s'' \<mapsto> \<lparr>on_hand = 3, reserved = 0, version = 3\<rparr>],
     reservations := [\<lparr>res_id = 1, res_sku = ''s'', res_qty = 2, res_order = 20, res_status = COMMITTED, res_expires = 0\<rparr>],
     inv_outbox := [\<lparr>out_id = 2, out_event = StockReserved ''s'' 20 2, out_occurred = 0, out_published = None\<rparr>],
     orders := [cancelled_one, paid_one], payments := [charge_one],
     ord_outbox := [\<lparr>out_id = 3, out_event = OrderPlaced 20 1 5 None [], out_occurred = 0, out_published = None\<rparr>],
     saga_log := [\<lparr>log_order = 10, log_step = ''refund'', log_status = ''requested'', log_created = 0, log_updated = 0\<rparr>]\<rparr>"

definition past_world :: "stub_state world" where
  "past_world = quiet (demo_shared\<lparr>db := past_db\<rparr>)"

lemma past_ok: "tame past_world" "shop_ok (db (sh past_world))"
proof -
  show "tame past_world" by (simp add: past_world_def quiet_def tame_def)
  have "stock_ok past_db"
    by (auto simp: past_db_def stock_ok_def rows_ok_def counters_ok_def held_qty_def is_active_def split: if_splits)
  moreover have "stock_events_ok past_db"
    by (auto simp: past_db_def stock_events_ok_def announced_def line_is_def empty_database_def)
  moreover have "orders_ok past_db" "payments_ok past_db" "refund_ok past_db"
    by (auto simp: past_db_def orders_ok_def payments_ok_def refund_ok_def paid_one_def cancelled_one_def charge_one_def)
  moreover have "paid_ok past_db" "orders_announced past_db"
    by (auto simp: past_db_def paid_ok_def orders_announced_def committed_count_def order_rows_def placed_events_def
        paid_one_def cancelled_one_def)
  ultimately show "shop_ok (db (sh past_world))" by (simp add: shop_ok_def past_world_def quiet_def)
qed

text \<open>A turn of an idle reaper, as the request of the witnesses.\<close>

abbreviation past_turn :: "stub_state world" where
  "past_turn \<equiv> snd (perform (\<lambda>k m. m) (\<lambda>_. None) demo_cfg (ReaperTurn 0) past_world)"

lemma past_turn_run: "db (sh past_turn) = past_db"
  by (simp add: past_world_def quiet_def ignore_def reaper_turn_def
      svc_release_expired_def repo_release_expired_def expired_holds_def release_rows_def tx_def call_def interfere_def
      next_fault_def on_db_def atomic_def bnd_def thn_def except_Exception_def catch_def after_call_def Let_def)

section \<open>Properties\<close>



text \<open>
  C2. Money on a cancelled order is never forgotten: if an order is cancelled and a payment for it stands
  succeeded, the journal holds a refund request for it. This covers a charge that settles after the
  cancel and a cancel that lands after the charge.
\<close>
theorem cancelled_money_is_journaled:
  assumes "wired cfg" and "tame w" and "shop_ok (db (sh w))"
    and "d' = db (sh (snd (perform hmac loads cfg req w)))"
    and "r \<in> set (orders d')" and "order_state r = CANCELLED"
    and "p \<in> set (payments d')" and "pay_order p = order_id r" and "pay_status p = SUCCEEDED"
  shows "\<exists>l \<in> set (saga_log d'). log_order l = order_id r \<and> log_step l = ''refund''"
proof -
  have "refund_ok d'"
    using safe_run(1) [OF safe_perform [OF assms(1)] assms(2,3)] assms(4) by (simp add: shop_ok_def)
  with assms(5-) show ?thesis by (auto simp: refund_ok_def)
qed

theorem cancelled_money_is_journaled_witness:
  "\<exists>l \<in> set (saga_log (db (sh past_turn))). log_order l = order_id cancelled_one \<and> log_step l = ''refund''"
proof (rule cancelled_money_is_journaled [OF wired_demo past_ok refl])
  show "cancelled_one \<in> set (orders (db (sh past_turn)))" "charge_one \<in> set (payments (db (sh past_turn)))"
    unfolding past_turn_run by (simp_all add: past_db_def)
qed (simp_all add: cancelled_one_def charge_one_def)

text \<open>
  C3. An order is announced exactly once: a paid order has exactly one \<open>OrderPlaced\<close> event in the outbox, any
  other order none, however often its checkout, its resumption or its recovery run.
\<close>
theorem order_placed_once:
  assumes "wired cfg" and "tame w" and "shop_ok (db (sh w))"
    and "r \<in> set (orders (db (sh (snd (perform hmac loads cfg req w)))))"
  shows "placed_events (order_id r) (db (sh (snd (perform hmac loads cfg req w)))) = (if order_state r = PAID then 1 else 0)"
proof -
  have "orders_announced (db (sh (snd (perform hmac loads cfg req w))))"
    using safe_run(1) [OF safe_perform [OF assms(1)] assms(2,3)] by (simp add: shop_ok_def)
  with assms(4) show ?thesis by (simp add: orders_announced_def)
qed

theorem order_placed_once_witness:
  "placed_events 20 (db (sh past_turn)) = 1 \<and> placed_events 10 (db (sh past_turn)) = 0"
proof -
  have "paid_one \<in> set (orders (db (sh past_turn)))" "cancelled_one \<in> set (orders (db (sh past_turn)))"
    unfolding past_turn_run by (simp_all add: past_db_def)
  from this [THEN order_placed_once [OF wired_demo past_ok]] show ?thesis
    by (simp add: paid_one_def cancelled_one_def)
qed

text \<open>
  Decisions stand: an order that is paid or cancelled stays so, with the same lines, owner, total and key,
  through every request and interference.
\<close>
theorem order_decision_stands:
  assumes "wired cfg" and "tame w" and "shop_ok (db (sh w))"
    and "r \<in> set (orders (db (sh w)))" and "order_state r \<noteq> PENDING"
  shows "\<exists>r' \<in> set (orders (db (sh (snd (perform hmac loads cfg req w))))). \<exists>t. r' = r\<lparr>order_updated := t\<rparr>"
proof -
  have "db_step (db (sh w)) (db (sh (snd (perform hmac loads cfg req w))))"
    by (rule safe_run(2) [OF safe_perform [OF assms(1)] assms(2,3)])
  then obtain r' where r': "r' \<in> set (orders (db (sh (snd (perform hmac loads cfg req w)))))" "order_evolves r r'"
    using assms(3,4) unfolding db_step_def by blast
  then have "order_state r' = order_state r"
    using assms(5) by (cases "order_state r") (auto simp: order_evolves_def)
  with r'(2) have "r' = r\<lparr>order_updated := order_updated r'\<rparr>"
    by (cases r; cases r') (simp add: order_evolves_def)
  with r'(1) show ?thesis by blast
qed

theorem order_decision_stands_witness:
  "\<exists>r' \<in> set (orders (db (sh (snd (perform (\<lambda>k m. m) (\<lambda>_. None) demo_cfg (CancelOrder 1 20 False) past_world))))).
     \<exists>t. r' = paid_one\<lparr>order_updated := t\<rparr>"
  by (rule order_decision_stands [OF wired_demo past_ok])
    (simp_all add: past_world_def quiet_def past_db_def paid_one_def)

text \<open>
  C4. Every write of every request respects the step relation, whatever it read, whatever fails: the
  interference the theorems above allow is exactly what the requests produce.
\<close>
theorem requests_respect_each_other:
  assumes "wired cfg" and "tame w" and "shop_ok (db (sh w))"
  shows "shop_ok (db (sh (snd (perform hmac loads cfg req w)))) \<and>
     (\<forall>(s, s') \<in> set (trail (snd (perform hmac loads cfg req w))). db_step (db s) (db s'))"
  using safe_run(1,3) [OF safe_perform [OF assms(1)] assms(2,3)] by blast

theorem requests_respect_each_other_witness:
  "shop_ok (db (sh (snd (perform (\<lambda>k m. m) (\<lambda>_. None) demo_cfg (RecoveryTurn 30 10) demo_world))))"
  using requests_respect_each_other [OF wired_demo tame_demo shop_ok_demo] by blast

end
