(* ===== verification/Payments_Properties.thy ===== *)
theory Payments_Properties
  imports Shop_Properties
begin

text \<open>
  What the payments service promises: a payment is decided once, replays are free and do not reach
  the provider, contradictory or unsafe requests are refused before anything happens, and the
  webhook signature check accepts exactly what the signer produces inside the tolerance window.
\<close>

section \<open>Undisturbed runs\<close>

lemma tx_undisturbed:
  assumes "undisturbed w"
  shows "tx m w = (let (r, d) = atomic m (db (sh w)); s = (sh w)\<lparr>db := d\<rparr> in (r, after_call s [(sh w, s)] w))"
  using call_undisturbed [OF assms, of "on_db (atomic m)"] by (simp add: tx_def on_db_def split_beta Let_def)

lemma tx_read: "undisturbed w \<Longrightarrow> tx (gets f) w = (Inr (f (db (sh w))), after_call (sh w) [(sh w, sh w)] w)"
  by (simp add: tx_undisturbed atomic_run Let_def)

lemma payment_by_key_unique: "payments_ok d \<Longrightarrow> p \<in> set (payments d) \<Longrightarrow> payment_by_key (pay_key p) d = Some p"
  by (simp add: payment_by_key_def payments_ok_def find_unique)

lemma due_payment_settled:
  assumes "payments_ok d" and "p \<in> set (payments d)" and "pay_status p \<noteq> ex"
  shows "due_payment (pay_id p) ex d = None"
  using assms by (auto simp: find_None payments_ok_def distinct_map inj_on_def)

section \<open>The charge\<close>

lemma create_pending_tx:
  assumes "undisturbed w" and "payments_ok (db (sh w))" and "payment_by_key key (db (sh w)) = Some p"
  shows "tx (repo_create_pending oid key amount) w = (Inr (p, False), after_call (sh w) [(sh w, sh w)] w)"
  using assms by (simp add: tx_undisturbed atomic_run create_payment_run Let_def)

text \<open>
  Replaying a settled charge is free: when the key already has a payment of this order and amount
  that is no longer pending, the charge answers that payment, asks the provider nothing and writes
  nothing.
\<close>
theorem charge_replay_is_free:
  assumes "undisturbed w" and "payments_ok (db (sh w))" and "payment_by_key key (db (sh w)) = Some p"
    and "pay_order p = oid" and "pay_amount p = amount" and "pay_status p \<noteq> PAY_PENDING"
    and "\<not> looks_like_pan token" and "pc_gateway cfg \<noteq> None"
  shows "\<exists>w'. svc_charge cfg oid key amount token w = (Inr p, w') \<and> sh w' = sh w"
  using assms create_pending_tx [OF assms(1-3), of oid amount]
  by (auto simp: svc_charge_def require_gateway_def bnd_run)

theorem charge_replay_is_free_witness:
  "\<exists>w'. svc_charge (sc_payments demo_cfg) 10 ''pk'' 5 ''tok'' past_world = (Inr charge_one, w') \<and> sh w' = sh past_world"
proof (rule charge_replay_is_free)
  show "undisturbed past_world" by (simp add: past_world_def quiet_def undisturbed_def)
  show "payments_ok (db (sh past_world))" using past_ok(2) by (simp add: shop_ok_def)
  show "payment_by_key ''pk'' (db (sh past_world)) = Some charge_one"
    by (simp add: payment_by_key_def past_world_def quiet_def past_db_def charge_one_def)
  show "\<not> looks_like_pan ''tok''" by code_simp
qed (simp_all add: charge_one_def demo_cfg_def)

text \<open>
  A contradictory charge is refused: the same key for another order or another amount raises
  \<open>PaymentIdempotencyConflictError\<close> before the provider is asked, and nothing is written.
\<close>
theorem charge_contradiction_refused:
  assumes "undisturbed w" and "payments_ok (db (sh w))" and "payment_by_key key (db (sh w)) = Some p"
    and "pay_order p \<noteq> oid \<or> pay_amount p \<noteq> amount"
    and "\<not> looks_like_pan token" and "pc_gateway cfg \<noteq> None"
  shows "\<exists>w'. svc_charge cfg oid key amount token w = (Inl PaymentIdempotencyConflictError, w') \<and> sh w' = sh w"
  using assms create_pending_tx [OF assms(1-3), of oid amount]
  by (auto simp: svc_charge_def require_gateway_def bnd_run)

theorem charge_contradiction_refused_witness:
  "\<exists>w'. svc_charge (sc_payments demo_cfg) 10 ''pk'' 6 ''tok'' past_world = (Inl PaymentIdempotencyConflictError, w') \<and>
     sh w' = sh past_world"
proof (rule charge_contradiction_refused)
  show "undisturbed past_world" by (simp add: past_world_def quiet_def undisturbed_def)
  show "payments_ok (db (sh past_world))" using past_ok(2) by (simp add: shop_ok_def)
  show "payment_by_key ''pk'' (db (sh past_world)) = Some charge_one"
    by (simp add: payment_by_key_def past_world_def quiet_def past_db_def charge_one_def)
  show "\<not> looks_like_pan ''tok''" by code_simp
qed (simp_all add: charge_one_def demo_cfg_def)

text \<open>
  C8. Money moves at most once per decision: through every request and interference a payment keeps its order,
  key, amount and age, a failed or refunded payment keeps its status, and a succeeded one can only
  become refunded.
\<close>
theorem payment_decision_stands:
  assumes "wired cfg" and "tame w" and "shop_ok (db (sh w))" and "p \<in> set (payments (db (sh w)))"
  shows "\<exists>p' \<in> set (payments (db (sh (snd (perform hmac loads cfg req w))))).
     pay_id p' = pay_id p \<and> pay_order p' = pay_order p \<and> pay_key p' = pay_key p \<and> pay_amount p' = pay_amount p \<and>
     pay_created p' = pay_created p \<and> payment_may_become (pay_status p) (pay_status p')"
proof -
  have "db_step (db (sh w)) (db (sh (snd (perform hmac loads cfg req w))))"
    by (rule safe_run(2) [OF safe_perform [OF assms(1)] assms(2,3)])
  then obtain p' where p': "p' \<in> set (payments (db (sh (snd (perform hmac loads cfg req w)))))" "payment_evolves p p'"
    using assms(3,4) unfolding db_step_def by blast
  from p'(2) have "pay_id p' = pay_id p \<and> pay_order p' = pay_order p \<and> pay_key p' = pay_key p \<and> pay_amount p' = pay_amount p \<and>
     pay_created p' = pay_created p \<and> payment_may_become (pay_status p) (pay_status p')"
    by (cases p; cases p') (simp add: payment_evolves_def)
  with p'(1) show ?thesis by blast
qed

theorem payment_decision_stands_witness:
  "\<exists>p' \<in> set (payments (db (sh (snd (perform (\<lambda>k m. m) (\<lambda>_. None) demo_cfg (RefundDirect ''pk'') past_world))))).
     pay_id p' = 11 \<and> pay_amount p' = 5 \<and> (pay_status p' = SUCCEEDED \<or> pay_status p' = REFUNDED)"
proof -
  have "charge_one \<in> set (payments (db (sh past_world)))" by (simp add: past_world_def quiet_def past_db_def)
  from payment_decision_stands [OF wired_demo past_ok this, of "\<lambda>k m. m" "\<lambda>_. None" "RefundDirect ''pk''"]
  show ?thesis by (fastforce simp: charge_one_def simp del: perform.simps)
qed

section \<open>The webhook\<close>

text \<open>
  A settled payment ignores further outcomes: the webhook, the reconciler and a late charge answer find the
  guarded flip closed, write nothing and append no second event.
\<close>
theorem settled_payment_ignores_outcomes:
  assumes "payments_ok d" and "p \<in> set (payments d)" and "pay_status p \<noteq> PAY_PENDING"
  shows "outcome_txn hook (pay_id p) out ref reason d = (Inr None, d)"
  using due_payment_settled [OF assms] by (cases out) (simp_all add: outcome_txn_def transition_run)

theorem settled_payment_ignores_outcomes_witness:
  "outcome_txn (Some cancelled_order_refund_hook) 11 G_FAILED (Some ''late'') None past_db = (Inr None, past_db)"
proof -
  have "payments_ok past_db" using past_ok(2) by (simp add: shop_ok_def past_world_def quiet_def)
  moreover have "charge_one \<in> set (payments past_db)" "pay_status charge_one \<noteq> PAY_PENDING" "pay_id charge_one = 11"
    by (simp_all add: past_db_def charge_one_def)
  ultimately show ?thesis using settled_payment_ignores_outcomes by metis
qed



text \<open>
  The webhook endpoint fails closed: whatever the body says, without a configured secret, without a readable
  timestamp, outside the tolerance window or under a wrong signature the call raises before any row
  is read, and nothing changes.
\<close>
theorem webhook_fails_closed:
  assumes "pc_secret cfg = None \<or> pc_secret cfg = Some [] \<or> ts_text = None \<or>
     (\<exists>text. ts_text = Some text \<and> (py_int text = None \<or>
        (\<exists>ts. py_int text = Some ts \<and> \<bar>clock (db (sh w)) - seconds ts\<bar> > seconds (pc_tolerance cfg))))"
  shows "\<exists>e. svc_handle_webhook hmac loads cfg body sig ts_text w = (Inl e, w) \<and>
     (\<exists>m. e = AuthenticationError m \<or> e = DependencyUnavailableError m)"
  using assms
  by (cases "pc_secret cfg"; cases ts_text)
    (auto simp: svc_handle_webhook_def verify_signature_def Let_def split: option.splits)

theorem webhook_fails_closed_witness:
  "\<exists>e. svc_handle_webhook (\<lambda>k m. m) (\<lambda>_. None) (sc_payments demo_cfg) ''{}'' (Some ''sha256=00'') (Some ''12x'') past_world = (Inl e, past_world)"
proof -
  have "py_int ''12x'' = None" by code_simp
  then show ?thesis using webhook_fails_closed [of "sc_payments demo_cfg" "Some ''12x''" past_world] by blast
qed

end
