(* ===== verification/Cart_Service.thy ===== *)
theory Cart_Service
  imports Cart_Repository
begin

text \<open>
  \<^verbatim>\<open>cart/application/service.py\<close> and the event handler of \<^verbatim>\<open>cart/adapters/cart_consumer.py\<close>.
  \<open>cc_products\<close> is the snapshot port, which the composition root implements over the catalog: the
  product's current facts, or nothing when it is unknown or deleted. The answer keeps a price as the
  text of the line.
\<close>

record product_snapshot =
  snap_name :: string
  snap_price :: string
  snap_image :: "string option"
  snap_version :: "int option"

record cart_config =
  cc_ttl :: int
  cc_max_items :: nat
  cc_max_qty :: int
  cc_products :: "uuid \<Rightarrow> product_snapshot option"

record cart_response =
  resp_items :: "(uuid \<times> cart_line) list"
  resp_updated :: timestamp

text \<open>\<open>_to_response\<close>: an absent cart is the empty cart, stamped now.\<close>

definition to_response :: "cart option \<Rightarrow> timestamp \<Rightarrow> cart_response" where
  "to_response c now =
     (case c of
        None \<Rightarrow> \<lparr>resp_items = [], resp_updated = now\<rparr>
      | Some b \<Rightarrow> \<lparr>resp_items = cart_items b,
          resp_updated = (case cart_updated b of None \<Rightarrow> now | Some t \<Rightarrow> t)\<rparr>)"

definition respond :: "cart option \<Rightarrow> ('g, cart_response) service" where
  "respond c = bnd (gets (\<lambda>w. clock (db (sh w)))) (\<lambda>now. ret (to_response c now))"

definition check_quantity :: "cart_config \<Rightarrow> int \<Rightarrow> ('g, unit) service" where
  "check_quantity cfg q =
     (if q < 1 \<or> q > cc_max_qty cfg then raise (InvalidCartOperationError ''quantity out of range'' q) else ret ())"

definition get_snapshot :: "cart_config \<Rightarrow> uuid \<Rightarrow> ('g, product_snapshot option) service" where
  "get_snapshot cfg pid = call (\<lambda>s. (Inr (cc_products cfg pid), s))"

definition svc_get_cart :: "cart_config \<Rightarrow> uuid \<Rightarrow> ('g, cart_response) service" where
  "svc_get_cart cfg uid = bnd (repo_get_cart (cc_ttl cfg) uid) respond"

definition svc_add_item :: "cart_config \<Rightarrow> uuid \<Rightarrow> uuid \<Rightarrow> int \<Rightarrow> ('g, cart_response) service" where
  "svc_add_item cfg uid pid q =
     thn (check_quantity cfg q)
    (bnd (get_snapshot cfg pid) (\<lambda>snapshot.
       case snapshot of
         None \<Rightarrow> raise ProductNotFoundError
       | Some p \<Rightarrow>
           bnd (catch (repo_add_item (cc_ttl cfg) uid pid (snap_name p) (snap_price p) (snap_image p) q
                         (cc_max_items cfg) (cc_max_qty cfg) (snap_version p))
                 (\<lambda>e. if e = ProductTombstonedError then raise ProductNotFoundError else raise e)) (\<lambda>c.
             respond (Some c))))"

definition svc_set_quantity :: "cart_config \<Rightarrow> uuid \<Rightarrow> uuid \<Rightarrow> int \<Rightarrow> ('g, cart_response) service" where
  "svc_set_quantity cfg uid pid q =
     (if q < 0 \<or> q > cc_max_qty cfg then raise (InvalidCartOperationError ''quantity out of range'' q)
      else bnd (get_snapshot cfg pid) (\<lambda>snapshot.
        case snapshot of
          None \<Rightarrow> thn (repo_remove_item (cc_ttl cfg) uid pid) (raise ProductNotFoundError)
        | Some _ \<Rightarrow>
            bnd (repo_set_quantity (cc_ttl cfg) uid pid q (cc_max_qty cfg)) (\<lambda>c.
              case c of None \<Rightarrow> raise CartLineNotFoundError | Some b \<Rightarrow> respond (Some b))))"

definition svc_remove_item :: "cart_config \<Rightarrow> uuid \<Rightarrow> uuid \<Rightarrow> ('g, cart_response) service" where
  "svc_remove_item cfg uid pid = bnd (repo_remove_item (cc_ttl cfg) uid pid) respond"

definition svc_clear_cart :: "uuid \<Rightarrow> ('g, unit) service" where
  "svc_clear_cart uid = repo_clear_cart uid"

definition svc_consume_purchased :: "cart_config \<Rightarrow> uuid \<Rightarrow> (uuid \<times> int) list \<Rightarrow> ('g, unit) service" where
  "svc_consume_purchased cfg uid lines = repo_consume_lines (cc_ttl cfg) uid lines"

text \<open>The consumer's handler; other event types are ignored.\<close>

datatype product_event = ProductDeleted uuid | ProductUpdated uuid string string "int option" | OtherEvent

definition cart_handler :: "product_event \<Rightarrow> ('g, unit) service" where
  "cart_handler e =
     (case e of
        ProductDeleted pid \<Rightarrow> bnd (repo_prune_product pid) (\<lambda>_. ret ())
      | ProductUpdated pid name price v \<Rightarrow> bnd (repo_refresh_product pid name price v) (\<lambda>_. ret ())
      | OtherEvent \<Rightarrow> ret ())"

end
