(* ===== verification/Cart_Properties.thy ===== *)
theory Cart_Properties
  imports Cart_Service Valkey_Rely
begin

text \<open>
  The cart's promises: limits that no request, failure or interleaving can break; product projections
  that do not depend on the order events arrive in; a refresh gate that is the domain's rule; and a
  checkout that takes exactly what was bought.
\<close>

section \<open>Limits\<close>

definition line_ok :: "int \<Rightarrow> cart_line \<Rightarrow> bool" where
  "line_ok cap l \<longleftrightarrow> 1 \<le> line_qty l \<and> line_qty l \<le> cap"

definition hash_ok :: "cart_config \<Rightarrow> cart_hash \<Rightarrow> bool" where
  "hash_ok cfg h \<longleftrightarrow> distinct (map fst (hlines h)) \<and> length (hlines h) \<le> cc_max_items cfg \<and>
     list_all (\<lambda>f. line_ok (cc_max_qty cfg) (snd f)) (hlines h)"

definition cart_ok :: "cart_config \<Rightarrow> cart_hash option \<Rightarrow> bool" where
  "cart_ok cfg h \<longleftrightarrow> (case h of None \<Rightarrow> True | Some c \<Rightarrow> hash_ok cfg c)"

lemma cart_ok_simps [simp]: "cart_ok cfg None" "cart_ok cfg (Some c) = hash_ok cfg c"
  by (simp_all add: cart_ok_def)

lemma hset_lines:
  assumes "list_all (\<lambda>f. P (snd f)) fs" and "P l"
  shows "list_all (\<lambda>f. P (snd f)) (hset p l fs)"
  using assms by (induction fs) auto

lemma length_hset: "length (hset p l fs) = (if map_of fs p = None then Suc (length fs) else length fs)"
  by (induction fs) auto

lemma hash_ok_hset:
  assumes "distinct (map fst fs)" "length fs \<le> cc_max_items cfg" "list_all (\<lambda>f. line_ok (cc_max_qty cfg) (snd f)) fs"
    and "line_ok (cc_max_qty cfg) l" and "map_of fs p \<noteq> None \<or> length fs < cc_max_items cfg"
  shows "hash_ok cfg (c\<lparr>hlines := hset p l fs\<rparr>)"
  using assms by (auto simp: hash_ok_def distinct_hset length_hset hset_lines)

lemma hash_ok_hdel: "hash_ok cfg c \<Longrightarrow> hash_ok cfg (c\<lparr>hlines := hdel p (hlines c)\<rparr>)"
  by (auto simp: hash_ok_def distinct_hdel)
    (auto simp: hdel_def list_all_iff intro: order_trans [OF length_filter_le])

lemma cart_ok_keep_or_drop: "hash_ok cfg c \<Longrightarrow> cart_ok cfg (keep_or_drop now ttl c)"
  by (simp add: keep_or_drop_def hash_ok_def touch_def)

lemma line_found: "hash_ok cfg c \<Longrightarrow> map_of (hlines c) p = Some l \<Longrightarrow> line_ok (cc_max_qty cfg) l"
  by (auto simp: hash_ok_def list_all_iff dest!: map_of_SomeD)

text \<open>Each script keeps the limits.\<close>

lemma add_keeps:
  assumes "cart_ok cfg h" and "1 \<le> q" and "1 \<le> cc_max_qty cfg"
    and "add_lua pid name price img q (cc_max_qty cfg) (cc_max_items cfg) ttl v now proj h = (r, h')"
  shows "cart_ok cfg h'"
proof -
  have fs: "distinct (map fst (lines_of_hash h))" "length (lines_of_hash h) \<le> cc_max_items cfg"
      "list_all (\<lambda>f. line_ok (cc_max_qty cfg) (snd f)) (lines_of_hash h)"
    using assms(1) by (cases h; simp add: lines_of_hash_def hash_ok_def)+
  have old: "line_ok (cc_max_qty cfg) l" if "map_of (lines_of_hash h) pid = Some l" for l
    using that assms(1) by (cases h) (auto simp: lines_of_hash_def dest: line_found)
  have put: "hash_ok cfg (touch now ttl (hset pid l (lines_of_hash h)))"
    if "line_ok (cc_max_qty cfg) l" "map_of (lines_of_hash h) pid \<noteq> None \<or> length (lines_of_hash h) < cc_max_items cfg" for l
    using hash_ok_hset [OF fs that] by (simp add: touch_def hash_ok_def)
  show ?thesis
  proof (cases "map_of (lines_of_hash h) pid")
    case None
    then show ?thesis
      using assms put by (auto simp: add_lua_def Let_def line_ok_def split: if_splits prod.splits)
  next
    case (Some l)
    with old [OF Some] assms put show ?thesis
      by (auto simp: add_lua_def Let_def line_ok_def split: if_splits prod.splits)
  qed
qed

lemma set_keeps:
  assumes "cart_ok cfg h" and "0 \<le> q" and "set_lua pid q (cc_max_qty cfg) ttl now h = (r, h')"
  shows "cart_ok cfg h'"
proof (cases h)
  case (Some c)
  show ?thesis
  proof (cases "map_of (hlines c) pid")
    case (Some l)
    have c: "hash_ok cfg c" using assms(1) \<open>h = Some c\<close> by simp
    have "hash_ok cfg (c\<lparr>hlines := hset pid (l\<lparr>line_qty := q\<rparr>) (hlines c)\<rparr>)" if "q \<noteq> 0" "q \<le> cc_max_qty cfg"
      using c that assms(2) Some by (intro hash_ok_hset) (auto simp: hash_ok_def line_ok_def)
    with hash_ok_hdel [OF c] c assms(3) Some \<open>h = Some c\<close> show ?thesis
      by (auto simp: set_lua_def Let_def split: if_splits intro!: cart_ok_keep_or_drop)
  qed (use assms Some in \<open>auto simp: set_lua_def\<close>)
qed (use assms in \<open>auto simp: set_lua_def\<close>)

lemma remove_keeps: "cart_ok cfg h \<Longrightarrow> remove_lua pid ttl now h = (r, h') \<Longrightarrow> cart_ok cfg h'"
  by (cases h) (auto simp: remove_lua_def Let_def hash_ok_hdel split: if_splits intro!: cart_ok_keep_or_drop)

lemma deleted_keeps: "cart_ok cfg h \<Longrightarrow> apply_deleted_lua pid ttl now h = (r, h') \<Longrightarrow> cart_ok cfg h'"
  by (cases h) (auto simp: apply_deleted_lua_def Let_def hash_ok_hdel split: if_splits intro!: cart_ok_keep_or_drop)

lemma updated_keeps:
  assumes "cart_ok cfg h" and "apply_updated_lua pid name price v ttl now h = (r, h')"
  shows "cart_ok cfg h'"
proof (cases h)
  case (Some c)
  then have c: "hash_ok cfg c" using assms(1) by simp
  have put: "hash_ok cfg (touch now ttl (hset pid l' (hlines c)))"
    if "map_of (hlines c) pid = Some l" "line_qty l' = line_qty l" for l l'
    using hash_ok_hset [of "hlines c" cfg l' pid c] c line_found [OF c that(1)] that
    by (simp add: hash_ok_def line_ok_def touch_def)
  show ?thesis
    using assms c by (auto simp: Some apply_updated_lua_def lines_of_hash_def Let_def split: option.splits if_splits
        intro!: put)
qed (use assms in \<open>auto simp: apply_updated_lua_def lines_of_hash_def\<close>)

lemma consume_lines_ok: "hash_ok cfg c \<Longrightarrow> hash_ok cfg (c\<lparr>hlines := consume_lines sold (hlines c)\<rparr>)"
proof (induction sold arbitrary: c)
  case (Cons s sold)
  obtain p q where s: "s = (p, q)" by fastforce
  define fs where "fs = (if q > 0 then (case map_of (hlines c) p of None \<Rightarrow> hlines c
       | Some l \<Rightarrow> if line_qty l - q \<le> 0 then hdel p (hlines c) else hset p (l\<lparr>line_qty := line_qty l - q\<rparr>) (hlines c))
      else hlines c)"
  have "hash_ok cfg (c\<lparr>hlines := hset p (l\<lparr>line_qty := line_qty l - q\<rparr>) (hlines c)\<rparr>)"
    if "map_of (hlines c) p = Some l" "0 < q" "0 < line_qty l - q" for l
    using Cons.prems line_found [OF Cons.prems that(1)] that
    by (intro hash_ok_hset) (auto simp: hash_ok_def line_ok_def)
  then have "hash_ok cfg (c\<lparr>hlines := fs\<rparr>)"
    using Cons.prems hash_ok_hdel [OF Cons.prems] by (auto simp: fs_def split: option.splits)
  from Cons.IH [OF this] show ?case by (simp add: s fs_def cong: if_cong)
qed simp

lemma consume_keeps: "cart_ok cfg h \<Longrightarrow> consume_lua sold ttl now h = (r, h') \<Longrightarrow> cart_ok cfg h'"
  by (cases h) (auto simp: consume_lua_def Let_def consume_lines_ok intro!: cart_ok_keep_or_drop)

section \<open>The limits under interleaving\<close>

definition carts_ok :: "cart_config \<Rightarrow> 'g shared \<Rightarrow> bool" where
  "carts_ok cfg s \<longleftrightarrow> (\<forall>uid. cart_ok cfg (carts s uid))"

definition carts_step :: "cart_config \<Rightarrow> 'g shared \<Rightarrow> 'g shared \<Rightarrow> bool" where
  "carts_step cfg s s' \<longleftrightarrow> (carts_ok cfg s \<longrightarrow> carts_ok cfg s')"

interpretation limits: rely_guarantee "carts_step cfg" "carts_ok cfg" for cfg
  by unfold_locales (auto simp: carts_step_def)

lemma live_cart_ok: "cart_ok cfg h \<Longrightarrow> cart_ok cfg (live_cart now h)"
  by (cases h) (simp_all add: live_cart_def)

lemma limits_eval:
  assumes "\<And>now h r h'. cart_ok cfg h \<Longrightarrow> script now h = (r, h') \<Longrightarrow> cart_ok cfg h'"
  shows "limits.safe cfg (eval_cart uid script)"
  unfolding eval_cart_def
proof (rule limits.rg_call [OF limits.stable_True], goal_cases)
  case (1 s r s')
  then have "cart_ok cfg (snd (script (clock (db s)) (live_cart (clock (db s)) (carts s uid))))"
    using assms [OF live_cart_ok] by (metis carts_ok_def prod.collapse)
  with 1 show ?case by (auto simp: carts_step_def carts_ok_def Let_def split_beta)
qed simp

lemma limits_call: "(\<And>s r s'. step s = (r, s') \<Longrightarrow> carts s' = carts s) \<Longrightarrow> limits.safe cfg (call step)"
  by (rule limits.rg_call [OF limits.stable_True]) (auto simp: carts_step_def carts_ok_def)

lemma limits_sure: "limits.safe cfg m \<Longrightarrow> limits.safe cfg (sure m)"
  unfolding sure_def by (intro limits.safe_rules)

lemma limits_scripts:
  "limits.safe cfg (eval_cart uid (read_and_touch ttl))" "limits.safe cfg (eval_cart uid read_only)"
  "limits.safe cfg (eval_cart uid (remove_lua pid ttl))" "limits.safe cfg (eval_cart uid (\<lambda>_. clear_lua))"
  "limits.safe cfg (eval_cart uid (consume_lua sold ttl))" "limits.safe cfg (eval_cart uid (apply_deleted_lua pid ttl))"
  "limits.safe cfg (eval_cart uid (apply_updated_lua pid name price v ttl))"
  by (rule limits_eval; (erule (1) remove_keeps | erule (1) consume_keeps | erule (1) deleted_keeps | erule (1) updated_keeps
      | auto simp: read_and_touch_def read_only_def clear_lua_def cart_ok_def hash_ok_def split: option.splits))+

lemma limits_get_cart: "limits.safe cfg (repo_get_cart ttl uid)"
proof -
  have line: "limits.safe cfg (reconcile_line ttl uid l st)" for l st
    unfolding reconcile_line_def
    by (intro limits.safe_rules limits_sure limits_scripts | split projection.split, intro conjI allI impI)+
  have lines: "limits.safe cfg (reconcile_lines ttl uid ls b)" for ls b
  proof (induction ls arbitrary: b)
    case (Cons x ls)
    then show ?case by (cases x) (simp only: reconcile_lines.simps, intro limits.safe_rules line)
  qed (unfold reconcile_lines.simps, rule limits.safe_ret)
  have "limits.safe cfg (mget pids)" for pids unfolding mget_def by (rule limits_call) auto
  then show ?thesis
    unfolding repo_get_cart_def by (intro limits.safe_rules limits_sure limits_scripts lines)
qed

lemma limits_add:
  assumes "1 \<le> q" and "1 \<le> cc_max_qty cfg"
  shows "limits.safe cfg (repo_add_item ttl uid pid name price img q (cc_max_items cfg) (cc_max_qty cfg) v)"
proof -
  have "limits.safe cfg (call (\<lambda>s.
        let now = clock (db s);
            (r, h) = add_lua pid name price (if img = Some '''' then None else img) q (cc_max_qty cfg) (cc_max_items cfg) ttl v now
                       (projections s pid) (live_cart now (carts s uid))
        in (Inr r, s\<lparr>carts := (carts s)(uid := h)\<rparr>)))"
  proof (rule limits.rg_call [OF limits.stable_True], goal_cases)
    case (1 s r s')
    then have "cart_ok cfg (snd (add_lua pid name price (if img = Some '''' then None else img) q (cc_max_qty cfg) (cc_max_items cfg)
        ttl v (clock (db s)) (projections s pid) (live_cart (clock (db s)) (carts s uid))))"
      using add_keeps [OF live_cart_ok assms] by (metis carts_ok_def prod.collapse)
    with 1 show ?case by (auto simp: carts_step_def carts_ok_def Let_def split_beta)
  qed simp
  then show ?thesis
    unfolding repo_add_item_def
    by (intro limits.safe_rules | assumption | (split script_error.split, intro conjI impI))+
qed

lemma limits_set:
  assumes "0 \<le> q"
  shows "limits.safe cfg (repo_set_quantity ttl uid pid q (cc_max_qty cfg))"
proof -
  have "limits.safe cfg (eval_cart uid (set_lua pid q (cc_max_qty cfg) ttl))"
    by (rule limits_eval) (erule set_keeps [OF _ assms])
  then show ?thesis
    unfolding repo_set_quantity_def
    by (intro limits.safe_rules | assumption | (split script_error.split, intro conjI impI))+
qed

lemma limits_respond: "limits.safe cfg (respond c)"
  unfolding respond_def by (intro limits.safe_rules)

lemma limits_snapshot: "limits.safe cfg (get_snapshot cfg' pid)"
  unfolding get_snapshot_def by (rule limits_call) auto

text \<open>The requests on carts.\<close>

datatype cart_request =
    CartGet uuid
  | CartAdd uuid uuid int
  | CartSet uuid uuid int
  | CartRemove uuid uuid
  | CartClear uuid
  | CartConsume uuid "(uuid \<times> int) list"
  | CartEvent product_event

definition drop_answer :: "('g, 'a) service \<Rightarrow> ('g, unit) service" where
  "drop_answer m = bnd m (\<lambda>_. ret ())"

fun cart_perform :: "cart_config \<Rightarrow> cart_request \<Rightarrow> ('g, unit) service" where
  "cart_perform cfg (CartGet uid) = drop_answer (svc_get_cart cfg uid)"
| "cart_perform cfg (CartAdd uid pid q) = drop_answer (svc_add_item cfg uid pid q)"
| "cart_perform cfg (CartSet uid pid q) = drop_answer (svc_set_quantity cfg uid pid q)"
| "cart_perform cfg (CartRemove uid pid) = drop_answer (svc_remove_item cfg uid pid)"
| "cart_perform cfg (CartClear uid) = svc_clear_cart uid"
| "cart_perform cfg (CartConsume uid lines) = svc_consume_purchased cfg uid lines"
| "cart_perform cfg (CartEvent e) = cart_handler e"

lemma limits_add_service: "limits.safe cfg (svc_add_item cfg uid pid q)"
proof (cases "q < 1 \<or> q > cc_max_qty cfg")
  case True
  then show ?thesis
    by (simp add: svc_add_item_def check_quantity_def thn_def limits.rg_raise)
next
  case False
  then have "limits.safe cfg (repo_add_item ttl uid pid name price img q (cc_max_items cfg) (cc_max_qty cfg) v)"
    for ttl name price img v by (intro limits_add) auto
  with False show ?thesis
    unfolding svc_add_item_def check_quantity_def
    by (intro limits.safe_rules limits_snapshot limits_respond)
qed

lemma limits_set_service: "limits.safe cfg (svc_set_quantity cfg uid pid q)"
proof (cases "q < 0 \<or> q > cc_max_qty cfg")
  case False
  then have "limits.safe cfg (repo_set_quantity ttl uid pid q (cc_max_qty cfg))" for ttl by (intro limits_set) auto
  with False show ?thesis
    unfolding svc_set_quantity_def repo_remove_item_def
    by (intro limits.safe_rules limits_snapshot limits_respond limits_sure limits_scripts)
qed (simp add: svc_set_quantity_def limits.rg_raise)

lemma limits_projections:
  "limits.safe cfg (repo_prune_product pid)" "limits.safe cfg (repo_refresh_product pid name price v)"
  unfolding repo_prune_product_def repo_refresh_product_def by (rule limits_call; auto simp: split_beta Let_def)+

lemma limits_handler: "limits.safe cfg (cart_handler e)"
  unfolding cart_handler_def by (cases e; simp only: product_event.case; intro limits.safe_rules limits_projections)

lemma limits_perform: "limits.safe cfg (cart_perform cfg req)"
  by (cases req; simp only: cart_perform.simps drop_answer_def svc_get_cart_def svc_remove_item_def svc_clear_cart_def
      svc_consume_purchased_def repo_remove_item_def repo_clear_cart_def repo_consume_lines_def;
     intro limits.safe_rules limits_get_cart limits_respond limits_sure limits_scripts limits_add_service limits_set_service
       limits_handler)

lemma limits_run:
  assumes m: "limits.safe cfg m" and w: "carts_ok cfg (sh w)"
    and others: "\<forall>i \<in> set (sched w). \<forall>s. carts_ok cfg s \<longrightarrow> carts_ok cfg (i s)" and "trail w = []"
  shows "carts_ok cfg (sh (snd (m w)))"
proof -
  obtain r w' where run: "m w = (r, w')" by fastforce
  have "limits.env cfg w" using assms by (simp add: limits.env_def carts_step_def)
  with limits.rgxD [OF m limits.stable_True] run have "limits.env cfg w'"
    by (auto simp: hoare_def split: sum.splits)
  then show ?thesis by (simp add: run limits.env_def)
qed

section \<open>Projections\<close>

text \<open>What the consumer does to one product's projection.\<close>

fun project_event :: "product_event \<Rightarrow> projection option \<Rightarrow> projection option" where
  "project_event (ProductDeleted _) st = snd (tombstone_lua st)"
| "project_event (ProductUpdated _ name price v) st = snd (project_lua v name price st)"
| "project_event OtherEvent st = st"

text \<open>The specification: a deletion wins; otherwise the newest version, whatever the order of arrival.\<close>

fun event_version :: "product_event \<Rightarrow> int option" where
  "event_version (ProductUpdated _ _ _ v) = v"
| "event_version _ = None"

definition newest_update :: "product_event list \<Rightarrow> projection option \<Rightarrow> bool" where
  "newest_update es st \<longleftrightarrow>
     (if \<exists>p. ProductDeleted p \<in> set es then st = Some Tombstone
      else if \<forall>e \<in> set es. event_version e = None then st = None
      else \<exists>p n c v. ProductUpdated p n c (Some v) \<in> set es \<and> st = Some (Projected (Some v) n c) \<and>
             (\<forall>e \<in> set es. \<forall>u. event_version e = Some u \<longrightarrow> u \<le> v))"

definition versioned :: "product_event list \<Rightarrow> bool" where
  "versioned es \<longleftrightarrow> list_all (\<lambda>e. case e of ProductUpdated _ _ _ None \<Rightarrow> False | _ \<Rightarrow> True) es"

lemma newest_snoc:
  assumes "newest_update es st" and "versioned (es @ [e])"
  shows "newest_update (es @ [e]) (project_event e st)"
proof (cases e)
  case (ProductDeleted p)
  then show ?thesis by (auto simp: newest_update_def tombstone_lua_def)
next
  case OtherEvent
  then show ?thesis using assms(1) by (auto simp: newest_update_def split: if_splits)
next
  case (ProductUpdated p n c v)
  with assms(2) obtain i where v: "v = Some i" by (auto simp: versioned_def split: option.splits)
  show ?thesis
  proof (cases "\<exists>p. ProductDeleted p \<in> set es")
    case True
    then show ?thesis using assms(1) by (auto simp: newest_update_def ProductUpdated project_lua_def)
  next
    case no: False
    show ?thesis
    proof (cases "\<forall>e \<in> set es. event_version e = None")
      case True
      then have "st = None" using assms(1) no by (simp add: newest_update_def)
      then show ?thesis using no True by (auto simp: newest_update_def ProductUpdated v project_lua_def)
    next
      case False
      then obtain p' n' c' u where u: "ProductUpdated p' n' c' (Some u) \<in> set es" "st = Some (Projected (Some u) n' c')"
          "\<forall>e \<in> set es. \<forall>k. event_version e = Some k \<longrightarrow> k \<le> u"
        using assms(1) unfolding newest_update_def if_not_P [OF no] if_not_P [OF False] by blast
      show ?thesis
      proof (cases "i \<le> u")
        case True
        then have "project_event e st = st" by (simp add: ProductUpdated v u(2) project_lua_def)
        then show ?thesis using u True no by (auto simp: newest_update_def ProductUpdated v)
      next
        case False
        then have "project_event e st = Some (Projected (Some i) n c)" by (simp add: ProductUpdated v u(2) project_lua_def)
        moreover have "\<forall>e \<in> set es. \<forall>k. event_version e = Some k \<longrightarrow> k \<le> i" using u(3) False by fastforce
        ultimately show ?thesis using no by (auto simp: newest_update_def ProductUpdated v)
      qed
    qed
  qed
qed

lemma newest_fold: "versioned es \<Longrightarrow> newest_update es (fold project_event es None)"
proof (induction es rule: rev_induct)
  case Nil
  then show ?case by (simp add: newest_update_def)
next
  case (snoc e es)
  then have "newest_update es (fold project_event es None)" by (simp add: versioned_def)
  from newest_snoc [OF this snoc.prems] show ?case by simp
qed

section \<open>Consumption\<close>

definition sold_qty :: "(uuid \<times> int) list \<Rightarrow> uuid \<Rightarrow> int" where
  "sold_qty sold p = sum_list (map snd (filter (\<lambda>s. fst s = p \<and> 0 < snd s) sold))"

lemma sold_qty_nonneg: "0 \<le> sold_qty sold p"
  unfolding sold_qty_def by (intro sum_list_nonneg) auto

lemma sold_qty_Cons: "sold_qty ((p', q) # sold) p = (if p' = p \<and> 0 < q then q else 0) + sold_qty sold p"
  by (simp add: sold_qty_def)

lemma consume_lines_spec:
  "map_of (consume_lines sold fs) p =
     (case map_of fs p of
        None \<Rightarrow> None
      | Some l \<Rightarrow> if sold_qty sold p = 0 then Some l
          else if line_qty l \<le> sold_qty sold p then None else Some (l\<lparr>line_qty := line_qty l - sold_qty sold p\<rparr>))"
proof (induction sold arbitrary: fs)
  case Nil
  then show ?case by (simp add: sold_qty_def split: option.splits)
next
  case (Cons s sold)
  obtain p' q where s: "s = (p', q)" by fastforce
  show ?case
    using sold_qty_nonneg [of sold p]
    by (cases "0 < q"; cases "p' = p"; cases "map_of fs p'"; cases "map_of fs p")
      (auto simp: s Cons.IH sold_qty_Cons map_of_hset map_of_hdel split: option.splits)
qed

section \<open>Properties\<close>

definition demo_cart_cfg :: cart_config where
  "demo_cart_cfg = \<lparr>cc_ttl = 3600, cc_max_items = 2, cc_max_qty = 10,
     cc_products = (\<lambda>p. if p = 7 then Some \<lparr>snap_name = ''mug'', snap_price = ''2.50'', snap_image = None, snap_version = Some 3\<rparr> else None)\<rparr>"

definition demo_line :: "int \<Rightarrow> cart_line" where
  "demo_line q = \<lparr>line_name = ''mug'', line_price = ''2.50'', line_image = None, line_qty = q, line_version = None\<rparr>"

definition demo_carts :: "nat world" where
  "demo_carts = \<lparr>sh = \<lparr>db = empty_database, carts = [1 \<mapsto> \<lparr>hlines = [(7, demo_line 9)], meta = Some 0, expires_at = 1\<rparr>],
       projections = Map.empty, idem = Map.empty, gate = 0\<rparr>,
     faults = [Fine, Landed TimeoutError], sched = [\<lambda>s. s\<lparr>carts := Map.empty\<rparr>], trail = [], counters = (\<lambda>_. 0)\<rparr>"

text \<open>
  C10. No request breaks the cart's limits: whatever fails and whatever the other requests do (as long as they keep
  the limits themselves, as all do), every cart has at most the configured number of lines, no product
  twice, and every quantity lies between one and the configured maximum.
\<close>
theorem carts_stay_within_limits:
  assumes "carts_ok cfg (sh w)" and "trail w = []"
    and "\<forall>i \<in> set (sched w). \<forall>s. carts_ok cfg s \<longrightarrow> carts_ok cfg (i s)"
    and "carts (sh (snd (cart_perform cfg req w))) uid = Some h"
  shows "distinct (map fst (hlines h)) \<and> length (hlines h) \<le> cc_max_items cfg \<and>
     list_all (\<lambda>f. 1 \<le> line_qty (snd f) \<and> line_qty (snd f) \<le> cc_max_qty cfg) (hlines h)"
proof -
  have "carts_ok cfg (sh (snd (cart_perform cfg req w)))"
    by (rule limits_run [OF limits_perform]) (use assms in auto)
  then have "cart_ok cfg (Some h)" using assms(4) unfolding carts_ok_def by metis
  then show ?thesis by (simp add: hash_ok_def line_ok_def [abs_def])
qed

theorem carts_stay_within_limits_witness:
  "list_all (\<lambda>f. 1 \<le> line_qty (snd f) \<and> line_qty (snd f) \<le> 10) [(7 :: uuid, demo_line 10)]"
proof -
  let ?w = "demo_carts\<lparr>sched := [], faults := []\<rparr>"
  have ok: "carts_ok demo_cart_cfg (sh ?w)"
    by (simp add: carts_ok_def demo_carts_def cart_ok_def hash_ok_def line_ok_def demo_cart_cfg_def demo_line_def)
  let ?w' = "snd (cart_perform demo_cart_cfg (CartAdd 1 7 5) ?w)"
  have "carts (sh ?w') 1 = Some \<lparr>hlines = [(7, \<lparr>line_name = ''mug'', line_price = ''2.50'', line_image = None,
      line_qty = 10, line_version = Some 3\<rparr>)], meta = Some 0, expires_at = 3600000000\<rparr>"
    by code_simp
  from carts_stay_within_limits [OF ok _ _ this]
  show ?thesis by (simp add: demo_carts_def demo_cart_cfg_def demo_line_def)
qed

text \<open>
  C11. Projections converge: whatever the order in which a product's versioned events arrive, and however often
  each is delivered, the projection ends as a tombstone if a deletion was among them and otherwise as the newest version.
\<close>
theorem projection_order_free:
  assumes "versioned es"
  shows "newest_update es (fold project_event es None)"
  using assms by (rule newest_fold)

theorem projection_order_free_witness:
  "newest_update [ProductUpdated 7 ''b'' ''3'' (Some 5), ProductUpdated 7 ''a'' ''2'' (Some 4)]
     (Some (Projected (Some 5) ''b'' ''3''))"
proof -
  let ?es = "[ProductUpdated 7 ''b'' ''3'' (Some 5), ProductUpdated 7 ''a'' ''2'' (Some 4)]"
  have "versioned ?es" by (simp add: versioned_def)
  moreover have "fold project_event ?es None = Some (Projected (Some 5) ''b'' ''3'')" by code_simp
  ultimately show ?thesis using projection_order_free by metis
qed

text \<open>
  The Lua refresh is the domain's rule: it rewrites a line exactly when \<open>should_apply_update\<close> lets the event
  through (a version-less event that changes nothing aside), leaves the quantity and every other line
  alone, and never brings back a line that is gone.
\<close>
theorem lua_refresh_is_domain_rule:
  "fst (apply_updated_lua pid name price v ttl now h) =
     Inr (case map_of (lines_of_hash h) pid of
        None \<Rightarrow> False
      | Some l \<Rightarrow> should_apply_update (line_version l) v \<and> \<not> (v = None \<and> line_name l = name \<and> line_price l = price)) \<and>
   map_of (lines_of_hash (snd (apply_updated_lua pid name price v ttl now h))) =
     (\<lambda>p. case map_of (lines_of_hash h) p of
        None \<Rightarrow> None
      | Some l \<Rightarrow> Some (if p = pid \<and> should_apply_update (line_version l) v
          then l\<lparr>line_name := name, line_price := price, line_version := (case v of None \<Rightarrow> line_version l | Some _ \<Rightarrow> v)\<rparr>
          else l))"
proof (cases "map_of (lines_of_hash h) pid")
  case None
  then show ?thesis by (auto simp: apply_updated_lua_def fun_eq_iff split: option.splits)
next
  case (Some l)
  have same: "l\<lparr>line_name := line_name l, line_price := line_price l\<rparr> = l" by simp
  show ?thesis
    by (cases v; cases "line_version l")
      (auto simp: apply_updated_lua_def Some should_apply_update_def fun_eq_iff Let_def touch_def lines_of_hash_def map_of_hset
        split: option.splits)
qed

text \<open>
  A checkout takes from the cart exactly what was bought: every line loses the quantity sold of it and
  disappears at zero, and a line that was not sold, or was added while the checkout ran, is untouched.
\<close>
theorem consume_takes_what_was_sold:
  "map_of (consume_lines sold fs) p =
     (case map_of fs p of
        None \<Rightarrow> None
      | Some l \<Rightarrow> if sold_qty sold p = 0 then Some l
          else if line_qty l \<le> sold_qty sold p then None else Some (l\<lparr>line_qty := line_qty l - sold_qty sold p\<rparr>))"
  by (rule consume_lines_spec)

end
