(* ===== verification/Checkout_Properties.thy ===== *)
theory Checkout_Properties
  imports Payments_Properties
begin

text \<open>
  Properties of the checkout and the cancel beyond the shared invariant: which requests leave the
  money and the stock alone, what a replay does, and that the cancel is one transaction. The
  interface \<open>valkey_rely\<close> serves again, with two other step relations.
\<close>

section \<open>Requests that leave money and stock alone\<close>

definition moneyless_step :: "'g shared \<Rightarrow> 'g shared \<Rightarrow> bool" where
  "moneyless_step s s' \<longleftrightarrow> gate s' = gate s \<and> payments (db s') = payments (db s) \<and>
     reservations (db s') = reservations (db s) \<and> stock (db s') = stock (db s)"

interpretation moneyless: valkey_rely moneyless_step "\<lambda>_. True"
  by unfold_locales (simp_all add: moneyless_step_def)

text \<open>Requests that leave the whole database and the provider alone: only the cart and the caches move.\<close>

definition frozen_step :: "'g shared \<Rightarrow> 'g shared \<Rightarrow> bool" where
  "frozen_step s s' \<longleftrightarrow> gate s' = gate s \<and> db s' = db s"

interpretation frozen: valkey_rely frozen_step "\<lambda>_. True"
  by unfold_locales (simp_all add: frozen_step_def)

section \<open>Without the depth attribute\<close>

abbreviation no_depth :: exn where
  "no_depth \<equiv> AttributeError ''UnitOfWork object has no attribute depth''"

lemma thn_raise [simp]: "thn (raise e) n = raise e"
  by (simp add: thn_def)

lemma log_on_no_depth: "sc_depth cfg = None \<Longrightarrow> log_on cfg oid step st = raise no_depth"
  by (simp add: log_on_def)

lemma run_in_raise [simp]: "run_in (raise e) = raise e"
  by (auto simp: run_in_def raise_def)

lemma compensate_no_depth:
  "sc_depth cfg = None \<Longrightarrow> compensate cfg oid step = thn (inc (''checkout_compensation_total:'' @ step)) (raise no_depth)"
  by (simp add: compensate_def compensate_with_def log_on_no_depth)

lemma drive_no_depth:
  assumes "sc_depth cfg = None"
  shows "drive cfg oid uid key token lines hash = thn (inc ''checkout_compensation_total:reserve'') (raise no_depth)"
  using assms
  by (auto simp: drive_def drive_reserve_def log_on_no_depth with_locals_def with_timeout_def catch_def fun_eq_iff
      drive_failed_def drive_start_def is_OrderStateConflict_def is_Exception_def compensate_no_depth run_in_def
      thn_def bnd_def inc_by_def gets_def raise_def modify_def)

lemma create_pending_moneyless:
  "repo_create_pending_order uid key hash amount lines email d = (r, d') \<Longrightarrow>
     payments d' = payments d \<and> reservations d' = reservations d \<and> stock d' = stock d"
  by (auto simp: repo_create_pending_order_def insert_order_def atomic_run Let_def loser_reads_winner_def
      repo_get_by_idempotency_def bnd_run thn_run insert_items_run insert_saga_log_run repo_get_order_def add_log_def
      split: if_splits option.splits)

lemma moneyless_create: "moneyless.safe (tx (repo_create_pending_order uid key hash amount lines email))"
  by (rule moneyless.rg_tx [OF moneyless.stable_True]) (auto simp: moneyless_step_def dest: create_pending_moneyless)

text \<open>Under a moneyless checkout a new order is never answered as created.\<close>

abbreviation replay_only :: "order \<times> bool \<Rightarrow> 'g shared \<Rightarrow> bool" where
  "replay_only \<equiv> \<lambda>x _. \<not> snd x"

lemma moneyless_drive:
  assumes "sc_depth cfg = None"
  shows "moneyless.rg (\<lambda>_. True) (drive cfg oid uid key token lines hash) Q"
  unfolding drive_no_depth [OF assms] by (rule moneyless.rg_thn [OF moneyless.rg_inc moneyless.rg_raise])

lemma moneyless_replay:
  assumes "sc_depth cfg = None"
  shows "moneyless.rg (\<lambda>_. True) (replay_or_resume cfg uid key token hash r) replay_only"
proof -
  have "moneyless.rg (\<lambda>_. True) (thn (remember cfg uid key hash 201 r) (thn (mop_up cfg uid (order_items r)) (ret (r, False)))) replay_only"
    by (rule moneyless.rg_thn [OF moneyless.safe_internals(1)], rule moneyless.rg_thn [OF moneyless.safe_internals(2)])
      (simp add: moneyless.rg_ret)
  moreover have "moneyless.rg (\<lambda>_. True) (bnd (drive cfg (order_id r) uid key token (lines_of r) hash) (\<lambda>(response, _). ret (response, False))) replay_only"
    by (rule moneyless.rg_bnd [OF moneyless_drive [OF assms]]) (auto intro: moneyless.rg_ret)
  ultimately show ?thesis
    unfolding replay_or_resume_def by (intro moneyless.rg_if moneyless.rg_raise)
qed

lemma moneyless_fresh:
  assumes "sc_depth cfg = None"
  shows "moneyless.rg (\<lambda>_. True) (checkout_fresh cfg uid key token hash email) replay_only"
proof -
  have go: "moneyless.rg (\<lambda>_. True) (case x of (r, created) \<Rightarrow> if \<not> created then replay_or_resume cfg uid key token hash r
      else drive cfg (order_id r) uid key token lines hash) replay_only" for x lines
    by (cases x) (simp add: moneyless_replay [OF assms] moneyless_drive [OF assms])
  show ?thesis
    unfolding checkout_fresh_def
    by (rule moneyless.rg_bnd [OF moneyless.safe_basket(1)])
      (intro moneyless.rg_if moneyless.rg_raise moneyless.rg_thn [OF moneyless.safe_internals(4)]
        moneyless.rg_bnd [OF moneyless_create] go)
qed

lemma moneyless_checkout:
  assumes "sc_depth cfg = None"
  shows "moneyless.rg (\<lambda>_. True) (checkout cfg uid key token email) replay_only"
proof -
  have cached: "moneyless.rg (\<lambda>_. True) (if sc_idempotency cfg then idem_get uid key else ret None) (\<lambda>_ _. True)"
    by (intro moneyless.safe_rules moneyless.safe_idem)
  have replay: "moneyless.rg (\<lambda>_. True) (thn (if order_state r = PAID then mop_up cfg uid (order_items r) else ret ())
      (thn (inc c) (ret (r, False)))) replay_only" for r c
    by (rule moneyless.rg_thn [of _ _ _ "\<lambda>_. True"], intro moneyless.safe_rules moneyless.safe_internals)
      (rule moneyless.rg_thn [OF moneyless.rg_inc], simp add: moneyless.rg_ret)
  have go: "moneyless.rg (\<lambda>_. True) (case row of Some r \<Rightarrow> replay_or_resume cfg uid key token hash r
      | None \<Rightarrow> checkout_fresh cfg uid key token hash email) replay_only" for row hash
    by (cases row) (simp_all add: moneyless_replay [OF assms] moneyless_fresh [OF assms])
  have tail: "moneyless.rg (replay_only x) (case x of (r, created) \<Rightarrow> thn (inc (c created)) (ret (r, created))) replay_only" for x c
    by (cases x) (auto intro!: moneyless.rg_thn [OF moneyless.rg_inc] moneyless.rg_ret)
  have read: "moneyless.safe (tx (repo_get_by_idempotency uid key))"
    unfolding repo_get_by_idempotency_def by (rule moneyless.safe_read)
  have "moneyless.rg (\<lambda>_. True) (checkout_body cfg uid key token email) replay_only"
    unfolding checkout_body_def Let_def
    by (rule moneyless.rg_bnd [OF cached], rule moneyless.rg_case_option,
        rule moneyless.rg_bnd [OF read], rule moneyless.rg_bnd [OF go tail])
      (intro moneyless.rg_case_prod moneyless.rg_if moneyless.rg_raise replay)
  then show ?thesis
    unfolding checkout_def
    by (rule moneyless.rg_except) (rule moneyless.rg_thn [OF moneyless.rg_inc moneyless.rg_raise])
qed

text \<open>What a rely-guarantee triple says of one run that nobody interrupts.\<close>

lemma moneyless_run:
  assumes m: "moneyless.rg (\<lambda>_. True) m replay_only" and w: "sched w = []" "trail w = []" and run: "m w = (res, w')"
  shows "moneyless_step (sh w) (sh w')" and "\<And>r created. res = Inr (r, created) \<Longrightarrow> \<not> created"
proof -
  have F: "moneyless.stable (moneyless_step (sh w))" by (simp add: moneyless.stable_def moneyless_step_def)
  have env: "moneyless.env w" using w by (simp add: moneyless.env_def)
  note moneyless.rg_run [OF m F env moneyless.R_refl _ run]
  then show "moneyless_step (sh w) (sh w')" "\<And>r created. res = Inr (r, created) \<Longrightarrow> \<not> created" by auto
qed



section \<open>A replay writes nothing\<close>

text \<open>The order the key names: a different body, or a settled order.\<close>

definition closed_key :: "'g saga_config \<Rightarrow> uuid \<Rightarrow> string \<Rightarrow> string \<Rightarrow> 'g shared \<Rightarrow> bool" where
  "closed_key cfg uid key token s \<longleftrightarrow> (\<exists>r. find (\<lambda>r. order_user r = uid \<and> order_key r = key) (orders (db s)) = Some r \<and>
     (order_body_hash r \<noteq> body_hash_for (sc_sha256 cfg) token \<or> order_state r \<noteq> PENDING))"

lemma frozen_closed: "frozen.stable (closed_key cfg uid key token)"
  by (simp add: frozen.stable_def frozen_step_def closed_key_def)

lemma frozen_replay:
  assumes "order_body_hash r \<noteq> hash \<or> order_state r \<noteq> PENDING"
  shows "frozen.rg (\<lambda>_. True) (replay_or_resume cfg uid key token hash r) replay_only"
proof -
  have "frozen.rg (\<lambda>_. True) (thn (remember cfg uid key hash 201 r) (thn (mop_up cfg uid (order_items r)) (ret (r, False)))) replay_only"
    by (rule frozen.rg_thn [OF frozen.safe_internals(1)], rule frozen.rg_thn [OF frozen.safe_internals(2)])
      (simp add: frozen.rg_ret)
  with assms show ?thesis
    unfolding replay_or_resume_def by (auto intro: frozen.rg_raise)
qed

lemma frozen_checkout: "frozen.rg (closed_key cfg uid key token) (checkout cfg uid key token email) replay_only"
proof -
  let ?hash = "body_hash_for (sc_sha256 cfg) token" and ?K = "closed_key cfg uid key token"
  have cached: "frozen.rg ?K (if sc_idempotency cfg then idem_get uid key else ret None) (\<lambda>_. ?K)"
    by (rule frozen.rg_keep [OF frozen_closed]) (intro frozen.safe_rules frozen.safe_idem)
  have replay: "frozen.rg ?K (thn (if order_state r = PAID then mop_up cfg uid (order_items r) else ret ())
      (thn (inc c) (ret (r, False)))) replay_only" for r c
    by (rule frozen.rg_thn [of _ _ _ "\<lambda>_. True"], rule frozen.rg_weak, intro frozen.safe_rules frozen.safe_internals)
      (rule frozen.rg_thn [OF frozen.rg_inc], simp add: frozen.rg_ret)
  have read: "frozen.rg ?K (tx (repo_get_by_idempotency uid key))
      (\<lambda>row _. \<exists>r. row = Some r \<and> (order_body_hash r \<noteq> ?hash \<or> order_state r \<noteq> PENDING))"
    by (rule frozen.rg_tx [OF frozen_closed]) (auto simp: repo_get_by_idempotency_def closed_key_def frozen_step_def)
  have go: "frozen.rg (\<lambda>_. \<exists>r. row = Some r \<and> (order_body_hash r \<noteq> ?hash \<or> order_state r \<noteq> PENDING))
      (case row of Some r \<Rightarrow> replay_or_resume cfg uid key token ?hash r
      | None \<Rightarrow> checkout_fresh cfg uid key token ?hash email) replay_only" for row
    by (rule frozen.rg_pure) (auto intro: frozen.rg_conseq [OF frozen_replay])
  have tail: "frozen.rg (replay_only x) (case x of (r, created) \<Rightarrow> thn (inc (c created)) (ret (r, created))) replay_only" for x c
    by (cases x) (auto intro!: frozen.rg_thn [OF frozen.rg_inc] frozen.rg_ret)
  have "frozen.rg ?K (checkout_body cfg uid key token email) replay_only"
    unfolding checkout_body_def Let_def
    by (rule frozen.rg_bnd [OF cached], rule frozen.rg_case_option,
        rule frozen.rg_bnd [OF read], rule frozen.rg_bnd [OF go tail])
      (intro frozen.rg_case_prod frozen.rg_if frozen.rg_raise replay)
  then show ?thesis
    unfolding checkout_def
    by (rule frozen.rg_except) (rule frozen.rg_thn [OF frozen.rg_inc frozen.rg_raise])
qed



section \<open>The cancel is one transaction\<close>

lemma find_order_cancelled:
  assumes "orders_ok d" and "has_state oid PENDING d"
  shows "\<exists>r. find_order oid (mark_cancelled oid d) = Some r \<and> order_id r = oid \<and> order_state r = CANCELLED"
proof -
  obtain q where q: "q \<in> set (orders d)" "order_id q = oid" "order_state q = PENDING"
    using assms(2) by (auto simp: has_state_def)
  let ?r = "flipped oid [PENDING] CANCELLED (clock d) q"
  have "orders_ok (mark_cancelled oid d)"
    using orders_ok_flip [OF assms(1)] by (simp add: orders_ok_def)
  moreover have "?r \<in> set (orders (mark_cancelled oid d))" using q(1) by (auto simp: orders_flip)
  ultimately have "find_order (order_id ?r) (mark_cancelled oid d) = Some ?r" by (rule find_order_unique)
  with q show ?thesis by simp
qed

abbreviation cancel_tx :: "uuid \<Rightarrow> order txn" where
  "cancel_tx oid \<equiv> atomic (cancel_txn (Some has_succeeded_for_order) (\<lambda>oid. repo_release_for_order oid StockReleased) oid)"

abbreviation cancelled_db :: "uuid \<Rightarrow> database \<Rightarrow> database" where
  "cancelled_db oid d \<equiv> add_log oid ''cancel'' ''completed''
     (released StockReleased (order_rows HELD oid (mark_cancelled oid d)) (mark_cancelled oid d))"

lemma cancel_pending_run:
  assumes ok: "shop_ok d" and pending: "has_state oid PENDING d"
  shows "\<exists>r. cancel_tx oid d = (Inr r, cancelled_db oid d) \<and> find_order oid (cancelled_db oid d) = Some r \<and> order_id r = oid \<and>
     order_state r = CANCELLED \<and> saga_log (mark_cancelled oid d) = butlast (saga_log (cancelled_db oid d))"
proof -
  let ?d1 = "mark_cancelled oid d"
  let ?d2 = "released StockReleased (order_rows HELD oid ?d1) ?d1"
  have "shop_ok ?d1" using db_step_mark_cancelled ok by (auto simp: db_step_def)
  then have stock: "stock_ok ?d1" "stock_events_ok ?d1" by (simp_all add: shop_ok_def)
  have rel: "repo_release_for_order oid StockReleased ?d1 = (Inr (length (order_rows HELD oid ?d1)), ?d2)"
    by (rule release_for_order_run [OF stock(1)])
  from stock_step_release_for_order [OF stock rel] have side: "orders ?d2 = orders ?d1" "saga_log ?d2 = saga_log ?d1"
    by (simp_all add: stock_step_def other_side_def)
  obtain r where r: "find_order oid ?d1 = Some r" "order_id r = oid" "order_state r = CANCELLED"
    using find_order_cancelled [OF _ pending] ok by (auto simp: shop_ok_def)
  then have r23: "find_order oid ?d2 = Some r" "find_order oid (cancelled_db oid d) = Some r"
    by (simp_all add: find_order_def side)
  have "cancel_tx oid d = (Inr r, cancelled_db oid d)"
    using pending r rel r23
    by (simp add: atomic_run cancel_txn_def bnd_run thn_run transition_cancel_run repo_log_saga_step_def
        insert_saga_log_run repo_get_order_def)
  with r r23 show ?thesis by (auto simp: add_log_def side)
qed

lemma cancel_settled_run:
  assumes "\<not> has_state oid PENDING d"
  shows "snd (cancel_tx oid d) = d" and "find_order oid d = Some r \<Longrightarrow> order_state r \<noteq> CANCELLED \<Longrightarrow>
     fst (cancel_tx oid d) = Inl (OrderStateConflictError ''the order settled while cancelling; re-read it'')"
  using assms
  by (auto simp: atomic_run cancel_txn_def bnd_run transition_cancel_run repo_get_order_def split: option.splits)

text \<open>
  C7. The cancel's transaction does all of its work or none: from a pending order it answers the cancelled order,
  gives back every unit the order held, journals the cancel, and requests a refund when a charge
  stands succeeded. On an order that was paid meanwhile it raises and leaves nothing behind.
\<close>
theorem cancel_does_all_or_nothing:
  assumes ok: "shop_ok d" and run: "cancel_tx oid d = (res, d')"
  shows "(has_state oid PENDING d \<longrightarrow> (\<exists>r. res = Inr r \<and> order_id r = oid \<and> order_state r = CANCELLED \<and> find_order oid d' = Some r) \<and>
       order_rows HELD oid d' = [] \<and> (charged_order oid d \<longrightarrow> refund_wanted oid d') \<and>
       (\<exists>l \<in> set (saga_log d'). log_order l = oid \<and> log_step l = ''cancel'' \<and> log_status l = ''completed'')) \<and>
     (has_state oid PAID d \<longrightarrow> d' = d \<and> (\<exists>m. res = Inl (OrderStateConflictError m)))"
proof (intro conjI impI)
  assume pending: "has_state oid PENDING d"
  from cancel_pending_run [OF ok this] run have d': "d' = cancelled_db oid d"
    and log: "set (saga_log (mark_cancelled oid d)) \<subseteq> set (saga_log d')"
    by (auto dest: in_set_butlastD)
  from cancel_pending_run [OF ok pending] run
  show "\<exists>r. res = Inr r \<and> order_id r = oid \<and> order_state r = CANCELLED \<and> find_order oid d' = Some r" by auto
  show "order_rows HELD oid d' = []"
    using order_rows_released [of oid StockReleased "mark_cancelled oid d"] by (simp add: d' order_rows_def)
  show "\<exists>l \<in> set (saga_log d'). log_order l = oid \<and> log_step l = ''cancel'' \<and> log_status l = ''completed''"
    by (simp add: d' add_log_def)
  show "refund_wanted oid d'" if "charged_order oid d"
    using that by (intro refund_wanted_mono [OF _ log]) (simp add: mark_cancelled_def charged_order_def)
next
  assume "has_state oid PAID d"
  then obtain r where r: "find_order oid d = Some r" "order_state r = PAID"
    using ok find_order_unique by (fastforce simp: shop_ok_def has_state_def)
  then have "\<not> has_state oid PENDING d"
    using ok find_order_unique [of d] by (fastforce simp: shop_ok_def has_state_def)
  with cancel_settled_run(1) [OF this] cancel_settled_run(2) [OF this r(1)] r run show "d' = d" "\<exists>m. res = Inl (OrderStateConflictError m)" by auto
qed

text \<open>The shop with a past, and a pending order.\<close>

definition pending_one :: order where
  "pending_one = paid_one\<lparr>order_id := 100, order_state := PENDING, order_key := ''k3''\<rparr>"

definition pending_db :: database where
  "pending_db = with_order pending_one 9 past_db"

lemma pending_ok: "shop_ok pending_db" "has_state 100 PENDING pending_db"
proof -
  have "db_step past_db pending_db"
    unfolding pending_db_def
    by (rule db_step_with_order) (auto simp: pending_one_def paid_one_def past_db_def cancelled_one_def)
  then show "shop_ok pending_db" using past_ok(2) by (simp add: db_step_def past_world_def quiet_def)
  show "has_state 100 PENDING pending_db" by (simp add: has_state_def pending_db_def with_order_def pending_one_def)
qed

theorem cancel_does_all_or_nothing_witness:
  "(\<exists>r. fst (cancel_tx 100 pending_db) = Inr r \<and> order_state r = CANCELLED) \<and> snd (cancel_tx 20 pending_db) = pending_db"
proof -
  have "has_state 20 PAID pending_db"
    by (simp add: has_state_def pending_db_def with_order_def past_db_def paid_one_def)
  with cancel_does_all_or_nothing [OF pending_ok(1) prod.collapse [symmetric], of 20]
    cancel_does_all_or_nothing [OF pending_ok(1) prod.collapse [symmetric], of 100] pending_ok(2)
  show ?thesis by blast
qed

section \<open>One order per key\<close>

lemma items_from_lines: "map (\<lambda>i. (item_product i, item_name i, item_price i, item_qty i)) (items_from u lines) = lines"
  by (induction u lines rule: items_from.induct) auto

text \<open>
  One key is one order: however often a checkout creates its pending order under the same user and key, the
  first call inserts it with its lines in order and every later call, with whatever contents, answers
  that same order and writes nothing.
\<close>
theorem create_pending_once:
  assumes "orders_ok d" and "repo_create_pending_order uid key hash amount lines email d = (res, d')"
  shows "\<exists>r created. res = Inr (r, created) \<and> order_user r = uid \<and> order_key r = key \<and>
     (created \<longrightarrow> order_total r = amount \<and> order_state r = PENDING \<and>
        map (\<lambda>i. (item_product i, item_name i, item_price i, item_qty i)) (order_items r) = lines) \<and>
     (\<not> created \<longrightarrow> d' = d) \<and>
     repo_create_pending_order uid key hash' amount' lines' email' d' = (Inr (r, False), d')"
proof (cases "find (\<lambda>r. order_user r = uid \<and> order_key r = key) (orders d)")
  case None
  let ?r = "new_order uid key hash amount lines email d"
  let ?d = "add_log (order_id ?r) ''create'' ''completed'' (with_order ?r (Suc (length lines)) d)"
  have run: "res = Inr (?r, True)" "d' = ?d"
    using create_pending_run [OF assms(1), of uid key hash amount lines email] assms(2) None by (auto simp: Let_def)
  have r: "order_user ?r = uid" "order_key ?r = key" "order_total ?r = amount" "order_state ?r = PENDING"
      "map (\<lambda>i. (item_product i, item_name i, item_price i, item_qty i)) (order_items ?r) = lines"
    by (simp_all add: new_order_def items_from_lines)
  have "orders_ok ?d"
    using assms(1) None by (fastforce simp: orders_ok_def with_order_def new_order_def find_None)
  moreover have "find (\<lambda>r. order_user r = uid \<and> order_key r = key) (orders ?d) = Some ?r"
    using None r by (simp add: with_order_def find_append)
  ultimately show ?thesis
    using run r create_pending_run [of ?d uid key hash' amount' lines' email'] by (auto simp: Let_def)
next
  case (Some r)
  then have "order_user r = uid \<and> order_key r = key" using find_Some_mem by fastforce
  with Some show ?thesis using assms create_pending_run [OF assms(1)] by auto
qed

theorem create_pending_once_witness:
  "\<exists>r. fst (repo_create_pending_order 1 ''new'' ''h'' 5 [(7, ''mug'', 5, 1)] '''' past_db) = Inr (r, True) \<and>
     repo_create_pending_order 1 ''new'' ''other'' 9 [] '''' (snd (repo_create_pending_order 1 ''new'' ''h'' 5 [(7, ''mug'', 5, 1)] '''' past_db)) =
       (Inr (r, False), snd (repo_create_pending_order 1 ''new'' ''h'' 5 [(7, ''mug'', 5, 1)] '''' past_db))"
proof -
  have ok: "orders_ok past_db" using past_ok(2) by (simp add: shop_ok_def past_world_def quiet_def)
  have "\<exists>r. fst (repo_create_pending_order 1 ''new'' ''h'' 5 [(7, ''mug'', 5, 1)] '''' past_db) = Inr (r, True)"
    unfolding create_pending_run [OF ok] by (simp add: past_db_def paid_one_def cancelled_one_def Let_def)
  with create_pending_once [OF ok prod.collapse [symmetric], of 1 "''new''" "''h''" 5 "[(7, ''mug'', 5, 1)]" "''''" "''other''" 9 "[]" "''''"]
  show ?thesis by auto
qed

end
