(* ===== verification/Valkey_Lease.thy ===== *)
theory Valkey_Lease
  imports Schema
begin

text \<open>
  The Valkey commands the token-owned leases are made of: the processing lease of
  \<^verbatim>\<open>shared/bus/consumer.py\<close> and the fill lock of \<^verbatim>\<open>catalog/adapters/cache.py\<close>. A key holds a value
  with an expiry or nothing. The locale \<open>token_lease\<close> is what both rely on: a lease that was lost is
  never held again under the same token.
\<close>

section \<open>Calls and keys\<close>

text \<open>
  A Valkey call is answered, fails, or is cancelled while it waits; in the last two cases the command
  may have run (\<open>True\<close>) or not.
\<close>

datatype valkey_reply = Answered | Faulted bool | Cancelled bool

definition vk_call :: "valkey_reply \<Rightarrow> ('s \<Rightarrow> 'a \<times> 's) \<Rightarrow> 's \<Rightarrow> 'a option \<times> 's" where
  "vk_call r command s =
     (case r of
        Answered \<Rightarrow> (Some (fst (command s)), snd (command s))
      | Faulted landed \<Rightarrow> (None, if landed then snd (command s) else s)
      | Cancelled landed \<Rightarrow> (None, if landed then snd (command s) else s))"

type_synonym 'v slot = "('v \<times> timestamp) option"

definition vk_get :: "timestamp \<Rightarrow> 'v slot \<Rightarrow> 'v option" where
  "vk_get now s = (case s of Some (v, expires) \<Rightarrow> if now < expires then Some v else None | None \<Rightarrow> None)"

text \<open>\<open>SET key v NX EX ttl\<close>.\<close>

definition set_nx :: "timestamp \<Rightarrow> timestamp \<Rightarrow> 'v \<Rightarrow> 'v slot \<Rightarrow> bool \<times> 'v slot" where
  "set_nx now ttl v s = (if vk_get now s = None then (True, Some (v, now + ttl)) else (False, s))"

text \<open>The owner-checked scripts: delete, extend and overwrite the key only while it holds \<open>v\<close>.\<close>

definition del_if_owner :: "timestamp \<Rightarrow> 'v \<Rightarrow> 'v slot \<Rightarrow> bool \<times> 'v slot" where
  "del_if_owner now v s = (if vk_get now s = Some v then (True, None) else (False, s))"

definition expire_if_owner :: "timestamp \<Rightarrow> timestamp \<Rightarrow> 'v \<Rightarrow> 'v slot \<Rightarrow> bool \<times> 'v slot" where
  "expire_if_owner now ttl v s = (if vk_get now s = Some v then (True, Some (v, now + ttl)) else (False, s))"

definition set_if_owner :: "timestamp \<Rightarrow> timestamp \<Rightarrow> 'v \<Rightarrow> 'v \<Rightarrow> 'v slot \<Rightarrow> bool \<times> 'v slot" where
  "set_if_owner now ttl v w s = (if vk_get now s = Some v then (True, Some (w, now + ttl)) else (False, s))"

named_theorems lease_simps

lemma vk_get_Some: "vk_get now s = Some v \<longleftrightarrow> (\<exists>expires. s = Some (v, expires) \<and> now < expires)"
  by (auto simp: vk_get_def split: option.splits if_splits)

lemma vk_get_later: "vk_get later s = Some v \<Longrightarrow> now \<le> later \<Longrightarrow> vk_get now s = Some v"
  by (auto simp: vk_get_Some)

lemma vk_get_simps [simp]: "vk_get now None = None" "vk_get now (Some (v, e)) = (if now < e then Some v else None)"
  by (simp_all add: vk_get_def)

lemmas lease_ops [lease_simps] = vk_call_def set_nx_def del_if_owner_def expire_if_owner_def set_if_owner_def

lemma vk_call_cases:
  assumes "vk_call r op s = (x, s')"
  obtains (landed) "s' = snd (op s)" "x = None \<or> x = Some (fst (op s))" | (lost) "s' = s" "x = None"
  using assms by (auto simp: vk_call_def split: valkey_reply.splits if_splits)

lemma vk_call_outcome: "vk_call r op w = (y, w') \<Longrightarrow> (y = Some (fst (op w)) \<and> w' = snd (op w)) \<or> (y = None \<and> (w' = w \<or> w' = snd (op w)))"
  by (erule vk_call_cases) auto

section \<open>What the holders rely on\<close>

text \<open>
  A system that moves in steps, with one key of Valkey and the set of tokens drawn so far. A step may
  drop or keep the value of the key, or put a token there that was not drawn before it.
\<close>

locale token_lease =
  fixes step :: "'s \<Rightarrow> 's \<Rightarrow> bool" and slot :: "'s \<Rightarrow> 'v slot" and now :: "'s \<Rightarrow> timestamp" and drawn :: "'s \<Rightarrow> 'v set"
  assumes drawn_step: "step s s' \<Longrightarrow> drawn s \<subseteq> drawn s'"
    and owner_step: "step s s' \<Longrightarrow> v \<in> drawn s \<Longrightarrow> vk_get (now s') (slot s') = Some v \<Longrightarrow> vk_get (now s) (slot s) = Some v"
begin

definition owns :: "'s \<Rightarrow> 'v \<Rightarrow> bool" where
  "owns s v \<longleftrightarrow> vk_get (now s) (slot s) = Some v"

lemma one_owner: "owns s v \<Longrightarrow> owns s w \<Longrightarrow> v = w"
  by (simp add: owns_def)

lemma lost_for_good: "step\<^sup>*\<^sup>* s s' \<Longrightarrow> v \<in> drawn s \<Longrightarrow> \<not> owns s v \<Longrightarrow> v \<in> drawn s' \<and> \<not> owns s' v"
proof (induction rule: rtranclp_induct)
  case (step s' s'')
  then show ?case using drawn_step [OF step.hyps(2)] owner_step [OF step.hyps(2), of v] by (auto simp: owns_def)
qed simp

end

end
