(* ===== verification/Resilience.thy ===== *)
theory Resilience
  imports Valkey_Lease
begin

text \<open>
  \<^verbatim>\<open>shared/resilience.py\<close>: the classification of faults, the circuit breaker, the fleet-wide
  concurrency budget and the bounded retry. Times are microseconds on the clock the code reads
  (\<open>time.monotonic\<close> for the breaker, the wall clock for the budget). The gauge and the transition
  counter of the breaker are part of its state; log lines are left out.
\<close>

section \<open>Transient faults\<close>

definition is_transient_exception :: "exn \<Rightarrow> bool" where
  "is_transient_exception e =
     (case e of
        CircuitOpenError _ \<Rightarrow> False
      | KeycloakError _ (Some code) \<Rightarrow> code \<ge> 500 \<or> code = 429
      | _ \<Rightarrow> ''OSError'' \<in> set (mro e))"

section \<open>The circuit breaker\<close>

datatype circuit_state = CLOSED | HALF_OPEN | OPEN

record breaker =
  br_threshold :: int
  br_reset :: timestamp
  br_state :: circuit_state
  br_failures :: int
  br_opened_at :: timestamp
  br_half_open :: int
  br_gauge :: circuit_state
  br_transitions :: "(circuit_state \<times> circuit_state) list"

definition new_breaker :: "int \<Rightarrow> timestamp \<Rightarrow> breaker" where
  "new_breaker threshold reset =
     \<lparr>br_threshold = threshold, br_reset = reset, br_state = CLOSED, br_failures = 0, br_opened_at = 0, br_half_open = 0,
      br_gauge = CLOSED, br_transitions = []\<rparr>"

definition br_transition :: "circuit_state \<Rightarrow> breaker \<Rightarrow> breaker" where
  "br_transition to b =
     b\<lparr>br_state := to, br_gauge := to, br_transitions := br_transitions b @ [(br_state b, to)]\<rparr>"

definition br_open :: "timestamp \<Rightarrow> breaker \<Rightarrow> breaker" where
  "br_open now b = br_transition OPEN (b\<lparr>br_failures := 0, br_opened_at := now\<rparr>)"

definition admit_probe :: "breaker \<Rightarrow> bool \<times> breaker" where
  "admit_probe b = (if br_half_open b \<ge> 1 then (False, b) else (True, b\<lparr>br_half_open := br_half_open b + 1\<rparr>))"

definition br_allow :: "timestamp \<Rightarrow> breaker \<Rightarrow> bool \<times> breaker" where
  "br_allow now b =
     (case br_state b of
        CLOSED \<Rightarrow> (True, b)
      | OPEN \<Rightarrow> if now - br_opened_at b < br_reset b then (False, b) else admit_probe (br_transition HALF_OPEN b)
      | HALF_OPEN \<Rightarrow> admit_probe b)"

definition record_success :: "breaker \<Rightarrow> breaker" where
  "record_success b =
     (case br_state b of
        OPEN \<Rightarrow> b
      | HALF_OPEN \<Rightarrow> (br_transition CLOSED (b\<lparr>br_half_open := br_half_open b - 1\<rparr>))\<lparr>br_failures := 0\<rparr>
      | CLOSED \<Rightarrow> b\<lparr>br_failures := 0\<rparr>)"

definition record_failure :: "timestamp \<Rightarrow> breaker \<Rightarrow> breaker" where
  "record_failure now b =
     (case br_state b of
        OPEN \<Rightarrow> b
      | HALF_OPEN \<Rightarrow> br_open now (b\<lparr>br_half_open := br_half_open b - 1\<rparr>)
      | CLOSED \<Rightarrow>
          let b1 = b\<lparr>br_failures := br_failures b + 1\<rparr> in
          if br_failures b1 \<ge> br_threshold b1 then br_open now b1 else b1)"

definition record_abandoned :: "breaker \<Rightarrow> breaker" where
  "record_abandoned b =
     (if br_state b = HALF_OPEN then b\<lparr>br_half_open := max 0 (br_half_open b - 1)\<rparr> else b)"

section \<open>The concurrency budget\<close>

text \<open>
  The sorted set of one dependency: permit and expiry in milliseconds, and when the key itself
  expires. \<open>bg_replies\<close> lists what the coming calls meet.
\<close>

record budget =
  bg_limit :: int
  bg_ttl :: int
  bg_permits :: "(nat \<times> int) list"
  bg_key_expires :: int
  bg_next :: nat
  bg_replies :: "valkey_reply list"
  bg_exhausted :: nat
  bg_fail_open :: nat

definition acquire_permit_lua :: "int \<Rightarrow> nat \<Rightarrow> budget \<Rightarrow> bool \<times> budget" where
  "acquire_permit_lua now permit b =
     (let zset = (if bg_key_expires b \<le> now then [] else bg_permits b);
          live = filter (\<lambda>p. now < snd p) zset in
      if int (length live) \<ge> bg_limit b then (False, b\<lparr>bg_permits := live\<rparr>)
      else (True, b\<lparr>bg_permits := live @ [(permit, now + bg_ttl b)], bg_key_expires := now + bg_ttl b\<rparr>))"

definition next_reply :: "budget \<Rightarrow> valkey_reply" where
  "next_reply b = (case bg_replies b of [] \<Rightarrow> Answered | r # _ \<Rightarrow> r)"

definition budget_acquire :: "int \<Rightarrow> (exn, budget, nat option) prog" where
  "budget_acquire now = (\<lambda>b.
     let permit = bg_next b; b1 = b\<lparr>bg_next := Suc permit, bg_replies := tl (bg_replies b)\<rparr>;
         (granted, b2) = acquire_permit_lua now permit b1 in
     case next_reply b of
       Answered \<Rightarrow> if \<not> granted then (Inr None, b2\<lparr>bg_exhausted := bg_exhausted b + 1\<rparr>) else (Inr (Some permit), b2)
     | Faulted landed \<Rightarrow> (Inr (Some permit), (if landed then b2 else b1)\<lparr>bg_fail_open := bg_fail_open b + 1\<rparr>)
     | Cancelled landed \<Rightarrow> (Inl (CancelledError Outside), if landed then b2 else b1))"

definition budget_release :: "nat \<Rightarrow> (exn, budget, unit) prog" where
  "budget_release permit = (\<lambda>b.
     let b1 = b\<lparr>bg_replies := tl (bg_replies b)\<rparr>; b2 = b1\<lparr>bg_permits := filter (\<lambda>p. fst p \<noteq> permit) (bg_permits b)\<rparr> in
     case next_reply b of
       Answered \<Rightarrow> (Inr (), b2)
     | Faulted landed \<Rightarrow> (Inr (), (if landed then b2 else b1)\<lparr>bg_fail_open := bg_fail_open b + 1\<rparr>)
     | Cancelled landed \<Rightarrow> (Inl (CancelledError Outside), if landed then b2 else b1))"

section \<open>The bounded retry\<close>

text \<open>
  \<open>jitter k\<close> is what \<open>random.uniform(0, 1)\<close> would give in attempt \<open>k\<close>, \<open>sleep\<close> is
  \<open>asyncio.sleep\<close>, which may be cancelled.
\<close>

record 'w retry_config =
  rt_attempts :: nat
  rt_base :: rat
  rt_max :: rat
  rt_jitter :: "nat \<Rightarrow> rat"
  rt_sleep :: "rat \<Rightarrow> (exn, 'w, unit) prog"

definition retry_cap :: "'w retry_config \<Rightarrow> nat \<Rightarrow> rat" where
  "retry_cap rc attempt = min (rt_max rc) (rt_base rc * 2 ^ (attempt - 1))"

definition retry_delay :: "'w retry_config \<Rightarrow> nat \<Rightarrow> rat" where
  "retry_delay rc attempt = rt_jitter rc attempt * retry_cap rc attempt"

function retry_from ::
  "(exn \<Rightarrow> bool) \<Rightarrow> 'w retry_config \<Rightarrow> nat \<Rightarrow> (exn, 'w, 'a) prog \<Rightarrow> (exn, 'w, 'a) prog" where
  "retry_from transient rc attempt op =
     (if rt_attempts rc < attempt
      then raise (AssertionError ''unreachable: the loop either returns or raises'')
      else catch op (\<lambda>e.
        if \<not> is_Exception e \<or> \<not> transient e \<or> attempt = rt_attempts rc then raise e
        else thn (rt_sleep rc (retry_delay rc attempt)) (retry_from transient rc (Suc attempt) op)))"
  by pat_completeness auto
termination
  by (relation "measure (\<lambda>(t, rc, attempt, op). Suc (rt_attempts rc) - attempt)") auto

declare retry_from.simps [simp del]

definition retry_transient ::
  "(exn \<Rightarrow> bool) \<Rightarrow> 'w retry_config \<Rightarrow> (exn, 'w, 'a) prog \<Rightarrow> (exn, 'w, 'a) prog" where
  "retry_transient transient rc op = retry_from transient rc 1 op"

section \<open>What the retry does\<close>

lemma hoare_retry_from:
  assumes op: "hoare P op Q (\<lambda>_. P)" and sleep: "\<And>d. hoare P (rt_sleep rc d) (\<lambda>_. P) (\<lambda>_. P)"
  shows "hoare P (retry_from transient rc attempt op) Q (\<lambda>_. P)"
proof (induction "Suc (rt_attempts rc) - attempt" arbitrary: attempt)
  case 0
  then show ?case by (subst retry_from.simps) (simp add: hoare_raise)
next
  case (Suc n)
  then have rest: "hoare P (retry_from transient rc (Suc attempt) op) Q (\<lambda>_. P)" by simp
  have "hoare P (if \<not> is_Exception e \<or> \<not> transient e \<or> attempt = rt_attempts rc then raise e
      else thn (rt_sleep rc (retry_delay rc attempt)) (retry_from transient rc (Suc attempt) op)) Q (\<lambda>_. P)" for e
    using hoare_thn [OF sleep rest] by (simp add: hoare_raise)
  with Suc op show ?case by (subst retry_from.simps) (auto intro: hoare_raise hoare_catch)
qed

text \<open>An operation that counts its runs, and a sleep that records its length.\<close>

definition counted :: "(exn, 'w, 'a) prog \<Rightarrow> (exn, 'w \<times> nat \<times> rat list, 'a) prog" where
  "counted op = (\<lambda>(w, n, ds). let (r, w') = op w in (r, (w', Suc n, ds)))"

definition recorded :: "rat \<Rightarrow> (exn, 'w \<times> nat \<times> rat list, unit) prog" where
  "recorded d = (\<lambda>(w, n, ds). (Inr (), (w, n, ds @ [d])))"

lemma counted_run: "counted op (w, n, ds) = (case op w of (r, w') \<Rightarrow> (r, (w', Suc n, ds)))"
  by (simp add: counted_def)

lemma recorded_run: "recorded d (w, n, ds) = (Inr (), (w, n, ds @ [d]))"
  by (simp add: recorded_def)

lemma retry_from_attempts:
  fixes rc :: "('w \<times> nat \<times> rat list) retry_config"
  assumes "rt_sleep rc = recorded" and "attempt \<le> rt_attempts rc"
    and "retry_from transient rc attempt (counted op) (w, n, ds) = (r, (w', n', ds'))"
  shows "\<exists>es. n' = n + Suc (length es) \<and> length es \<le> rt_attempts rc - attempt \<and> ds' = ds @ es \<and>
     (\<forall>d \<in> set es. \<exists>k. d = retry_delay rc k) \<and>
     (\<forall>e. r = Inl e \<longrightarrow> is_Exception e \<longrightarrow> transient e \<longrightarrow> length es = rt_attempts rc - attempt)"
  using assms(2,3)
proof (induction "rt_attempts rc - attempt" arbitrary: attempt w n ds)
  case 0
  then show ?case
    by (subst (asm) retry_from.simps) (auto simp: catch_run counted_run Let_def split: sum.splits prod.splits if_splits)
next
  case (Suc m)
  obtain r1 w1 where op: "op w = (r1, w1)" by fastforce
  show ?case
  proof (cases "\<exists>e. r1 = Inl e \<and> is_Exception e \<and> transient e")
    case True
    then obtain e where e: "r1 = Inl e" "is_Exception e" "transient e" by blast
    have "retry_from transient rc (Suc attempt) (counted op) (w1, Suc n, ds @ [retry_delay rc attempt]) = (r, (w', n', ds'))"
      using Suc.prems Suc.hyps(2) op e assms(1)
      by (subst (asm) retry_from.simps, cases "attempt = rt_attempts rc") (auto simp: catch_run counted_run thn_run recorded_run)
    moreover have "m = rt_attempts rc - Suc attempt" "Suc attempt \<le> rt_attempts rc" using Suc.hyps(2) by auto
    ultimately obtain es where es: "n' = Suc n + Suc (length es)"
        "length es \<le> rt_attempts rc - Suc attempt" "ds' = (ds @ [retry_delay rc attempt]) @ es"
        "\<forall>d \<in> set es. \<exists>k. d = retry_delay rc k"
        "\<forall>e. r = Inl e \<longrightarrow> is_Exception e \<longrightarrow> transient e \<longrightarrow> length es = rt_attempts rc - Suc attempt"
      using Suc.hyps(1) by blast
    then show ?thesis
      using Suc.hyps(2) by (intro exI [of _ "retry_delay rc attempt # es"]) auto
  next
    case False
    then have "n' = Suc n" "ds' = ds" "r = r1"
      using Suc.prems op by (subst (asm) retry_from.simps; auto simp: catch_run counted_run split: sum.splits)+
    with False show ?thesis by (intro exI [of _ "[]"]) auto
  qed
qed

lemma retry_delay_le:
  assumes "0 \<le> rt_jitter rc k" "rt_jitter rc k \<le> 1" "0 \<le> rt_base rc" "0 \<le> rt_max rc"
  shows "0 \<le> retry_delay rc k" and "retry_delay rc k \<le> rt_max rc"
proof -
  have cap: "0 \<le> retry_cap rc k" "retry_cap rc k \<le> rt_max rc" using assms by (simp_all add: retry_cap_def)
  then show "0 \<le> retry_delay rc k" using assms by (simp add: retry_delay_def)
  have "rt_jitter rc k * retry_cap rc k \<le> 1 * retry_cap rc k" using assms cap by (intro mult_right_mono) auto
  with cap show "retry_delay rc k \<le> rt_max rc" by (simp add: retry_delay_def)
qed

section \<open>The breaker and its calls in flight\<close>

text \<open>
  The breaker together with the number of calls it admitted that have not reported back. A call
  reports exactly once: a success, a failure, or that it was abandoned. Time passes freely.
\<close>

inductive breaker_step :: "timestamp \<Rightarrow> breaker \<times> nat \<Rightarrow> timestamp \<Rightarrow> breaker \<times> nat \<Rightarrow> bool" where
  admitted: "br_allow now b = (True, b') \<Longrightarrow> breaker_step now (b, n) now (b', Suc n)"
| refused: "br_allow now b = (False, b') \<Longrightarrow> breaker_step now (b, n) now (b', n)"
| succeeded: "breaker_step now (b, Suc n) now (record_success b, n)"
| failed: "breaker_step now (b, Suc n) now (record_failure now b, n)"
| abandoned: "breaker_step now (b, Suc n) now (record_abandoned b, n)"
| waited: "now \<le> later \<Longrightarrow> breaker_step now (b, n) later (b, n)"

inductive breaker_run :: "int \<Rightarrow> timestamp \<Rightarrow> timestamp \<Rightarrow> breaker \<times> nat \<Rightarrow> bool" for threshold reset where
  start: "breaker_run threshold reset now (new_breaker threshold reset, 0)"
| step: "breaker_run threshold reset now s \<Longrightarrow> breaker_step now s now' s' \<Longrightarrow> breaker_run threshold reset now' s'"

definition breaker_ok :: "int \<Rightarrow> timestamp \<Rightarrow> breaker \<times> nat \<Rightarrow> bool" where
  "breaker_ok threshold reset s \<longleftrightarrow> (case s of (b, n) \<Rightarrow>
     br_threshold b = threshold \<and> br_reset b = reset \<and> br_gauge b = br_state b \<and>
     br_half_open b \<le> (if br_state b = HALF_OPEN then min 1 (int n) else 0) \<and> 0 \<le> br_failures b \<and>
     (br_state b = CLOSED \<longrightarrow> br_failures b < max 1 threshold))"

lemmas breaker_defs = br_allow_def admit_probe_def record_success_def record_failure_def record_abandoned_def br_open_def
  br_transition_def

lemma breaker_ok_step: "breaker_step now s now' s' \<Longrightarrow> breaker_ok threshold reset s \<Longrightarrow> breaker_ok threshold reset s'"
  by (induction rule: breaker_step.induct)
    (auto simp: breaker_ok_def breaker_defs Let_def split: circuit_state.splits if_splits)

lemma breaker_ok_run: "breaker_run threshold reset now s \<Longrightarrow> breaker_ok threshold reset s"
proof (induction rule: breaker_run.induct)
  case start
  then show ?case by (simp add: breaker_ok_def new_breaker_def)
next
  case step
  then show ?case by (blast intro: breaker_ok_step)
qed

text \<open>
  The documentation's single probe does not survive stragglers. Three calls are admitted while
  closed; the first one's failure opens the breaker; in the next half-open window the other two
  report, one abandoned and one failed, and take the probe counter below zero. The window after that
  admits two probes at once.
\<close>

definition straggled :: "timestamp \<Rightarrow> breaker" where
  "straggled reset = record_failure reset (record_abandoned (snd (br_allow reset (record_failure 0 (new_breaker 1 reset)))))"

lemma straggled_run:
  assumes "0 \<le> reset"
  shows "breaker_run 1 reset (reset + reset) (straggled reset, 1)"
proof -
  let ?b0 = "new_breaker 1 reset"
  let ?b1 = "record_failure 0 ?b0"
  let ?b2 = "snd (br_allow reset ?b1)"
  have a: "br_allow 0 ?b0 = (True, ?b0)" by (simp add: breaker_defs new_breaker_def)
  have p: "br_allow reset ?b1 = (True, ?b2)" by (simp add: breaker_defs new_breaker_def Let_def)
  have "breaker_run 1 reset 0 (?b0, 3)"
    unfolding numeral_3_eq_3 by (intro breaker_run.start breaker_run.step [OF _ admitted [OF a]])
  then have "breaker_run 1 reset 0 (?b1, 2)"
    using breaker_run.step [OF _ failed] by (simp add: numeral_3_eq_3 numeral_2_eq_2)
  then have "breaker_run 1 reset reset (?b1, 2)" using assms by (rule breaker_run.step [OF _ waited])
  then have "breaker_run 1 reset reset (?b2, 3)"
    using breaker_run.step [OF _ admitted [OF p]] by (simp add: numeral_3_eq_3 numeral_2_eq_2)
  then have "breaker_run 1 reset reset (record_abandoned ?b2, 2)"
    using breaker_run.step [OF _ abandoned] by (simp add: numeral_3_eq_3 numeral_2_eq_2)
  then have "breaker_run 1 reset reset (straggled reset, 1)"
    unfolding straggled_def using breaker_run.step [OF _ failed] by (simp add: numeral_2_eq_2)
  then show ?thesis by (rule breaker_run.step [OF _ waited]) (use assms in simp)
qed

theorem breaker_admits_two_probes:
  "breaker_run 1 30 60 (straggled 30, 1) \<and> br_state (straggled 30) = OPEN \<and>
   (let (first, b) = br_allow 60 (straggled 30) in first \<and> br_state b = HALF_OPEN \<and> fst (br_allow 60 b))"
proof (intro conjI)
  show "breaker_run 1 30 60 (straggled 30, 1)" using straggled_run [of 30] by simp
  show "br_state (straggled 30) = OPEN" by code_simp
  show "let (first, b) = br_allow 60 (straggled 30) in first \<and> br_state b = HALF_OPEN \<and> fst (br_allow 60 b)" by code_simp
qed

section \<open>The budget's bound\<close>

text \<open>The permits a fleet holds at a time, as the next acquire will see them.\<close>

definition live_permits :: "int \<Rightarrow> budget \<Rightarrow> (nat \<times> int) list" where
  "live_permits now b = filter (\<lambda>p. now < snd p) (if bg_key_expires b \<le> now then [] else bg_permits b)"

definition budget_ok :: "budget \<Rightarrow> bool" where
  "budget_ok b \<longleftrightarrow> length (bg_permits b) \<le> nat (bg_limit b)"

lemma live_permits_le: "budget_ok b \<Longrightarrow> length (live_permits now b) \<le> nat (bg_limit b)"
  unfolding live_permits_def budget_ok_def by (auto intro: le_trans [OF length_filter_le])

lemma acquire_lua_run:
  "acquire_permit_lua now permit b =
     (let live = live_permits now b in
      if int (length live) \<ge> bg_limit b then (False, b\<lparr>bg_permits := live\<rparr>)
      else (True, b\<lparr>bg_permits := live @ [(permit, now + bg_ttl b)], bg_key_expires := now + bg_ttl b\<rparr>))"
  by (simp add: acquire_permit_lua_def live_permits_def Let_def)

lemma budget_ok_acquire_lua: "budget_ok b \<Longrightarrow> budget_ok (snd (acquire_permit_lua now permit b))"
  using live_permits_le [of b now] by (auto simp: acquire_lua_run budget_ok_def Let_def)

lemma live_permits_update [simp]:
  "live_permits now (b\<lparr>bg_next := n, bg_replies := rs\<rparr>) = live_permits now b"
  by (simp add: live_permits_def)

datatype budget_op = Acquire int | Release nat

fun run_budget :: "budget_op list \<Rightarrow> budget \<Rightarrow> budget" where
  "run_budget [] b = b"
| "run_budget (Acquire now # ops) b = run_budget ops (snd (budget_acquire now b))"
| "run_budget (Release p # ops) b = run_budget ops (snd (budget_release p b))"

lemma budget_limit_kept [simp]:
  "bg_limit (snd (budget_acquire now b)) = bg_limit b" "bg_limit (snd (budget_release p b)) = bg_limit b"
  by (auto simp: budget_acquire_def budget_release_def acquire_permit_lua_def Let_def split: valkey_reply.splits)

lemma budget_ok_ops:
  assumes "budget_ok b"
  shows "budget_ok (snd (budget_acquire now b))" and "budget_ok (snd (budget_release p b))"
proof -
  let ?b = "b\<lparr>bg_next := Suc (bg_next b), bg_replies := tl (bg_replies b)\<rparr>"
  have b: "budget_ok ?b" using assms by (simp add: budget_ok_def)
  from budget_ok_acquire_lua [OF b, of now "bg_next b"] b show "budget_ok (snd (budget_acquire now b))"
    by (auto simp: budget_acquire_def budget_ok_def Let_def split_beta split: valkey_reply.splits)
  show "budget_ok (snd (budget_release p b))"
    using assms by (auto simp: budget_release_def budget_ok_def Let_def split: valkey_reply.splits intro: le_trans [OF length_filter_le])
qed

lemma budget_ok_run: "budget_ok b \<Longrightarrow> budget_ok (run_budget ops b) \<and> bg_limit (run_budget ops b) = bg_limit b"
  by (induction ops b rule: run_budget.induct) (simp_all add: budget_ok_ops)

end
