(* ===== verification/Resilient_Gateway.thy ===== *)
theory Resilient_Gateway
  imports Gateway Resilience
begin

text \<open>
  \<^verbatim>\<open>payments/adapters/resilient_gateway.py\<close>: the decorator around a payment gateway. One logical
  call passes the breaker, takes a permit of the shared budget, retries transient faults and reports
  the outcome to the breaker. The state is the provider's, with the breaker of this process and the
  budget; \<open>sh_budget\<close> is absent when no Valkey is wired. The whole logical call is given one time;
  interleaved calls are the subject of \<open>breaker_step\<close>.
\<close>

section \<open>The shell\<close>

record 'g shell =
  sh_inner :: 'g
  sh_breaker :: breaker
  sh_budget :: "budget option"

text \<open>
  What differs between the two shells of the code (this one and the one of the Keycloak client): which faults
  count as transient, and what is raised when the breaker is open, the budget sheds the call, or the
  dependency stays down.
\<close>

record shell_kind =
  sk_transient :: "exn \<Rightarrow> bool"
  sk_open :: exn
  sk_shed :: exn
  sk_down :: exn

definition payment_shell :: shell_kind where
  "payment_shell =
     \<lparr>sk_transient = is_transient_exception,
      sk_open = CircuitOpenError ''payment gateway is unavailable (circuit open)'',
      sk_shed = DependencyBudgetExhaustedError ''payment gateway is saturated (concurrency budget exhausted)'',
      sk_down = DependencyUnavailableError ''payment gateway is unavailable''\<rparr>"

definition on_inner :: "(exn, 'g, 'a) prog \<Rightarrow> (exn, 'g shell, 'a) prog" where
  "on_inner op = (\<lambda>s. let (r, g) = op (sh_inner s) in (r, s\<lparr>sh_inner := g\<rparr>))"

definition tell_breaker :: "(breaker \<Rightarrow> breaker) \<Rightarrow> (exn, 'g shell, unit) prog" where
  "tell_breaker f = modify (\<lambda>s. s\<lparr>sh_breaker := f (sh_breaker s)\<rparr>)"

definition ask_breaker :: "timestamp \<Rightarrow> (exn, 'g shell, bool) prog" where
  "ask_breaker now = (\<lambda>s. let (ok, b) = br_allow now (sh_breaker s) in (Inr ok, s\<lparr>sh_breaker := b\<rparr>))"

definition on_budget :: "(exn, budget, 'a) prog \<Rightarrow> budget \<Rightarrow> (exn, 'g shell, 'a) prog" where
  "on_budget op b = (\<lambda>s. let (r, b') = op b in (r, s\<lparr>sh_budget := Some b'\<rparr>))"

text \<open>The permit (absent without a budget); a shed or a cancelled wait frees the probe slot.\<close>

definition take_permit :: "shell_kind \<Rightarrow> timestamp \<Rightarrow> (exn, 'g shell, nat option) prog" where
  "take_permit kind now =
     bnd (gets sh_budget) (\<lambda>budget.
       case budget of
         None \<Rightarrow> ret None
       | Some b \<Rightarrow>
           bnd (catch (on_budget (budget_acquire (now div 1000)) b)
                  (\<lambda>e. thn (tell_breaker record_abandoned) (raise e))) (\<lambda>permit.
             if permit = None
             then thn (tell_breaker record_abandoned) (raise (sk_shed kind))
             else ret permit))"

definition give_permit_back :: "nat option \<Rightarrow> (exn, 'g shell, unit) prog" where
  "give_permit_back permit =
     bnd (gets sh_budget) (\<lambda>budget.
       case (permit, budget) of
         (Some p, Some b) \<Rightarrow> on_budget (budget_release p) b
       | _ \<Rightarrow> ret ())"

text \<open>The \<open>try .. except .. else\<close> around the retry; nothing runs after the process died.\<close>

definition tried_call :: "shell_kind \<Rightarrow> timestamp \<Rightarrow> 'g shell retry_config \<Rightarrow> (exn, 'g shell, 'a) prog \<Rightarrow> (exn, 'g shell, 'a) prog" where
  "tried_call kind now rc op =
     bnd (catch (retry_transient (sk_transient kind) rc op) (\<lambda>e.
            if is_Exception e
            then (if sk_transient kind e
                  then thn (tell_breaker (record_failure now)) (raise (sk_down kind))
                  else thn (tell_breaker record_success) (raise e))
            else if e = ProcessCrash then raise e
            else thn (tell_breaker record_abandoned) (raise e))) (\<lambda>x.
       thn (tell_breaker record_success) (ret x))"

definition resilient :: "shell_kind \<Rightarrow> timestamp \<Rightarrow> 'g shell retry_config \<Rightarrow> (exn, 'g shell, 'a) prog \<Rightarrow> (exn, 'g shell, 'a) prog" where
  "resilient kind now rc op =
     bnd (ask_breaker now) (\<lambda>ok.
       if \<not> ok then raise (sk_open kind)
       else bnd (take_permit kind now) (\<lambda>permit.
         bnd (catch (tried_call kind now rc op)
                (\<lambda>e. if e = ProcessCrash then raise e else thn (give_permit_back permit) (raise e))) (\<lambda>x.
           thn (give_permit_back permit) (ret x))))"

definition resilient_gateway :: "'g gateway \<Rightarrow> 'g shell retry_config \<Rightarrow> 'g shell gateway" where
  "resilient_gateway inner rc =
     \<lparr>gw_charge = (\<lambda>amount key token now. resilient payment_shell now rc (on_inner (gw_charge inner amount key token now))),
      gw_lookup = (\<lambda>key now. resilient payment_shell now rc (on_inner (gw_lookup inner key now))),
      gw_refund = (\<lambda>amount key ref now. resilient payment_shell now rc (on_inner (gw_refund inner amount key ref now)))\<rparr>"

section \<open>What passes through the shell\<close>

text \<open>An assertion about the provider's state that every attempt and every wait keeps passes through.\<close>

abbreviation inside :: "('g \<Rightarrow> bool) \<Rightarrow> 'g shell \<Rightarrow> bool" where
  "inside P s \<equiv> P (sh_inner s)"

lemma hoare_shell_parts:
  "hoare (inside P) (tell_breaker f) (\<lambda>_. inside P) (\<lambda>_. inside P)"
  "hoare (inside P) (ask_breaker now) (\<lambda>_. inside P) (\<lambda>_. inside P)"
  "hoare (inside P) (on_budget m b) (\<lambda>_. inside P) (\<lambda>_. inside P)"
  "hoare (inside P) (gets h) (\<lambda>_. inside P) (\<lambda>_. inside P)"
  by (simp_all add: hoare_def tell_breaker_def ask_breaker_def on_budget_def split_beta split: sum.splits)

lemma hoare_tell_raise: "hoare (inside P) (thn (tell_breaker f) (raise e)) Q (\<lambda>_. inside P)"
  by (rule hoare_thn [OF hoare_shell_parts(1) hoare_raise])

lemma hoare_tell_ret: "hoare (inside (Q x)) (thn (tell_breaker f) (ret x)) (\<lambda>x. inside (Q x)) E"
  by (simp add: hoare_def thn_run tell_breaker_def)

lemma hoare_take_permit: "hoare (inside P) (take_permit kind now) (\<lambda>_. inside P) (\<lambda>_. inside P)"
proof -
  have "hoare (inside P) (catch (on_budget m b) (\<lambda>e. thn (tell_breaker record_abandoned) (raise e))) (\<lambda>_. inside P) (\<lambda>_. inside P)"
    for m :: "(exn, budget, nat option) prog" and b
    by (rule hoare_catch [OF hoare_shell_parts(3) hoare_tell_raise])
  note acquire = hoare_bnd [OF this]
  show ?thesis
    unfolding take_permit_def
    by (rule hoare_bnd [OF hoare_shell_parts(4)], rule hoare_case_option)
      ((rule hoare_ret | rule acquire | rule hoare_if | rule hoare_tell_raise); assumption?)+
qed

lemma hoare_give_back: "hoare (inside P) (give_permit_back permit) (\<lambda>_. inside P) (\<lambda>_. inside P)"
  unfolding give_permit_back_def
  by (rule hoare_bnd [OF hoare_shell_parts(4)], cases permit)
    (simp_all only: prod.case option.case, intro hoare_ret hoare_case_option hoare_shell_parts(3))+

lemma hoare_tried_call:
  assumes retry: "hoare (inside P) (retry_transient (sk_transient kind) rc op) (\<lambda>x. inside (Q x)) (\<lambda>_. inside E)"
  shows "hoare (inside P) (tried_call kind now rc op) (\<lambda>x. inside (Q x)) (\<lambda>_. inside E)"
  unfolding tried_call_def
  by (rule hoare_bnd [OF hoare_catch [OF retry] hoare_tell_ret]) (intro hoare_if hoare_tell_raise hoare_raise)

lemma hoare_shell:
  assumes retry: "hoare (inside P) (retry_transient (sk_transient kind) rc op) (\<lambda>x. inside (Q x)) (\<lambda>_. inside E)"
    and err: "\<And>g. P g \<Longrightarrow> E g" "\<And>x g. Q x g \<Longrightarrow> E g"
  shows "hoare (inside P) (resilient kind now rc op) (\<lambda>x. inside (Q x)) (\<lambda>_. inside E)"
proof -
  have giving: "hoare (inside R) (give_permit_back permit) (\<lambda>_. inside R) (\<lambda>_. inside E)" if "\<And>g. R g \<Longrightarrow> E g" for R permit
    by (rule hoare_conseq [OF hoare_give_back [of R]]) (use that in auto)
  have tried: "hoare (inside P) (catch (tried_call kind now rc op)
      (\<lambda>e. if e = ProcessCrash then raise e else thn (give_permit_back permit) (raise e))) (\<lambda>x. inside (Q x)) (\<lambda>_. inside E)" for permit
    by (rule hoare_catch [OF hoare_tried_call [OF retry]]) (intro hoare_if hoare_raise hoare_thn [OF giving [of E]], simp_all)
  have finish: "hoare (inside (Q x)) (thn (give_permit_back permit) (ret x)) (\<lambda>x. inside (Q x)) (\<lambda>_. inside E)" for x permit
    by (rule hoare_thn [OF giving [of "Q x", OF err(2)] hoare_ret])
  have permit: "hoare (inside P) (take_permit kind now) (\<lambda>_. inside P) (\<lambda>_. inside E)"
    by (rule hoare_conseq [OF hoare_take_permit [of P]]) (use err in auto)
  have ask: "hoare (inside P) (ask_breaker now) (\<lambda>_. inside P) (\<lambda>_. inside E)"
    by (rule hoare_conseq [OF hoare_shell_parts(2) [of P]]) (use err in auto)
  show ?thesis
    unfolding resilient_def
    by (rule hoare_bnd [OF ask]) (intro hoare_if hoare_raise hoare_bnd [OF permit] hoare_bnd [OF tried finish] err)+
qed

lemma hoare_resilient:
  assumes op: "hoare (inside P) op (\<lambda>x. inside (Q x)) (\<lambda>_. inside P)"
    and sleep: "\<And>d. hoare (inside P) (rt_sleep rc d) (\<lambda>_. inside P) (\<lambda>_. inside P)"
    and err: "\<And>g. P g \<Longrightarrow> E g" "\<And>x g. Q x g \<Longrightarrow> E g"
  shows "hoare (inside P) (resilient kind now rc op) (\<lambda>x. inside (Q x)) (\<lambda>_. inside E)"
proof (rule hoare_shell [OF _ err])
  show "hoare (inside P) (retry_transient (sk_transient kind) rc op) (\<lambda>x. inside (Q x)) (\<lambda>_. inside E)"
    unfolding retry_transient_def by (rule hoare_conseq [OF hoare_retry_from [OF op sleep]]) (use err in auto)
qed

text \<open>With one attempt the operation runs once.\<close>

lemma retry_once: "retry_transient transient (rc\<lparr>rt_attempts := 1\<rparr>) op = op"
  unfolding retry_transient_def by (subst retry_from.simps) (auto simp: catch_run fun_eq_iff split: sum.splits prod.splits)

section \<open>The shell keeps the contract\<close>

text \<open>The wait between two attempts does not reach into the provider.\<close>

locale resilient_shell = payment_gateway inner decided returned
  for inner :: "'g gateway" and decided :: "'g \<Rightarrow> string \<Rightarrow> gateway_charge option"
    and returned :: "'g \<Rightarrow> string \<Rightarrow> gateway_refund option" +
  fixes rc :: "'g shell retry_config"
  assumes sleep_outside: "sh_inner (snd (rt_sleep rc d s)) = sh_inner s"
begin

lemma hoare_sleep: "hoare (inside P) (rt_sleep rc d) (\<lambda>_. inside P) (\<lambda>_. inside P)"
  using sleep_outside [of d] by (auto intro!: hoareI) (metis snd_conv)+

lemma through:
  assumes "\<And>g r g'. op g = (r, g') \<Longrightarrow> P g \<Longrightarrow> (case r of Inl _ \<Rightarrow> P g' | Inr x \<Rightarrow> Q x g')"
    and "\<And>g. P g \<Longrightarrow> E g" "\<And>x g. Q x g \<Longrightarrow> E g"
  shows "hoare (inside P) (resilient payment_shell now rc (on_inner op)) (\<lambda>x. inside (Q x)) (\<lambda>_. inside E)"
proof (rule hoare_resilient [OF _ hoare_sleep assms(2,3)])
  show "hoare (inside P) (on_inner op) (\<lambda>x. inside (Q x)) (\<lambda>_. inside P)"
    using assms(1) by (fastforce simp: hoare_def on_inner_def split: prod.splits sum.splits)
qed

lemma through_keeps:
  assumes "\<And>g. P g \<Longrightarrow> P (snd (op g))" and "P (sh_inner s)"
  shows "P (sh_inner (snd (resilient payment_shell now rc (on_inner op) s)))"
proof -
  have "hoare (inside P) (resilient payment_shell now rc (on_inner op)) (\<lambda>_. inside P) (\<lambda>_. inside P)"
    using assms(1) by (intro through [of _ P "\<lambda>_. P" P]) (fastforce split: sum.splits)+
  with assms(2) show ?thesis by (auto simp: hoare_def split_beta split: sum.splits)
qed

sublocale shell: payment_gateway "resilient_gateway inner rc" "\<lambda>s. decided (sh_inner s)" "\<lambda>s. returned (sh_inner s)"
proof
  fix a k t now c r0 rf r x and s s' :: "'g shell" and c0 :: gateway_charge and k' :: string
  show "decided (sh_inner s') k = Some c"
    if "gw_charge (resilient_gateway inner rc) a k t now s = (Inr c, s')" "gc_outcome c \<noteq> G_PENDING"
  proof -
    have "hoare (inside (\<lambda>_. True)) (resilient payment_shell now rc (on_inner (gw_charge inner a k t now)))
        (\<lambda>c. inside (\<lambda>g. gc_outcome c \<noteq> G_PENDING \<longrightarrow> decided g k = Some c)) (\<lambda>_. inside (\<lambda>_. True))"
      by (rule through) (auto split: sum.splits intro: charge_decides)
    from hoareD_Inr [OF this] that show ?thesis by (auto simp: resilient_gateway_def)
  qed
  show "c = c0" if "gw_charge (resilient_gateway inner rc) a k t now s = (Inr c, s')" "decided (sh_inner s) k = Some c0"
  proof -
    have "hoare (inside (\<lambda>g. decided g k = Some c0)) (resilient payment_shell now rc (on_inner (gw_charge inner a k t now)))
        (\<lambda>c. inside (\<lambda>g. c = c0)) (\<lambda>_. inside (\<lambda>_. True))"
      by (rule through) (auto split: sum.splits dest: charge_agrees, metis charge_keeps snd_conv)
    from hoareD_Inr [OF this] that show ?thesis by (auto simp: resilient_gateway_def)
  qed
  show "x = Some c0" if "gw_lookup (resilient_gateway inner rc) k now s = (Inr x, s')" "decided (sh_inner s) k = Some c0"
  proof -
    have "hoare (inside (\<lambda>g. decided g k = Some c0)) (resilient payment_shell now rc (on_inner (gw_lookup inner k now)))
        (\<lambda>x. inside (\<lambda>g. x = Some c0)) (\<lambda>_. inside (\<lambda>_. True))"
      by (rule through) (auto split: sum.splits dest: lookup_agrees, metis lookup_keeps snd_conv)
    from hoareD_Inr [OF this] that show ?thesis by (auto simp: resilient_gateway_def)
  qed
  show "returned (sh_inner s') k = Some rf" if "gw_refund (resilient_gateway inner rc) a k r now s = (Inr rf, s')"
  proof -
    have "hoare (inside (\<lambda>_. True)) (resilient payment_shell now rc (on_inner (gw_refund inner a k r now)))
        (\<lambda>rf. inside (\<lambda>g. returned g k = Some rf)) (\<lambda>_. inside (\<lambda>_. True))"
      by (rule through) (auto split: sum.splits intro: refund_decides)
    from hoareD_Inr [OF this] that show ?thesis by (auto simp: resilient_gateway_def)
  qed
  show "rf = r0" if "gw_refund (resilient_gateway inner rc) a k r now s = (Inr rf, s')" "returned (sh_inner s) k = Some r0"
  proof -
    have "hoare (inside (\<lambda>g. returned g k = Some r0)) (resilient payment_shell now rc (on_inner (gw_refund inner a k r now)))
        (\<lambda>rf. inside (\<lambda>g. rf = r0)) (\<lambda>_. inside (\<lambda>_. True))"
      by (rule through) (auto split: sum.splits dest: refund_agrees, metis refund_keeps_returned snd_conv)
    from hoareD_Inr [OF this] that show ?thesis by (auto simp: resilient_gateway_def)
  qed
qed (auto simp: resilient_gateway_def intro!: through_keeps [where P = "\<lambda>g. decided g _ = Some _"]
      through_keeps [where P = "\<lambda>g. returned g _ = Some _"]
      intro: charge_keeps lookup_keeps refund_keeps charge_keeps_returned lookup_keeps_returned refund_keeps_returned)

end

text \<open>
  \<open>asyncio.sleep\<close> touches nothing; it raises when the task is cancelled during it. With it the shell
  around the stub keeps the contract, whatever the retry settings.
\<close>

definition asyncio_sleep :: "(rat \<Rightarrow> bool) \<Rightarrow> rat \<Rightarrow> (exn, 'w, unit) prog" where
  "asyncio_sleep cancelled d = (if cancelled d then raise (CancelledError Outside) else ret ())"

definition shell_retry :: "nat \<Rightarrow> rat \<Rightarrow> rat \<Rightarrow> (nat \<Rightarrow> rat) \<Rightarrow> (rat \<Rightarrow> bool) \<Rightarrow> 'w retry_config" where
  "shell_retry attempts base longest jitter cancelled =
     \<lparr>rt_attempts = attempts, rt_base = base, rt_max = longest, rt_jitter = jitter, rt_sleep = asyncio_sleep cancelled\<rparr>"

interpretation resilient_stub: resilient_shell "stub_gateway (cfg\<lparr>settle_seconds := None\<rparr>)" stub_charges stub_refunds
    "shell_retry attempts base longest jitter cancelled" for cfg attempts base longest jitter cancelled
  by unfold_locales (simp add: shell_retry_def asyncio_sleep_def)

end
