(* ===== verification/Resilience_Properties.thy ===== *)
theory Resilience_Properties
  imports Resilient_Gateway
begin

text \<open>
  What the shell around the payment provider promises: retries never decide a key twice, a logical
  call makes a bounded number of attempts with bounded waits, the breaker cannot get stuck, and the
  fleet never holds more permits than the budget allows.
\<close>


definition demo_stub :: stub_config where
  "demo_stub = \<lparr>fail_substring = ''fail'', pending_substring = '''', settle_seconds = None\<rparr>"

definition demo_shell :: "stub_state shell" where
  "demo_shell = \<lparr>sh_inner = empty_stub, sh_breaker = new_breaker 5 30000000,
     sh_budget = Some \<lparr>bg_limit = 2, bg_ttl = 1000, bg_permits = [], bg_key_expires = 0, bg_next = 0, bg_replies = [],
       bg_exhausted = 0, bg_fail_open = 0\<rparr>\<rparr>"

abbreviation demo_gw :: "stub_state shell gateway" where
  "demo_gw \<equiv> resilient_gateway (stub_gateway demo_stub) (shell_retry 3 (1 / 5) 2 (\<lambda>_. 1 / 2) (\<lambda>_. False))"

definition demo_charge :: gateway_charge where
  "demo_charge = \<lparr>gc_ref = ''stub_0'', gc_outcome = G_SUCCEEDED, gc_reason = None\<rparr>"

abbreviation charged_shell :: "stub_state shell" where
  "charged_shell \<equiv> snd (gw_charge demo_gw 5 ''k'' ''tok'' 0 demo_shell)"


text \<open>
  C15. A logical call makes a bounded number of attempts: at least one and at most the configured number, with one
  wait between two attempts and each wait no longer than the configured maximum. It ends early unless
  every attempt failed transiently, and what it raises is what its last attempt raised.
\<close>
theorem retry_is_bounded:
  assumes "rt_sleep rc = recorded" and "1 \<le> rt_attempts rc" and "0 \<le> rt_base rc" and "0 \<le> rt_max rc"
    and "\<forall>k. 0 \<le> rt_jitter rc k \<and> rt_jitter rc k \<le> 1"
    and "retry_transient transient rc (counted op) (w, 0, []) = (r, (w', runs, waits))"
  shows "1 \<le> runs \<and> runs \<le> rt_attempts rc \<and> length waits = runs - 1 \<and> (\<forall>d \<in> set waits. 0 \<le> d \<and> d \<le> rt_max rc) \<and>
     (\<forall>e. r = Inl e \<longrightarrow> is_Exception e \<longrightarrow> transient e \<longrightarrow> runs = rt_attempts rc)"
proof -
  have run: "retry_from transient rc 1 (counted op) (w, 0, []) = (r, (w', runs, waits))"
    using assms(6) by (simp add: retry_transient_def)
  obtain es where es: "runs = Suc (length es)" "length es \<le> rt_attempts rc - 1" "waits = es"
      "\<forall>d \<in> set es. \<exists>k. d = retry_delay rc k"
      "\<forall>e. r = Inl e \<longrightarrow> is_Exception e \<longrightarrow> transient e \<longrightarrow> length es = rt_attempts rc - 1"
    using retry_from_attempts [OF assms(1,2) run] by auto
  have "0 \<le> d \<and> d \<le> rt_max rc" if "d \<in> set waits" for d
    using that es(3,4) retry_delay_le [of rc] assms(3-5) by auto
  with es assms(2) show ?thesis by auto
qed

definition demo_retry :: "(nat \<times> nat \<times> rat list) retry_config" where
  "demo_retry = \<lparr>rt_attempts = 3, rt_base = 1 / 5, rt_max = 2, rt_jitter = (\<lambda>_. 1 / 2), rt_sleep = recorded\<rparr>"

text \<open>An operation that times out twice.\<close>

definition flaky :: "(exn, nat, nat) prog" where
  "flaky n = (if n < 2 then Inl TimeoutError else Inr n, Suc n)"

theorem retry_is_bounded_witness:
  "retry_transient is_transient_exception demo_retry (counted flaky) (0, 0, []) = (Inr 2, (3, 3, [1 / 10, 1 / 5])) \<and>
   1 / 10 \<le> (2 :: rat) \<and> 1 / 5 \<le> (2 :: rat)"
proof -
  have run: "retry_transient is_transient_exception demo_retry (counted flaky) (0, 0, []) = (Inr 2, (3, 3, [1 / 10, 1 / 5]))"
    by code_simp
  from retry_is_bounded [OF _ _ _ _ _ run] run show ?thesis by (simp add: demo_retry_def)
qed

section \<open>The breaker\<close>

text \<open>
  C16. The breaker never gets stuck: in every history of admissions, outcomes and abandoned calls, its gauge shows
  its state, and once the reset window of an open breaker has passed the next call is admitted. A
  half-open breaker with no call in flight admits the next one at once.
\<close>
theorem breaker_never_wedges:
  assumes "breaker_run threshold reset now (b, n)"
  shows "br_gauge b = br_state b \<and>
     (br_state b = OPEN \<longrightarrow> reset \<le> now - br_opened_at b \<longrightarrow> fst (br_allow now b)) \<and>
     (br_state b = HALF_OPEN \<longrightarrow> n = 0 \<longrightarrow> fst (br_allow now b)) \<and>
     (br_state b = CLOSED \<longrightarrow> fst (br_allow now b) \<and> br_failures b < max 1 threshold)"
  using breaker_ok_run [OF assms]
  by (auto simp: breaker_ok_def br_allow_def admit_probe_def br_transition_def split: if_splits)

theorem breaker_never_wedges_witness: "fst (br_allow 60 (straggled 30))"
proof -
  have "breaker_run 1 30 60 (straggled 30, 1)" using straggled_run [of 30] by simp
  moreover have "br_state (straggled 30) = OPEN" "30 \<le> 60 - br_opened_at (straggled 30)" by code_simp+
  ultimately show ?thesis using breaker_never_wedges by blast
qed

section \<open>The budget\<close>

text \<open>
  C17. The fleet holds at most the budgeted number of permits, whatever sequence of acquires and releases ran and
  whichever of their Valkey calls failed or were cancelled; an answered acquire is refused exactly
  when that many permits are alive, and permits whose holder died expire with the key.
\<close>
theorem budget_bounds_the_fleet:
  assumes "budget_ok b" and "b' = run_budget ops b"
  shows "length (live_permits now b') \<le> nat (bg_limit b) \<and>
     (next_reply b' = Answered \<longrightarrow>
        (fst (budget_acquire now b') = Inr None \<longleftrightarrow> bg_limit b \<le> int (length (live_permits now b')))) \<and>
     (bg_key_expires b' \<le> now \<longrightarrow> live_permits now b' = [])"
proof -
  have ok: "budget_ok b'" "bg_limit b' = bg_limit b" using budget_ok_run [OF assms(1), of ops] by (simp_all add: assms(2))
  then have "length (live_permits now b') \<le> nat (bg_limit b)" using live_permits_le [of b' now] by simp
  moreover have "next_reply b' = Answered \<longrightarrow>
      (fst (budget_acquire now b') = Inr None \<longleftrightarrow> bg_limit b \<le> int (length (live_permits now b')))"
    using ok(2) by (simp add: budget_acquire_def acquire_lua_run Let_def)
  ultimately show ?thesis by (simp add: live_permits_def)
qed

theorem budget_bounds_the_fleet_witness:
  "length (live_permits 5 (run_budget [Acquire 0, Acquire 1, Acquire 2, Release 0, Acquire 3] (the (sh_budget demo_shell)))) \<le> 2"
  using budget_bounds_the_fleet [OF _ refl, of "the (sh_budget demo_shell)" 5 "[Acquire 0, Acquire 1, Acquire 2, Release 0, Acquire 3]"]
  by (simp add: demo_shell_def budget_ok_def del: run_budget.simps)

end
