(* ===== verification/Unit_Of_Work.thy ===== *)
theory Unit_Of_Work
  imports Orders_Service
begin

text \<open>
  \<^verbatim>\<open>shared/db/unit_of_work.py\<close>: the depth-aware transaction handle. A session has what is durable
  (\<open>committed\<close>), what its open transaction sees (\<open>working\<close>) and the nesting depth in its \<open>info\<close>.
  \<open>session.commit\<close>, \<open>session.rollback\<close> and the savepoint of \<open>session.begin_nested\<close> are the
  library's documented behaviour. The repositories only run statements on the session, which is
  \<open>on_working\<close>.

  The theorem of the theory is the one every other theory rests on: blocks nested to any depth are
  the \<open>atomic\<close> of the transaction they compose.
\<close>

section \<open>Sessions\<close>

record 'd session =
  committed :: 'd
  working :: 'd
  info_depth :: nat

definition session_commit :: "('e, 'd session, unit) prog" where
  "session_commit = modify (\<lambda>s. s\<lparr>committed := working s\<rparr>)"

definition session_rollback :: "('e, 'd session, unit) prog" where
  "session_rollback = modify (\<lambda>s. s\<lparr>working := committed s\<rparr>)"

text \<open>A savepoint: an exception takes the transaction back to where it stood, a clean exit keeps its work.\<close>

definition begin_nested :: "('e, 'd session, 'a) prog \<Rightarrow> ('e, 'd session, 'a) prog" where
  "begin_nested m = (\<lambda>s. case m s of (Inl e, s') \<Rightarrow> (Inl e, s'\<lparr>working := working s\<rparr>) | (Inr x, s') \<Rightarrow> (Inr x, s'))"

definition on_working :: "('e, 'd, 'a) prog \<Rightarrow> ('e, 'd session, 'a) prog" where
  "on_working m = (\<lambda>s. let (r, d) = m (working s) in (r, s\<lparr>working := d\<rparr>))"

section \<open>The handle\<close>

definition uow_commit :: "('e, 'd session, unit) prog" where
  "uow_commit = session_commit"

definition uow_rollback :: "('e, 'd session, unit) prog" where
  "uow_rollback = session_rollback"

text \<open>\<open>_depth\<close>: whether this block is the outermost; the counter is put back on every exit.\<close>

definition with_depth :: "(bool \<Rightarrow> ('e, 'd session, 'a) prog) \<Rightarrow> ('e, 'd session, 'a) prog" where
  "with_depth body = (\<lambda>s.
     let depth = info_depth s; (r, s') = body (depth = 0) (s\<lparr>info_depth := depth + 1\<rparr>) in (r, s'\<lparr>info_depth := depth\<rparr>))"

definition uow_transaction :: "('e, 'd session, 'a) prog \<Rightarrow> ('e, 'd session, 'a) prog" where
  "uow_transaction m = with_depth (\<lambda>outermost.
     if \<not> outermost then begin_nested m
     else bnd (catch m (\<lambda>e. thn session_rollback (raise e))) (\<lambda>x. thn session_commit (ret x)))"

section \<open>Refinement\<close>

text \<open>Inside an open transaction \<open>m\<close> behaves as \<open>n\<close> on what the transaction sees, and makes nothing durable.\<close>

definition inside_as :: "('e, 'd session, 'a) prog \<Rightarrow> ('e, 'd, 'a) prog \<Rightarrow> bool" where
  "inside_as m n \<longleftrightarrow> (\<forall>s. 0 < info_depth s \<longrightarrow> m s = (fst (n (working s)), s\<lparr>working := snd (n (working s))\<rparr>))"

lemma inside_asD: "inside_as m n \<Longrightarrow> 0 < info_depth s \<Longrightarrow> m s = (fst (n (working s)), s\<lparr>working := snd (n (working s))\<rparr>)"
  by (simp add: inside_as_def)

lemma inside_on_working: "inside_as (on_working n) n"
  by (simp add: inside_as_def on_working_def split_beta)

lemma inside_ret: "inside_as (ret x) (ret x)"
  by (simp add: inside_as_def)

lemma inside_raise: "inside_as (raise e) (raise e)"
  by (simp add: inside_as_def)

lemma inside_bnd:
  assumes "inside_as m n" and "\<And>x. inside_as (f x) (g x)"
  shows "inside_as (bnd m f) (bnd n g)"
  unfolding inside_as_def
proof (intro allI impI)
  fix s :: "'a session" assume s: "0 < info_depth s"
  show "bnd m f s = (fst (bnd n g (working s)), s\<lparr>working := snd (bnd n g (working s))\<rparr>)"
  proof (cases "n (working s)")
    case (Pair r d)
    then show ?thesis
      using inside_asD [OF assms(1) s] inside_asD [OF assms(2), of "s\<lparr>working := d\<rparr>"] s
      by (cases r) (simp_all add: bnd_run)
  qed
qed

lemma inside_thn: "inside_as m n \<Longrightarrow> inside_as m' n' \<Longrightarrow> inside_as (thn m m') (thn n n')"
  unfolding thn_def by (rule inside_bnd)

lemma inside_catch:
  assumes "inside_as m n" and "\<And>e. inside_as (h e) (k e)"
  shows "inside_as (catch m h) (catch n k)"
  unfolding inside_as_def
proof (intro allI impI)
  fix s :: "'a session" assume s: "0 < info_depth s"
  show "catch m h s = (fst (catch n k (working s)), s\<lparr>working := snd (catch n k (working s))\<rparr>)"
  proof (cases "n (working s)")
    case (Pair r d)
    then show ?thesis
      using inside_asD [OF assms(1) s] inside_asD [OF assms(2), of "s\<lparr>working := d\<rparr>"] s
      by (cases r) (simp_all add: catch_run)
  qed
qed

lemma inside_case_option:
  "inside_as m n \<Longrightarrow> (\<And>y. inside_as (f y) (g y)) \<Longrightarrow>
     inside_as (case x of None \<Rightarrow> m | Some y \<Rightarrow> f y) (case x of None \<Rightarrow> n | Some y \<Rightarrow> g y)"
  by (cases x) auto

lemma inside_if: "inside_as m n \<Longrightarrow> inside_as m' n' \<Longrightarrow> inside_as (if b then m else m') (if b then n else n')"
  by simp

lemmas inside_rules = inside_on_working inside_ret inside_raise inside_bnd inside_thn inside_catch inside_case_option inside_if

text \<open>A block inside a transaction is a savepoint.\<close>

lemma inside_transaction:
  assumes "inside_as m n"
  shows "inside_as (uow_transaction m) (atomic n)"
  unfolding inside_as_def
proof (intro allI impI)
  fix s :: "'a session" assume s: "0 < info_depth s"
  show "uow_transaction m s = (fst (atomic n (working s)), s\<lparr>working := snd (atomic n (working s))\<rparr>)"
  proof (cases "n (working s)")
    case (Pair r d)
    then show ?thesis
      using inside_asD [OF assms, of "s\<lparr>info_depth := info_depth s + 1\<rparr>"] s
      by (cases r) (simp_all add: uow_transaction_def with_depth_def begin_nested_def atomic_run Let_def)
  qed
qed

text \<open>An outermost block: what it leaves durable.\<close>

lemma outermost_transaction:
  assumes "inside_as m n" and "info_depth s = 0"
  shows "uow_transaction m s = (case n (working s) of
     (Inl e, d) \<Rightarrow> (Inl e, s\<lparr>working := committed s\<rparr>) | (Inr x, d) \<Rightarrow> (Inr x, s\<lparr>committed := d, working := d\<rparr>))"
proof (cases "n (working s)")
  case (Pair r d)
  then show ?thesis
    using inside_asD [OF assms(1), of "s\<lparr>info_depth := 1\<rparr>"] assms(2)
    by (cases r) (simp_all add: uow_transaction_def with_depth_def bnd_run catch_run thn_run session_rollback_def
        session_commit_def Let_def)
qed

section \<open>Property\<close>

text \<open>
  C18. Nested blocks refine one atomic transaction: a body that behaves as the transaction \<open>n\<close> on what it sees
  is, as an outermost block on a fresh session, exactly \<open>atomic n\<close> on the durable database, and as a
  nested block exactly \<open>atomic n\<close> inside the caller's transaction, with nothing made durable early
  and the nesting depth put back on every exit.
\<close>
theorem transaction_refines_atomic:
  assumes "inside_as m n"
  shows "(info_depth s = 0 \<longrightarrow> working s = committed s \<longrightarrow>
       uow_transaction m s = (fst (atomic n (committed s)),
         s\<lparr>committed := snd (atomic n (committed s)), working := snd (atomic n (committed s))\<rparr>)) \<and>
     (0 < info_depth s \<longrightarrow> uow_transaction m s = (fst (atomic n (working s)), s\<lparr>working := snd (atomic n (working s))\<rparr>))"
proof (intro conjI impI)
  assume "info_depth s = 0" and same: "working s = committed s"
  from outermost_transaction [OF assms this(1)] same
  show "uow_transaction m s = (fst (atomic n (committed s)),
      s\<lparr>committed := snd (atomic n (committed s)), working := snd (atomic n (committed s))\<rparr>)"
    by (cases s; cases "n (committed s)"; cases "fst (n (committed s))") (simp_all add: atomic_run)
next
  assume "0 < info_depth s"
  then show "uow_transaction m s = (fst (atomic n (working s)), s\<lparr>working := snd (atomic n (working s))\<rparr>)"
    by (rule inside_asD [OF inside_transaction [OF assms]])
qed

text \<open>The cancel, with the release of the holds port as a block of its own inside the service's block.\<close>

definition cancel_blocks :: "(uuid \<Rightarrow> bool txn) option \<Rightarrow> (uuid \<Rightarrow> nat txn) \<Rightarrow> uuid \<Rightarrow> (exn, database session, order) prog" where
  "cancel_blocks guard holds oid =
     bnd (on_working (repo_transition_status guard oid [PENDING] CANCELLED None)) (\<lambda>updated.
       case updated of
         None \<Rightarrow>
           bnd (on_working (repo_get_order oid)) (\<lambda>final.
             case final of
               None \<Rightarrow> raise (OrderStateConflictError ''the order settled while cancelling; re-read it'')
             | Some r \<Rightarrow>
                 if order_state r \<noteq> CANCELLED
                 then raise (OrderStateConflictError ''the order settled while cancelling; re-read it'')
                 else ret r)
       | Some _ \<Rightarrow>
           thn (uow_transaction (on_working (holds oid)))
          (thn (on_working (repo_log_saga_step oid ''cancel'' ''completed''))
          (bnd (on_working (repo_get_order oid)) (\<lambda>final.
             case final of
               None \<Rightarrow> raise (RuntimeError ''cancelled order not found after flip'')
             | Some r \<Rightarrow> ret r))))"

lemma cancel_inside: "inside_as (cancel_blocks guard holds oid) (cancel_txn guard holds oid)"
  unfolding cancel_blocks_def cancel_txn_def by (intro inside_rules inside_transaction)

theorem transaction_refines_atomic_witness:
  "uow_transaction (cancel_blocks None (\<lambda>_. raise TimeoutError) 1) \<lparr>committed = empty_database, working = empty_database, info_depth = 0\<rparr> =
     (Inl (OrderStateConflictError ''the order settled while cancelling; re-read it''),
      \<lparr>committed = empty_database, working = empty_database, info_depth = 0\<rparr>)"
  using transaction_refines_atomic [OF cancel_inside [of None "\<lambda>_. raise TimeoutError" 1],
      of "\<lparr>committed = empty_database, working = empty_database, info_depth = 0\<rparr>"]
  by (simp add: cancel_txn_def repo_transition_status_def repo_get_order_def find_order_def empty_database_def atomic_run bnd_run)

end
