(* ===== verification/Pagination.thy ===== *)
theory Pagination
  imports Codec "HOL-Library.Product_Lexorder"
begin

text \<open>
  \<^verbatim>\<open>shared/db/pagination.py\<close>: the page parameters, the opaque cursor, the whitelist gates, the keyset
  query and the page envelope. A table is a list of rows; \<open>key\<close> gives a row's sort value and id. The
  database compares the pair lexicographically and casts the cursor's texts back to the column types
  (\<open>cast\<close>, and \<open>uuid_parse\<close> for the id).

  Parameters: \<open>isoformat\<close> says which texts \<open>datetime.fromisoformat\<close> takes, \<open>pyrepr\<close> is \<open>str()\<close> of a JSON
  value that is not a string. A cursor whose bytes are not ASCII is rejected here, where Python would
  first try to read them as UTF-8.
\<close>

section \<open>Parameters\<close>

record page_params =
  pg_limit :: nat
  pg_sort :: string
  pg_cursor :: "string option"

text \<open>\<open>Field(20, ge=1, le=100)\<close>: rejected, not clamped.\<close>

definition page_params_of :: "int \<Rightarrow> string \<Rightarrow> string option \<Rightarrow> exn + page_params" where
  "page_params_of limit by_field cursor =
     (if 1 \<le> limit \<and> limit \<le> 100 then Inr \<lparr>pg_limit = nat limit, pg_sort = by_field, pg_cursor = cursor\<rparr>
      else Inl (ValueError ''limit''))"

definition descending :: "page_params \<Rightarrow> bool" where
  "descending p \<longleftrightarrow> take 1 (pg_sort p) = ''-''"

definition sort_field :: "page_params \<Rightarrow> string" where
  "sort_field p = (if take 1 (pg_sort p) = ''-'' then tl (pg_sort p) else pg_sort p)"

section \<open>The cursor\<close>

definition encode_cursor :: "string \<Rightarrow> string \<Rightarrow> string" where
  "encode_cursor sort_value id_value = b64_encode (json_pair sort_value id_value)"

text \<open>
  Which texts \<open>Decimal(text)\<close> takes: a sign, then digits with an optional point and exponent, or
  \<open>Inf\<close>, \<open>Infinity\<close>, \<open>NaN\<close> with an optional \<open>s\<close> and digits; blanks around and underscores are dropped.
\<close>

definition up :: "string \<Rightarrow> string" where
  "up s = map (\<lambda>c. if 97 \<le> (of_char c :: nat) \<and> of_char c \<le> (122 :: nat) then char_of (of_char c - (32 :: nat)) else c) s"

definition exponent_ok :: "string \<Rightarrow> bool" where
  "exponent_ok s \<longleftrightarrow>
     s = [] \<or> hd s = CHR ''E'' \<and>
       (let t = tl s; ds = (if t \<noteq> [] \<and> (hd t = CHR ''+'' \<or> hd t = CHR ''-'') then tl t else t) in ds \<noteq> [] \<and> list_all is_digit ds)"

definition decimal_text :: "string \<Rightarrow> bool" where
  "decimal_text s \<longleftrightarrow>
     (let t = up (filter (\<lambda>c. c \<noteq> CHR ''_'') (strip s));
          u = (if t \<noteq> [] \<and> (hd t = CHR ''+'' \<or> hd t = CHR ''-'') then tl t else t);
          whole = takeWhile is_digit u; r = dropWhile is_digit u;
          frac = (if r \<noteq> [] \<and> hd r = CHR ''.'' then takeWhile is_digit (tl r) else []);
          r2 = (if r \<noteq> [] \<and> hd r = CHR ''.'' then dropWhile is_digit (tl r) else r);
          nan = (if u \<noteq> [] \<and> hd u = CHR ''S'' then tl u else u) in
      (whole @ frac \<noteq> [] \<and> exponent_ok r2) \<or> u = ''INF'' \<or> u = ''INFINITY'' \<or>
      (take 3 nan = ''NAN'' \<and> list_all is_digit (drop 3 nan)))"

definition sort_value_parser :: "(string \<Rightarrow> bool) \<Rightarrow> string \<Rightarrow> (string \<Rightarrow> bool) option" where
  "sort_value_parser isoformat kind =
     (if kind = ''timestamptz'' then Some isoformat
      else if kind = ''numeric'' then Some decimal_text
      else if kind = ''uuid'' then Some (\<lambda>s. uuid_parse s \<noteq> None)
      else if kind = ''text'' then Some (\<lambda>_. True) else None)"

definition py_str :: "(json \<Rightarrow> string) \<Rightarrow> json \<Rightarrow> string" where
  "py_str pyrepr v = (case v of JStr s \<Rightarrow> s | _ \<Rightarrow> pyrepr v)"

definition decode_cursor ::
  "(string \<Rightarrow> bool) \<Rightarrow> (json \<Rightarrow> string) \<Rightarrow> string \<Rightarrow> string \<Rightarrow> exn + string \<times> string" where
  "decode_cursor isoformat pyrepr cursor kind =
     (case sort_value_parser isoformat kind of
        None \<Rightarrow> Inl (KeyError kind)
      | Some parse \<Rightarrow>
          (case b64_decode cursor of
             None \<Rightarrow> Inl (InvalidCursorError cursor)
           | Some raw \<Rightarrow>
               (case (if list_all (\<lambda>c. of_char c < (128 :: nat)) raw then json_loads raw else None) of
                  Some (JList [a, b]) \<Rightarrow>
                    (let sort_value = py_str pyrepr a; id_value = py_str pyrepr b in
                     if uuid_parse id_value = None \<or> \<not> parse sort_value then Inl (InvalidCursorError cursor)
                     else Inr (sort_value, id_value))
                | _ \<Rightarrow> Inl (InvalidCursorError cursor))))"

section \<open>The whitelist gates\<close>

definition resolve_sort_column :: "string \<Rightarrow> (string \<Rightarrow> 'c option) \<Rightarrow> exn + 'c" where
  "resolve_sort_column field sort_map =
     (case sort_map field of None \<Rightarrow> Inl (InvalidQueryParamError ''sort'' field) | Some c \<Rightarrow> Inr c)"

definition check_filters :: "string list \<Rightarrow> string set \<Rightarrow> exn option" where
  "check_filters keys allowed =
     (case find (\<lambda>k. k \<notin> allowed) keys of None \<Rightarrow> None | Some k \<Rightarrow> Some (InvalidQueryParamError ''filter'' k))"

section \<open>The query and the page\<close>

definition beyond :: "bool \<Rightarrow> 'k::linorder \<Rightarrow> 'k \<Rightarrow> bool" where
  "beyond desc c k \<longleftrightarrow> (if desc then k < c else c < k)"

definition in_order :: "('r \<Rightarrow> 'k::linorder) \<Rightarrow> bool \<Rightarrow> 'r list \<Rightarrow> 'r list" where
  "in_order key desc rows = (if desc then rev (sort_key key rows) else sort_key key rows)"

definition apply_keyset ::
  "('r \<Rightarrow> 'k::linorder \<times> uuid) \<Rightarrow> page_params \<Rightarrow> ('k \<times> uuid) option \<Rightarrow> 'r list \<Rightarrow> 'r list" where
  "apply_keyset key p cursor rows =
     (let hit = (case cursor of None \<Rightarrow> rows | Some c \<Rightarrow> filter (\<lambda>r. beyond (descending p) c (key r)) rows)
      in take (pg_limit p + 1) (in_order key (descending p) hit))"

record 'r page =
  page_items :: "'r list"
  next_cursor :: "string option"

definition build_page :: "('r \<Rightarrow> string \<times> string) \<Rightarrow> page_params \<Rightarrow> 'r list \<Rightarrow> 'r page" where
  "build_page key_text p items =
     (let kept = take (pg_limit p) items in
      \<lparr>page_items = kept,
       next_cursor = (if pg_limit p < length items \<and> kept \<noteq> []
          then Some (case key_text (last kept) of (s, i) \<Rightarrow> encode_cursor s i) else None)\<rparr>)"

text \<open>A sort column: how a row's value prints, what the database casts a text to, and its type name.\<close>

record ('r, 'k) column =
  col_value :: "'r \<Rightarrow> 'k"
  col_text :: "'k \<Rightarrow> string"
  col_cast :: "string \<Rightarrow> 'k option"
  col_kind :: string

definition row_key :: "('r, 'k) column \<Rightarrow> ('r \<Rightarrow> uuid) \<Rightarrow> 'r \<Rightarrow> 'k \<times> uuid" where
  "row_key col rid r = (col_value col r, rid r)"

text \<open>The cast in the query; a text it cannot cast is a database error.\<close>

definition cast_cursor :: "('r, 'k) column \<Rightarrow> string \<times> string \<Rightarrow> exn + 'k \<times> uuid" where
  "cast_cursor col c =
     (case (col_cast col (fst c), uuid_parse (snd c)) of
        (Some k, Some i) \<Rightarrow> Inr (k, i)
      | _ \<Rightarrow> Inl (RuntimeError ''invalid text representation''))"

definition fetch_page ::
  "(string \<Rightarrow> bool) \<Rightarrow> (json \<Rightarrow> string) \<Rightarrow> ('r, 'k::linorder) column \<Rightarrow> ('r \<Rightarrow> uuid) \<Rightarrow> page_params \<Rightarrow> 'r list \<Rightarrow> exn + 'r page" where
  "fetch_page isoformat pyrepr col rid p rows =
     (let page = (\<lambda>cur. build_page (\<lambda>r. (col_text col (col_value col r), str_uuid (rid r))) p
                    (apply_keyset (row_key col rid) p cur rows)) in
      case pg_cursor p of
        None \<Rightarrow> Inr (page None)
      | Some text \<Rightarrow>
          if text = '''' then Inr (page None)
          else (case decode_cursor isoformat pyrepr text (col_kind col) of
             Inl e \<Rightarrow> Inl e
           | Inr c \<Rightarrow> (case cast_cursor col c of Inl e \<Rightarrow> Inl e | Inr k \<Rightarrow> Inr (page (Some k)))))"

section \<open>The cursor comes back\<close>

lemma ascii_json_char: "list_all (\<lambda>c. of_char c < (128 :: nat)) (json_char c)"
proof -
  have "of_char (hex_digit d) < (128 :: nat)" if "d < 16" for d using that by (auto simp: hex_digit_def)
  moreover have "(of_char c :: nat) div 16 < 16" using nat_of_char_less_256 [of c] by linarith
  ultimately show ?thesis by (auto simp: json_char_def)
qed

lemma ascii_json_pair: "list_all (\<lambda>c. of_char c < (128 :: nat)) (json_pair a b)"
proof -
  have "list_all (\<lambda>c. of_char c < (128 :: nat)) (concat (map json_char s))" for s
    by (induction s) (simp_all add: ascii_json_char)
  then show ?thesis by (simp add: json_pair_def json_quoted_def)
qed

lemma decode_encode:
  assumes "sort_value_parser isoformat kind = Some parse" and "parse s" and "uuid_parse i \<noteq> None"
  shows "decode_cursor isoformat pyrepr (encode_cursor s i) kind = Inr (s, i)"
  using assms
  by (simp add: decode_cursor_def encode_cursor_def b64_decode_def b64_roundtrip ascii_json_pair json_loads_pair py_str_def Let_def)

lemma encode_cursor_nonempty: "encode_cursor s i \<noteq> ''''"
proof
  assume "encode_cursor s i = ''''"
  then have "b64_run 0 0 0 [] = Some (json_pair s i)" using b64_roundtrip [of 0 0 "json_pair s i"] by (simp add: encode_cursor_def)
  then show False by (simp add: json_pair_def)
qed

section \<open>Walking the pages\<close>

text \<open>A client that follows \<open>next_cursor\<close> until there is none.\<close>

fun walk ::
  "(string \<Rightarrow> bool) \<Rightarrow> (json \<Rightarrow> string) \<Rightarrow> ('r, 'k::linorder) column \<Rightarrow> ('r \<Rightarrow> uuid) \<Rightarrow> nat \<Rightarrow> page_params \<Rightarrow> 'r list \<Rightarrow>
   exn + 'r list list" where
  "walk isoformat pyrepr col rid 0 p rows = Inl (RuntimeError ''out of fuel'')"
| "walk isoformat pyrepr col rid (Suc n) p rows =
     (case fetch_page isoformat pyrepr col rid p rows of
        Inl e \<Rightarrow> Inl e
      | Inr page \<Rightarrow>
          (case next_cursor page of
             None \<Rightarrow> Inr [page_items page]
           | Some c \<Rightarrow>
               (case walk isoformat pyrepr col rid n (p\<lparr>pg_cursor := Some c\<rparr>) rows of
                  Inl e \<Rightarrow> Inl e
                | Inr ps \<Rightarrow> Inr (page_items page # ps))))"

text \<open>What the walk relies on of a column: a value's text casts back to it and passes the cursor's check.\<close>

locale keyset_column =
  fixes isoformat :: "string \<Rightarrow> bool" and col :: "('r, 'k::linorder) column"
  assumes cast_text: "col_cast col (col_text col k) = Some k"
    and parse_text: "\<exists>parse. sort_value_parser isoformat (col_kind col) = Some parse \<and> (\<forall>k. parse (col_text col k))"
begin

abbreviation cursor_of :: "('r \<Rightarrow> uuid) \<Rightarrow> 'r \<Rightarrow> string" where
  "cursor_of rid r \<equiv> encode_cursor (col_text col (col_value col r)) (str_uuid (rid r))"

abbreviation page_of :: "('r \<Rightarrow> uuid) \<Rightarrow> page_params \<Rightarrow> ('k \<times> uuid) option \<Rightarrow> 'r list \<Rightarrow> 'r page" where
  "page_of rid p cur rows \<equiv> build_page (\<lambda>r. (col_text col (col_value col r), str_uuid (rid r))) p (apply_keyset (row_key col rid) p cur rows)"

lemma fetch_first: "pg_cursor p = None \<Longrightarrow> fetch_page isoformat pyrepr col rid p rows = Inr (page_of rid p None rows)"
  by (simp add: fetch_page_def)

lemma fetch_after:
  assumes "pg_cursor p = Some (cursor_of rid r)" and "rid r < 16 ^ 32"
  shows "fetch_page isoformat pyrepr col rid p rows = Inr (page_of rid p (Some (row_key col rid r)) rows)"
proof -
  obtain parse where parse: "sort_value_parser isoformat (col_kind col) = Some parse" "\<forall>k. parse (col_text col k)"
    using parse_text by blast
  have id: "uuid_parse (str_uuid (rid r)) = Some (rid r)" using assms(2) by (rule uuid_parse_str)
  then have "decode_cursor isoformat pyrepr (cursor_of rid r) (col_kind col) = Inr (col_text col (col_value col r), str_uuid (rid r))"
    using parse(2) decode_encode [OF parse(1)] by simp
  with assms id show ?thesis
    by (simp add: fetch_page_def encode_cursor_nonempty cast_cursor_def cast_text row_key_def)
qed

lemma in_order_filter: "in_order key desc (filter P rows) = filter P (in_order key desc rows)"
  by (simp add: in_order_def filter_sort rev_filter [symmetric])

lemma in_order_strict:
  assumes "distinct (map key rows)"
  shows "sorted_wrt (\<lambda>r q. beyond desc (key r) (key q)) (in_order key desc rows)"
proof -
  have "sorted_wrt (<) (map key (sort_key key rows))"
    using assms by (simp add: strict_sorted_iff distinct_map)
  then show ?thesis
    by (simp add: in_order_def beyond_def sorted_wrt_map sorted_wrt_rev)
qed

lemma filter_beyond:
  assumes "sorted_wrt (\<lambda>r q. beyond desc (key r) (key q)) (xs @ y # ys)"
  shows "filter (\<lambda>r. beyond desc (key y) (key r)) (xs @ y # ys) = ys"
  using assms by (auto simp: sorted_wrt_append filter_empty_conv filter_id_conv beyond_def split: if_splits)

lemma keyset_drop:
  assumes "distinct (map (row_key col rid) rows)" and "in_order (row_key col rid) (descending p) rows = xs @ y # ys"
  shows "apply_keyset (row_key col rid) p (Some (row_key col rid y)) rows = take (Suc (pg_limit p)) ys"
  using filter_beyond [of "descending p" "row_key col rid" xs y ys] in_order_strict [OF assms(1), of "descending p"]
  by (simp add: apply_keyset_def in_order_filter assms(2))

text \<open>From a cursor on the last row of a prefix, the walk delivers the rest in pages.\<close>

lemma walk_rest:
  assumes rows: "distinct (map (row_key col rid) rows)" and ids: "\<forall>r \<in> set rows. rid r < 16 ^ 32"
    and all: "in_order (row_key col rid) (descending p) rows = xs @ ys"
    and at: "pg_cursor p = (if xs = [] then None else Some (cursor_of rid (last xs)))"
    and lim: "1 \<le> pg_limit p" and fuel: "length ys < n"
  shows "\<exists>pages. walk isoformat pyrepr col rid n p rows = Inr pages \<and> concat pages = ys \<and>
     (\<forall>page \<in> set pages. length page \<le> pg_limit p)"
  using all at fuel lim
proof (induction n arbitrary: p xs ys)
  case (Suc n)
  let ?l = "pg_limit p"
  have keyset: "apply_keyset (row_key col rid) p (if xs = [] then None else Some (row_key col rid (last xs))) rows = take (Suc ?l) ys"
  proof (cases "xs = []")
    case True
    then show ?thesis using Suc.prems(1) by (simp add: apply_keyset_def)
  next
    case False
    then have "in_order (row_key col rid) (descending p) rows = butlast xs @ last xs # ys" using Suc.prems(1) by simp
    from keyset_drop [OF rows this] False show ?thesis by simp
  qed
  have "fetch_page isoformat pyrepr col rid p rows =
      Inr (page_of rid p (if xs = [] then None else Some (row_key col rid (last xs))) rows)"
  proof (cases "xs = []")
    case True
    then show ?thesis using Suc.prems(2) fetch_first by simp
  next
    case False
    then have "last xs \<in> set (in_order (row_key col rid) (descending p) rows)" using Suc.prems(1) by simp
    then have "rid (last xs) < 16 ^ 32" using ids by (simp add: in_order_def split: if_splits)
    with False show ?thesis using Suc.prems(2) fetch_after by simp
  qed
  with keyset have page: "fetch_page isoformat pyrepr col rid p rows =
      Inr \<lparr>page_items = take ?l ys, next_cursor = (if ?l < length ys then Some (cursor_of rid (last (take ?l ys))) else None)\<rparr>"
    using Suc.prems(4) by (auto simp: build_page_def Let_def min_def)
  show ?case
  proof (cases "?l < length ys")
    case False
    then show ?thesis using page by auto
  next
    case True
    let ?p = "p\<lparr>pg_cursor := Some (cursor_of rid (last (take ?l ys)))\<rparr>"
    have "take ?l ys \<noteq> []" using True Suc.prems(4) by auto
    then have "\<exists>pages. walk isoformat pyrepr col rid n ?p rows = Inr pages \<and> concat pages = drop ?l ys \<and>
        (\<forall>page \<in> set pages. length page \<le> pg_limit ?p)"
      using Suc.prems True by (intro Suc.IH [of ?p "xs @ take ?l ys"]) (auto simp: descending_def)
    with page True show ?thesis by auto
  qed
qed simp

end

text \<open>The text columns (the catalog's \<open>name\<close>), and the id itself.\<close>

definition text_column :: "('r \<Rightarrow> string) \<Rightarrow> ('r, string) column" where
  "text_column f = \<lparr>col_value = f, col_text = (\<lambda>s. s), col_cast = Some, col_kind = ''text''\<rparr>"

interpretation by_text: keyset_column isoformat "text_column f" for isoformat :: "string \<Rightarrow> bool" and f :: "'r \<Rightarrow> string"
  by unfold_locales (simp_all add: text_column_def sort_value_parser_def)

section \<open>Properties\<close>

text \<open>
  A cursor comes back: decoding an encoded cursor gives the sort value and the id it was made of, for every text
  the column's type takes and every row id, whatever characters the text has.
\<close>
theorem cursor_roundtrip:
  assumes "sort_value_parser isoformat kind = Some parse" and "parse s" and "u < 16 ^ 32"
  shows "decode_cursor isoformat pyrepr (encode_cursor s (str_uuid u)) kind = Inr (s, str_uuid u)"
  using decode_encode [OF assms(1,2)] uuid_parse_str [OF assms(3)] by simp

theorem cursor_roundtrip_witness:
  "decode_cursor (\<lambda>_. False) (\<lambda>_. '''') (encode_cursor [CHR 0x22, CHR 0x5C, CHR 0x0A, CHR ''a'', CHR 0xE9] (str_uuid 77)) ''text'' =
     Inr ([CHR 0x22, CHR 0x5C, CHR 0x0A, CHR ''a'', CHR 0xE9], str_uuid 77)"
  by (rule cursor_roundtrip [where parse = "\<lambda>_. True"]) (simp_all add: sort_value_parser_def)

text \<open>
  C39. Following the cursors delivers every row once: with any page size and either direction, the client that starts
  without a cursor gets the rows in key order, none twice and none left out, in pages no larger than
  the limit, and reaches the last page. The column's texts must cast back to their values.
\<close>
theorem pages_partition_rows:
  assumes "keyset_column isoformat col" and "distinct (map rid rows)" and "\<forall>r \<in> set rows. rid r < 16 ^ 32"
    and "1 \<le> pg_limit p" and "pg_cursor p = None"
  shows "\<exists>pages. walk isoformat pyrepr col rid (Suc (length rows)) p rows = Inr pages \<and>
     concat pages = in_order (row_key col rid) (descending p) rows \<and> (\<forall>page \<in> set pages. length page \<le> pg_limit p)"
proof -
  have keys: "distinct (map (row_key col rid) rows)"
    using assms(2) by (auto simp: distinct_map row_key_def inj_on_def)
  have len: "length (in_order (row_key col rid) (descending p) rows) < Suc (length rows)" by (simp add: in_order_def)
  from keyset_column.walk_rest [OF assms(1) keys assms(3) _ _ assms(4) len, of "[]"] assms(5) show ?thesis by simp
qed

theorem pages_partition_rows_witness:
  "\<exists>pages. walk (\<lambda>_. False) (\<lambda>_. '''') (text_column fst) snd 4 \<lparr>pg_limit = 2, pg_sort = ''-name'', pg_cursor = None\<rparr>
       [(''cup'', 1), (''mug'', 2), (''cup'', 3)] = Inr pages \<and>
     concat pages = [(''mug'', 2), (''cup'', 3), (''cup'', 1)] \<and> list_all (\<lambda>page. length page \<le> 2) pages"
proof -
  let ?p = "\<lparr>pg_limit = 2, pg_sort = ''-name'', pg_cursor = None\<rparr>" and ?rows = "[(''cup'', 1 :: nat), (''mug'', 2), (''cup'', 3)]"
  have order: "in_order (row_key (text_column fst) snd) (descending ?p) ?rows = [(''mug'', 2), (''cup'', 3), (''cup'', 1)]" by code_simp
  have four: "Suc (length ?rows) = 4" by simp
  have "\<exists>pages. walk (\<lambda>_. False) (\<lambda>_. '''') (text_column fst) snd (Suc (length ?rows)) ?p ?rows = Inr pages \<and>
      concat pages = in_order (row_key (text_column fst) snd) (descending ?p) ?rows \<and> (\<forall>page \<in> set pages. length page \<le> pg_limit ?p)"
    by (rule pages_partition_rows [OF by_text.keyset_column_axioms]) simp_all
  then show ?thesis unfolding order four by (simp add: list_all_iff)
qed

end
