(* ===== verification/Rate_Limit.thy ===== *)
theory Rate_Limit
  imports Codec
begin

text \<open>
  \<^verbatim>\<open>shared/ratelimit/token_bucket.py\<close> and the guard of \<^verbatim>\<open>shared/ratelimit/dependencies.py\<close>: one
  bucket of one subject. The Lua script's numbers are exact rationals here, without the rounding of
  doubles. Times are microseconds; the key expires by the same clock.
\<close>

section \<open>The bucket\<close>

record rate_limit_config =
  rl_capacity :: int
  rl_refill :: int
  rl_period :: int

text \<open>The settings name three buckets; an unknown name is a wiring error.\<close>

record rate_limit_settings =
  rs_enabled :: bool
  rs_checkout :: rate_limit_config
  rs_write :: rate_limit_config
  rs_upload :: rate_limit_config

definition config_for :: "rate_limit_settings \<Rightarrow> string \<Rightarrow> exn + rate_limit_config" where
  "config_for settings bucket =
     (if bucket = ''checkout'' then Inr (rs_checkout settings)
      else if bucket = ''write'' then Inr (rs_write settings)
      else if bucket = ''upload'' then Inr (rs_upload settings)
      else Inl (ValueError (''unknown rate-limit bucket: '' @ bucket)))"

record bucket_hash =
  bk_tokens :: rat
  bk_ts :: timestamp
  bk_expires :: timestamp

definition rl_rate :: "rate_limit_config \<Rightarrow> rat" where
  "rl_rate c = of_int (rl_refill c) / of_int (rl_period c)"

definition refilled :: "rate_limit_config \<Rightarrow> timestamp \<Rightarrow> bucket_hash option \<Rightarrow> rat \<times> timestamp" where
  "refilled c now st =
     (case st of
        None \<Rightarrow> (of_int (rl_capacity c), now)
      | Some b \<Rightarrow>
          let elapsed = of_int (now - bk_ts b) / 1000000 in
          if elapsed > 0 then (min (of_int (rl_capacity c)) (bk_tokens b + elapsed * rl_rate c), now)
          else (bk_tokens b, bk_ts b))"

definition rl_ttl :: "rate_limit_config \<Rightarrow> int" where
  "rl_ttl c = \<lceil>of_int (rl_capacity c) / rl_rate c\<rceil> + rl_period c"

definition token_bucket_lua ::
  "rate_limit_config \<Rightarrow> timestamp \<Rightarrow> bucket_hash option \<Rightarrow> (bool \<times> int \<times> int) \<times> bucket_hash option" where
  "token_bucket_lua c now st =
     (let live = (case st of None \<Rightarrow> None | Some b \<Rightarrow> if bk_expires b \<le> now then None else Some b);
          (tokens, ts) = refilled c now live;
          allowed = (tokens \<ge> 1);
          left = (if allowed then tokens - 1 else tokens);
          retry = (if allowed then 0 else \<lceil>(1 - tokens) / rl_rate c * 1000000\<rceil>) in
      ((allowed, \<lfloor>left\<rfloor>, retry), Some \<lparr>bk_tokens = left, bk_ts = ts, bk_expires = now + seconds (rl_ttl c)\<rparr>))"

record bucket_decision =
  bd_allowed :: bool
  bd_remaining :: int
  bd_retry_after :: int

definition bucket_allow :: "rate_limit_config \<Rightarrow> timestamp \<Rightarrow> bucket_hash option \<Rightarrow> bucket_decision \<times> bucket_hash option" where
  "bucket_allow c now st =
     (let ((allowed, remaining, retry), st') = token_bucket_lua c now st in
      (\<lparr>bd_allowed = allowed, bd_remaining = remaining, bd_retry_after = max 1 (- ((- retry) div 1000000))\<rparr>, st'))"

section \<open>The guard\<close>

text \<open>
  \<open>_enforce\<close>: without settings, with the limiter off, without Valkey or on a Valkey fault the request
  goes through; otherwise it spends a token or raises. \<open>fault\<close> is what the Valkey call raised.
\<close>

definition enforce ::
  "rate_limit_settings option \<Rightarrow> bool \<Rightarrow> exn option \<Rightarrow> string \<Rightarrow> timestamp \<Rightarrow> (exn, bucket_hash option, unit) prog" where
  "enforce settings has_valkey fault bucket now =
     (case settings of
        None \<Rightarrow> ret ()
      | Some s \<Rightarrow>
          if \<not> rs_enabled s \<or> \<not> has_valkey then ret ()
          else (case config_for s bucket of
             Inl e \<Rightarrow> raise e
           | Inr c \<Rightarrow>
               (case fault of
                  Some e \<Rightarrow> if is_Exception e then ret () else raise e
                | None \<Rightarrow>
                    (\<lambda>st. let (d, st') = bucket_allow c now st in
                       if bd_allowed d then (Inr (), st') else (Inl (RateLimitExceededError (bd_retry_after d)), st')))))"

section \<open>A run of requests\<close>

fun admissions :: "rate_limit_config \<Rightarrow> timestamp list \<Rightarrow> bucket_hash option \<Rightarrow> nat \<times> bucket_hash option" where
  "admissions c [] st = (0, st)"
| "admissions c (now # moments) st =
     (let (d, st1) = bucket_allow c now st; (n, st2) = admissions c moments st1 in ((if bd_allowed d then Suc n else n), st2))"

definition sensible :: "rate_limit_config \<Rightarrow> bool" where
  "sensible c \<longleftrightarrow> 0 < rl_capacity c \<and> 0 < rl_refill c \<and> 0 < rl_period c"

lemma rate_pos: "sensible c \<Longrightarrow> 0 < rl_rate c"
  by (simp add: sensible_def rl_rate_def)

text \<open>What the bucket could still hand out at \<open>now\<close>, never more than what accrued since \<open>bk_ts\<close>.\<close>

definition bucket_ok :: "rate_limit_config \<Rightarrow> timestamp \<Rightarrow> bucket_hash option \<Rightarrow> bool" where
  "bucket_ok c now st \<longleftrightarrow> (case st of
     None \<Rightarrow> True
   | Some b \<Rightarrow> 0 \<le> bk_tokens b \<and> bk_tokens b \<le> of_int (rl_capacity c) \<and> bk_ts b \<le> now \<and> bk_ts b + seconds (rl_ttl c) \<le> bk_expires b)"

text \<open>The tokens there are at \<open>now\<close>, before the request.\<close>

definition purse :: "rate_limit_config \<Rightarrow> timestamp \<Rightarrow> bucket_hash option \<Rightarrow> rat" where
  "purse c now st = (case st of
     None \<Rightarrow> of_int (rl_capacity c)
   | Some b \<Rightarrow> min (of_int (rl_capacity c)) (bk_tokens b + of_int (now - bk_ts b) / 1000000 * rl_rate c))"

text \<open>Expiry changes nothing: by the time the key is gone the bucket is full anyway.\<close>


lemma purse_nonneg: "sensible c \<Longrightarrow> bucket_ok c now st \<Longrightarrow> 0 \<le> purse c now st"
  using rate_pos [of c] by (auto simp: purse_def bucket_ok_def sensible_def split: option.splits)

lemma refilled_purse:
  assumes c: "sensible c" and ok: "bucket_ok c now st"
  shows "refilled c now (case st of None \<Rightarrow> None | Some b \<Rightarrow> if bk_expires b \<le> now then None else Some b) = (purse c now st, now)"
proof (cases st)
  case None
  then show ?thesis by (simp add: refilled_def purse_def)
next
  case (Some b)
  note rate = rate_pos [OF c]
  have b: "0 \<le> bk_tokens b" "bk_tokens b \<le> of_int (rl_capacity c)" "bk_ts b \<le> now" "bk_ts b + seconds (rl_ttl c) \<le> bk_expires b"
    using ok Some by (simp_all add: bucket_ok_def)
  show ?thesis
  proof (cases "bk_expires b \<le> now")
    case True
    then have "rl_ttl c * 1000000 \<le> now - bk_ts b" using b(4) by (simp add: seconds_def)
    then have "of_int (rl_ttl c * 1000000) \<le> (of_int (now - bk_ts b) :: rat)" by (rule of_int_le_iff [THEN iffD2])
    then have "of_int (rl_ttl c) \<le> (of_int (now - bk_ts b) / 1000000 :: rat)" by simp
    moreover have "of_int (rl_capacity c) / rl_rate c \<le> of_int (rl_ttl c)"
      using c unfolding rl_ttl_def sensible_def by (simp add: add_increasing2)
    ultimately have "of_int (rl_capacity c) / rl_rate c \<le> of_int (now - bk_ts b) / 1000000" by (rule order_trans [rotated])
    then have "of_int (rl_capacity c) \<le> of_int (now - bk_ts b) / 1000000 * rl_rate c"
      using rate by (simp add: pos_divide_le_eq)
    then have "of_int (rl_capacity c) \<le> bk_tokens b + of_int (now - bk_ts b) / 1000000 * rl_rate c" using b(1) by linarith
    with True Some show ?thesis by (simp add: refilled_def purse_def min_def)
  next
    case False
    with Some b show ?thesis by (auto simp: refilled_def purse_def Let_def min_def)
  qed
qed

lemma bucket_allow_run:
  assumes "sensible c" and "bucket_ok c now st"
  shows "bd_allowed (fst (bucket_allow c now st)) \<longleftrightarrow> 1 \<le> purse c now st"
    and "snd (bucket_allow c now st) = Some \<lparr>bk_tokens = purse c now st - (if 1 \<le> purse c now st then 1 else 0), bk_ts = now,
      bk_expires = now + seconds (rl_ttl c)\<rparr>"
    and "\<not> 1 \<le> purse c now st \<Longrightarrow>
      bd_retry_after (fst (bucket_allow c now st)) = max 1 (- ((- \<lceil>(1 - purse c now st) / rl_rate c * 1000000\<rceil>) div 1000000))"
  using refilled_purse [OF assms] by (simp_all add: bucket_allow_def token_bucket_lua_def Let_def)

lemma bucket_allow_ok:
  assumes "sensible c" and "bucket_ok c now st" and "now \<le> now'"
  shows "bucket_ok c now' (snd (bucket_allow c now st))"
proof -
  have "purse c now st \<le> of_int (rl_capacity c)" by (simp add: purse_def split: option.splits)
  then show ?thesis
    using purse_nonneg [OF assms(1,2)] assms(3) by (simp add: bucket_allow_run(2) [OF assms(1,2)] bucket_ok_def)
qed

lemma admissions_bound:
  assumes "sensible c" and "bucket_ok c now st" and "sorted (now # moments)"
  shows "of_nat (fst (admissions c (now # moments) st)) \<le>
     purse c now st + of_int (last (now # moments) - now) / 1000000 * rl_rate c"
  using assms(2,3)
proof (induction moments arbitrary: now st)
  case Nil
  then show ?case
    using purse_nonneg [OF assms(1)] bucket_allow_run(1) [OF assms(1)] by (simp add: split_beta Let_def)
next
  case (Cons t moments)
  let ?T = "purse c now st" and ?st = "snd (bucket_allow c now st)"
  let ?a = "if 1 \<le> ?T then 1 else 0 :: rat"
  have t: "now \<le> t" "sorted (t # moments)" using Cons.prems(2) by auto
  from Cons.IH [OF bucket_allow_ok [OF assms(1) Cons.prems(1) t(1)] t(2)]
  have rest: "of_nat (fst (admissions c (t # moments) ?st)) \<le> purse c t ?st + of_int (last (t # moments) - t) / 1000000 * rl_rate c" .
  have "purse c t ?st \<le> ?T - ?a + of_int (t - now) / 1000000 * rl_rate c"
    unfolding bucket_allow_run(2) [OF assms(1) Cons.prems(1)] by (simp add: purse_def)
  moreover have "fst (admissions c (now # t # moments) st) = (if 1 \<le> ?T then 1 else 0) + fst (admissions c (t # moments) ?st)"
    using bucket_allow_run(1) [OF assms(1) Cons.prems(1)]
    by (subst admissions.simps(2)) (simp add: split_beta Let_def del: admissions.simps(2))
  then have "of_nat (fst (admissions c (now # t # moments) st)) = ?a + of_nat (fst (admissions c (t # moments) ?st))" by simp
  moreover have "of_int (t - now) / 1000000 * rl_rate c + of_int (last (t # moments) - t) / 1000000 * rl_rate c =
      of_int (last (t # moments) - now) / 1000000 * rl_rate c"
    by (simp add: add_divide_distrib [symmetric] distrib_right [symmetric])
  ultimately show ?case using rest by simp
qed

section \<open>Properties\<close>

text \<open>
  C40. Admissions are bounded: over any run of requests of one subject at non-decreasing times, starting from a new
  bucket, the number admitted is at most the burst capacity plus what the sustained rate accrues
  between the first and the last request. The expiry of an idle bucket never adds to it.
\<close>
theorem rate_limit_bounds_admissions:
  assumes "0 < rl_capacity c" and "0 < rl_refill c" and "0 < rl_period c" and "sorted (now # moments)"
  shows "of_nat (fst (admissions c (now # moments) None)) \<le>
     (of_int (rl_capacity c) :: rat) + of_int (last (now # moments) - now) / 1000000 * (of_int (rl_refill c) / of_int (rl_period c))"
  using admissions_bound [of c now None moments] assms by (simp add: sensible_def bucket_ok_def purse_def rl_rate_def del: admissions.simps)

definition demo_limit :: rate_limit_config where
  "demo_limit = \<lparr>rl_capacity = 2, rl_refill = 1, rl_period = 1\<rparr>"

theorem rate_limit_bounds_admissions_witness:
  "fst (admissions demo_limit [0, 0, 0, 500000, 1000000] None) = 3 \<and>
   of_nat (fst (admissions demo_limit [0, 0, 0, 500000, 1000000] None)) \<le> (3 :: rat)"
proof
  show "fst (admissions demo_limit [0, 0, 0, 500000, 1000000] None) = 3" by code_simp
  show "of_nat (fst (admissions demo_limit [0, 0, 0, 500000, 1000000] None)) \<le> (3 :: rat)"
    using rate_limit_bounds_admissions [of demo_limit 0 "[0, 0, 500000, 1000000]"] by (simp add: demo_limit_def del: admissions.simps)
qed

lemma ceil_seconds: "us \<le> seconds (max 1 (- ((- us) div 1000000)))"
proof -
  have "us \<le> seconds (- ((- us) div 1000000))"
    using div_mult_mod_eq [of "- us" 1000000] pos_mod_sign [of 1000000 "- us"] unfolding seconds_def by linarith
  then show ?thesis by (simp add: seconds_def max_def)
qed

lemma retry_after_enough:
  assumes "sensible c" and "bucket_ok c now st" and "\<not> bd_allowed (fst (bucket_allow c now st))"
    and "now + seconds (bd_retry_after (fst (bucket_allow c now st))) \<le> now'"
  shows "1 \<le> purse c now' (snd (bucket_allow c now st))"
proof -
  let ?T = "purse c now st"
  let ?us = "\<lceil>(1 - ?T) / rl_rate c * 1000000\<rceil>"
  note rate = rate_pos [OF assms(1)] and run = bucket_allow_run [OF assms(1,2)]
  have poor: "\<not> 1 \<le> ?T" using assms(3) run(1) by simp
  have "?us \<le> seconds (bd_retry_after (fst (bucket_allow c now st)))" unfolding run(3) [OF poor] by (rule ceil_seconds)
  also have "\<dots> \<le> now' - now" using assms(4) by (simp only: le_diff_eq add.commute)
  finally have "of_int ?us \<le> (of_int (now' - now) :: rat)" by (rule of_int_le_iff [THEN iffD2])
  then have "(1 - ?T) / rl_rate c * 1000000 \<le> of_int (now' - now)" using le_of_int_ceiling order_trans by blast
  then have "1 - ?T \<le> of_int (now' - now) / 1000000 * rl_rate c"
    using rate by (simp add: field_simps)
  moreover have "1 \<le> (of_int (rl_capacity c) :: rat)" using assms(1) by (simp add: sensible_def)
  ultimately show ?thesis using poor by (simp add: run(2) purse_def)
qed

text \<open>
  The Retry-After answer is honest: a request that is refused and comes back, with nobody else spending the
  subject's tokens, no earlier than the number of seconds it was told, is admitted.
\<close>
theorem retry_after_is_honest:
  assumes "sensible c" and "bucket_ok c now st" and "bucket_allow c now st = (d, st')" and "\<not> bd_allowed d"
    and "now + seconds (bd_retry_after d) \<le> now'"
  shows "bd_allowed (fst (bucket_allow c now' st'))"
proof -
  have "1 \<le> bd_retry_after d" using assms(3) by (auto simp: bucket_allow_def split_beta Let_def)
  then have "now \<le> now'" using assms(5) by (simp add: seconds_def)
  then have "bucket_ok c now' st'" using bucket_allow_ok [OF assms(1,2)] assms(3) by (metis snd_conv)
  moreover have "1 \<le> purse c now' st'" using retry_after_enough [OF assms(1,2)] assms(3-5) by simp
  ultimately show ?thesis using bucket_allow_run(1) [OF assms(1)] by blast
qed

definition spent :: "bucket_hash option" where
  "spent = snd (admissions demo_limit [0, 0] None)"

theorem retry_after_is_honest_witness: "bd_allowed (fst (bucket_allow demo_limit 1000000 (snd (bucket_allow demo_limit 0 spent))))"
proof (rule retry_after_is_honest [OF _ _ prod.collapse [symmetric]])
  show "sensible demo_limit" by (simp add: sensible_def demo_limit_def)
  show "bucket_ok demo_limit 0 spent" by code_simp
  show "\<not> bd_allowed (fst (bucket_allow demo_limit 0 spent))" by code_simp
  show "0 + seconds (bd_retry_after (fst (bucket_allow demo_limit 0 spent))) \<le> 1000000" by code_simp
qed

end
