(* ===== verification/Outbox_Relay.thy ===== *)
theory Outbox_Relay
  imports Schema
begin

text \<open>
  \<^verbatim>\<open>shared/bus/relay.py\<close>: the poller that ships outbox rows to the bus, and the retry loop of
  \<^verbatim>\<open>shared/bus/polling.py\<close>. \<open>bus_tables\<close> are the outbox tables of the publishing schemas, \<open>bus_sent\<close>
  is what the bus accepted, in the order it did.

  What a pass meets is given from outside: a failing SELECT, the rows other replicas hold locked, what
  each publish raised on its own, whether the relay itself was stopped while publishing, which messages
  reached the bus when the group of publishes did not finish (a cancelled sibling's may have or not) and
  whether the UPDATE or the commit fails.
\<close>

section \<open>A pass\<close>

record bus_state =
  bus_tables :: "string \<Rightarrow> outbox_row list"
  bus_sent :: "event list"
  bus_clock :: timestamp
  bus_lag :: "string \<Rightarrow> timestamp"

record pass_fate =
  pf_select :: "exn option"
  pf_locked :: "uuid \<Rightarrow> bool"
  pf_landed :: "uuid \<Rightarrow> bool"
  pf_error :: "uuid \<Rightarrow> exn option"
  pf_stop :: "exn option"
  pf_commit :: "exn option"

text \<open>\<open>SELECT .. WHERE published_at IS NULL ORDER BY occurred_at FOR UPDATE SKIP LOCKED LIMIT batch\<close>.\<close>

definition claim_rows :: "nat \<Rightarrow> pass_fate \<Rightarrow> outbox_row list \<Rightarrow> outbox_row list" where
  "claim_rows batch f rows =
     take batch (sort_key out_occurred (filter (\<lambda>r. out_published r = None \<and> \<not> pf_locked f (out_id r)) rows))"

definition publish_errors :: "pass_fate \<Rightarrow> outbox_row list \<Rightarrow> exn list" where
  "publish_errors f rows = List.map_filter (\<lambda>r. pf_error f (out_id r)) rows"

text \<open>
  The \<open>TaskGroup\<close>: the first failure cancels the siblings and the group is raised; a stop from outside
  is raised as itself when no publish had failed.
\<close>

definition group_error :: "pass_fate \<Rightarrow> outbox_row list \<Rightarrow> exn option" where
  "group_error f rows =
     (if publish_errors f rows \<noteq> [] then Some (RuntimeError ''unhandled errors in a TaskGroup'') else pf_stop f)"

definition went_out :: "pass_fate \<Rightarrow> outbox_row list \<Rightarrow> outbox_row list" where
  "went_out f rows = (if group_error f rows = None then rows else filter (\<lambda>r. pf_landed f (out_id r)) rows)"

definition mark_published :: "uuid list \<Rightarrow> timestamp \<Rightarrow> outbox_row list \<Rightarrow> outbox_row list" where
  "mark_published ids now rows = update_where (\<lambda>r. out_id r \<in> set ids) (\<lambda>r. r\<lparr>out_published := Some now\<rparr>) rows"

definition drain_schema :: "nat \<Rightarrow> (string \<Rightarrow> pass_fate) \<Rightarrow> string \<Rightarrow> (exn, bus_state, nat) prog" where
  "drain_schema batch fates schema = (\<lambda>b.
     let f = fates schema; rows = claim_rows batch f (bus_tables b schema) in
     case pf_select f of
       Some e \<Rightarrow> (Inl e, b)
     | None \<Rightarrow>
         if rows = [] then (Inr 0, b\<lparr>bus_lag := (bus_lag b)(schema := 0)\<rparr>)
         else let b1 = b\<lparr>bus_lag := (bus_lag b)(schema := max (bus_clock b - out_occurred (hd rows)) 0),
                         bus_sent := bus_sent b @ map out_event (went_out f rows)\<rparr> in
              case group_error f rows of
                Some e \<Rightarrow> (Inl e, b1)
              | None \<Rightarrow>
                  (case pf_commit f of
                     Some e \<Rightarrow> (Inl e, b1)
                   | None \<Rightarrow>
                       (Inr (length rows),
                        b1\<lparr>bus_tables := (bus_tables b)(schema :=
                             mark_published (map out_id rows) (bus_clock b) (bus_tables b schema))\<rparr>)))"

text \<open>Each schema fails on its own; what is not an \<open>Exception\<close> ends the pass.\<close>

fun drain_schemas ::
  "nat \<Rightarrow> (string \<Rightarrow> pass_fate) \<Rightarrow> string list \<Rightarrow> nat \<Rightarrow> exn list \<Rightarrow> (exn, bus_state, nat \<times> exn list) prog" where
  "drain_schemas batch fates [] published failures = ret (published, failures)"
| "drain_schemas batch fates (schema # schemas) published failures = (\<lambda>b.
     case drain_schema batch fates schema b of
       (Inr n, b') \<Rightarrow> drain_schemas batch fates schemas (published + n) failures b'
     | (Inl e, b') \<Rightarrow>
         if is_Exception e then drain_schemas batch fates schemas published (failures @ [e]) b' else (Inl e, b'))"

definition drain_once :: "nat \<Rightarrow> (string \<Rightarrow> pass_fate) \<Rightarrow> string list \<Rightarrow> (exn, bus_state, nat) prog" where
  "drain_once batch fates schemas =
     bnd (drain_schemas batch fates schemas 0 []) (\<lambda>(published, failures).
       if failures \<noteq> [] \<and> published = 0 then raise (hd failures) else ret published)"

section \<open>The loop around it\<close>

text \<open>
  \<open>poll_forever\<close> on the results of its passes, until it is stopped: how it ended and the sleeps it
  made. A cancellation ends it, any other failure doubles the backoff up to its cap.
\<close>

fun poll_forever :: "rat \<Rightarrow> rat \<Rightarrow> rat \<Rightarrow> rat \<Rightarrow> (exn + nat) list \<Rightarrow> exn option \<times> rat list" where
  "poll_forever idle initial cap backoff [] = (None, [])"
| "poll_forever idle initial cap backoff (Inr handled # results) =
     (let (r, sleeps) = poll_forever idle initial cap initial results in
      (r, if handled = 0 \<and> idle \<noteq> 0 then idle # sleeps else sleeps))"
| "poll_forever idle initial cap backoff (Inl e # results) =
     (if \<not> is_Exception e then (Some e, [])
      else let (r, sleeps) = poll_forever idle initial cap (min (backoff * 2) cap) results in (r, backoff # sleeps))"

section \<open>What a pass does to a table\<close>

text \<open>Row ids are unique per table, and marked rows were sent.\<close>

definition relay_ok :: "bus_state \<Rightarrow> bool" where
  "relay_ok b \<longleftrightarrow> (\<forall>schema. distinct (map out_id (bus_tables b schema)) \<and>
     (\<forall>r \<in> set (bus_tables b schema). out_published r \<noteq> None \<longrightarrow> out_event r \<in> set (bus_sent b)))"

definition unpublished :: "outbox_row list \<Rightarrow> outbox_row list" where
  "unpublished rows = filter (\<lambda>r. out_published r = None) rows"

text \<open>A pass keeps the events of every table and what was sent; it may mark rows.\<close>

definition relay_step :: "bus_state \<Rightarrow> bus_state \<Rightarrow> bool" where
  "relay_step b b' \<longleftrightarrow>
     relay_ok b' \<and> set (bus_sent b) \<subseteq> set (bus_sent b') \<and>
     (\<forall>schema. map out_event (bus_tables b' schema) = map out_event (bus_tables b schema) \<and>
        length (unpublished (bus_tables b' schema)) \<le> length (unpublished (bus_tables b schema)))"

lemma relay_step_trans: "relay_step a b \<Longrightarrow> relay_step b c \<Longrightarrow> relay_step a c"
  unfolding relay_step_def by (auto intro: le_trans)

lemma mark_published_props:
  "map out_event (mark_published ids now rows) = map out_event rows"
  "map out_id (mark_published ids now rows) = map out_id rows"
  "unpublished (mark_published ids now rows) = filter (\<lambda>r. out_id r \<notin> set ids) (unpublished rows)"
  by (induction rows) (auto simp: mark_published_def unpublished_def)

lemma relay_step_sent:
  assumes "relay_ok b" and "set (bus_sent b) \<subseteq> set (bus_sent b')" and "bus_tables b' = bus_tables b"
  shows "relay_step b b'"
  using assms by (auto simp: relay_step_def relay_ok_def)

lemma claimed_subset: "set (claim_rows batch f rows) \<subseteq> set (unpublished rows)"
  by (auto simp: claim_rows_def unpublished_def dest: in_set_takeD)

lemma relay_ok_marked:
  assumes ok: "relay_ok b" and rows: "rows = claim_rows batch f (bus_tables b schema)"
    and sent: "bus_sent b' = bus_sent b @ map out_event rows"
    and tabs: "bus_tables b' = (bus_tables b)(schema := mark_published (map out_id rows) now (bus_tables b schema))"
  shows "relay_step b b'"
proof -
  have "out_event r \<in> set (bus_sent b')" if r: "r \<in> set (bus_tables b' s)" "out_published r \<noteq> None" for r s
  proof (cases "\<exists>q \<in> set (bus_tables b s). q = r")
    case True
    then show ?thesis using ok r(2) sent by (auto simp: relay_ok_def)
  next
    case False
    with r tabs obtain q where q: "s = schema" "q \<in> set (bus_tables b schema)" "out_id q \<in> set (map out_id rows)" "out_event r = out_event q"
      by (auto simp: mark_published_def set_update_where split: if_splits)
    then obtain p where p: "p \<in> set rows" "out_id p = out_id q" by auto
    then have "p \<in> set (bus_tables b schema)" using claimed_subset rows by (fastforce simp: unpublished_def)
    then have "p = q" using p(2) q(2) ok by (auto simp: relay_ok_def distinct_map inj_on_def)
    with p q(4) show ?thesis by (auto simp: sent)
  qed
  then have "relay_ok b'" using ok by (auto simp: relay_ok_def tabs mark_published_props)
  then show ?thesis using sent by (auto simp: relay_step_def tabs mark_published_props intro: length_filter_le)
qed

lemma drain_schema_step: "relay_ok b \<Longrightarrow> relay_step b (snd (drain_schema batch fates schema b))"
proof -
  assume ok: "relay_ok b"
  let ?f = "fates schema" and ?b = "snd (drain_schema batch fates schema b)"
  let ?rows = "claim_rows batch ?f (bus_tables b schema)"
  show ?thesis
  proof (cases "?rows = [] \<or> pf_select ?f \<noteq> None \<or> group_error ?f ?rows \<noteq> None \<or> pf_commit ?f \<noteq> None")
    case True
    then show ?thesis by (intro relay_step_sent [OF ok]) (auto simp: drain_schema_def Let_def split: option.splits)
  next
    case False
    then have "bus_sent ?b = bus_sent b @ map out_event ?rows"
        "bus_tables ?b = (bus_tables b)(schema := mark_published (map out_id ?rows) (bus_clock b) (bus_tables b schema))"
      by (auto simp: drain_schema_def Let_def went_out_def)
    then show ?thesis using relay_ok_marked [OF ok refl] by blast
  qed
qed

lemma drain_schemas_step: "relay_ok b \<Longrightarrow> relay_step b (snd (drain_schemas batch fates schemas n fs b))"
proof (induction schemas arbitrary: n fs b)
  case Nil
  then show ?case by (auto intro: relay_step_sent)
next
  case (Cons s schemas)
  have step: "relay_step b (snd (drain_schema batch fates s b))" by (rule drain_schema_step [OF Cons.prems])
  then have "relay_ok (snd (drain_schema batch fates s b))" by (simp add: relay_step_def)
  from Cons.IH [OF this] step show ?case
    by (auto split: prod.splits sum.splits intro: relay_step_trans)
qed

lemma drain_once_step: "relay_ok b \<Longrightarrow> relay_step b (snd (drain_once batch fates schemas b))"
  using drain_schemas_step [of b batch fates schemas 0 "[]"]
  by (auto simp: drain_once_def bnd_run split: prod.splits sum.splits)

section \<open>Healthy passes make progress\<close>

definition healthy :: pass_fate where
  "healthy = \<lparr>pf_select = None, pf_locked = (\<lambda>_. False), pf_landed = (\<lambda>_. True), pf_error = (\<lambda>_. None),
     pf_stop = None, pf_commit = None\<rparr>"

lemma healthy_simps [simp]: "pf_select healthy = None" "pf_commit healthy = None" "group_error healthy rows = None"
  by (simp_all add: healthy_def group_error_def publish_errors_def List.map_filter_def)

lemma length_claimed: "length (claim_rows batch healthy rows) = min batch (length (unpublished rows))"
  by (simp add: claim_rows_def unpublished_def healthy_def)

lemma drain_schema_healthy: "\<exists>n. fst (drain_schema batch (\<lambda>_. healthy) schema b) = Inr n"
  by (auto simp: drain_schema_def Let_def)

lemma drain_schema_other: "s \<noteq> schema \<Longrightarrow> bus_tables (snd (drain_schema batch fates schema b)) s = bus_tables b s"
  by (auto simp: drain_schema_def Let_def split: option.splits)

lemma filter_remaining:
  assumes "distinct (map out_id rows)" and "set claimed \<subseteq> set (unpublished rows)" and "distinct (map out_id claimed)"
  shows "length (filter (\<lambda>r. out_id r \<notin> set (map out_id claimed)) (unpublished rows)) = length (unpublished rows) - length claimed"
proof -
  have dist: "distinct (map out_id (unpublished rows))" using assms(1) by (simp add: unpublished_def distinct_map_filter)
  then have inj: "inj_on out_id (set (unpublished rows))" and d: "distinct (unpublished rows)" by (auto simp: distinct_map)
  have "set (filter (\<lambda>r. out_id r \<notin> set (map out_id claimed)) (unpublished rows)) = set (unpublished rows) - set claimed"
    using assms(2) inj by (auto simp: inj_on_def)
  then have "length (filter (\<lambda>r. out_id r \<notin> set (map out_id claimed)) (unpublished rows)) = card (set (unpublished rows) - set claimed)"
    using d by (metis distinct_card distinct_filter)
  also have "\<dots> = card (set (unpublished rows)) - card (set claimed)" using assms(2) by (intro card_Diff_subset) auto
  also have "\<dots> = length (unpublished rows) - length claimed"
    using d assms(3) by (simp add: distinct_card distinct_map)
  finally show ?thesis .
qed

lemma drain_schema_progress:
  assumes "relay_ok b"
  shows "length (unpublished (bus_tables (snd (drain_schema batch (\<lambda>_. healthy) schema b)) schema)) \<le>
     length (unpublished (bus_tables b schema)) - batch"
proof -
  let ?t = "bus_tables b schema"
  let ?rows = "claim_rows batch healthy ?t"
  have dist: "distinct (map out_id ?t)" using assms by (simp add: relay_ok_def)
  have "distinct (map out_id ?rows)"
    using dist by (simp add: claim_rows_def take_map [symmetric] distinct_take distinct_map inj_on_def)
  then have left: "length (filter (\<lambda>r. out_id r \<notin> set (map out_id ?rows)) (unpublished ?t)) = length (unpublished ?t) - length ?rows"
    by (rule filter_remaining [OF dist claimed_subset])
  show ?thesis
  proof (cases "?rows = []")
    case True
    then have "min batch (length (unpublished ?t)) = 0" using length_claimed [of batch ?t] by simp
    then show ?thesis using True by (auto simp: drain_schema_def Let_def)
  next
    case False
    then have "bus_tables (snd (drain_schema batch (\<lambda>_. healthy) schema b)) schema = mark_published (map out_id ?rows) (bus_clock b) ?t"
      by (simp add: drain_schema_def Let_def)
    then show ?thesis using left length_claimed [of batch ?t] by (simp add: mark_published_props)
  qed
qed

lemma drain_schemas_progress:
  assumes "relay_ok b" and "schema \<in> set schemas"
  shows "length (unpublished (bus_tables (snd (drain_schemas batch (\<lambda>_. healthy) schemas n fs b)) schema)) \<le>
     length (unpublished (bus_tables b schema)) - batch"
  using assms
proof (induction schemas arbitrary: n fs b)
  case (Cons s schemas)
  obtain m b' where run: "drain_schema batch (\<lambda>_. healthy) s b = (Inr m, b')"
    using drain_schema_healthy by (metis prod.collapse)
  have step: "relay_step b b'" using drain_schema_step [OF Cons.prems(1), of batch "\<lambda>_. healthy" s] run by simp
  then have ok: "relay_ok b'" by (simp add: relay_step_def)
  let ?fin = "snd (drain_schemas batch (\<lambda>_. healthy) schemas (n + m) fs b')"
  have last: "length (unpublished (bus_tables ?fin schema)) \<le> length (unpublished (bus_tables b' schema))"
    using drain_schemas_step [OF ok] by (simp add: relay_step_def)
  show ?case
  proof (cases "schema = s")
    case True
    then show ?thesis using last drain_schema_progress [OF Cons.prems(1), of batch s] run by simp
  next
    case False
    then have "bus_tables b' schema = bus_tables b schema" using drain_schema_other [of schema s batch "\<lambda>_. healthy" b] run by simp
    then show ?thesis using Cons.IH [OF ok, of "n + m" fs] Cons.prems(2) False run by simp
  qed
qed simp

lemma drain_once_progress:
  assumes "relay_ok b" and "schema \<in> set schemas"
  shows "length (unpublished (bus_tables (snd (drain_once batch (\<lambda>_. healthy) schemas b)) schema)) \<le>
     length (unpublished (bus_tables b schema)) - batch"
  using drain_schemas_progress [OF assms, of batch 0 "[]"]
  by (auto simp: drain_once_def bnd_run split: prod.splits sum.splits)

section \<open>A history of the relay\<close>

text \<open>Passes with whatever fate, and transactions that add a row to an outbox (under its primary key).\<close>

datatype relay_event = Pass "string \<Rightarrow> pass_fate" | Emit string outbox_row

definition emit :: "string \<Rightarrow> outbox_row \<Rightarrow> bus_state \<Rightarrow> bus_state" where
  "emit schema row b =
     (if out_id row \<in> set (map out_id (bus_tables b schema)) then b
      else b\<lparr>bus_tables := (bus_tables b)(schema := bus_tables b schema @ [row\<lparr>out_published := None\<rparr>])\<rparr>)"

fun relay_history :: "nat \<Rightarrow> string list \<Rightarrow> relay_event list \<Rightarrow> bus_state \<Rightarrow> bus_state" where
  "relay_history batch schemas [] b = b"
| "relay_history batch schemas (Pass fates # es) b = relay_history batch schemas es (snd (drain_once batch fates schemas b))"
| "relay_history batch schemas (Emit schema row # es) b = relay_history batch schemas es (emit schema row b)"

lemma relay_ok_history: "relay_ok b \<Longrightarrow> relay_ok (relay_history batch schemas es b)"
proof (induction batch schemas es b rule: relay_history.induct)
  case (2 batch schemas fates es b)
  then show ?case using drain_once_step [of b batch fates schemas] by (simp add: relay_step_def)
next
  case (3 batch schemas schema row es b)
  then have "relay_ok (emit schema row b)" by (auto simp: relay_ok_def emit_def)
  with 3 show ?case by simp
qed simp

lemma healthy_passes:
  assumes "relay_ok b" and "schema \<in> set schemas" and "b' = relay_history batch schemas (replicate k (Pass (\<lambda>_. healthy))) b"
  shows "relay_ok b' \<and> map out_event (bus_tables b' schema) = map out_event (bus_tables b schema) \<and>
     length (unpublished (bus_tables b' schema)) \<le> length (unpublished (bus_tables b schema)) - k * batch"
  using assms(1,3)
proof (induction k arbitrary: b)
  case (Suc k)
  let ?b = "snd (drain_once batch (\<lambda>_. healthy) schemas b)"
  have step: "relay_step b ?b" using Suc.prems(1) by (rule drain_once_step)
  then have "relay_ok ?b" by (simp add: relay_step_def)
  from Suc.IH [OF this] Suc.prems(2) step drain_once_progress [OF Suc.prems(1) assms(2), of batch] show ?case
    by (auto simp: relay_step_def)
qed simp

section \<open>Property\<close>

text \<open>
  C19. No event is lost: after any history of outbox inserts and relay passes, with publishes, commits and whole
  passes failing in any pattern, a row is marked only if its event went out; and as many healthy
  passes as the schema has open rows deliver every event of the schema and mark every row.
\<close>
theorem relay_delivers_at_least_once:
  assumes "relay_ok b" and "schema \<in> set schemas" and "1 \<le> batch"
    and "now = relay_history batch schemas history b"
    and "length (unpublished (bus_tables now schema)) \<le> k"
    and "after = relay_history batch schemas (replicate k (Pass (\<lambda>_. healthy))) now"
  shows "(\<forall>r \<in> set (bus_tables now schema). out_published r \<noteq> None \<longrightarrow> out_event r \<in> set (bus_sent now)) \<and>
     (\<forall>r \<in> set (bus_tables after schema). out_published r \<noteq> None) \<and>
     (\<forall>r \<in> set (bus_tables now schema). out_event r \<in> set (bus_sent after))"
proof -
  have now: "relay_ok now" using relay_ok_history [OF assms(1)] assms(4) by simp
  from healthy_passes [OF this assms(2) assms(6)] have after: "relay_ok after"
      "map out_event (bus_tables after schema) = map out_event (bus_tables now schema)"
      "length (unpublished (bus_tables after schema)) \<le> length (unpublished (bus_tables now schema)) - k * batch"
    by simp_all
  have "length (unpublished (bus_tables now schema)) \<le> k * batch"
    using assms(5) mult_le_mono2 [OF assms(3), of k] by linarith
  then have "unpublished (bus_tables after schema) = []" using after(3) by simp
  then have marked: "\<forall>r \<in> set (bus_tables after schema). out_published r \<noteq> None" by (simp add: unpublished_def filter_empty_conv)
  have "out_event r \<in> set (bus_sent after)" if "r \<in> set (bus_tables now schema)" for r
  proof -
    have "out_event r \<in> out_event ` set (bus_tables after schema)" using after(2) that by (metis image_eqI image_set)
    then show ?thesis using marked after(1) by (auto simp: relay_ok_def)
  qed
  with marked now show ?thesis by (auto simp: relay_ok_def)
qed

definition demo_bus :: bus_state where
  "demo_bus = \<lparr>bus_tables = (\<lambda>_. []), bus_sent = [], bus_clock = 10, bus_lag = (\<lambda>_. 0)\<rparr>"

definition demo_row :: "uuid \<Rightarrow> outbox_row" where
  "demo_row i = \<lparr>out_id = i, out_event = StockReserved ''s'' i 1, out_occurred = 5, out_published = None\<rparr>"

text \<open>The bus is down for the first pass, and one of its publishes got out all the same.\<close>

definition demo_history :: "relay_event list" where
  "demo_history = [Emit ''orders'' (demo_row 1), Emit ''orders'' (demo_row 2),
     Pass (\<lambda>_. healthy\<lparr>pf_landed := (\<lambda>i. i = 1), pf_error := (\<lambda>_. Some ConnectionError)\<rparr>)]"

theorem relay_delivers_at_least_once_witness:
  "StockReserved ''s'' 2 1 \<in> set (bus_sent (relay_history 1 [''orders''] (replicate 2 (Pass (\<lambda>_. healthy)))
     (relay_history 1 [''orders''] demo_history demo_bus)))"
proof -
  let ?now = "relay_history 1 [''orders''] demo_history demo_bus"
  have ok: "relay_ok demo_bus" by (simp add: relay_ok_def demo_bus_def)
  have rows: "bus_tables ?now ''orders'' = [demo_row 1, demo_row 2]" by code_simp
  have "\<forall>r \<in> set (bus_tables ?now ''orders''). out_event r \<in>
      set (bus_sent (relay_history 1 [''orders''] (replicate 2 (Pass (\<lambda>_. healthy))) ?now))"
    using relay_delivers_at_least_once [OF ok _ _ refl _ refl, of "''orders''" "[''orders'']" 1 demo_history 2] rows
    by (simp add: unpublished_def demo_row_def)
  then show ?thesis unfolding rows by (simp add: demo_row_def)
qed

end
