(* ===== verification/Events.thy ===== *)
theory Events
  imports Codec
begin

text \<open>
  \<^verbatim>\<open>events/models.py\<close> and \<^verbatim>\<open>events/registry.py\<close>: the versioned contracts of the domain events and the
  gate every message passes before a handler sees it. A payload class is the list of its fields with
  their types. Pydantic is not part of the repository: the strict parse of a body against a model is
  the argument \<open>pydantic\<close>, which answers the normalized event or raises.
\<close>

section \<open>The contracts\<close>

datatype field_type =
    UuidT
  | StrT
  | DecimalT
  | DatetimeT
  | IntT int
  | OptT field_type
  | ListT field_type
  | ObjT "(string \<times> field_type) list"

text \<open>\<open>IntT low\<close> is an integer of at least \<open>low\<close>; an \<open>OptT\<close> field may be absent.\<close>

record event_model =
  em_type :: string
  em_version :: int
  em_data :: "(string \<times> field_type) list"

definition user_created_data :: "(string \<times> field_type) list" where
  "user_created_data = [(''user_id'', UuidT), (''email'', StrT)]"

definition product_write_data :: "(string \<times> field_type) list" where
  "product_write_data =
     [(''product_id'', UuidT), (''merchant_id'', UuidT), (''name'', StrT), (''price'', DecimalT), (''category'', OptT StrT)]"

definition product_deleted_data :: "(string \<times> field_type) list" where
  "product_deleted_data = [(''product_id'', UuidT), (''merchant_id'', UuidT)]"

text \<open>The version 2 payloads extend version 1 by the ordering counter.\<close>

definition product_write_data_v2 :: "(string \<times> field_type) list" where
  "product_write_data_v2 = product_write_data @ [(''product_version'', IntT 1)]"

definition product_deleted_data_v2 :: "(string \<times> field_type) list" where
  "product_deleted_data_v2 = product_deleted_data @ [(''product_version'', IntT 1)]"

definition stock_change_data :: "(string \<times> field_type) list" where
  "stock_change_data = [(''sku'', StrT), (''order_id'', UuidT), (''quantity'', IntT 1)]"

definition order_placed_line :: "(string \<times> field_type) list" where
  "order_placed_line =
     [(''product_id'', UuidT), (''product_name'', OptT StrT), (''quantity'', IntT 1), (''unit_price'', DecimalT)]"

definition order_placed_data :: "(string \<times> field_type) list" where
  "order_placed_data =
     [(''order_id'', UuidT), (''user_id'', UuidT), (''total'', DecimalT), (''items'', ListT (ObjT order_placed_line)),
      (''user_email'', OptT StrT)]"

definition payment_succeeded_data :: "(string \<times> field_type) list" where
  "payment_succeeded_data =
     [(''payment_id'', UuidT), (''order_id'', UuidT), (''amount'', DecimalT), (''gateway_ref'', OptT StrT)]"

definition payment_failed_data :: "(string \<times> field_type) list" where
  "payment_failed_data = [(''payment_id'', UuidT), (''order_id'', UuidT), (''amount'', DecimalT), (''reason'', StrT)]"

definition payment_refunded_data :: "(string \<times> field_type) list" where
  "payment_refunded_data =
     [(''payment_id'', UuidT), (''order_id'', UuidT), (''amount'', DecimalT), (''gateway_ref'', OptT StrT)]"

definition event_models :: "event_model list" where
  "event_models = map (\<lambda>(t, v, d). \<lparr>em_type = t, em_version = v, em_data = d\<rparr>)
     [(''UserCreated'', 1, user_created_data),
      (''ProductCreated'', 1, product_write_data),
      (''ProductUpdated'', 1, product_write_data),
      (''ProductDeleted'', 1, product_deleted_data),
      (''ProductCreated'', 2, product_write_data_v2),
      (''ProductUpdated'', 2, product_write_data_v2),
      (''ProductDeleted'', 2, product_deleted_data_v2),
      (''StockReserved'', 1, stock_change_data),
      (''StockReleased'', 1, stock_change_data),
      (''OrderPlaced'', 1, order_placed_data),
      (''PaymentSucceeded'', 1, payment_succeeded_data),
      (''PaymentFailed'', 1, payment_failed_data),
      (''PaymentRefunded'', 1, payment_refunded_data)]"

definition produced_versions :: "(string \<times> int) list" where
  "produced_versions =
     [(''UserCreated'', 1), (''ProductCreated'', 2), (''ProductUpdated'', 2), (''ProductDeleted'', 2), (''StockReserved'', 1),
      (''StockReleased'', 1), (''OrderPlaced'', 1), (''PaymentSucceeded'', 1), (''PaymentFailed'', 1), (''PaymentRefunded'', 1)]"

section \<open>The registry\<close>

definition em_key :: "event_model \<Rightarrow> string \<times> int" where
  "em_key m = (em_type m, em_version m)"

fun build_registry ::
  "event_model list \<Rightarrow> ((string \<times> int) \<times> event_model) list \<Rightarrow> exn + ((string \<times> int) \<times> event_model) list" where
  "build_registry [] reg = Inr reg"
| "build_registry (m # ms) reg =
     (if map_of reg (em_key m) \<noteq> None then Inl (RuntimeError ''duplicate event registration'')
      else build_registry ms (reg @ [(em_key m, m)]))"

definition event_registry :: "((string \<times> int) \<times> event_model) list" where
  "event_registry = map (\<lambda>m. (em_key m, m)) event_models"

lemma event_registry_built: "build_registry event_models [] = Inr event_registry"
  by code_simp

text \<open>
  The number a JSON token stands for; Python takes \<open>1\<close>, \<open>1.0\<close>, \<open>1e0\<close> and \<open>true\<close> for equal keys (the
  rounding of long floats aside).
\<close>

definition ten_to :: "int \<Rightarrow> rat" where
  "ten_to k = (if 0 \<le> k then 10 ^ nat k else 1 / 10 ^ nat (- k))"

definition num_value :: "string \<Rightarrow> rat option" where
  "num_value t =
     (let neg = (t \<noteq> [] \<and> hd t = CHR ''-''); u = (if neg then tl t else t);
          ip = takeWhile is_digit u; v = dropWhile is_digit u;
          dot = (v \<noteq> [] \<and> hd v = CHR ''.'');
          fp = (if dot then takeWhile is_digit (tl v) else []); w = (if dot then dropWhile is_digit (tl v) else v) in
      if ip = [] then None
      else map_option (\<lambda>k. (if neg then - 1 else 1) * of_int (digits_value (ip @ fp)) * ten_to (k - int (length fp)))
             (if w = [] then Some 0 else py_int (tl w)))"

definition json_number :: "json \<Rightarrow> rat option" where
  "json_number j = (case j of JNum t \<Rightarrow> num_value t | JBool b \<Rightarrow> Some (if b then 1 else 0) | _ \<Rightarrow> None)"

definition unhashable :: "json \<Rightarrow> bool" where
  "unhashable j = (case j of JList _ \<Rightarrow> True | JObj _ \<Rightarrow> True | _ \<Rightarrow> False)"

definition lookup_model :: "json \<Rightarrow> json \<Rightarrow> exn + event_model" where
  "lookup_model ty ver =
     (if unhashable ty \<or> unhashable ver then Inl (TypeError ''unhashable type'')
      else case find (\<lambda>((t, v), m). ty = JStr t \<and> json_number ver = Some (of_int v)) event_registry of
        Some (_, m) \<Rightarrow> Inr m
      | None \<Rightarrow> Inl (UnknownEventError ''no event registered''))"

text \<open>\<open>raw.get(name)\<close>: the last of equal keys counts.\<close>

definition json_get :: "(string \<times> json) list \<Rightarrow> string \<Rightarrow> json" where
  "json_get members name = (case map_of (rev members) name of Some v \<Rightarrow> v | None \<Rightarrow> JNull)"

definition validate_event :: "(event_model \<Rightarrow> string \<Rightarrow> exn + json) \<Rightarrow> string \<Rightarrow> exn + json" where
  "validate_event pydantic body =
     (case json_loads body of
        None \<Rightarrow> Inl (ValueError ''JSONDecodeError'')
      | Some (JObj members) \<Rightarrow>
          (case lookup_model (json_get members ''type'') (json_get members ''schema_version'') of
             Inl e \<Rightarrow> Inl e
           | Inr m \<Rightarrow> pydantic m body)
      | Some _ \<Rightarrow> Inl (UnknownEventError ''event body is not a JSON object''))"

section \<open>Events of the outboxes conform\<close>

text \<open>The value of a field against its type, on events that have not been printed yet.\<close>

datatype field_value =
    UuidV uuid
  | StrV string
  | DecimalV decimal
  | IntV int
  | NoneV
  | ListV "field_value list"
  | ObjV "(string \<times> field_value) list"

fun conforms :: "field_type \<Rightarrow> field_value \<Rightarrow> bool"
  and conform_all :: "(string \<times> field_type) list \<Rightarrow> (string \<times> field_value) list \<Rightarrow> bool" where
  "conforms UuidT v = (case v of UuidV _ \<Rightarrow> True | _ \<Rightarrow> False)"
| "conforms StrT v = (case v of StrV _ \<Rightarrow> True | _ \<Rightarrow> False)"
| "conforms DecimalT v = (case v of DecimalV _ \<Rightarrow> True | _ \<Rightarrow> False)"
| "conforms DatetimeT v = False"
| "conforms (IntT low) v = (case v of IntV n \<Rightarrow> low \<le> n | _ \<Rightarrow> False)"
| "conforms (OptT t) v = (v = NoneV \<or> conforms t v)"
| "conforms (ListT t) v = (case v of ListV vs \<Rightarrow> list_all (conforms t) vs | _ \<Rightarrow> False)"
| "conforms (ObjT fs) v = (case v of ObjV vs \<Rightarrow> conform_all fs vs | _ \<Rightarrow> False)"
| "conform_all [] vs = (vs = [])"
| "conform_all ((name, t) # fs) vs =
     (case vs of [] \<Rightarrow> False | (name', v) # vs' \<Rightarrow> name' = name \<and> conforms t v \<and> conform_all fs vs')"

definition opt_str :: "string option \<Rightarrow> field_value" where
  "opt_str x = (case x of None \<Rightarrow> NoneV | Some t \<Rightarrow> StrV t)"

text \<open>The \<open>data\<close> the outbox builders put into each event.\<close>

definition event_data :: "event \<Rightarrow> (string \<times> field_value) list" where
  "event_data e =
     (case e of
        StockReserved sku oid n \<Rightarrow> [(''sku'', StrV sku), (''order_id'', UuidV oid), (''quantity'', IntV n)]
      | StockReleased sku oid n \<Rightarrow> [(''sku'', StrV sku), (''order_id'', UuidV oid), (''quantity'', IntV n)]
      | OrderPlaced oid uid amount email items \<Rightarrow>
          [(''order_id'', UuidV oid), (''user_id'', UuidV uid), (''total'', DecimalV amount),
           (''items'', ListV (map (\<lambda>(pid, name, n, price).
              ObjV [(''product_id'', UuidV pid), (''product_name'', StrV name), (''quantity'', IntV n), (''unit_price'', DecimalV price)])
              items)),
           (''user_email'', opt_str email)]
      | PaymentSucceeded pid oid amount ref \<Rightarrow>
          [(''payment_id'', UuidV pid), (''order_id'', UuidV oid), (''amount'', DecimalV amount), (''gateway_ref'', opt_str ref)]
      | PaymentFailed pid oid amount reason \<Rightarrow>
          [(''payment_id'', UuidV pid), (''order_id'', UuidV oid), (''amount'', DecimalV amount), (''reason'', StrV reason)]
      | PaymentRefunded pid oid amount ref \<Rightarrow>
          [(''payment_id'', UuidV pid), (''order_id'', UuidV oid), (''amount'', DecimalV amount), (''gateway_ref'', opt_str ref)])"

text \<open>An event meets the contract the registry holds for its type and produced version.\<close>

definition meets_contract :: "event \<Rightarrow> bool" where
  "meets_contract e \<longleftrightarrow> (\<exists>v. map_of produced_versions (event_type e) = Some v \<and>
     (\<exists>m. map_of event_registry (event_type e, v) = Some m \<and> conforms (ObjT (em_data m)) (ObjV (event_data e))))"

lemmas contract_defs = meets_contract_def produced_versions_def event_registry_def event_models_def em_key_def event_data_def
  stock_change_data_def order_placed_data_def order_placed_line_def payment_succeeded_data_def payment_failed_data_def
  payment_refunded_data_def

text \<open>Which is a condition on the quantities only.\<close>

lemma meets_contract_stock [simp]:
  "meets_contract (StockReserved k i n) \<longleftrightarrow> 1 \<le> n" "meets_contract (StockReleased k i n) \<longleftrightarrow> 1 \<le> n"
  by (simp_all add: contract_defs)

lemma meets_contract_payment [simp]:
  "meets_contract (PaymentSucceeded p i a r)" "meets_contract (PaymentFailed p i a q)" "meets_contract (PaymentRefunded p i a r)"
  by (simp_all add: contract_defs opt_str_def split: option.split)

lemma meets_contract_order [simp]:
  "meets_contract (OrderPlaced i u a m items) \<longleftrightarrow> (\<forall>(p, k, n, c) \<in> set items. 1 \<le> n)"
  by (simp add: contract_defs list_all_iff opt_str_def split: option.split prod.split)

end
