(* ===== verification/Bus_Consumer.thy ===== *)
theory Bus_Consumer
  imports Events Valkey_Lease
begin

text \<open>
  \<^verbatim>\<open>shared/bus/consumer.py\<close>: one subscription, drained by any number of workers at once. A delivery is
  a copy of a message some worker works on; it advances one \<open>await\<close> at a time, interleaved with every
  other delivery, and each \<open>await\<close> completes, raises or is cancelled (the reply). The registry gate is
  \<open>validate_event\<close>; the handler is the subscriber's: what counts of it here is whether it succeeded.
\<close>

section \<open>State\<close>

datatype marker = Done | Token nat

record message =
  msg_id :: nat
  msg_body :: string

record consumer_config =
  cc_name :: string
  cc_ttl :: timestamp
  cc_lease :: timestamp
  cc_pydantic :: "event_model \<Rightarrow> string \<Rightarrow> exn + json"

text \<open>
  Where \<open>_process\<close> and \<open>_process_and_ack\<close> stand, with their local variables: the event id and, while the
  lease is claimed, its token. \<open>Over True\<close> is a deleted message, every other end leaves it for redrive.
\<close>

datatype stage =
    Gate
  | Claim string
  | Recheck string
  | Handle string nat
  | Release string nat
  | Complete string nat
  | Ack string
  | Over bool

text \<open>
  The ghost fields \<open>cs_sent\<close> (messages that reached the queue), \<open>cs_started\<close> and \<open>cs_completed\<close> (events
  whose handler was started, or whose completion marker was written, and when) and \<open>cs_handled\<close>
  (events whose handler succeeded) are for the statements.
\<close>

record consumer =
  cs_now :: timestamp
  cs_valkey :: "string \<Rightarrow> marker slot"
  cs_queue :: "message list"
  cs_dlq :: "message list"
  cs_deliveries :: "(message \<times> stage) list"
  cs_next :: nat
  cs_sent :: "message list"
  cs_started :: "(string \<times> timestamp) list"
  cs_handled :: "string list"
  cs_completed :: "(string \<times> timestamp) list"

section \<open>The operations\<close>

definition marker_key :: "string \<Rightarrow> string \<Rightarrow> string" where
  "marker_key name event_id = ''event:'' @ name @ '':'' @ event_id"

definition event_id_of :: "consumer_config \<Rightarrow> message \<Rightarrow> exn + string" where
  "event_id_of cfg m =
     (case validate_event (cc_pydantic cfg) (msg_body m) of
        Inl e \<Rightarrow> Inl e
      | Inr (JObj members) \<Rightarrow> (case json_get members ''event_id'' of JStr i \<Rightarrow> Inr i | _ \<Rightarrow> Inl (KeyError ''event_id''))
      | Inr _ \<Rightarrow> Inl (TypeError ''event is no mapping''))"

abbreviation marker_of :: "consumer_config \<Rightarrow> consumer \<Rightarrow> string \<Rightarrow> marker slot" where
  "marker_of cfg s e \<equiv> cs_valkey s (marker_key (cc_name cfg) e)"

definition on_marker :: "consumer_config \<Rightarrow> string \<Rightarrow> (marker slot \<Rightarrow> 'a \<times> marker slot) \<Rightarrow> consumer \<Rightarrow> 'a \<times> consumer" where
  "on_marker cfg e op s =
     (let (x, slot) = op (marker_of cfg s e) in (x, s\<lparr>cs_valkey := (cs_valkey s)(marker_key (cc_name cfg) e := slot)\<rparr>))"

definition is_done :: "consumer_config \<Rightarrow> string \<Rightarrow> consumer \<Rightarrow> bool \<times> consumer" where
  "is_done cfg e s = (vk_get (cs_now s) (marker_of cfg s e) = Some Done, s)"

definition claim_lease :: "consumer_config \<Rightarrow> string \<Rightarrow> nat \<Rightarrow> consumer \<Rightarrow> bool \<times> consumer" where
  "claim_lease cfg e t s = on_marker cfg e (set_nx (cs_now s) (cc_lease cfg) (Token t)) s"

definition complete_if_owner :: "consumer_config \<Rightarrow> string \<Rightarrow> nat \<Rightarrow> consumer \<Rightarrow> bool \<times> consumer" where
  "complete_if_owner cfg e t s =
     (let (won, s1) = on_marker cfg e (set_if_owner (cs_now s) (cc_ttl cfg) (Token t) Done) s in
      (won, if won then s1\<lparr>cs_completed := (e, cs_now s) # cs_completed s\<rparr> else s1))"

definition release_if_owner :: "consumer_config \<Rightarrow> string \<Rightarrow> nat \<Rightarrow> consumer \<Rightarrow> bool \<times> consumer" where
  "release_if_owner cfg e t s = on_marker cfg e (del_if_owner (cs_now s) (Token t)) s"

definition delete_message :: "message \<Rightarrow> consumer \<Rightarrow> unit \<times> consumer" where
  "delete_message m s = ((), s\<lparr>cs_queue := filter (\<lambda>q. msg_id q \<noteq> msg_id m) (cs_queue s)\<rparr>)"

text \<open>One \<open>await\<close> of a delivery. A crash of the worker is the step \<open>crash\<close> below.\<close>

fun process_step :: "consumer_config \<Rightarrow> valkey_reply \<Rightarrow> message \<Rightarrow> stage \<Rightarrow> consumer \<Rightarrow> stage \<times> consumer" where
  "process_step cfg r m Gate s =
     (case event_id_of cfg m of
        Inl _ \<Rightarrow> (Over False, s)
      | Inr e \<Rightarrow>
          (case vk_call r (is_done cfg e) s of
             (Some True, s') \<Rightarrow> (Ack e, s')
           | (Some False, s') \<Rightarrow> (Claim e, s')
           | (None, s') \<Rightarrow> (Over False, s')))"
| "process_step cfg r m (Claim e) s =
     (let t = cs_next s; s0 = s\<lparr>cs_next := Suc t\<rparr> in
      case vk_call r (claim_lease cfg e t) s0 of
        (Some True, s') \<Rightarrow> (Handle e t, s'\<lparr>cs_started := (e, cs_now s) # cs_started s\<rparr>)
      | (Some False, s') \<Rightarrow> (Recheck e, s')
      | (None, s') \<Rightarrow> (Over False, s'))"
| "process_step cfg r m (Recheck e) s =
     (case vk_call r (is_done cfg e) s of
        (Some True, s') \<Rightarrow> (Ack e, s')
      | (_, s') \<Rightarrow> (Over False, s'))"
| "process_step cfg r m (Handle e t) s =
     (if r = Answered then (Complete e t, s\<lparr>cs_handled := e # cs_handled s\<rparr>) else (Release e t, s))"
| "process_step cfg r m (Release e t) s = (Over False, snd (vk_call r (release_if_owner cfg e t) s))"
| "process_step cfg r m (Complete e t) s =
     (case vk_call r (complete_if_owner cfg e t) s of
        (Some True, s') \<Rightarrow> (Ack e, s')
      | (_, s') \<Rightarrow> (Over False, s'))"
| "process_step cfg r m (Ack e) s =
     (case vk_call r (delete_message m) s of
        (Some _, s') \<Rightarrow> (Over True, s')
      | (None, s') \<Rightarrow> (Over False, s'))"
| "process_step cfg r m (Over b) s = (Over b, s)"

section \<open>The subscription at work\<close>

text \<open>
  Time passes; SNS puts a message into the queue; a worker receives one that is there (again); a
  delivery takes its next step; its worker dies; SQS moves a message to the dead-letter queue; other
  users of Valkey write their own keys.
\<close>

inductive consumer_step :: "consumer_config \<Rightarrow> consumer \<Rightarrow> consumer \<Rightarrow> bool" for cfg where
  tick: "cs_now s \<le> t \<Longrightarrow> consumer_step cfg s (s\<lparr>cs_now := t\<rparr>)"
| arrive: "msg_id m \<notin> msg_id ` set (cs_sent s) \<Longrightarrow>
     consumer_step cfg s (s\<lparr>cs_queue := m # cs_queue s, cs_sent := m # cs_sent s\<rparr>)"
| receive: "m \<in> set (cs_queue s) \<Longrightarrow> consumer_step cfg s (s\<lparr>cs_deliveries := cs_deliveries s @ [(m, Gate)]\<rparr>)"
| advance: "i < length (cs_deliveries s) \<Longrightarrow> cs_deliveries s ! i = (m, st) \<Longrightarrow> process_step cfg r m st s = (st', s') \<Longrightarrow>
     consumer_step cfg s (s'\<lparr>cs_deliveries := (cs_deliveries s)[i := (m, st')]\<rparr>)"
| crash: "i < length (cs_deliveries s) \<Longrightarrow> cs_deliveries s ! i = (m, st) \<Longrightarrow>
     consumer_step cfg s (s\<lparr>cs_deliveries := (cs_deliveries s)[i := (m, Over False)]\<rparr>)"
| redrive: "m \<in> set (cs_queue s) \<Longrightarrow>
     consumer_step cfg s (s\<lparr>cs_queue := remove1 m (cs_queue s), cs_dlq := m # cs_dlq s\<rparr>)"
| elsewhere: "\<forall>e. v (marker_key (cc_name cfg) e) = marker_of cfg s e \<Longrightarrow> consumer_step cfg s (s\<lparr>cs_valkey := v\<rparr>)"

definition fresh_consumer :: consumer where
  "fresh_consumer = \<lparr>cs_now = 0, cs_valkey = (\<lambda>_. None), cs_queue = [], cs_dlq = [], cs_deliveries = [], cs_next = 0,
     cs_sent = [], cs_started = [], cs_handled = [], cs_completed = []\<rparr>"

text \<open>The keys of two subscriptions never meet: event ids are all of one length.\<close>

lemma marker_key_scoped:
  "length e = length f \<Longrightarrow> marker_key n e = marker_key k f \<longleftrightarrow> n = k \<and> e = f"
proof
  assume len: "length e = length f" and eq: "marker_key n e = marker_key k f"
  then have "(n @ '':'') @ e = (k @ '':'') @ f" by (simp add: marker_key_def)
  then have "n @ '':'' = k @ '':'' \<and> e = f" using len append_eq_append_conv [of "n @ '':''" "k @ '':''" e f] by blast
  then show "n = k \<and> e = f" by simp
qed simp

lemma marker_key_same [simp]: "marker_key n e = marker_key n f \<longleftrightarrow> e = f"
  by (simp add: marker_key_def)

section \<open>Invariant\<close>

fun stage_event :: "stage \<Rightarrow> string option" where
  "stage_event Gate = None"
| "stage_event (Over b) = None"
| "stage_event (Claim e) = Some e"
| "stage_event (Recheck e) = Some e"
| "stage_event (Handle e t) = Some e"
| "stage_event (Release e t) = Some e"
| "stage_event (Complete e t) = Some e"
| "stage_event (Ack e) = Some e"

fun stage_token :: "stage \<Rightarrow> nat option" where
  "stage_token (Handle e t) = Some t"
| "stage_token (Release e t) = Some t"
| "stage_token (Complete e t) = Some t"
| "stage_token _ = None"

fun past_handler :: "stage \<Rightarrow> bool" where
  "past_handler (Complete e t) = True"
| "past_handler (Ack e) = True"
| "past_handler _ = False"

definition delivery_ok :: "consumer_config \<Rightarrow> consumer \<Rightarrow> message \<times> stage \<Rightarrow> bool" where
  "delivery_ok cfg s d \<longleftrightarrow> fst d \<in> set (cs_sent s) \<and>
     (\<forall>e. stage_event (snd d) = Some e \<longrightarrow>
        event_id_of cfg (fst d) = Inr e \<and> (past_handler (snd d) \<longrightarrow> e \<in> set (cs_handled s))) \<and>
     (\<forall>t. stage_token (snd d) = Some t \<longrightarrow> t < cs_next s)"

text \<open>What a marker says is true: a completed event was handled, a lease was drawn.\<close>

definition marker_ok :: "consumer_config \<Rightarrow> consumer \<Rightarrow> string \<Rightarrow> bool" where
  "marker_ok cfg s e \<longleftrightarrow> (\<forall>x. marker_of cfg s e = Some (Done, x) \<longrightarrow> e \<in> set (cs_handled s)) \<and>
     (\<forall>t x. marker_of cfg s e = Some (Token t, x) \<longrightarrow> t < cs_next s)"

definition accounted :: "consumer_config \<Rightarrow> consumer \<Rightarrow> message \<Rightarrow> bool" where
  "accounted cfg s m \<longleftrightarrow> m \<in> set (cs_queue s) \<or> m \<in> set (cs_dlq s) \<or>
     (\<exists>e. event_id_of cfg m = Inr e \<and> e \<in> set (cs_handled s))"

definition completion_ok :: "consumer_config \<Rightarrow> consumer \<Rightarrow> string \<times> timestamp \<Rightarrow> bool" where
  "completion_ok cfg s c \<longleftrightarrow> snd c \<le> cs_now s \<and>
     (cs_now s < snd c + cc_ttl cfg \<longrightarrow> (\<exists>x. marker_of cfg s (fst c) = Some (Done, x) \<and> snd c + cc_ttl cfg \<le> x))"

definition spaced :: "consumer_config \<Rightarrow> consumer \<Rightarrow> bool" where
  "spaced cfg s \<longleftrightarrow> (\<forall>(e, a) \<in> set (cs_started s). a \<le> cs_now s \<and>
     (\<forall>(f, b) \<in> set (cs_completed s). f = e \<longrightarrow> a \<le> b \<or> b + cc_ttl cfg \<le> a))"

definition consumer_ok :: "consumer_config \<Rightarrow> consumer \<Rightarrow> bool" where
  "consumer_ok cfg s \<longleftrightarrow>
     (\<forall>d \<in> set (cs_deliveries s). delivery_ok cfg s d) \<and> (\<forall>e. marker_ok cfg s e) \<and>
     set (cs_queue s) \<subseteq> set (cs_sent s) \<and> inj_on msg_id (set (cs_sent s)) \<and>
     (\<forall>m \<in> set (cs_sent s). accounted cfg s m) \<and>
     (\<forall>c \<in> set (cs_completed s). completion_ok cfg s c) \<and> spaced cfg s"

lemmas consumer_defs = delivery_ok_def marker_ok_def accounted_def completion_ok_def spaced_def
lemmas marker_ops = claim_lease_def complete_if_owner_def release_if_owner_def on_marker_def set_nx_def set_if_owner_def
  del_if_owner_def Let_def

text \<open>The part of the invariant that does not look at the deliveries.\<close>

definition books :: "consumer_config \<Rightarrow> consumer \<Rightarrow> bool" where
  "books cfg s \<longleftrightarrow> (\<forall>e. marker_ok cfg s e) \<and> set (cs_queue s) \<subseteq> set (cs_sent s) \<and> inj_on msg_id (set (cs_sent s)) \<and>
     (\<forall>m \<in> set (cs_sent s). accounted cfg s m) \<and> (\<forall>c \<in> set (cs_completed s). completion_ok cfg s c) \<and> spaced cfg s"

lemma consumer_ok_books: "consumer_ok cfg s \<longleftrightarrow> (\<forall>d \<in> set (cs_deliveries s). delivery_ok cfg s d) \<and> books cfg s"
  by (auto simp: consumer_ok_def books_def)

text \<open>A marker that is not a live completion closes the window of every completion of its event.\<close>

lemma window_closed:
  assumes "books cfg s" and "(e, b) \<in> set (cs_completed s)" and "vk_get (cs_now s) (marker_of cfg s e) \<noteq> Some Done"
  shows "b + cc_ttl cfg \<le> cs_now s"
proof (rule ccontr)
  assume late: "\<not> b + cc_ttl cfg \<le> cs_now s"
  have "completion_ok cfg s (e, b)" using assms(1,2) by (auto simp: books_def)
  then obtain x where "marker_of cfg s e = Some (Done, x)" "b + cc_ttl cfg \<le> x" using late by (auto simp: completion_ok_def)
  with late assms(3) show False by (auto simp: vk_get_Some)
qed

text \<open>Every write to a marker passes its owner check, so it leaves live completions alone.\<close>

lemma books_marker:
  assumes books: "books cfg s" and live: "slot \<noteq> marker_of cfg s e \<Longrightarrow> vk_get (cs_now s) (marker_of cfg s e) \<noteq> Some Done"
    and marked: "\<And>x. slot = Some (Done, x) \<Longrightarrow> e \<in> set (cs_handled s)" "\<And>t x. slot = Some (Token t, x) \<Longrightarrow> t < cs_next s"
  shows "books cfg (s\<lparr>cs_valkey := (cs_valkey s)(marker_key (cc_name cfg) e := slot)\<rparr>)" (is "books cfg ?s")
proof (cases "slot = marker_of cfg s e")
  case True
  then show ?thesis using books by (simp add: fun_upd_idem)
next
  case False
  have "completion_ok cfg ?s c" if c: "c \<in> set (cs_completed s)" for c
  proof (cases "fst c = e")
    case True
    then have "snd c + cc_ttl cfg \<le> cs_now s" using window_closed [OF books _ live [OF False], of "snd c"] c by (metis prod.collapse)
    then show ?thesis using books c by (auto simp: books_def completion_ok_def)
  next
    case False
    then show ?thesis using books c by (auto simp: books_def completion_ok_def)
  qed
  moreover have "marker_ok cfg ?s f" for f using books marked by (auto simp: books_def marker_ok_def)
  ultimately show ?thesis using books by (auto simp: books_def accounted_def spaced_def)
qed

lemma books_claim: "books cfg s \<Longrightarrow> t < cs_next s \<Longrightarrow> books cfg (snd (claim_lease cfg e t s))"
  using books_marker [of cfg s "Some (Token t, cs_now s + cc_lease cfg)" e] by (auto simp: marker_ops)

lemma books_release: "books cfg s \<Longrightarrow> books cfg (snd (release_if_owner cfg e t s))"
  using books_marker [of cfg s None e] by (auto simp: marker_ops)

lemma books_start:
  assumes "books cfg s" and "vk_get (cs_now s) (marker_of cfg s e) \<noteq> Some Done"
  shows "books cfg (s\<lparr>cs_started := (e, cs_now s) # cs_started s\<rparr>)"
  using assms(1) window_closed [OF assms(1) _ assms(2)]
  by (auto simp: books_def marker_ok_def accounted_def completion_ok_def spaced_def)

lemma books_completed:
  assumes books: "books cfg s" and "e \<in> set (cs_handled s)"
  shows "books cfg (snd (complete_if_owner cfg e t s))"
proof (cases "vk_get (cs_now s) (marker_of cfg s e) = Some (Token t)")
  case True
  let ?s = "s\<lparr>cs_valkey := (cs_valkey s)(marker_key (cc_name cfg) e := Some (Done, cs_now s + cc_ttl cfg))\<rparr>"
  have "books cfg ?s" using True assms by (intro books_marker) auto
  then have "books cfg (?s\<lparr>cs_completed := (e, cs_now s) # cs_completed s\<rparr>)"
    by (auto simp: books_def marker_ok_def accounted_def completion_ok_def spaced_def)
  then show ?thesis using True by (simp add: marker_ops)
next
  case False
  then show ?thesis using books by (simp add: marker_ops fun_upd_idem)
qed

lemma books_next: "books cfg s \<Longrightarrow> cs_next s \<le> n \<Longrightarrow> books cfg (s\<lparr>cs_next := n\<rparr>)"
  by (fastforce simp: books_def marker_ok_def accounted_def completion_ok_def spaced_def)

lemma books_handled: "books cfg s \<Longrightarrow> books cfg (s\<lparr>cs_handled := e # cs_handled s\<rparr>)"
  by (fastforce simp: books_def marker_ok_def accounted_def completion_ok_def spaced_def)

lemma books_delete:
  assumes "books cfg s" and "m \<in> set (cs_sent s)" and "event_id_of cfg m = Inr e" and "e \<in> set (cs_handled s)"
  shows "books cfg (snd (delete_message m s))"
proof -
  have "q = m" if "q \<in> set (cs_sent s)" "msg_id q = msg_id m" for q
    using that assms(1,2) by (auto simp: books_def inj_on_def)
  with assms show ?thesis
    by (auto simp: books_def delete_message_def marker_ok_def accounted_def completion_ok_def spaced_def)
qed

section \<open>Every step keeps it\<close>

text \<open>What a delivery may rely on of the steps of the others.\<close>

definition grows :: "consumer \<Rightarrow> consumer \<Rightarrow> bool" where
  "grows s s' \<longleftrightarrow> set (cs_sent s) \<subseteq> set (cs_sent s') \<and> set (cs_handled s) \<subseteq> set (cs_handled s') \<and> cs_next s \<le> cs_next s'"

lemma delivery_ok_grows: "delivery_ok cfg s d \<Longrightarrow> grows s s' \<Longrightarrow> delivery_ok cfg s' d"
  by (fastforce simp: delivery_ok_def grows_def)

lemma is_done_handled: "books cfg s \<Longrightarrow> fst (is_done cfg e s) \<Longrightarrow> e \<in> set (cs_handled s)"
  by (auto simp: is_done_def vk_get_Some books_def marker_ok_def)

lemma grows_ops:
  "grows s (snd (is_done cfg e s))" "grows s (snd (claim_lease cfg e t s))" "grows s (snd (release_if_owner cfg e t s))"
  "grows s (snd (complete_if_owner cfg e t s))" "grows s (snd (delete_message m s))"
  by (simp_all add: grows_def is_done_def delete_message_def marker_ops split: prod.split)

lemma deliveries_ops:
  "cs_deliveries (snd (is_done cfg e s)) = cs_deliveries s" "cs_deliveries (snd (claim_lease cfg e t s)) = cs_deliveries s"
  "cs_deliveries (snd (release_if_owner cfg e t s)) = cs_deliveries s"
  "cs_deliveries (snd (complete_if_owner cfg e t s)) = cs_deliveries s" "cs_deliveries (snd (delete_message m s)) = cs_deliveries s"
  by (simp_all add: is_done_def delete_message_def marker_ops split: prod.split)

lemma claim_won: "fst (claim_lease cfg e t s) \<Longrightarrow> marker_of cfg (snd (claim_lease cfg e t s)) e = Some (Token t, cs_now s + cc_lease cfg)"
  by (auto simp: marker_ops split: if_splits)

lemma claim_now [simp]: "cs_now (snd (claim_lease cfg e t s)) = cs_now s" "cs_started (snd (claim_lease cfg e t s)) = cs_started s"
  by (simp_all add: marker_ops split: prod.split)

lemma process_claim:
  assumes "books cfg s" and "delivery_ok cfg s (m, Claim e)" and run: "process_step cfg r m (Claim e) s = (st', s')"
  shows "books cfg s' \<and> grows s s' \<and> cs_deliveries s' = cs_deliveries s \<and> delivery_ok cfg s' (m, st')"
proof -
  let ?s = "s\<lparr>cs_next := Suc (cs_next s)\<rparr>" and ?t = "cs_next s"
  let ?c = "claim_lease cfg e ?t ?s"
  have books: "books cfg ?s" "books cfg (snd ?c)"
    using books_next [OF assms(1), of "Suc ?t"] books_claim [of cfg ?s ?t e] by auto
  have grows: "grows s ?s" "grows s (snd ?c)" using grows_ops(2) [of ?s cfg e ?t] by (auto simp: grows_def)
  have ids: "delivery_ok cfg s' (m, st')" if "grows s s'" "stage_event st' = Some e \<or> stage_event st' = None" "\<not> past_handler st'"
      "\<And>t. stage_token st' = Some t \<Longrightarrow> t < cs_next s'" for s' st'
    using that assms(2) by (auto simp: delivery_ok_def grows_def)
  obtain x s1 where call: "vk_call r (claim_lease cfg e ?t) ?s = (x, s1)" by (cases "vk_call r (claim_lease cfg e ?t) ?s")
  from call show ?thesis
  proof (cases rule: vk_call_cases)
    case landed
    have started: "books cfg (snd ?c\<lparr>cs_started := (e, cs_now s) # cs_started s\<rparr>)" if "fst ?c"
      using books_start [OF books(2), of e] claim_won [OF that] by simp
    have next_: "?t < cs_next (snd ?c)" using grows_ops(2) [of ?s cfg e ?t] by (simp add: grows_def)
    show ?thesis
    proof (cases "x = Some True")
      case True
      then have st: "st' = Handle e ?t" "s' = snd ?c\<lparr>cs_started := (e, cs_now s) # cs_started s\<rparr>" and won: "fst ?c"
        using run call landed by (auto simp: Let_def)
      have g: "grows s s'" using grows(2) by (simp add: st grows_def)
      moreover have "delivery_ok cfg s' (m, st')" using next_ by (intro ids [OF g]) (simp_all add: st)
      ultimately show ?thesis using started [OF won] deliveries_ops(2) [of cfg e ?t ?s] by (simp add: st)
    next
      case False
      then have st: "s' = snd ?c" "st' = Recheck e \<or> st' = Over False"
        using run call landed by (auto simp: Let_def split: option.splits bool.splits)
      then show ?thesis using books(2) grows(2) deliveries_ops(2) [of cfg e ?t ?s] ids [of s' st'] by auto
    qed
  next
    case lost
    then have st: "s' = ?s" "st' = Over False" using run call by (auto simp: Let_def)
    then show ?thesis using books(1) grows(1) ids [of s' st'] by auto
  qed
qed

text \<open>Every other stage is one call, which keeps the books, and an end that is justified by its answer.\<close>

lemma process_call:
  assumes "vk_call r op s = (x, s')" and "books cfg s" and "books cfg (snd (op s))" and "grows s (snd (op s))"
    and "cs_deliveries (snd (op s)) = cs_deliveries s"
  shows "books cfg s' \<and> grows s s' \<and> cs_deliveries s' = cs_deliveries s \<and> (\<forall>v. x = Some v \<longrightarrow> v = fst (op s) \<and> s' = snd (op s))"
  using assms(1)
proof (cases rule: vk_call_cases)
  case landed
  then show ?thesis using assms by auto
next
  case lost
  then show ?thesis using assms by (auto simp: grows_def)
qed

lemma delivery_left: "delivery_ok cfg s (m, st) \<Longrightarrow> grows s s' \<Longrightarrow> delivery_ok cfg s' (m, Over b)"
  by (auto simp: delivery_ok_def grows_def)

lemma delivery_acks:
  "delivery_ok cfg s (m, st) \<Longrightarrow> grows s s' \<Longrightarrow> event_id_of cfg m = Inr e \<Longrightarrow> e \<in> set (cs_handled s') \<Longrightarrow> delivery_ok cfg s' (m, Ack e)"
  by (auto simp: delivery_ok_def grows_def)

lemma is_done_call:
  assumes "vk_call r (is_done cfg e) s = (x, s')" and "books cfg s"
  shows "s' = s \<and> (x = Some True \<longrightarrow> e \<in> set (cs_handled s))"
  using assms is_done_handled [of cfg s e] by (auto simp: is_done_def elim!: vk_call_cases)

lemma process_ok:
  assumes books: "books cfg s" and d: "delivery_ok cfg s (m, st)" and run: "process_step cfg r m st s = (st', s')"
  shows "books cfg s' \<and> grows s s' \<and> cs_deliveries s' = cs_deliveries s \<and> delivery_ok cfg s' (m, st')"
proof (cases st)
  case Gate
  show ?thesis
  proof (cases "event_id_of cfg m")
    case (Inl e)
    then show ?thesis using run books d Gate by (auto simp: grows_def delivery_ok_def)
  next
    case (Inr e)
    obtain x s1 where call: "vk_call r (is_done cfg e) s = (x, s1)" by fastforce
    then show ?thesis using run books d Gate Inr is_done_call [OF call books]
      by (auto simp: grows_def delivery_ok_def split: option.splits bool.splits)
  qed
next
  case (Claim e)
  then show ?thesis using process_claim books d run by blast
next
  case (Recheck e)
  obtain x s1 where call: "vk_call r (is_done cfg e) s = (x, s1)" by fastforce
  then show ?thesis using run books d Recheck is_done_call [OF call books]
    by (auto simp: grows_def delivery_ok_def split: option.splits bool.splits)
next
  case (Handle e t)
  then show ?thesis using run books d books_handled [OF books, of e]
    by (auto simp: grows_def delivery_ok_def split: if_splits)
next
  case (Release e t)
  obtain x s1 where call: "vk_call r (release_if_owner cfg e t) s = (x, s1)" by fastforce
  from process_call [OF call books books_release [OF books] grows_ops(3) deliveries_ops(3)] show ?thesis
    using run d Release call delivery_left [OF d] by auto
next
  case (Complete e t)
  then have e: "e \<in> set (cs_handled s)" "event_id_of cfg m = Inr e" using d by (auto simp: delivery_ok_def)
  obtain x s1 where call: "vk_call r (complete_if_owner cfg e t) s = (x, s1)" by fastforce
  from process_call [OF call books books_completed [OF books e(1)] grows_ops(4) deliveries_ops(4)]
  have s1: "books cfg s1" "grows s s1" "cs_deliveries s1 = cs_deliveries s" by auto
  then have "e \<in> set (cs_handled s1)" using e(1) by (auto simp: grows_def)
  then show ?thesis using run call s1 Complete delivery_left [OF d s1(2)] delivery_acks [OF d s1(2) e(2)]
    by (auto split: option.splits bool.splits)
next
  case (Ack e)
  then have e: "e \<in> set (cs_handled s)" "event_id_of cfg m = Inr e" "m \<in> set (cs_sent s)" using d by (auto simp: delivery_ok_def)
  obtain x s1 where call: "vk_call r (delete_message m) s = (x, s1)" by fastforce
  from process_call [OF call books books_delete [OF books e(3,2,1)] grows_ops(5) deliveries_ops(5)]
  have s1: "books cfg s1" "grows s s1" "cs_deliveries s1 = cs_deliveries s" by auto
  then show ?thesis using run call Ack delivery_left [OF d s1(2)] by (auto split: option.splits)
next
  case (Over b)
  then show ?thesis using run books d by (auto simp: grows_def)
qed

lemma consumer_ok_step: "consumer_step cfg s s' \<Longrightarrow> consumer_ok cfg s \<Longrightarrow> consumer_ok cfg s'"
proof (induction rule: consumer_step.induct)
  case (tick s t)
  have "completion_ok cfg (s\<lparr>cs_now := t\<rparr>) c" if "completion_ok cfg s c" for c
    using that tick(1) by (auto simp: completion_ok_def)
  moreover have "spaced cfg (s\<lparr>cs_now := t\<rparr>)"
    using tick by (auto simp: consumer_ok_def spaced_def intro: order_trans)
  ultimately show ?case using tick(2) by (simp add: consumer_ok_def delivery_ok_def marker_ok_def accounted_def)
next
  case (arrive m s)
  let ?s = "s\<lparr>cs_queue := m # cs_queue s, cs_sent := m # cs_sent s\<rparr>"
  have "\<forall>d \<in> set (cs_deliveries s). delivery_ok cfg ?s d"
    using arrive(2) delivery_ok_grows [of cfg s _ ?s] by (auto simp: consumer_ok_def grows_def)
  moreover have "\<forall>q \<in> set (cs_sent ?s). accounted cfg ?s q"
    using arrive(2) by (auto simp: consumer_ok_def accounted_def)
  moreover have "inj_on msg_id (set (cs_sent ?s))" using arrive by (auto simp: consumer_ok_def)
  ultimately show ?case using arrive(2)
    by (auto simp: consumer_ok_def marker_ok_def completion_ok_def spaced_def)
next
  case (receive m s)
  then have "delivery_ok cfg s (m, Gate)" by (auto simp: consumer_ok_def delivery_ok_def)
  moreover have "delivery_ok cfg (s\<lparr>cs_deliveries := ds\<rparr>) d = delivery_ok cfg s d" for d ds by (simp add: delivery_ok_def)
  ultimately show ?case using receive(2) by (simp add: consumer_ok_books books_def consumer_defs)
next
  case (advance i s m st r st' s')
  then have ok: "\<forall>d \<in> set (cs_deliveries s). delivery_ok cfg s d" "books cfg s" by (auto simp: consumer_ok_books)
  moreover have "(m, st) \<in> set (cs_deliveries s)" using advance(1,2) nth_mem by metis
  ultimately have new: "books cfg s'" "grows s s'" "delivery_ok cfg s' (m, st')"
    using process_ok [OF _ _ advance(3)] by auto
  let ?s = "s'\<lparr>cs_deliveries := (cs_deliveries s)[i := (m, st')]\<rparr>"
  have "delivery_ok cfg ?s d = delivery_ok cfg s' d" for d by (simp add: delivery_ok_def)
  moreover have "d \<in> set (cs_deliveries s) \<or> d = (m, st')" if "d \<in> set (cs_deliveries ?s)" for d
    using that set_update_subset_insert [of "cs_deliveries s" i "(m, st')"] by auto
  moreover have "books cfg ?s" using new(1) by (simp add: books_def consumer_defs)
  moreover have "\<forall>d \<in> set (cs_deliveries s). delivery_ok cfg s' d" using ok(1) delivery_ok_grows [OF _ new(2)] by blast
  ultimately show ?case unfolding consumer_ok_books using new(3) by blast
next
  case (crash i s m st)
  then have "(m, st) \<in> set (cs_deliveries s)" using nth_mem by metis
  then have "delivery_ok cfg s (m, Over False)" using crash(3) by (auto simp: consumer_ok_def delivery_ok_def)
  then have "\<forall>d \<in> set ((cs_deliveries s)[i := (m, Over False)]). delivery_ok cfg s d"
    using crash(3) set_update_subset_insert [of "cs_deliveries s" i "(m, Over False)"] by (auto simp: consumer_ok_def)
  moreover have "delivery_ok cfg (s\<lparr>cs_deliveries := ds\<rparr>) d = delivery_ok cfg s d" for d ds by (simp add: delivery_ok_def)
  ultimately show ?case using crash(3) by (simp add: consumer_ok_books books_def consumer_defs)
next
  case (redrive m s)
  have kept: "q \<in> set (remove1 m (cs_queue s)) \<or> q \<in> set (m # cs_dlq s)" if "q \<in> set (cs_queue s) \<or> q \<in> set (cs_dlq s)" for q
    using that by (cases "q = m") (auto simp: in_set_remove1)
  have "accounted cfg (s\<lparr>cs_queue := remove1 m (cs_queue s), cs_dlq := m # cs_dlq s\<rparr>) q" if "accounted cfg s q" for q
    using that kept [of q] by (auto simp: accounted_def)
  moreover have "set (remove1 m (cs_queue s)) \<subseteq> set (cs_queue s)" by (rule set_remove1_subset)
  ultimately show ?case using redrive(2)
    by (simp add: consumer_ok_def delivery_ok_def marker_ok_def completion_ok_def spaced_def subset_trans)
next
  case (elsewhere v s)
  then show ?case by (simp add: consumer_ok_def consumer_defs)
qed

lemma consumer_ok_fresh: "consumer_ok cfg fresh_consumer"
  by (simp add: consumer_ok_def spaced_def marker_ok_def fresh_consumer_def)

lemma consumer_ok_reachable: "(consumer_step cfg)\<^sup>*\<^sup>* fresh_consumer s \<Longrightarrow> consumer_ok cfg s"
  by (induction rule: rtranclp_induct) (auto intro: consumer_ok_fresh consumer_ok_step)

section \<open>The lease\<close>

text \<open>A step puts a token into a marker only when it draws it.\<close>

lemma token_ops:
  "marker_of cfg (snd (claim_lease cfg f u s)) e = Some (Token t, x) \<Longrightarrow> t \<noteq> u \<Longrightarrow> marker_of cfg s e = Some (Token t, x)"
  "marker_of cfg (snd (release_if_owner cfg f u s)) e = Some (Token t, x) \<Longrightarrow> marker_of cfg s e = Some (Token t, x)"
  "marker_of cfg (snd (complete_if_owner cfg f u s)) e = Some (Token t, x) \<Longrightarrow> marker_of cfg s e = Some (Token t, x)"
  by (auto simp: marker_ops split: if_splits)

lemma now_ops [simp]:
  "cs_now (snd (claim_lease cfg f u s)) = cs_now s" "cs_now (snd (release_if_owner cfg f u s)) = cs_now s"
  "cs_now (snd (complete_if_owner cfg f u s)) = cs_now s" "cs_now (snd (delete_message m s)) = cs_now s"
  "cs_now (snd (is_done cfg f s)) = cs_now s"
  by (simp_all add: is_done_def delete_message_def marker_ops split: prod.split)

lemma call_marker:
  assumes "vk_call r op s = (y, s')" and "marker_of cfg s' e = Some (Token t, x)"
    and "marker_of cfg (snd (op s)) e = Some (Token t, x) \<Longrightarrow> marker_of cfg s e = Some (Token t, x)"
  shows "marker_of cfg s e = Some (Token t, x)"
  using assms(1) by (cases rule: vk_call_cases) (use assms in auto)

lemma call_now: "vk_call r op s = (y, s') \<Longrightarrow> cs_now (snd (op s)) = cs_now s \<Longrightarrow> cs_now s' = cs_now s"
  by (auto elim!: vk_call_cases)

lemma process_marker:
  assumes "process_step cfg r m st s = (st', s')" and "marker_of cfg s' e = Some (Token t, x)" and "t < cs_next s"
  shows "marker_of cfg s e = Some (Token t, x) \<and> cs_now s' = cs_now s"
proof (cases st)
  case (Claim f)
  let ?s = "s\<lparr>cs_next := Suc (cs_next s)\<rparr>"
  obtain y s1 where call: "vk_call r (claim_lease cfg f (cs_next s)) ?s = (y, s1)" by fastforce
  then have same: "cs_valkey s' = cs_valkey s1" "cs_now s' = cs_now s1"
    using assms(1) Claim by (auto simp: Let_def split: option.splits bool.splits)
  have "marker_of cfg s1 e = Some (Token t, x)" using assms(2) unfolding same .
  from call_marker [OF call this] token_ops(1) assms(3) have "marker_of cfg ?s e = Some (Token t, x)" by blast
  moreover have "cs_now s1 = cs_now ?s" by (rule call_now [OF call]) simp
  ultimately show ?thesis using same(2) by simp
next
  case Gate
  then show ?thesis using assms
    by (auto simp: vk_call_def is_done_def split: sum.splits valkey_reply.splits option.splits bool.splits if_splits)
next
  case (Recheck f)
  then show ?thesis using assms
    by (auto simp: vk_call_def is_done_def split: valkey_reply.splits option.splits bool.splits if_splits)
next
  case (Handle f u)
  then show ?thesis using assms by (auto split: if_splits)
next
  case (Release f u)
  obtain y s1 where call: "vk_call r (release_if_owner cfg f u) s = (y, s1)" by fastforce
  then have "s' = s1" using assms(1) Release by auto
  with call_marker [OF call _ token_ops(2)] call_now [OF call] assms(2) show ?thesis by simp
next
  case (Complete f u)
  obtain y s1 where call: "vk_call r (complete_if_owner cfg f u) s = (y, s1)" by fastforce
  then have "s' = s1" using assms(1) Complete by (auto split: option.splits bool.splits)
  with call_marker [OF call _ token_ops(3)] call_now [OF call] assms(2) show ?thesis by simp
next
  case (Ack f)
  obtain y s1 where call: "vk_call r (delete_message m) s = (y, s1)" by fastforce
  then have "s' = s1" using assms(1) Ack by (auto split: option.splits)
  with call_marker [OF call, of cfg e t x] call_now [OF call] assms(2) show ?thesis by (simp add: delete_message_def)
next
  case (Over b)
  then show ?thesis using assms by auto
qed

lemma call_next: "vk_call r op s = (y, s') \<Longrightarrow> grows s (snd (op s)) \<Longrightarrow> cs_next s \<le> cs_next s'"
  by (auto simp: grows_def elim!: vk_call_cases)

lemma process_next:
  assumes "process_step cfg r m st s = (st', s')"
  shows "cs_next s \<le> cs_next s'"
proof (cases st)
  case Gate
  then show ?thesis using assms by (auto split: sum.splits prod.splits option.splits bool.splits dest!: call_next [OF _ grows_ops(1)])
next
  case (Claim e)
  then show ?thesis using assms
    by (auto simp: Let_def split: prod.splits option.splits bool.splits dest!: call_next [OF _ grows_ops(2)])
next
  case (Recheck e)
  then show ?thesis using assms by (auto split: prod.splits option.splits bool.splits dest!: call_next [OF _ grows_ops(1)])
next
  case (Handle e t)
  then show ?thesis using assms by (auto split: if_splits)
next
  case (Release e t)
  obtain y s1 where call: "vk_call r (release_if_owner cfg e t) s = (y, s1)" by fastforce
  from call_next [OF this grows_ops(3)] show ?thesis using assms Release call by auto
next
  case (Complete e t)
  then show ?thesis using assms by (auto split: prod.splits option.splits bool.splits dest!: call_next [OF _ grows_ops(4)])
next
  case (Ack e)
  then show ?thesis using assms by (auto split: prod.splits option.splits bool.splits dest!: call_next [OF _ grows_ops(5)])
qed (use assms in auto)

lemma lease_owner_step:
  assumes "consumer_step cfg s s'" and "t < cs_next s" and "vk_get (cs_now s') (marker_of cfg s' e) = Some (Token t)"
  shows "vk_get (cs_now s) (marker_of cfg s e) = Some (Token t)"
  using assms
proof (induction rule: consumer_step.induct)
  case (advance i s m st r st' s')
  then show ?case using process_marker [OF advance(3), of e t] by (auto simp: vk_get_Some)
qed (auto simp: vk_get_Some)

interpretation lease: token_lease "consumer_step cfg" "\<lambda>s. marker_of cfg s e" cs_now "\<lambda>s. Token ` {..<cs_next s}" for cfg e
proof
  show "consumer_step cfg s s' \<Longrightarrow> Token ` {..<cs_next s} \<subseteq> Token ` {..<cs_next s'}" for s s'
    by (induction rule: consumer_step.induct) (auto dest!: process_next)
  show "consumer_step cfg s s' \<Longrightarrow> v \<in> Token ` {..<cs_next s} \<Longrightarrow> vk_get (cs_now s') (marker_of cfg s' e) = Some v \<Longrightarrow>
      vk_get (cs_now s) (marker_of cfg s e) = Some v" for s s' v
    using lease_owner_step by auto
qed

section \<open>Deliveries nothing disturbs\<close>

fun drive_delivery :: "consumer_config \<Rightarrow> valkey_reply list \<Rightarrow> nat \<Rightarrow> consumer \<Rightarrow> consumer" where
  "drive_delivery cfg [] i s = s"
| "drive_delivery cfg (r # rs) i s =
     (case cs_deliveries s ! i of (m, st) \<Rightarrow>
        case process_step cfg r m st s of (st', s') \<Rightarrow>
          drive_delivery cfg rs i (s'\<lparr>cs_deliveries := (cs_deliveries s)[i := (m, st')]\<rparr>))"

lemma drive_reachable: "i < length (cs_deliveries s) \<Longrightarrow> (consumer_step cfg)\<^sup>*\<^sup>* s (drive_delivery cfg rs i s)"
proof (induction cfg rs i s rule: drive_delivery.induct)
  case (2 cfg r rs i s)
  obtain m st where d: "cs_deliveries s ! i = (m, st)" by fastforce
  obtain st' s' where p: "process_step cfg r m st s = (st', s')" by fastforce
  let ?s = "s'\<lparr>cs_deliveries := (cs_deliveries s)[i := (m, st')]\<rparr>"
  have "consumer_step cfg s ?s" using advance [OF 2(2) d p] .
  moreover have "(consumer_step cfg)\<^sup>*\<^sup>* ?s (drive_delivery cfg rs i ?s)"
    using 2(1) [OF d [symmetric] p [symmetric]] 2(2) by simp
  ultimately show ?case using d p by (simp add: converse_rtranclp_into_rtranclp)
qed simp

definition receive_message :: "message \<Rightarrow> consumer \<Rightarrow> consumer" where
  "receive_message m s = s\<lparr>cs_deliveries := cs_deliveries s @ [(m, Gate)]\<rparr>"

lemma undisturbed_delivery:
  assumes "event_id_of cfg m = Inr e" and "vk_get (cs_now s) (marker_of cfg s e) = None" and "0 < cc_lease cfg"
    and "s' = drive_delivery cfg (replicate 5 Answered) (length (cs_deliveries s)) (receive_message m s)"
  shows "m \<notin> set (cs_queue s') \<and> e \<in> set (cs_handled s')"
  using assms
  by (simp add: numeral_eq_Suc receive_message_def vk_call_def is_done_def marker_ops delete_message_def nth_append)

section \<open>Properties\<close>

text \<open>
  C20. No event is lost and no poison is handled: whatever the interleaving of deliveries, Valkey faults, cancellations,
  crashes and redeliveries, every message that reached the queue is still there, or in the dead-letter
  queue, or its event passed the contract gate and its handler succeeded; and a delivery that meets no
  fault and no live marker handles the event and deletes the message.
\<close>
theorem consumer_never_loses_events:
  assumes "(consumer_step cfg)\<^sup>*\<^sup>* fresh_consumer s" and "m \<in> set (cs_sent s)"
  shows "(m \<in> set (cs_queue s) \<or> m \<in> set (cs_dlq s) \<or> (\<exists>e. event_id_of cfg m = Inr e \<and> e \<in> set (cs_handled s))) \<and>
     (\<forall>e s'. event_id_of cfg m = Inr e \<longrightarrow> vk_get (cs_now s) (marker_of cfg s e) = None \<longrightarrow> 0 < cc_lease cfg \<longrightarrow>
        s' = drive_delivery cfg (replicate 5 Answered) (length (cs_deliveries s)) (receive_message m s) \<longrightarrow>
        m \<notin> set (cs_queue s') \<and> e \<in> set (cs_handled s'))"
  using consumer_ok_reachable [OF assms(1)] assms(2) undisturbed_delivery [of cfg m _ s]
  by (auto simp: consumer_ok_def accounted_def)

text \<open>
  C21. Effectively once: no handler of an event starts within the deduplication window after a completion of that event
  was marked; and a worker that lost its lease (it expired, or another worker holds it) can never
  complete the event under that token, however the system goes on, so it never acknowledges the message.
\<close>
theorem consumer_handles_once:
  assumes "(consumer_step cfg)\<^sup>*\<^sup>* fresh_consumer s"
  shows "(\<forall>e a b. (e, a) \<in> set (cs_started s) \<longrightarrow> (e, b) \<in> set (cs_completed s) \<longrightarrow> a \<le> b \<or> b + cc_ttl cfg \<le> a) \<and>
     (\<forall>e t s'. t < cs_next s \<longrightarrow> vk_get (cs_now s) (marker_of cfg s e) \<noteq> Some (Token t) \<longrightarrow> (consumer_step cfg)\<^sup>*\<^sup>* s s' \<longrightarrow>
        \<not> fst (complete_if_owner cfg e t s'))"
proof (intro conjI allI impI)
  show "a \<le> b \<or> b + cc_ttl cfg \<le> a" if "(e, a) \<in> set (cs_started s)" "(e, b) \<in> set (cs_completed s)" for e a b
    using consumer_ok_reachable [OF assms] that by (fastforce simp: consumer_ok_def spaced_def)
  show "\<not> fst (complete_if_owner cfg e t s')"
    if "t < cs_next s" "vk_get (cs_now s) (marker_of cfg s e) \<noteq> Some (Token t)" "(consumer_step cfg)\<^sup>*\<^sup>* s s'" for e t s'
    using lease.lost_for_good [OF that(3), of "Token t" e] that(1,2) by (simp add: lease.owns_def marker_ops split: prod.split)
qed

definition demo_pydantic :: "event_model \<Rightarrow> string \<Rightarrow> exn + json" where
  "demo_pydantic m body = (case json_loads body of Some j \<Rightarrow> Inr j | None \<Rightarrow> Inl (ValidationError ''not JSON''))"

definition demo_consumer :: consumer_config where
  "demo_consumer = \<lparr>cc_name = ''cart'', cc_ttl = 100, cc_lease = 10, cc_pydantic = demo_pydantic\<rparr>"

definition demo_message :: message where
  "demo_message = \<lparr>msg_id = 1, msg_body = ''{'' @ json_quoted ''type'' @ '':'' @ json_quoted ''OrderPlaced'' @ '','' @
     json_quoted ''schema_version'' @ '':1,'' @ json_quoted ''event_id'' @ '':'' @ json_quoted ''e1'' @ ''}''\<rparr>"

text \<open>The first worker outlives its lease; a second one claims it.\<close>

definition demo_overrun :: consumer where
  "demo_overrun =
     (let s = fresh_consumer\<lparr>cs_queue := [demo_message], cs_sent := [demo_message]\<rparr>;
          s1 = drive_delivery demo_consumer [Answered, Answered] 0 (receive_message demo_message s);
          s2 = s1\<lparr>cs_now := 20\<rparr> in
      drive_delivery demo_consumer [Answered, Answered] 1 (receive_message demo_message s2))"

lemma demo_event: "event_id_of demo_consumer demo_message = Inr ''e1''"
  by code_simp

lemmas demo_run = demo_event fresh_consumer_def receive_message_def vk_call_def is_done_def marker_ops

lemma demo_overrun_facts:
  "cs_now demo_overrun = 20" "cs_next demo_overrun = 2" "length (cs_deliveries demo_overrun) = 2"
  "cs_queue demo_overrun = [demo_message]" "cs_sent demo_overrun = [demo_message]"
  "marker_of demo_consumer demo_overrun ''e1'' = Some (Token 1, 30)"
  by (simp_all add: demo_overrun_def demo_run) (simp_all add: demo_consumer_def)

lemma demo_overrun_reachable: "(consumer_step demo_consumer)\<^sup>*\<^sup>* fresh_consumer demo_overrun"
proof -
  let ?go = "(consumer_step demo_consumer)\<^sup>*\<^sup>*"
  let ?s = "fresh_consumer\<lparr>cs_queue := [demo_message], cs_sent := [demo_message]\<rparr>"
  have received: "?go s (drive_delivery demo_consumer rs (length (cs_deliveries s)) (receive_message demo_message s))"
    if "demo_message \<in> set (cs_queue s)" for s rs
  proof -
    have "consumer_step demo_consumer s (receive_message demo_message s)"
      using receive [OF that] by (simp add: receive_message_def)
    moreover have "?go (receive_message demo_message s)
        (drive_delivery demo_consumer rs (length (cs_deliveries s)) (receive_message demo_message s))"
      by (rule drive_reachable) (simp add: receive_message_def)
    ultimately show ?thesis by simp
  qed
  let ?s1 = "drive_delivery demo_consumer [Answered, Answered] 0 (receive_message demo_message ?s)"
  have s1: "length (cs_deliveries ?s1) = 1" "cs_queue ?s1 = [demo_message]" "cs_now ?s1 = 0" by (simp_all add: demo_run)
  have "consumer_step demo_consumer fresh_consumer ?s"
    using arrive [of demo_message fresh_consumer] by (simp add: fresh_consumer_def)
  moreover have "?go ?s ?s1" using received [of ?s "[Answered, Answered]"] by (simp add: fresh_consumer_def)
  moreover have "consumer_step demo_consumer ?s1 (?s1\<lparr>cs_now := 20\<rparr>)" by (rule tick) (simp add: s1 del: drive_delivery.simps)
  moreover have "?go (?s1\<lparr>cs_now := 20\<rparr>) demo_overrun"
    using received [of "?s1\<lparr>cs_now := 20\<rparr>" "[Answered, Answered]"] by (simp add: s1 demo_overrun_def Let_def del: drive_delivery.simps)
  ultimately show ?thesis by (meson converse_rtranclp_into_rtranclp rtranclp_trans)
qed

theorem consumer_never_loses_events_witness:
  "demo_message \<in> set (cs_queue demo_overrun) \<and> ''e1'' \<in> set (cs_handled (drive_delivery demo_consumer (replicate 5 Answered) 2
     (receive_message demo_message (demo_overrun\<lparr>cs_now := 40\<rparr>))))"
proof -
  let ?s = "demo_overrun\<lparr>cs_now := 40\<rparr>"
  have "consumer_step demo_consumer demo_overrun ?s" by (rule tick) (simp add: demo_overrun_facts)
  with demo_overrun_reachable have reach: "(consumer_step demo_consumer)\<^sup>*\<^sup>* fresh_consumer ?s" by (rule rtranclp.rtrancl_into_rtrancl)
  have "demo_message \<in> set (cs_sent ?s)" "vk_get (cs_now ?s) (marker_of demo_consumer ?s ''e1'') = None" "0 < cc_lease demo_consumer"
    by (simp_all add: demo_overrun_facts) (simp add: demo_consumer_def)
  with consumer_never_loses_events [OF reach, of demo_message] demo_event show ?thesis
    by (simp add: demo_overrun_facts del: drive_delivery.simps)
qed

theorem consumer_handles_once_witness: "\<not> fst (complete_if_owner demo_consumer ''e1'' 0 demo_overrun)"
  using consumer_handles_once [OF demo_overrun_reachable] by (auto simp: demo_overrun_facts)

end
