(* ===== verification/Catalog_Keys.thy ===== *)
theory Catalog_Keys
  imports Codec
begin

text \<open>
  \<^verbatim>\<open>catalog/domain/image_keys.py\<close>, the layout of the object keys of the image pipeline, and the public
  URLs of \<^verbatim>\<open>catalog/application/dto.py\<close> that are derived from it.
\<close>

section \<open>Keys\<close>

datatype image_status = IMG_NONE | IMG_PENDING | IMG_READY | IMG_FAILED

definition thumbnail_sizes :: "(string \<times> nat) list" where
  "thumbnail_sizes = [(''thumb_256'', 256), (''thumb_64'', 64)]"

definition upload_key :: "uuid \<Rightarrow> string \<Rightarrow> string" where
  "upload_key product_id token = ''uploads/'' @ str_uuid product_id @ ''/'' @ token @ ''.bin''"

definition public_main_key :: "uuid \<Rightarrow> string \<Rightarrow> string \<Rightarrow> string" where
  "public_main_key product_id token ver = ''public/'' @ str_uuid product_id @ ''/'' @ token @ ''_'' @ ver @ ''.webp''"

definition public_thumb_key :: "uuid \<Rightarrow> string \<Rightarrow> string \<Rightarrow> string \<Rightarrow> string" where
  "public_thumb_key product_id token ver name =
     ''public/'' @ str_uuid product_id @ ''/'' @ token @ ''_'' @ ver @ ''_'' @ name @ ''.webp''"

text \<open>\<open>s.endswith(x)\<close> and \<open>s.removesuffix(x)\<close>.\<close>

definition endswith :: "string \<Rightarrow> string \<Rightarrow> bool" where
  "endswith s x \<longleftrightarrow> length x \<le> length s \<and> drop (length s - length x) s = x"

definition removesuffix :: "string \<Rightarrow> string \<Rightarrow> string" where
  "removesuffix s x = (if endswith s x then take (length s - length x) s else s)"

definition public_rendition_keys :: "string \<Rightarrow> string list" where
  "public_rendition_keys main_key =
     (if \<not> endswith main_key ''.webp'' then []
      else let stem = removesuffix main_key ''.webp'' in main_key # map (\<lambda>(name, _). stem @ ''_'' @ name @ ''.webp'') thumbnail_sizes)"

text \<open>\<open>s.rsplit(".", 1)[0]\<close>.\<close>

definition before_last_dot :: "string \<Rightarrow> string" where
  "before_last_dot s = (if CHR ''.'' \<in> set s then rev (tl (dropWhile (\<lambda>c. c \<noteq> CHR ''.'') (rev s))) else s)"

definition parse_upload_key :: "string \<Rightarrow> (uuid \<times> string) option" where
  "parse_upload_key key =
     (case split_on (CHR ''/'') key of
        [prefix, pid, name] \<Rightarrow>
          if prefix \<noteq> ''uploads'' then None
          else (case uuid_parse pid of None \<Rightarrow> None | Some p \<Rightarrow> Some (p, before_last_dot name))
      | _ \<Rightarrow> None)"

section \<open>URLs\<close>

definition rstrip_slash :: "string \<Rightarrow> string" where
  "rstrip_slash s = rev (dropWhile (\<lambda>c. c = CHR ''/'') (rev s))"

definition public_image_url :: "string option \<Rightarrow> image_status \<Rightarrow> string option \<Rightarrow> exn + string option" where
  "public_image_url key status base =
     (case key of
        None \<Rightarrow> Inr None
      | Some k \<Rightarrow>
          if status \<noteq> IMG_READY \<or> k = '''' then Inr None
          else (case base of
             None \<Rightarrow> Inl (RuntimeError ''s3_public_base_url must be configured'')
           | Some b \<Rightarrow>
               if b = '''' then Inl (RuntimeError ''s3_public_base_url must be configured'')
               else Inr (Some (rstrip_slash b @ ''/'' @ k))))"

definition public_thumbnail_urls :: "string option \<Rightarrow> image_status \<Rightarrow> string option \<Rightarrow> exn + (string \<times> string) list option" where
  "public_thumbnail_urls key status base =
     (case key of
        None \<Rightarrow> Inr None
      | Some k \<Rightarrow>
          if \<not> endswith k ''.webp'' then Inr None
          else (case public_image_url key status base of
             Inl e \<Rightarrow> Inl e
           | Inr None \<Rightarrow> Inr None
           | Inr (Some main) \<Rightarrow>
               Inr (Some (map (\<lambda>(name, _). (name, removesuffix main ''.webp'' @ ''_'' @ name @ ''.webp'')) thumbnail_sizes))))"

section \<open>Splitting what was joined\<close>

lemma endswith_append [simp]: "endswith (a @ x) x"
  by (simp add: endswith_def)

lemma removesuffix_append [simp]: "removesuffix (a @ x) x = a"
  by (simp add: removesuffix_def)

lemma before_last_dot_bin [simp]: "before_last_dot (t @ ''.bin'') = t"
  by (simp add: before_last_dot_def)

lemma str_uuid_no_slash [simp]: "CHR ''/'' \<notin> set (str_uuid u)"
proof
  assume "CHR ''/'' \<in> set (str_uuid u)"
  then have "is_hex (CHR ''/'') \<or> CHR ''/'' = CHR ''-''" by (rule str_uuid_chars)
  moreover have "\<not> is_hex (CHR ''/'')" by code_simp
  ultimately show False by simp
qed

lemma split_prefix:
  "split_on (CHR ''/'') (''public/'' @ b) = ''public'' # split_on (CHR ''/'') b"
  "split_on (CHR ''/'') (''uploads/'' @ b) = ''uploads'' # split_on (CHR ''/'') b"
  using split_on_join [of "CHR ''/''" "''public''" b] split_on_join [of "CHR ''/''" "''uploads''" b] by simp_all

lemma split_key:
  assumes "CHR ''/'' \<notin> set name"
  shows "split_on (CHR ''/'') (''public/'' @ str_uuid p @ ''/'' @ name) = [''public'', str_uuid p, name]"
    "split_on (CHR ''/'') (''uploads/'' @ str_uuid p @ ''/'' @ name) = [''uploads'', str_uuid p, name]"
proof -
  have "split_on (CHR ''/'') (str_uuid p @ ''/'' @ name) = [str_uuid p, name]"
    using split_on_join [of "CHR ''/''" "str_uuid p" name] split_on_none [OF assms] by simp
  then show "split_on (CHR ''/'') (''public/'' @ str_uuid p @ ''/'' @ name) = [''public'', str_uuid p, name]"
      "split_on (CHR ''/'') (''uploads/'' @ str_uuid p @ ''/'' @ name) = [''uploads'', str_uuid p, name]"
    by (simp_all only: split_prefix)
qed

lemma parse_upload_public: "parse_upload_key (''public/'' @ b) = None"
  unfolding parse_upload_key_def split_prefix by (simp split: list.split)

text \<open>The hexadecimal tokens and content versions of the pipeline.\<close>

definition plain :: "string \<Rightarrow> bool" where
  "plain s \<longleftrightarrow> CHR ''/'' \<notin> set s \<and> CHR ''_'' \<notin> set s \<and> CHR ''.'' \<notin> set s"

lemma public_rendition_main:
  "public_rendition_keys (public_main_key p t v) =
     public_main_key p t v # map (\<lambda>(name, _). public_thumb_key p t v name) thumbnail_sizes"
proof -
  let ?stem = "''public/'' @ str_uuid p @ ''/'' @ t @ ''_'' @ v"
  have key: "public_main_key p t v = ?stem @ ''.webp''" by (simp add: public_main_key_def)
  have "endswith (public_main_key p t v) ''.webp''" "removesuffix (public_main_key p t v) ''.webp'' = ?stem"
    unfolding key by (rule endswith_append removesuffix_append)+
  then show ?thesis by (simp add: public_rendition_keys_def thumbnail_sizes_def public_thumb_key_def)
qed

text \<open>A rendition key names its product, token and version.\<close>

definition key_parts :: "string \<Rightarrow> string \<times> string \<times> string" where
  "key_parts key =
     (let parts = split_on (CHR ''/'') key; s = parts ! 2; rest = drop (Suc (length (takeWhile (\<lambda>c. c \<noteq> CHR ''_'') s))) s in
      (parts ! 1, takeWhile (\<lambda>c. c \<noteq> CHR ''_'') s, takeWhile (\<lambda>c. c \<noteq> CHR ''_'' \<and> c \<noteq> CHR ''.'') rest))"

lemma key_parts_public:
  assumes "plain t" and "plain v" and "c \<in> {CHR ''_'', CHR ''.''}" and "CHR ''/'' \<notin> set b"
  shows "key_parts (''public/'' @ str_uuid p @ ''/'' @ t @ ''_'' @ v @ c # b) = (str_uuid p, t, v)"
proof -
  have parts: "split_on (CHR ''/'') (''public/'' @ str_uuid p @ ''/'' @ t @ ''_'' @ v @ c # b) =
      [''public'', str_uuid p, t @ ''_'' @ v @ c # b]"
    using assms by (intro split_key) (auto simp: plain_def)
  have "takeWhile (\<lambda>c. c \<noteq> CHR ''_'') (t @ ''_'' @ v @ c # b) = t"
    using assms(1) by (subst takeWhile_append2) (auto simp: plain_def)
  moreover have "takeWhile (\<lambda>c. c \<noteq> CHR ''_'' \<and> c \<noteq> CHR ''.'') (v @ c # b) = v"
    using assms(2,3) by (subst takeWhile_append2) (auto simp: plain_def)
  ultimately show ?thesis unfolding key_parts_def parts by simp
qed

lemma rendition_parts:
  assumes "plain t" and "plain v" and "k \<in> set (public_rendition_keys (public_main_key p t v))"
  shows "key_parts k = (str_uuid p, t, v)"
proof -
  consider (main) "k = ''public/'' @ str_uuid p @ ''/'' @ t @ ''_'' @ v @ CHR ''.'' # ''webp''"
    | (thumb) name where "k = ''public/'' @ str_uuid p @ ''/'' @ t @ ''_'' @ v @ CHR ''_'' # name @ ''.webp''" "name \<in> {''thumb_256'', ''thumb_64''}"
    using assms(3) unfolding public_rendition_main
    by (auto simp: thumbnail_sizes_def public_main_key_def public_thumb_key_def)
  then show ?thesis
  proof cases
    case main
    show ?thesis unfolding main by (rule key_parts_public [OF assms(1,2)]) simp_all
  next
    case thumb
    show ?thesis unfolding thumb(1) by (rule key_parts_public [OF assms(1,2)]) (use thumb(2) in auto)
  qed
qed

lemma parse_upload: "plain t \<Longrightarrow> p < 16 ^ 32 \<Longrightarrow> parse_upload_key (upload_key p t) = Some (p, t)"
proof -
  assume t: "plain t" and p: "p < 16 ^ 32"
  have "split_on (CHR ''/'') (upload_key p t) = [''uploads'', str_uuid p, t @ ''.bin'']"
    unfolding upload_key_def using t by (intro split_key) (auto simp: plain_def)
  then show ?thesis unfolding parse_upload_key_def by (simp add: uuid_parse_str [OF p])
qed

section \<open>Property\<close>

text \<open>
  The key layout can be read back: the worker recovers the product and the token from an upload key, never takes a
  public object for an upload, deletes exactly the main image and its thumbnails for a main key, and two
  images of different product, upload or content share no object, so reclaiming one never deletes another.
\<close>
theorem image_keys_roundtrip:
  assumes "plain t" and "plain v" and "plain t'" and "plain v'" and "p < 16 ^ 32"
  shows "parse_upload_key (upload_key p t) = Some (p, t) \<and>
     list_all (\<lambda>k. parse_upload_key k = None) (public_rendition_keys (public_main_key p t v)) \<and>
     public_rendition_keys (public_main_key p t v) =
       [public_main_key p t v, public_thumb_key p t v ''thumb_256'', public_thumb_key p t v ''thumb_64''] \<and>
     ((p, t, v) \<noteq> (p', t', v') \<longrightarrow>
        set (public_rendition_keys (public_main_key p t v)) \<inter> set (public_rendition_keys (public_main_key p' t' v')) = {})"
proof (intro conjI impI)
  show "parse_upload_key (upload_key p t) = Some (p, t)" by (rule parse_upload [OF assms(1,5)])
  show keys: "public_rendition_keys (public_main_key p t v) =
      [public_main_key p t v, public_thumb_key p t v ''thumb_256'', public_thumb_key p t v ''thumb_64'']"
    by (simp add: public_rendition_main thumbnail_sizes_def)
  show "list_all (\<lambda>k. parse_upload_key k = None) (public_rendition_keys (public_main_key p t v))"
    unfolding keys by (simp only: list.pred_inject public_main_key_def public_thumb_key_def parse_upload_public)
  assume other: "(p, t, v) \<noteq> (p', t', v')"
  show "set (public_rendition_keys (public_main_key p t v)) \<inter> set (public_rendition_keys (public_main_key p' t' v')) = {}"
  proof (rule equals0I)
    fix k assume "k \<in> set (public_rendition_keys (public_main_key p t v)) \<inter> set (public_rendition_keys (public_main_key p' t' v'))"
    then have "(str_uuid p, t, v) = (str_uuid p', t', v')"
      using rendition_parts [OF assms(1,2)] rendition_parts [OF assms(3,4)] by (metis IntE)
    with other show False by simp
  qed
qed

theorem image_keys_roundtrip_witness:
  "parse_upload_key (upload_key 7 ''a1'') = Some (7, ''a1'') \<and>
   set (public_rendition_keys (public_main_key 7 ''a1'' ''c0'')) \<inter> set (public_rendition_keys (public_main_key 7 ''a1'' ''c1'')) = {}"
proof -
  have "plain ''a1''" "plain ''c0''" "plain ''c1''" "(7 :: uuid) < 16 ^ 32" by (simp_all add: plain_def)
  with image_keys_roundtrip [of "''a1''" "''c0''" "''a1''" "''c1''" 7 7] show ?thesis by blast
qed

end
