(* ===== verification/Sessions.thy ===== *)
theory Sessions
  imports Schema
begin

text \<open>
  A worker or request that talks to one store in statements, among other sessions. Before each statement
  the others may have committed anything (\<open>cn_sched\<close>); the statement, or batch with its commit, may be
  lost before it ran or answered too late (\<open>cn_faults\<close>). The locale \<open>session_rely\<close> is the proof
  calculus: a program that keeps the contract \<open>step\<close> at every statement keeps it whatever the others do,
  as long as they keep it too, and whatever fails.
\<close>

section \<open>Statements\<close>

record 'd conn =
  cn_db :: 'd
  cn_sched :: "('d \<Rightarrow> 'd) list"
  cn_faults :: "fault list"

definition seen_by :: "('d, 'm) conn_scheme \<Rightarrow> 'd" where
  "seen_by c = (case cn_sched c of [] \<Rightarrow> cn_db c | other # _ \<Rightarrow> other (cn_db c))"

definition after_stmt :: "'d \<Rightarrow> ('d, 'm) conn_scheme \<Rightarrow> ('d, 'm) conn_scheme" where
  "after_stmt d c = c\<lparr>cn_db := d, cn_sched := tl (cn_sched c), cn_faults := tl (cn_faults c)\<rparr>"

text \<open>What raises leaves nothing behind.\<close>

definition stmt :: "(exn, 'd, 'a) prog \<Rightarrow> (exn, ('d, 'm) conn_scheme, 'a) prog" where
  "stmt m = (\<lambda>c.
     let d = seen_by c; (r, d') = atomic m d in
     case cn_faults c of
       Lost e # _ \<Rightarrow> (Inl e, after_stmt d c)
     | Landed e # _ \<Rightarrow> (Inl e, after_stmt d' c)
     | _ \<Rightarrow> (r, after_stmt d' c))"

lemma after_stmt_simps [simp]:
  "cn_db (after_stmt d c) = d" "cn_sched (after_stmt d c) = tl (cn_sched c)" "conn.more (after_stmt d c) = conn.more c"
  by (simp_all add: after_stmt_def)

lemma stmt_outcome:
  assumes "stmt m c = (r, c')"
  obtains y d' where "atomic m (seen_by c) = (y, d')" "c' = after_stmt (seen_by c) c \<or> c' = after_stmt d' c"
    "\<And>x. r = Inr x \<Longrightarrow> y = Inr x \<and> c' = after_stmt d' c"
proof -
  obtain y d' where "atomic m (seen_by c) = (y, d')" by fastforce
  with assms that show thesis by (auto simp: stmt_def Let_def split: list.splits fault.splits)
qed

section \<open>Rely and guarantee\<close>

locale session_rely =
  fixes ok :: "'d \<Rightarrow> bool" and step :: "'d \<Rightarrow> 'd \<Rightarrow> bool"
  assumes step_refl: "step d d" and step_trans: "step a b \<Longrightarrow> step b c \<Longrightarrow> step a c" and ok_step: "ok d \<Longrightarrow> step d d' \<Longrightarrow> ok d'"
begin

definition friendly :: "('d, 'm) conn_scheme \<Rightarrow> bool" where
  "friendly c \<longleftrightarrow> ok (cn_db c) \<and> (\<forall>other \<in> set (cn_sched c). \<forall>d. step d (other d))"

definition guarded :: "(('d, 'm) conn_scheme \<Rightarrow> bool) \<Rightarrow> (exn, ('d, 'm) conn_scheme, 'a) prog \<Rightarrow> ('a \<Rightarrow> ('d, 'm) conn_scheme \<Rightarrow> bool) \<Rightarrow> bool" where
  "guarded P m Q \<longleftrightarrow> (\<forall>c r c'. friendly c \<longrightarrow> P c \<longrightarrow> m c = (r, c') \<longrightarrow>
     friendly c' \<and> step (cn_db c) (cn_db c') \<and> (\<forall>x. r = Inr x \<longrightarrow> Q x c'))"

text \<open>What a session knows and no other session can invalidate.\<close>

definition survives :: "(('d, 'm) conn_scheme \<Rightarrow> bool) \<Rightarrow> bool" where
  "survives R \<longleftrightarrow> (\<forall>c d s f. R c \<longrightarrow> ok (cn_db c) \<longrightarrow> step (cn_db c) d \<longrightarrow> R (c\<lparr>cn_db := d, cn_sched := s, cn_faults := f\<rparr>))"

lemma survives_True [simp]: "survives (\<lambda>_. True)"
  by (simp add: survives_def)

lemma guarded_ret: "(\<And>c. P c \<Longrightarrow> Q x c) \<Longrightarrow> guarded P (ret x) Q"
  by (simp add: guarded_def step_refl)

lemma guarded_raise: "guarded P (raise e) Q"
  by (simp add: guarded_def step_refl)

lemma guarded_gets: "guarded P (gets f) (\<lambda>_. P)"
  by (simp add: guarded_def step_refl)

lemma guarded_pure: "(A \<Longrightarrow> guarded P m Q) \<Longrightarrow> guarded (\<lambda>c. A \<and> P c) m Q"
  unfolding guarded_def by blast

lemma guarded_pre: "guarded P m Q \<Longrightarrow> (\<And>c. P' c \<Longrightarrow> P c) \<Longrightarrow> guarded P' m Q"
  unfolding guarded_def by blast

lemma guarded_post: "guarded P m Q \<Longrightarrow> (\<And>x c. Q x c \<Longrightarrow> Q' x c) \<Longrightarrow> guarded P m Q'"
  unfolding guarded_def by blast

lemma guarded_any: "guarded P m Q \<Longrightarrow> guarded P m (\<lambda>_ _. True)"
  unfolding guarded_def by blast

lemma guarded_answer:
  assumes "guarded P m Q"
  shows "guarded (\<lambda>c. P c \<and> (case fst (m c) of Inl _ \<Rightarrow> True | Inr x \<Rightarrow> A x)) m (\<lambda>x c. A x \<and> Q x c)"
  using assms unfolding guarded_def by (metis fst_conv sum.simps(6))

lemma guarded_bnd:
  assumes "guarded P m R" and "\<And>x. guarded (R x) (f x) Q"
  shows "guarded P (bnd m f) Q"
  unfolding guarded_def
proof (intro allI impI)
  fix c r c'' assume c: "friendly c" "P c" "bnd m f c = (r, c'')"
  obtain y c' where m: "m c = (y, c')" by fastforce
  with assms(1) c have c': "friendly c'" "step (cn_db c) (cn_db c')" "\<And>x. y = Inr x \<Longrightarrow> R x c'"
    unfolding guarded_def by metis+
  show "friendly c'' \<and> step (cn_db c) (cn_db c'') \<and> (\<forall>x. r = Inr x \<longrightarrow> Q x c'')"
  proof (cases y)
    case (Inl e)
    then show ?thesis using c(3) m c' by (auto simp: bnd_run)
  next
    case (Inr x)
    then have "f x c' = (r, c'')" "R x c'" using c(3) m c'(3) by (simp_all add: bnd_run)
    then have "friendly c'' \<and> step (cn_db c') (cn_db c'') \<and> (\<forall>x. r = Inr x \<longrightarrow> Q x c'')"
      using assms(2) [of x] c'(1) unfolding guarded_def by blast
    then show ?thesis using c'(2) step_trans by blast
  qed
qed

lemma guarded_thn: "guarded P m (\<lambda>_. R) \<Longrightarrow> guarded R n Q \<Longrightarrow> guarded P (thn m n) Q"
  unfolding thn_def by (rule guarded_bnd)

text \<open>A handler knows nothing of what the body reached.\<close>

lemma guarded_catch:
  assumes "guarded P m Q" and "\<And>e. guarded (\<lambda>_. True) (h e) Q"
  shows "guarded P (catch m h) Q"
  unfolding guarded_def
proof (intro allI impI)
  fix c r c'' assume c: "friendly c" "P c" "catch m h c = (r, c'')"
  obtain y c' where m: "m c = (y, c')" by fastforce
  with assms(1) c have c': "friendly c'" "step (cn_db c) (cn_db c')" "\<And>x. y = Inr x \<Longrightarrow> Q x c'"
    unfolding guarded_def by metis+
  show "friendly c'' \<and> step (cn_db c) (cn_db c'') \<and> (\<forall>x. r = Inr x \<longrightarrow> Q x c'')"
  proof (cases y)
    case (Inl e)
    then have "h e c' = (r, c'')" using c(3) m by (simp add: catch_def)
    then have "friendly c'' \<and> step (cn_db c') (cn_db c'') \<and> (\<forall>x. r = Inr x \<longrightarrow> Q x c'')"
      using assms(2) [of e] c'(1) unfolding guarded_def by blast
    then show ?thesis using c'(2) step_trans by blast
  next
    case (Inr x)
    then show ?thesis using c(3) m c' by (auto simp: catch_def)
  qed
qed

text \<open>A statement: what is known before it survives the others, and the statement itself keeps the contract.\<close>

lemma guarded_stmt:
  assumes "survives P"
    and keep: "\<And>c r d'. P c \<Longrightarrow> ok (cn_db c) \<Longrightarrow> atomic m (cn_db c) = (r, d') \<Longrightarrow>
      step (cn_db c) d' \<and> (\<forall>x. r = Inr x \<longrightarrow> Q x (c\<lparr>cn_db := d'\<rparr>))"
  shows "guarded P (stmt m) Q"
  unfolding guarded_def
proof (intro allI impI)
  fix c r c' assume c: "friendly c" "P c" and run: "stmt m c = (r, c')"
  from run obtain y d' where y: "atomic m (seen_by c) = (y, d')" "c' = after_stmt (seen_by c) c \<or> c' = after_stmt d' c"
    "\<And>x. r = Inr x \<Longrightarrow> y = Inr x \<and> c' = after_stmt d' c" by (rule stmt_outcome) blast
  have d: "step (cn_db c) (seen_by c)" using c(1) by (auto simp: seen_by_def friendly_def step_refl split: list.splits)
  then have ok: "ok (seen_by c)" using c(1) ok_step by (auto simp: friendly_def)
  let ?c = "after_stmt (seen_by c) c"
  have "P ?c" using assms(1) c d by (simp add: survives_def friendly_def after_stmt_def)
  then have s: "step (seen_by c) d'" "\<forall>x. y = Inr x \<longrightarrow> Q x (?c\<lparr>cn_db := d'\<rparr>)" using keep [of ?c y d'] y(1) ok by simp_all
  have "step (cn_db c) (cn_db c')" using y(2) d step_trans [OF d s(1)] by auto
  moreover have "ok (cn_db c')" using y(2) ok ok_step [OF ok s(1)] by auto
  moreover have "cn_sched c' = tl (cn_sched c)" using y(2) by auto
  moreover have "set (tl (cn_sched c)) \<subseteq> set (cn_sched c)" by (cases "cn_sched c") auto
  ultimately have "friendly c'" "step (cn_db c) (cn_db c')" using c(1) by (auto simp: friendly_def)
  moreover have "?c\<lparr>cn_db := d'\<rparr> = after_stmt d' c" by (simp add: after_stmt_def)
  ultimately show "friendly c' \<and> step (cn_db c) (cn_db c') \<and> (\<forall>x. r = Inr x \<longrightarrow> Q x c')" using s(2) y(3) by metis
qed

lemma guarded_simple:
  assumes "\<And>d r d'. ok d \<Longrightarrow> atomic m d = (r, d') \<Longrightarrow> step d d'"
  shows "guarded (\<lambda>_. True) (stmt m) (\<lambda>_ _. True)"
  using assms by (intro guarded_stmt) auto

text \<open>What holds on both exits of a program, so that a handler can rely on it.\<close>

definition kept :: "(('d, 'm) conn_scheme \<Rightarrow> bool) \<Rightarrow> (exn, ('d, 'm) conn_scheme, 'a) prog \<Rightarrow> bool" where
  "kept P m \<longleftrightarrow> (\<forall>c r c'. friendly c \<longrightarrow> P c \<longrightarrow> m c = (r, c') \<longrightarrow> friendly c' \<and> step (cn_db c) (cn_db c') \<and> P c')"

lemma kept_guarded: "kept P m \<Longrightarrow> guarded P m (\<lambda>_. P)"
  unfolding kept_def guarded_def by blast

lemma kept_ret [simp]: "kept P (ret x)"
  by (simp add: kept_def step_refl)

lemma kept_bnd:
  assumes "kept P m" and "\<And>x. kept P (f x)"
  shows "kept P (bnd m f)"
  unfolding kept_def
proof (intro allI impI)
  fix c r c'' assume c: "friendly c" "P c" "bnd m f c = (r, c'')"
  obtain y c' where m: "m c = (y, c')" by fastforce
  with assms(1) c have c': "friendly c'" "step (cn_db c) (cn_db c')" "P c'" unfolding kept_def by metis+
  show "friendly c'' \<and> step (cn_db c) (cn_db c'') \<and> P c''"
  proof (cases y)
    case (Inl e)
    then show ?thesis using c(3) m c' by (simp add: bnd_run)
  next
    case (Inr x)
    then have "f x c' = (r, c'')" using c(3) m by (simp add: bnd_run)
    then have "friendly c'' \<and> step (cn_db c') (cn_db c'') \<and> P c''" using assms(2) [of x] c'(1,3) unfolding kept_def by blast
    then show ?thesis using c'(2) step_trans by blast
  qed
qed

lemma kept_thn: "kept P m \<Longrightarrow> kept P n \<Longrightarrow> kept P (thn m n)"
  unfolding thn_def by (rule kept_bnd)

lemma kept_for_each: "(\<And>x. x \<in> set xs \<Longrightarrow> kept P (f x)) \<Longrightarrow> kept P (for_each xs f)"
  by (induction xs) (simp_all add: kept_thn)

lemma kept_catch:
  assumes "kept P m" and "\<And>e. kept P (h e)"
  shows "kept P (catch m h)"
  unfolding kept_def
proof (intro allI impI)
  fix c r c'' assume c: "friendly c" "P c" "catch m h c = (r, c'')"
  obtain y c' where m: "m c = (y, c')" by fastforce
  with assms(1) c have c': "friendly c'" "step (cn_db c) (cn_db c')" "P c'" unfolding kept_def by metis+
  show "friendly c'' \<and> step (cn_db c) (cn_db c'') \<and> P c''"
  proof (cases y)
    case (Inl e)
    then have "h e c' = (r, c'')" using c(3) m by (simp add: catch_run)
    then have "friendly c'' \<and> step (cn_db c') (cn_db c'') \<and> P c''" using assms(2) [of e] c'(1,3) unfolding kept_def by blast
    then show ?thesis using c'(2) step_trans by blast
  next
    case (Inr x)
    then show ?thesis using c(3) m c' by (simp add: catch_run)
  qed
qed

text \<open>Knowledge that survives the others survives a statement that keeps the contract, failed or not.\<close>

lemma kept_survives:
  assumes "survives P" and "\<And>c r c'. friendly c \<Longrightarrow> P c \<Longrightarrow> m c = (r, c') \<Longrightarrow>
      friendly c' \<and> step (cn_db c) (cn_db c') \<and> (\<exists>d s f. c' = c\<lparr>cn_db := d, cn_sched := s, cn_faults := f\<rparr>)"
  shows "kept P m"
  unfolding kept_def
proof (intro allI impI)
  fix c r c' assume c: "friendly c" "P c" "m c = (r, c')"
  from assms(2) [OF this] obtain d s f where c': "friendly c'" "step (cn_db c) (cn_db c')" "c' = c\<lparr>cn_db := d, cn_sched := s, cn_faults := f\<rparr>" by blast
  moreover have "P c'" using assms(1) c(1,2) c'(2) unfolding c'(3) survives_def friendly_def by simp
  ultimately show "friendly c' \<and> step (cn_db c) (cn_db c') \<and> P c'" by blast
qed

lemma kept_stmt:
  assumes "survives P" and keep: "\<And>c r d'. P c \<Longrightarrow> ok (cn_db c) \<Longrightarrow> atomic m (cn_db c) = (r, d') \<Longrightarrow> step (cn_db c) d'"
  shows "kept P (stmt m)"
proof (rule kept_survives [OF assms(1)])
  fix c r c' assume c: "friendly c" "P c" and run: "stmt m c = (r, c')"
  have "guarded P (stmt m) (\<lambda>_ _. True)" using assms by (intro guarded_stmt) auto
  then have "friendly c'" "step (cn_db c) (cn_db c')" using c run unfolding guarded_def by metis+
  moreover from run have "\<exists>d s f. c' = c\<lparr>cn_db := d, cn_sched := s, cn_faults := f\<rparr>"
    by (rule stmt_outcome) (auto simp: after_stmt_def)
  ultimately show "friendly c' \<and> step (cn_db c) (cn_db c') \<and> (\<exists>d s f. c' = c\<lparr>cn_db := d, cn_sched := s, cn_faults := f\<rparr>)" by blast
qed

text \<open>A handler that starts from what its body keeps.\<close>

lemma guarded_catch_kept:
  assumes "kept P m" and "guarded P m Q" and "\<And>e. guarded P (h e) Q"
  shows "guarded P (catch m h) Q"
  unfolding guarded_def
proof (intro allI impI)
  fix c r c'' assume c: "friendly c" "P c" "catch m h c = (r, c'')"
  obtain y c' where m: "m c = (y, c')" by fastforce
  with assms(1) c have c': "friendly c'" "step (cn_db c) (cn_db c')" "P c'" unfolding kept_def by metis+
  show "friendly c'' \<and> step (cn_db c) (cn_db c'') \<and> (\<forall>x. r = Inr x \<longrightarrow> Q x c'')"
  proof (cases y)
    case (Inl e)
    then have "h e c' = (r, c'')" using c(3) m by (simp add: catch_run)
    then have "friendly c'' \<and> step (cn_db c') (cn_db c'') \<and> (\<forall>x. r = Inr x \<longrightarrow> Q x c'')"
      using assms(3) [of e] c'(1,3) unfolding guarded_def by blast
    then show ?thesis using c'(2) step_trans by blast
  next
    case (Inr x)
    then have "r = y" "c'' = c'" using c(3) m by (simp_all add: catch_run)
    then show ?thesis using assms(2) c(1,2) m c' unfolding guarded_def by blast
  qed
qed

lemma guarded_run:
  assumes "guarded P m Q" and "friendly c" and "P c"
  shows "step (cn_db c) (cn_db (snd (m c)))"
  using assms unfolding guarded_def by (metis prod.collapse)

end

end
