(* ===== verification/Catalog_Repository.thy ===== *)
theory Catalog_Repository
  imports Catalog_Keys Pagination Sessions
begin

text \<open>
  \<^verbatim>\<open>catalog/adapters/db\<close>: the products, their outbox and the queue of orphaned images. A repository call
  runs in the ORM session of one request, statement by statement among the other sessions (\<open>Sessions\<close>).

  SQLAlchemy is not part of the repository. What counts of it: an UPDATE is only sent for columns that
  changed; it is guarded by the version the instance was loaded with, and adds one to it; and a second
  load of a row the session still holds an instance of does not refresh that instance. Whether the
  session still holds the instance (its identity map is weak) is the flag \<open>cn_keeps\<close>.
\<close>

section \<open>Tables\<close>

record product =
  prod_id :: uuid
  prod_merchant :: uuid
  prod_name :: string
  prod_description :: "string option"
  prod_category :: "string option"
  prod_price :: decimal
  prod_image_key :: "string option"
  prod_image_status :: image_status
  prod_upload_token :: "string option"
  prod_upload_expires :: "timestamp option"
  prod_created :: timestamp
  prod_updated :: timestamp
  prod_deleted :: "timestamp option"
  prod_version :: int

datatype catalog_event =
    ProductCreatedV2 uuid uuid string decimal "string option" int
  | ProductUpdatedV2 uuid uuid string decimal "string option" int
  | ProductDeletedV2 uuid uuid int

record image_reclaim =
  rcl_id :: nat
  rcl_product :: uuid
  rcl_key :: string
  rcl_attempts :: nat
  rcl_error :: "string option"
  rcl_next_attempt :: timestamp

text \<open>
  The outbox is in the order of the inserts. \<open>cat_gone\<close> are the keys whose reclaim was finished,
  \<open>cat_next_token\<close> is where fresh upload tokens come from.
\<close>

record catalog_db =
  cat_products :: "product list"
  cat_outbox :: "catalog_event list"
  cat_reclaims :: "image_reclaim list"
  cat_next_reclaim :: nat
  cat_gone :: "string list"
  cat_next_token :: nat
  cat_clock :: timestamp

definition empty_catalog :: catalog_db where
  "empty_catalog = \<lparr>cat_products = [], cat_outbox = [], cat_reclaims = [], cat_next_reclaim = 0, cat_gone = [], cat_next_token = 0, cat_clock = 0\<rparr>"

section \<open>The session\<close>

record cat_conn = "catalog_db conn" +
  cn_map :: "uuid \<Rightarrow> product option"
  cn_keeps :: bool

type_synonym 'a cat = "(exn, cat_conn, 'a) prog"

definition live_product :: "uuid \<Rightarrow> catalog_db \<Rightarrow> product option" where
  "live_product pid d = find (\<lambda>p. prod_id p = pid \<and> prod_deleted p = None) (cat_products d)"

definition new_upload_token :: "string cat" where
  "new_upload_token = (\<lambda>c.
     (Inr (hex (cat_next_token (cn_db c))), c\<lparr>cn_db := (cn_db c)\<lparr>cat_next_token := Suc (cat_next_token (cn_db c))\<rparr>\<rparr>))"

section \<open>Reads\<close>

text \<open>\<open>populate_existing\<close>: the instance in the identity map is what was read.\<close>

definition repo_get_product :: "uuid \<Rightarrow> product option cat" where
  "repo_get_product pid =
     bnd (stmt (gets (live_product pid))) (\<lambda>row.
       case row of
         None \<Rightarrow> ret None
       | Some p \<Rightarrow> thn (modify (\<lambda>c. c\<lparr>cn_map := (cn_map c)(pid := if cn_keeps c then Some p else None)\<rparr>)) (ret (Some p)))"

definition repo_get_products_by_ids :: "uuid list \<Rightarrow> product list cat" where
  "repo_get_products_by_ids ids =
     (if ids = [] then ret []
      else stmt (gets (\<lambda>d. filter (\<lambda>p. prod_id p \<in> set ids \<and> prod_deleted p = None) (cat_products d))))"

definition repo_current_image_key :: "uuid \<Rightarrow> string option cat" where
  "repo_current_image_key pid = stmt (gets (\<lambda>d. case live_product pid d of None \<Rightarrow> None | Some p \<Rightarrow> prod_image_key p))"

subsection \<open>The listing\<close>

definition replace_char :: "char \<Rightarrow> string \<Rightarrow> string \<Rightarrow> string" where
  "replace_char c r s = concat (map (\<lambda>x. if x = c then r else [x]) s)"

definition escape_like :: "string \<Rightarrow> string" where
  "escape_like s =
     replace_char (CHR ''_'') [CHR 0x5C, CHR ''_''] (replace_char (CHR ''%'') [CHR 0x5C, CHR ''%'']
       (replace_char (CHR 0x5C) [CHR 0x5C, CHR 0x5C] s))"

text \<open>Postgres' \<open>LIKE\<close> with its default escape character (a pattern that ends in it matches nothing here).\<close>

function like_match :: "string \<Rightarrow> string \<Rightarrow> bool" where
  "like_match [] s = (s = [])"
| "like_match (c # p) s =
     (if c = CHR ''%'' then list_ex (\<lambda>k. like_match p (drop k s)) [0..<Suc (length s)]
      else if c = CHR 0x5C then p \<noteq> [] \<and> s \<noteq> [] \<and> hd s = hd p \<and> like_match (tl p) (tl s)
      else s \<noteq> [] \<and> (c = CHR ''_'' \<or> hd s = c) \<and> like_match p (tl s))"
  by pat_completeness auto
termination
  by (relation "measure (\<lambda>(p, s). length p)") auto

definition ilike :: "string \<Rightarrow> string \<Rightarrow> bool" where
  "ilike pattern s = like_match (lower pattern) (lower s)"

record product_filters =
  pf_category :: "string option"
  pf_merchant :: "uuid option"
  pf_unknown :: "string list"

definition filter_keys :: "product_filters \<Rightarrow> string list" where
  "filter_keys f = (if pf_category f = None then [] else [''category'']) @
     (if pf_merchant f = None then [] else [''merchant_id'']) @ pf_unknown f"

definition wanted :: "product_filters \<Rightarrow> string option \<Rightarrow> product \<Rightarrow> bool" where
  "wanted f search p \<longleftrightarrow> prod_deleted p = None \<and>
     (pf_category f \<noteq> None \<longrightarrow> prod_category p = pf_category f) \<and>
     (pf_merchant f \<noteq> None \<longrightarrow> Some (prod_merchant p) = pf_merchant f) \<and>
     (case search of
        None \<Rightarrow> True
      | Some term \<Rightarrow>
          term = '''' \<or> ilike (''%'' @ escape_like term @ ''%'') (prod_name p) \<or>
          (case prod_description p of None \<Rightarrow> False | Some t \<Rightarrow> ilike (''%'' @ escape_like term @ ''%'') t))"

text \<open>How a timestamp and a price print and are cast back is the database's and Python's: \<open>ts\<close> and \<open>dec\<close>.\<close>

definition repo_list_products ::
  "(string \<Rightarrow> bool) \<Rightarrow> (json \<Rightarrow> string) \<Rightarrow> (timestamp \<Rightarrow> string) \<times> (string \<Rightarrow> timestamp option) \<Rightarrow>
   (decimal \<Rightarrow> string) \<times> (string \<Rightarrow> decimal option) \<Rightarrow> page_params \<Rightarrow> product_filters \<Rightarrow> string option \<Rightarrow> product page cat" where
  "repo_list_products isoformat pyrepr ts dec p f search =
     (case check_filters (filter_keys f) {''category'', ''merchant_id''} of
        Some e \<Rightarrow> raise e
      | None \<Rightarrow> stmt (\<lambda>d.
          let rows = filter (wanted f search) (cat_products d) in
          (if sort_field p = ''created_at''
           then fetch_page isoformat pyrepr \<lparr>col_value = prod_created, col_text = fst ts, col_cast = snd ts, col_kind = ''timestamptz''\<rparr>
                  prod_id p rows
           else if sort_field p = ''price''
           then fetch_page isoformat pyrepr \<lparr>col_value = prod_price, col_text = fst dec, col_cast = snd dec, col_kind = ''numeric''\<rparr>
                  prod_id p rows
           else if sort_field p = ''name''
           then fetch_page isoformat pyrepr (text_column prod_name) prod_id p rows
           else Inl (InvalidQueryParamError ''sort'' (sort_field p)), d)))"

section \<open>Writes\<close>

definition add_cat_outbox :: "catalog_event \<Rightarrow> catalog_db \<Rightarrow> catalog_db" where
  "add_cat_outbox e d = d\<lparr>cat_outbox := cat_outbox d @ [e]\<rparr>"

definition load_aggregate :: "uuid \<Rightarrow> product cat" where
  "load_aggregate pid =
     bnd (stmt (gets (live_product pid))) (\<lambda>row.
       case row of
         None \<Rightarrow> raise (ConcurrentUpdateError ''product'')
       | Some p \<Rightarrow> (\<lambda>c. (Inr (case cn_map c pid of Some held \<Rightarrow> held | None \<Rightarrow> p), c)))"

text \<open>The columns of the row an UPDATE sets: those in which the instance differs from what was loaded.\<close>

definition set_columns :: "product \<Rightarrow> product \<Rightarrow> product \<Rightarrow> product" where
  "set_columns old new r = r\<lparr>
     prod_name := (if prod_name new = prod_name old then prod_name r else prod_name new),
     prod_description := (if prod_description new = prod_description old then prod_description r else prod_description new),
     prod_category := (if prod_category new = prod_category old then prod_category r else prod_category new),
     prod_price := (if prod_price new = prod_price old then prod_price r else prod_price new),
     prod_image_status := (if prod_image_status new = prod_image_status old then prod_image_status r else prod_image_status new),
     prod_upload_token := (if prod_upload_token new = prod_upload_token old then prod_upload_token r else prod_upload_token new),
     prod_upload_expires := (if prod_upload_expires new = prod_upload_expires old then prod_upload_expires r else prod_upload_expires new),
     prod_deleted := (if prod_deleted new = prod_deleted old then prod_deleted r else prod_deleted new)\<rparr>"

definition versioned_row :: "product \<Rightarrow> product \<Rightarrow> bool" where
  "versioned_row agg r \<longleftrightarrow> prod_id r = prod_id agg \<and> prod_version r = prod_version agg"

text \<open>Flush and commit: no column changed, no UPDATE; no row of that version, \<open>StaleDataError\<close>.\<close>

definition commit_versioned :: "product \<Rightarrow> product \<Rightarrow> (catalog_db \<Rightarrow> catalog_db) \<Rightarrow> (exn, catalog_db, unit) prog" where
  "commit_versioned old new also_add = (\<lambda>d.
     if new = old then (Inr (), also_add d)
     else if \<not> list_ex (versioned_row old) (cat_products d) then (Inl (ConcurrentUpdateError ''product''), d)
     else if prod_price new \<le> 0 then (Inl (IntegrityError ''ck_products_price_positive''), d)
     else (Inr (), also_add (d\<lparr>cat_products := update_where (versioned_row old)
       (\<lambda>r. (set_columns old new r)\<lparr>prod_version := prod_version r + 1, prod_updated := cat_clock d\<rparr>) (cat_products d)\<rparr>)))"

definition row_of :: "uuid \<Rightarrow> catalog_db \<Rightarrow> product option" where
  "row_of pid d = find (\<lambda>p. prod_id p = pid) (cat_products d)"

text \<open>\<open>session.refresh\<close> inside the same transaction.\<close>

definition refreshed :: "uuid \<Rightarrow> (exn, catalog_db, product) prog" where
  "refreshed pid = bnd (gets (row_of pid)) (\<lambda>row.
     case row of None \<Rightarrow> raise (RuntimeError ''could not refresh instance'') | Some p \<Rightarrow> ret p)"

definition repo_create_product ::
  "uuid \<Rightarrow> uuid \<Rightarrow> string \<Rightarrow> string option \<Rightarrow> string option \<Rightarrow> decimal \<Rightarrow> string option \<Rightarrow> catalog_event \<Rightarrow> product cat" where
  "repo_create_product pid merchant name description category price image_key outbox =
     stmt (bnd (gets id) (\<lambda>d.
       if row_of pid d \<noteq> None then raise (IntegrityError ''products_pkey'')
       else if price \<le> 0 then raise (IntegrityError ''ck_products_price_positive'')
       else let p = \<lparr>prod_id = pid, prod_merchant = merchant, prod_name = name, prod_description = description,
              prod_category = category, prod_price = price, prod_image_key = image_key, prod_image_status = IMG_NONE,
              prod_upload_token = None, prod_upload_expires = None, prod_created = cat_clock d, prod_updated = cat_clock d,
              prod_deleted = None, prod_version = 1\<rparr> in
            thn (modify (\<lambda>d. add_cat_outbox outbox (d\<lparr>cat_products := cat_products d @ [p]\<rparr>))) (ret p)))"

text \<open>A patch: the fields the body set. \<open>description\<close> and \<open>category\<close> may be set to null.\<close>

record product_patch =
  pp_name :: "string option"
  pp_description :: "string option option"
  pp_category :: "string option option"
  pp_price :: "decimal option"

definition apply_changes :: "product_patch \<Rightarrow> product \<Rightarrow> product" where
  "apply_changes patch p = p\<lparr>
     prod_name := (case pp_name patch of Some v \<Rightarrow> v | None \<Rightarrow> prod_name p),
     prod_description := (case pp_description patch of Some v \<Rightarrow> v | None \<Rightarrow> prod_description p),
     prod_category := (case pp_category patch of Some v \<Rightarrow> v | None \<Rightarrow> prod_category p),
     prod_price := (case pp_price patch of Some v \<Rightarrow> v | None \<Rightarrow> prod_price p)\<rparr>"

definition repo_update_product :: "uuid \<Rightarrow> product_patch \<Rightarrow> catalog_event \<Rightarrow> product cat" where
  "repo_update_product pid patch outbox =
     bnd (load_aggregate pid) (\<lambda>agg.
       stmt (thn (commit_versioned agg (apply_changes patch agg) (add_cat_outbox outbox)) (refreshed pid)))"

text \<open>\<open>INSERT INTO image_reclaim .. ON CONFLICT (object_key) DO NOTHING\<close>.\<close>

definition queue_reclaim :: "uuid \<Rightarrow> string \<Rightarrow> catalog_db \<Rightarrow> catalog_db" where
  "queue_reclaim pid key d =
     (if key \<in> rcl_key ` set (cat_reclaims d) then d
      else d\<lparr>cat_reclaims := cat_reclaims d @ [\<lparr>rcl_id = cat_next_reclaim d, rcl_product = pid, rcl_key = key, rcl_attempts = 0,
               rcl_error = None, rcl_next_attempt = cat_clock d\<rparr>],
             cat_next_reclaim := Suc (cat_next_reclaim d)\<rparr>)"

definition queue_image :: "product \<Rightarrow> catalog_db \<Rightarrow> catalog_db" where
  "queue_image agg d =
     (case prod_image_key agg of None \<Rightarrow> d | Some k \<Rightarrow> if k = '''' then d else queue_reclaim (prod_id agg) k d)"

definition repo_soft_delete_product :: "uuid \<Rightarrow> catalog_event \<Rightarrow> unit cat" where
  "repo_soft_delete_product pid outbox =
     bnd (load_aggregate pid) (\<lambda>agg.
       stmt (bnd (gets cat_clock) (\<lambda>now.
         commit_versioned agg (agg\<lparr>prod_deleted := Some now\<rparr>) (\<lambda>d. queue_image agg (add_cat_outbox outbox d)))))"

definition repo_set_image_pending :: "uuid \<Rightarrow> string \<Rightarrow> timestamp \<Rightarrow> catalog_event option \<Rightarrow> unit cat" where
  "repo_set_image_pending pid token expires outbox =
     bnd (load_aggregate pid) (\<lambda>agg.
       stmt (commit_versioned agg
         (agg\<lparr>prod_image_status := IMG_PENDING, prod_upload_token := Some token, prod_upload_expires := Some expires\<rparr>)
         (case outbox of None \<Rightarrow> id | Some e \<Rightarrow> add_cat_outbox e)))"

section \<open>The guarded image updates\<close>

text \<open>The guard every worker UPDATE carries: the live row, its current upload, still pending.\<close>

definition pending_upload :: "uuid \<Rightarrow> string \<Rightarrow> product \<Rightarrow> bool" where
  "pending_upload pid token p \<longleftrightarrow> prod_id p = pid \<and> prod_upload_token p = Some token \<and> prod_image_status p = IMG_PENDING \<and>
     prod_deleted p = None"

definition bump :: "timestamp \<Rightarrow> product \<Rightarrow> product" where
  "bump now p = p\<lparr>prod_version := prod_version p + 1, prod_updated := now\<rparr>"

text \<open>\<open>UPDATE .. RETURNING\<close> and the event built from the returned row, in one transaction.\<close>

definition image_flip ::
  "(product \<Rightarrow> bool) \<Rightarrow> (product \<Rightarrow> product) \<Rightarrow> (product \<Rightarrow> catalog_event) option \<Rightarrow> catalog_db \<Rightarrow> product option \<times> catalog_db" where
  "image_flip guard f factory d =
     (case find guard (cat_products d) of
        None \<Rightarrow> (None, d)
      | Some p \<Rightarrow>
          let p' = bump (cat_clock d) (f p); d' = d\<lparr>cat_products := update_where guard (\<lambda>r. bump (cat_clock d) (f r)) (cat_products d)\<rparr> in
          (Some p', case factory of None \<Rightarrow> d' | Some event_for \<Rightarrow> add_cat_outbox (event_for p') d'))"

record image_flip_result =
  fl_applied :: bool
  fl_previous :: "string option"

text \<open>The replaced key is queued in the same transaction; a key already queued violates its unique index.\<close>

definition repo_mark_image_ready ::
  "uuid \<Rightarrow> string \<Rightarrow> string \<Rightarrow> (product \<Rightarrow> catalog_event) option \<Rightarrow> image_flip_result cat" where
  "repo_mark_image_ready pid token key factory =
     stmt (bnd (gets (\<lambda>d. find (pending_upload pid token) (cat_products d))) (\<lambda>before.
       case before of
         None \<Rightarrow> ret \<lparr>fl_applied = False, fl_previous = None\<rparr>
       | Some p \<Rightarrow>
           thn (modify (\<lambda>d. snd (image_flip (pending_upload pid token)
             (\<lambda>r. r\<lparr>prod_image_key := Some key, prod_image_status := IMG_READY, prod_upload_expires := None\<rparr>) factory d)))
          (thn (case prod_image_key p of
                  None \<Rightarrow> ret ()
                | Some k \<Rightarrow>
                    if k = '''' \<or> k = key then ret ()
                    else bnd (gets (\<lambda>d. k \<in> rcl_key ` set (cat_reclaims d))) (\<lambda>queued.
                      if queued then raise (IntegrityError ''image_reclaim_object_key_key'') else modify (queue_reclaim pid k)))
           (ret \<lparr>fl_applied = True, fl_previous = prod_image_key p\<rparr>))))"

definition repo_mark_image_failed :: "uuid \<Rightarrow> string \<Rightarrow> (product \<Rightarrow> catalog_event) option \<Rightarrow> bool cat" where
  "repo_mark_image_failed pid token factory =
     stmt (\<lambda>d. let (row, d') = image_flip (pending_upload pid token)
                 (\<lambda>r. r\<lparr>prod_image_status := IMG_FAILED, prod_upload_expires := None\<rparr>) factory d in
               (Inr (row \<noteq> None), d'))"

definition repo_expire_abandoned_upload :: "uuid \<Rightarrow> string \<Rightarrow> (product \<Rightarrow> catalog_event) option \<Rightarrow> bool cat" where
  "repo_expire_abandoned_upload pid token factory =
     stmt (\<lambda>d. let (row, d') = image_flip (pending_upload pid token)
                 (\<lambda>r. r\<lparr>prod_image_status := (if prod_image_key r = None then IMG_NONE else IMG_READY),
                        prod_upload_token := None, prod_upload_expires := None\<rparr>) factory d in
               (Inr (row \<noteq> None), d'))"

definition repo_due_pending_uploads :: "timestamp \<Rightarrow> nat \<Rightarrow> (uuid \<times> string) list cat" where
  "repo_due_pending_uploads grace batch =
     stmt (gets (\<lambda>d.
       map (\<lambda>p. (prod_id p, the (prod_upload_token p)))
         (take batch (sort_key (\<lambda>p. the (prod_upload_expires p))
           (filter (\<lambda>p. prod_image_status p = IMG_PENDING \<and> prod_upload_token p \<noteq> None \<and> prod_deleted p = None \<and>
              (case prod_upload_expires p of None \<Rightarrow> False | Some t \<Rightarrow> t < cat_clock d - grace)) (cat_products d))))))"

definition repo_defer_upload_expiry :: "uuid \<Rightarrow> string \<Rightarrow> timestamp \<Rightarrow> unit cat" where
  "repo_defer_upload_expiry pid token delay =
     stmt (modify (\<lambda>d. d\<lparr>cat_products :=
       update_where (\<lambda>p. prod_id p = pid \<and> prod_upload_token p = Some token \<and> prod_image_status p = IMG_PENDING)
         (\<lambda>p. p\<lparr>prod_upload_expires := Some (cat_clock d + delay)\<rparr>) (cat_products d)\<rparr>))"

section \<open>The reclaim queue\<close>

definition repo_schedule_image_reclaim :: "uuid \<Rightarrow> string \<Rightarrow> unit cat" where
  "repo_schedule_image_reclaim pid key = stmt (modify (queue_reclaim pid key))"

definition due_reclaims :: "nat \<Rightarrow> catalog_db \<Rightarrow> image_reclaim list" where
  "due_reclaims batch d = take batch (sort_key rcl_next_attempt (filter (\<lambda>r. rcl_next_attempt r \<le> cat_clock d) (cat_reclaims d)))"

definition repo_claim_image_reclaims :: "nat \<Rightarrow> timestamp \<Rightarrow> (nat \<times> uuid \<times> string \<times> nat) list cat" where
  "repo_claim_image_reclaims batch lease_seconds =
     stmt (\<lambda>d. let ids = map rcl_id (due_reclaims batch d);
                   rows = update_where (\<lambda>r. rcl_id r \<in> set ids)
                     (\<lambda>r. r\<lparr>rcl_attempts := rcl_attempts r + 1, rcl_next_attempt := cat_clock d + lease_seconds\<rparr>) (cat_reclaims d) in
               (Inr (map (\<lambda>r. (rcl_id r, rcl_product r, rcl_key r, rcl_attempts r)) (filter (\<lambda>r. rcl_id r \<in> set ids) rows)),
                d\<lparr>cat_reclaims := rows\<rparr>))"

definition repo_finish_image_reclaim :: "nat list \<Rightarrow> unit cat" where
  "repo_finish_image_reclaim ids =
     stmt (modify (\<lambda>d. d\<lparr>cat_reclaims := filter (\<lambda>r. rcl_id r \<notin> set ids) (cat_reclaims d),
       cat_gone := map rcl_key (filter (\<lambda>r. rcl_id r \<in> set ids) (cat_reclaims d)) @ cat_gone d\<rparr>))"

definition repo_defer_image_reclaim :: "nat \<Rightarrow> timestamp \<Rightarrow> string \<Rightarrow> unit cat" where
  "repo_defer_image_reclaim i delay error =
     stmt (modify (\<lambda>d. d\<lparr>cat_reclaims := update_where (\<lambda>r. rcl_id r = i)
       (\<lambda>r. r\<lparr>rcl_error := Some (take 512 error), rcl_next_attempt := cat_clock d + delay\<rparr>) (cat_reclaims d)\<rparr>))"

end
