(* ===== verification/Catalog_Service.thy ===== *)
theory Catalog_Service
  imports Catalog_Repository
begin

text \<open>
  \<^verbatim>\<open>catalog/application/service.py\<close> (the write side and the listing; the cached read is in
  \<open>Catalog_Cache\<close>), \<^verbatim>\<open>catalog/application/outbox.py\<close> and the request bodies of
  \<^verbatim>\<open>catalog/application/dto.py\<close>. The id of a new product is an argument.
\<close>

section \<open>Request bodies\<close>

definition text_within :: "nat \<Rightarrow> string option \<Rightarrow> bool" where
  "text_within n t = (case t of None \<Rightarrow> True | Some s \<Rightarrow> length s \<le> n)"

definition name_ok :: "string \<Rightarrow> bool" where
  "name_ok s \<longleftrightarrow> 1 \<le> length s \<and> length s \<le> 255 \<and> strip s \<noteq> ''''"

text \<open>\<open>Decimal = Field(gt=0, max_digits=12, decimal_places=2)\<close>.\<close>

definition price_ok :: "decimal \<Rightarrow> bool" where
  "price_ok p \<longleftrightarrow> 0 < p \<and> p * 100 = of_int \<lfloor>p * 100\<rfloor> \<and> p < 10 ^ 10"

record product_create =
  pc_name :: string
  pc_description :: "string option"
  pc_category :: "string option"
  pc_price :: decimal

definition create_ok :: "product_create \<Rightarrow> bool" where
  "create_ok b \<longleftrightarrow> name_ok (pc_name b) \<and> text_within 5000 (pc_description b) \<and> text_within 255 (pc_category b) \<and> price_ok (pc_price b)"

text \<open>A patch sets at least one field; a null name or price does not reach this type.\<close>

definition patch_ok :: "product_patch \<Rightarrow> bool" where
  "patch_ok b \<longleftrightarrow>
     (pp_name b \<noteq> None \<or> pp_description b \<noteq> None \<or> pp_category b \<noteq> None \<or> pp_price b \<noteq> None) \<and>
     (case pp_name b of None \<Rightarrow> True | Some s \<Rightarrow> name_ok s) \<and>
     (case pp_description b of None \<Rightarrow> True | Some t \<Rightarrow> text_within 5000 t) \<and>
     (case pp_category b of None \<Rightarrow> True | Some t \<Rightarrow> text_within 255 t) \<and>
     (case pp_price b of None \<Rightarrow> True | Some p \<Rightarrow> price_ok p)"

section \<open>Responses\<close>

record product_response =
  rsp_product :: product
  rsp_image_url :: "string option"
  rsp_thumbnails :: "(string \<times> string) list option"
  rsp_available :: "int option"

definition product_response_of :: "string option \<Rightarrow> product \<Rightarrow> exn + product_response" where
  "product_response_of base p =
     (case public_image_url (prod_image_key p) (prod_image_status p) base of
        Inl e \<Rightarrow> Inl e
      | Inr url \<Rightarrow>
          (case public_thumbnail_urls (prod_image_key p) (prod_image_status p) base of
             Inl e \<Rightarrow> Inl e
           | Inr thumbs \<Rightarrow> Inr \<lparr>rsp_product = p, rsp_image_url = url, rsp_thumbnails = thumbs, rsp_available = None\<rparr>))"

definition product_respond :: "string option \<Rightarrow> product \<Rightarrow> product_response cat" where
  "product_respond base p = (\<lambda>c. (product_response_of base p, c))"

text \<open>\<open>available\<close> from one batch lookup, after the read; without the port, or without a row, unknown.\<close>

definition attach_availability :: "(string list \<Rightarrow> string \<Rightarrow> int option) option \<Rightarrow> product_response list \<Rightarrow> product_response list" where
  "attach_availability availability items =
     (case availability of
        None \<Rightarrow> map (\<lambda>i. i\<lparr>rsp_available := None\<rparr>) items
      | Some available_for \<Rightarrow>
          let stocked = available_for (map (\<lambda>i. str_uuid (prod_id (rsp_product i))) items) in
          map (\<lambda>i. i\<lparr>rsp_available := stocked (str_uuid (prod_id (rsp_product i)))\<rparr>) items)"

text \<open>The adapter over the inventory service: purchasable units of the stocked SKUs.\<close>

definition stock_available :: "(sku \<Rightarrow> inventory_row option) \<Rightarrow> string list \<Rightarrow> string \<Rightarrow> int option" where
  "stock_available rows skus s = (if s \<in> set skus then map_option (\<lambda>r. max (on_hand r - reserved r) 0) (rows s) else None)"

section \<open>Use cases\<close>

definition assert_product_owner :: "uuid \<Rightarrow> uuid \<Rightarrow> bool \<Rightarrow> unit cat" where
  "assert_product_owner owner caller is_admin =
     (if owner \<noteq> caller \<and> \<not> is_admin then raise (AuthorizationError ''not the owner of this product'') else ret ())"

definition svc_create_product :: "string option \<Rightarrow> uuid \<Rightarrow> uuid \<Rightarrow> product_create \<Rightarrow> product_response cat" where
  "svc_create_product base pid merchant b =
     bnd (repo_create_product pid merchant (pc_name b) (pc_description b) (pc_category b) (pc_price b) None
            (ProductCreatedV2 pid merchant (pc_name b) (pc_price b) (pc_category b) 1))
       (product_respond base)"

definition check_if_match :: "int option \<Rightarrow> product \<Rightarrow> unit cat" where
  "check_if_match if_match p =
     (if if_match \<noteq> None \<and> if_match \<noteq> Some (prod_version p) then raise (PreconditionFailedError '''') else ret ())"

definition updated_event :: "product_patch \<Rightarrow> product \<Rightarrow> catalog_event" where
  "updated_event patch p =
     ProductUpdatedV2 (prod_id p) (prod_merchant p)
       (case pp_name patch of Some v \<Rightarrow> v | None \<Rightarrow> prod_name p)
       (case pp_price patch of Some v \<Rightarrow> v | None \<Rightarrow> prod_price p)
       (case pp_category patch of Some v \<Rightarrow> v | None \<Rightarrow> prod_category p) (prod_version p + 1)"

definition svc_update_product ::
  "string option \<Rightarrow> uuid \<Rightarrow> uuid \<Rightarrow> bool \<Rightarrow> product_patch \<Rightarrow> int option \<Rightarrow> product_response option cat" where
  "svc_update_product base pid merchant is_admin patch if_match =
     bnd (repo_get_product pid) (\<lambda>row.
       case row of
         None \<Rightarrow> ret None
       | Some p \<Rightarrow>
           thn (assert_product_owner (prod_merchant p) merchant is_admin)
          (thn (check_if_match if_match p)
          (bnd (repo_update_product (prod_id p) patch (updated_event patch p)) (\<lambda>r.
           bnd (product_respond base r) (\<lambda>x. ret (Some x))))))"

definition svc_delete_product :: "uuid \<Rightarrow> uuid \<Rightarrow> bool \<Rightarrow> int option \<Rightarrow> bool cat" where
  "svc_delete_product pid merchant is_admin if_match =
     bnd (repo_get_product pid) (\<lambda>row.
       case row of
         None \<Rightarrow> ret False
       | Some p \<Rightarrow>
           thn (assert_product_owner (prod_merchant p) merchant is_admin)
          (thn (check_if_match if_match p)
          (thn (repo_soft_delete_product (prod_id p) (ProductDeletedV2 pid (prod_merchant p) (prod_version p + 1)))
           (ret True))))"

record upload_config =
  up_max_bytes :: int
  up_ttl :: timestamp
  up_store :: bool

definition allowed_mime :: "string list" where
  "allowed_mime = [''image/jpeg'', ''image/png'', ''image/webp'']"

text \<open>The answer: the object key, the size the policy is clamped to, and the seconds it is valid.\<close>

definition svc_presign_image_upload ::
  "upload_config \<Rightarrow> uuid \<Rightarrow> uuid \<Rightarrow> bool \<Rightarrow> string \<Rightarrow> int \<Rightarrow> (string \<times> int \<times> timestamp) option cat" where
  "svc_presign_image_upload cfg pid merchant is_admin content_type content_length =
     bnd (repo_get_product pid) (\<lambda>row.
       case row of
         None \<Rightarrow> ret None
       | Some p \<Rightarrow>
           thn (assert_product_owner (prod_merchant p) merchant is_admin)
          (if content_type \<notin> set allowed_mime then raise (InvalidUploadError content_type)
           else if content_length > up_max_bytes cfg then raise (InvalidUploadError ''content_length'')
           else if \<not> up_store cfg then raise (RuntimeError ''image store is not configured'')
           else bnd new_upload_token (\<lambda>token. bnd (gets (\<lambda>c. cat_clock (cn_db c))) (\<lambda>now.
             thn (repo_set_image_pending (prod_id p) token (now + up_ttl cfg)
                   (Some (ProductUpdatedV2 pid (prod_merchant p) (prod_name p) (prod_price p) (prod_category p) (prod_version p + 1))))
            (ret (Some (upload_key pid token, min content_length (up_max_bytes cfg), up_ttl cfg)))))))"

text \<open>The listing: one page of responses with their availability.\<close>

fun respond_all :: "string option \<Rightarrow> product list \<Rightarrow> exn + product_response list" where
  "respond_all base [] = Inr []"
| "respond_all base (p # ps) =
     (case product_response_of base p of
        Inl e \<Rightarrow> Inl e
      | Inr r \<Rightarrow> (case respond_all base ps of Inl e \<Rightarrow> Inl e | Inr rs \<Rightarrow> Inr (r # rs)))"

definition svc_list_products ::
  "string option \<Rightarrow> (string list \<Rightarrow> string \<Rightarrow> int option) option \<Rightarrow> product page cat \<Rightarrow> product_response page cat" where
  "svc_list_products base availability listing =
     bnd listing (\<lambda>pg.
       case respond_all base (page_items pg) of
         Inl e \<Rightarrow> raise e
       | Inr items \<Rightarrow> ret \<lparr>page_items = attach_availability availability items, next_cursor = next_cursor pg\<rparr>)"

text \<open>The event factory of the image worker: built from the row the guarded UPDATE returned.\<close>

definition flip_event :: "product \<Rightarrow> catalog_event" where
  "flip_event p = ProductUpdatedV2 (prod_id p) (prod_merchant p) (prod_name p) (prod_price p) (prod_category p) (prod_version p)"

end
