(* ===== verification/Catalog_Properties.thy ===== *)
theory Catalog_Properties
  imports Catalog_Service
begin

text \<open>
  What the catalog promises its readers: every version of a product is announced by exactly one event,
  which tells the state of that version; and an image a product stops serving is queued for deletion.
  Both are invariants of every history of requests, whatever other sessions commit between the
  statements of a request.
\<close>

section \<open>Invariant\<close>

fun event_product :: "catalog_event \<Rightarrow> uuid" where
  "event_product (ProductCreatedV2 i _ _ _ _ _) = i"
| "event_product (ProductUpdatedV2 i _ _ _ _ _) = i"
| "event_product (ProductDeletedV2 i _ _) = i"

fun product_version_of :: "catalog_event \<Rightarrow> int" where
  "product_version_of (ProductCreatedV2 _ _ _ _ _ v) = v"
| "product_version_of (ProductUpdatedV2 _ _ _ _ _ v) = v"
| "product_version_of (ProductDeletedV2 _ _ v) = v"

fun describes :: "product \<Rightarrow> catalog_event \<Rightarrow> bool" where
  "describes p (ProductCreatedV2 i m n c k v) =
     (i = prod_id p \<and> m = prod_merchant p \<and> n = prod_name p \<and> c = prod_price p \<and> k = prod_category p \<and> v = prod_version p \<and> prod_deleted p = None)"
| "describes p (ProductUpdatedV2 i m n c k v) =
     (i = prod_id p \<and> m = prod_merchant p \<and> n = prod_name p \<and> c = prod_price p \<and> k = prod_category p \<and> v = prod_version p \<and> prod_deleted p = None)"
| "describes p (ProductDeletedV2 i m v) = (i = prod_id p \<and> m = prod_merchant p \<and> v = prod_version p \<and> prod_deleted p \<noteq> None)"

definition events_of :: "uuid \<Rightarrow> catalog_db \<Rightarrow> catalog_event list" where
  "events_of pid d = filter (\<lambda>e. event_product e = pid) (cat_outbox d)"

definition announced_versions :: "product \<Rightarrow> catalog_db \<Rightarrow> bool" where
  "announced_versions p d \<longleftrightarrow> 1 \<le> prod_version p \<and> map product_version_of (events_of (prod_id p) d) = [1..prod_version p] \<and>
     describes p (last (events_of (prod_id p) d))"

definition token_drawn :: "product \<Rightarrow> catalog_db \<Rightarrow> bool" where
  "token_drawn p d \<longleftrightarrow> (\<forall>t. prod_upload_token p = Some t \<longrightarrow> (\<exists>k < cat_next_token d. t = hex k))"

definition catalog_ok :: "catalog_db \<Rightarrow> bool" where
  "catalog_ok d \<longleftrightarrow> distinct (map prod_id (cat_products d)) \<and>
     (\<forall>p \<in> set (cat_products d). announced_versions p d \<and> token_drawn p d) \<and>
     (\<forall>e \<in> set (cat_outbox d). event_product e \<in> prod_id ` set (cat_products d))"

text \<open>The keys the catalog answers for: served by a live product, queued for deletion, or deleted.\<close>

definition keys_known :: "catalog_db \<Rightarrow> string set" where
  "keys_known d = {k. k \<noteq> '''' \<and> (\<exists>p \<in> set (cat_products d). prod_deleted p = None \<and> prod_image_key p = Some k)} \<union>
     rcl_key ` set (cat_reclaims d) \<union> set (cat_gone d)"

definition product_evolves :: "product \<Rightarrow> product \<Rightarrow> bool" where
  "product_evolves p p' \<longleftrightarrow> prod_id p' = prod_id p \<and> prod_version p \<le> prod_version p' \<and>
     (prod_version p' = prod_version p \<longrightarrow> p' = p\<lparr>prod_upload_expires := prod_upload_expires p'\<rparr>)"

definition catalog_step :: "catalog_db \<Rightarrow> catalog_db \<Rightarrow> bool" where
  "catalog_step d d' \<longleftrightarrow> (catalog_ok d \<longrightarrow>
     catalog_ok d' \<and> (\<forall>p \<in> set (cat_products d). \<exists>p' \<in> set (cat_products d'). product_evolves p p') \<and>
     keys_known d \<subseteq> keys_known d' \<and> cat_next_token d \<le> cat_next_token d')"

lemma product_evolves_refl [simp]: "product_evolves p p"
  by (simp add: product_evolves_def)

lemma product_evolves_trans:
  assumes "product_evolves p q" and "product_evolves q r"
  shows "product_evolves p r"
proof -
  have "r = p\<lparr>prod_upload_expires := prod_upload_expires r\<rparr>" if same: "prod_version r = prod_version p"
  proof -
    have "prod_version q = prod_version p" "prod_version r = prod_version q" using assms same by (auto simp: product_evolves_def)
    then have q: "q = p\<lparr>prod_upload_expires := prod_upload_expires q\<rparr>" and "r = q\<lparr>prod_upload_expires := prod_upload_expires r\<rparr>"
      using assms by (auto simp: product_evolves_def)
    then have "r = (p\<lparr>prod_upload_expires := prod_upload_expires q\<rparr>)\<lparr>prod_upload_expires := prod_upload_expires r\<rparr>" by metis
    then show ?thesis by simp
  qed
  then show ?thesis using assms by (auto simp: product_evolves_def)
qed

lemma catalog_step_refl: "catalog_step d d"
  unfolding catalog_step_def by (meson product_evolves_refl order_refl)

lemma catalog_step_trans:
  assumes "catalog_step a b" and "catalog_step b c"
  shows "catalog_step a c"
  unfolding catalog_step_def
proof
  assume ok: "catalog_ok a"
  then have ab: "catalog_ok b" "\<forall>p \<in> set (cat_products a). \<exists>p' \<in> set (cat_products b). product_evolves p p'"
      "keys_known a \<subseteq> keys_known b" "cat_next_token a \<le> cat_next_token b"
    using assms(1) by (auto simp: catalog_step_def)
  then have bc: "catalog_ok c" "\<forall>p \<in> set (cat_products b). \<exists>p' \<in> set (cat_products c). product_evolves p p'"
      "keys_known b \<subseteq> keys_known c" "cat_next_token b \<le> cat_next_token c"
    using assms(2) by (auto simp: catalog_step_def)
  have "\<exists>r \<in> set (cat_products c). product_evolves p r" if "p \<in> set (cat_products a)" for p
    using that ab(2) bc(2) product_evolves_trans by meson
  then show "catalog_ok c \<and> (\<forall>p \<in> set (cat_products a). \<exists>p' \<in> set (cat_products c). product_evolves p p') \<and>
      keys_known a \<subseteq> keys_known c \<and> cat_next_token a \<le> cat_next_token c"
    using ab bc by auto
qed

section \<open>Writes of one row\<close>

text \<open>
  The shape of every versioned write: one row moves on by one version, its event is appended, and the
  key it stops serving is queued.
\<close>

lemma events_of_append: "events_of pid (add_cat_outbox e d) = events_of pid d @ (if event_product e = pid then [e] else [])"
  by (simp add: events_of_def add_cat_outbox_def)

lemma write_step:
  assumes ok: "catalog_ok d" and p: "p \<in> set (cat_products d)"
    and row: "prod_id p' = prod_id p" "prod_version p' = prod_version p + 1" "describes p' e"
    and rows: "cat_products d' = map (\<lambda>r. if prod_id r = prod_id p then p' else r) (cat_products d)"
    and out: "cat_outbox d' = cat_outbox d @ [e]"
    and tok: "cat_next_token d' = cat_next_token d" "token_drawn p' d"
    and keys: "keys_known d \<subseteq> keys_known d'"
  shows "catalog_step d d'"
  unfolding catalog_step_def
proof (intro impI conjI)
  have e: "event_product e = prod_id p" "product_version_of e = prod_version p + 1" using row by (cases e; simp)+
  have dist: "distinct (map prod_id (cat_products d))" using ok by (simp add: catalog_ok_def)
  have ids: "map prod_id (cat_products d') = map prod_id (cat_products d)" unfolding rows using row(1) by auto
  have events: "events_of i d' = events_of i d @ (if prod_id p = i then [e] else [])" for i
    by (simp add: events_of_def out e)
  have ann: "announced_versions q d" if "q \<in> set (cat_products d)" for q using ok that by (auto simp: catalog_ok_def)
  have "announced_versions p' d'"
  proof -
    have "1 \<le> prod_version p" "map product_version_of (events_of (prod_id p) d) = [1..prod_version p]"
      using ann [OF p] by (auto simp: announced_versions_def)
    moreover have "[1..prod_version p + 1] = [1..prod_version p] @ [prod_version p + 1]"
      using calculation(1) upto_rec2 [of 1 "prod_version p + 1"] by simp
    ultimately show ?thesis using row e by (simp add: announced_versions_def events)
  qed
  moreover have "announced_versions q d'" if "q \<in> set (cat_products d)" "prod_id q \<noteq> prod_id p" for q
    using ann [OF that(1)] that(2) by (simp add: announced_versions_def events)
  moreover have "token_drawn q d' = token_drawn q d" for q by (simp add: token_drawn_def tok)
  ultimately have "\<forall>q \<in> set (cat_products d'). announced_versions q d' \<and> token_drawn q d'"
    using ok tok(2) by (auto simp: rows catalog_ok_def)
  moreover have "prod_id ` set (cat_products d') = prod_id ` set (cat_products d)" using ids by (metis set_map)
  ultimately show "catalog_ok d'" using ok p e(1) dist by (auto simp: catalog_ok_def out ids)
  show "\<forall>q \<in> set (cat_products d). \<exists>q' \<in> set (cat_products d'). product_evolves q q'"
  proof
    fix q assume q: "q \<in> set (cat_products d)"
    show "\<exists>q' \<in> set (cat_products d'). product_evolves q q'"
    proof (cases "prod_id q = prod_id p")
      case True
      then have "q = p" using q p dist by (auto simp: distinct_map inj_on_def)
      then have "product_evolves q p'" using row by (simp add: product_evolves_def)
      then show ?thesis using q True by (auto simp: rows)
    next
      case False
      then show ?thesis using q by (force simp: rows)
    qed
  qed
qed (use keys tok in auto)

lemma keys_write:
  assumes "catalog_ok d" and p: "p \<in> set (cat_products d)"
    and rows: "cat_products d' = map (\<lambda>r. if prod_id r = prod_id p then p' else r) (cat_products d)"
    and mono: "set (cat_gone d) \<subseteq> set (cat_gone d')" "set (cat_reclaims d) \<subseteq> set (cat_reclaims d')"
    and key: "\<And>k. prod_deleted p = None \<Longrightarrow> prod_image_key p = Some k \<Longrightarrow> k \<noteq> '''' \<Longrightarrow>
      prod_deleted p' = None \<and> prod_image_key p' = Some k \<or> k \<in> rcl_key ` set (cat_reclaims d')"
  shows "keys_known d \<subseteq> keys_known d'"
proof
  fix k assume k: "k \<in> keys_known d"
  show "k \<in> keys_known d'"
  proof (cases "\<exists>q \<in> set (cat_products d). k \<noteq> '''' \<and> prod_deleted q = None \<and> prod_image_key q = Some k")
    case False
    then show ?thesis using k mono by (auto simp: keys_known_def)
  next
    case True
    then obtain q where q: "q \<in> set (cat_products d)" "k \<noteq> ''''" "prod_deleted q = None" "prod_image_key q = Some k" by auto
    show ?thesis
    proof (cases "prod_id q = prod_id p")
      case True
      then have "q = p" using q(1) assms(1,2) by (auto simp: catalog_ok_def distinct_map inj_on_def)
      moreover have "p' \<in> set (cat_products d')" using p by (auto simp: rows)
      ultimately show ?thesis using q key [of k] by (auto simp: keys_known_def)
    next
      case False
      then have "q \<in> set (cat_products d')" using q(1) by (auto simp: rows image_iff)
      then show ?thesis using q by (auto simp: keys_known_def)
    qed
  qed
qed

section \<open>The optimistic lock\<close>

text \<open>What a request knows of a product it has read: the row is still there, perhaps at a later version.\<close>

definition seen :: "product \<Rightarrow> catalog_db \<Rightarrow> bool" where
  "seen p d \<longleftrightarrow> token_drawn p d \<and> prod_deleted p = None \<and> (\<exists>p' \<in> set (cat_products d). product_evolves p p')"

lemma seen_step: "seen p d \<Longrightarrow> catalog_ok d \<Longrightarrow> catalog_step d d' \<Longrightarrow> seen p d'"
proof -
  assume seen: "seen p d" and "catalog_ok d" "catalog_step d d'"
  then have step: "\<forall>p \<in> set (cat_products d). \<exists>p' \<in> set (cat_products d'). product_evolves p p'" "cat_next_token d \<le> cat_next_token d'"
    by (auto simp: catalog_step_def)
  from seen obtain q where "q \<in> set (cat_products d)" "product_evolves p q" by (auto simp: seen_def)
  then have "\<exists>r \<in> set (cat_products d'). product_evolves p r" using step(1) product_evolves_trans by blast
  moreover have "token_drawn p d'" using seen step(2) unfolding seen_def token_drawn_def by (meson less_le_trans)
  ultimately show "seen p d'" using seen by (simp add: seen_def)
qed

lemma seen_versioned:
  assumes "catalog_ok d" and "seen p d" and "list_ex (versioned_row p) (cat_products d)"
  obtains r where "r \<in> set (cat_products d)" and "r = p\<lparr>prod_upload_expires := prod_upload_expires r\<rparr>"
    and "\<And>q. q \<in> set (cat_products d) \<Longrightarrow> versioned_row p q \<longleftrightarrow> prod_id q = prod_id p"
    and "\<And>q. q \<in> set (cat_products d) \<Longrightarrow> prod_id q = prod_id p \<Longrightarrow> q = r"
proof -
  from assms(3) obtain r where r: "r \<in> set (cat_products d)" "prod_id r = prod_id p" "prod_version r = prod_version p"
    by (auto simp: list_ex_iff versioned_row_def)
  from assms(2) obtain q where q: "q \<in> set (cat_products d)" "product_evolves p q" by (auto simp: seen_def)
  have one: "x = r" if "x \<in> set (cat_products d)" "prod_id x = prod_id p" for x
    using that r assms(1) by (auto simp: catalog_ok_def distinct_map inj_on_def)
  have "q = r" using one q by (auto simp: product_evolves_def)
  then have same: "r = p\<lparr>prod_upload_expires := prod_upload_expires r\<rparr>" using q(2) r(3) unfolding product_evolves_def by blast
  have "versioned_row p x \<longleftrightarrow> prod_id x = prod_id p" if "x \<in> set (cat_products d)" for x
    using one [OF that] r(3) unfolding versioned_row_def by blast
  from that [OF r(1) same this one] show thesis .
qed

lemma same_columns:
  assumes "r = p\<lparr>prod_upload_expires := x\<rparr>"
  shows "prod_id r = prod_id p" "prod_merchant r = prod_merchant p" "prod_name r = prod_name p" "prod_price r = prod_price p"
    "prod_category r = prod_category p" "prod_version r = prod_version p" "prod_deleted r = prod_deleted p"
    "prod_image_key r = prod_image_key p" "prod_upload_token r = prod_upload_token p" "prod_image_status r = prod_image_status p"
  using assms by simp_all

lemma commit_step:
  assumes ok: "catalog_ok d" and seen: "seen p d" and run: "commit_versioned p new add d = (r, d')" and change: "new \<noteq> p"
    and new: "prod_id new = prod_id p" "prod_merchant new = prod_merchant p" "prod_version new = prod_version p"
      "prod_image_key new = prod_image_key p"
    and event: "describes (new\<lparr>prod_version := prod_version p + 1\<rparr>) e" and tok: "token_drawn new d"
    and add: "\<And>x. cat_products (add x) = cat_products x" "\<And>x. cat_outbox (add x) = cat_outbox x @ [e]"
      "\<And>x. cat_next_token (add x) = cat_next_token x" "\<And>x. set (cat_gone x) \<subseteq> set (cat_gone (add x))"
      "\<And>x. set (cat_reclaims x) \<subseteq> set (cat_reclaims (add x))"
    and kept: "\<And>k x. prod_deleted new \<noteq> None \<Longrightarrow> prod_image_key p = Some k \<Longrightarrow> k \<noteq> '''' \<Longrightarrow> k \<in> rcl_key ` set (cat_reclaims (add x))"
  shows "catalog_step d d'"
proof (cases "list_ex (versioned_row p) (cat_products d) \<and> 0 < prod_price new")
  case False
  then have "d' = d" using run change by (auto simp: commit_versioned_def split: if_splits)
  then show ?thesis by (simp add: catalog_step_refl)
next
  case True
  then have "list_ex (versioned_row p) (cat_products d)" by simp
  from seen_versioned [OF ok seen this] obtain row where row: "row \<in> set (cat_products d)" "row = p\<lparr>prod_upload_expires := prod_upload_expires row\<rparr>"
      "\<And>q. q \<in> set (cat_products d) \<Longrightarrow> versioned_row p q \<longleftrightarrow> prod_id q = prod_id p"
      "\<And>q. q \<in> set (cat_products d) \<Longrightarrow> prod_id q = prod_id p \<Longrightarrow> q = row"
    by blast
  note cols = same_columns [OF row(2)]
  define p' where "p' = (set_columns p new row)\<lparr>prod_version := prod_version row + 1, prod_updated := cat_clock d\<rparr>"
  let ?d = "d\<lparr>cat_products := update_where (versioned_row p)
      (\<lambda>r. (set_columns p new r)\<lparr>prod_version := prod_version r + 1, prod_updated := cat_clock d\<rparr>) (cat_products d)\<rparr>"
  have d': "d' = add ?d" using run True change by (auto simp: commit_versioned_def)
  have rows: "cat_products d' = map (\<lambda>r. if prod_id r = prod_id row then p' else r) (cat_products d)"
    unfolding d' add(1) using row(3,4) cols(1) by (auto simp: update_where_def p'_def)
  have same: "prod_id p' = prod_id row" "prod_version p' = prod_version row + 1" "prod_image_key p' = prod_image_key row"
      "prod_deleted p' = prod_deleted new" "prod_upload_token p' = prod_upload_token new"
    by (simp_all add: p'_def set_columns_def cols)
  have "describes p' e" using event by (cases e) (auto simp: p'_def set_columns_def cols new)
  moreover have "keys_known d \<subseteq> keys_known d'"
  proof (rule keys_write [OF ok row(1) rows])
    show "set (cat_gone d) \<subseteq> set (cat_gone d')" "set (cat_reclaims d) \<subseteq> set (cat_reclaims d')"
      using add(4,5) [of ?d] by (simp_all add: d')
    fix k assume "prod_image_key row = Some k" "k \<noteq> ''''"
    then show "prod_deleted p' = None \<and> prod_image_key p' = Some k \<or> k \<in> rcl_key ` set (cat_reclaims d')"
      using same(3,4) cols(8) kept [of k ?d] unfolding d' by (cases "prod_deleted new") auto
  qed
  ultimately show ?thesis using write_step [OF ok row(1) same(1,2) _ rows] tok add(2,3) [of ?d]
    by (simp add: d' token_drawn_def same)
qed

section \<open>The guarded image updates\<close>

lemma find_pending:
  assumes "catalog_ok d" and "find (pending_upload pid token) (cat_products d) = Some p"
  shows "p \<in> set (cat_products d)" "pending_upload pid token p"
    "update_where (pending_upload pid token) g (cat_products d) = map (\<lambda>r. if prod_id r = prod_id p then g p else r) (cat_products d)"
proof -
  show p: "p \<in> set (cat_products d)" "pending_upload pid token p"
    using assms(2) find_Some_mem [of "pending_upload pid token" "cat_products d" p] by auto
  have one: "r = p" if "r \<in> set (cat_products d)" "prod_id r = prod_id p" for r
    using that p(1) assms(1) by (auto simp: catalog_ok_def distinct_map inj_on_def)
  have "prod_id r = prod_id p" if "pending_upload pid token r" for r using that p(2) by (simp add: pending_upload_def)
  then have "(if pending_upload pid token r then g r else r) = (if prod_id r = prod_id p then g p else r)"
    if "r \<in> set (cat_products d)" for r
  proof (cases "prod_id r = prod_id p")
    case True
    with one [OF that] p(2) show ?thesis by metis
  next
    case False
    with \<open>\<And>r. pending_upload pid token r \<Longrightarrow> prod_id r = prod_id p\<close> show ?thesis by metis
  qed
  then show "update_where (pending_upload pid token) g (cat_products d) =
      map (\<lambda>r. if prod_id r = prod_id p then g p else r) (cat_products d)"
    unfolding update_where_def by (rule map_cong [OF refl])
qed

text \<open>An UPDATE of the image columns by the worker, followed by inserts into the reclaim queue.\<close>

definition image_columns :: "(product \<Rightarrow> product) \<Rightarrow> bool" where
  "image_columns f \<longleftrightarrow> (\<forall>p. prod_id (f p) = prod_id p \<and> prod_merchant (f p) = prod_merchant p \<and> prod_name (f p) = prod_name p \<and>
     prod_price (f p) = prod_price p \<and> prod_category (f p) = prod_category p \<and> prod_version (f p) = prod_version p \<and>
     prod_deleted (f p) = prod_deleted p \<and> prod_upload_token (f p) \<in> {None, prod_upload_token p})"

lemma flip_step:
  assumes ok: "catalog_ok d" and found: "find (pending_upload pid token) (cat_products d) = Some p" and f: "image_columns f"
    and flip: "d1 = snd (image_flip (pending_upload pid token) f (Some flip_event) d)"
    and rest: "cat_products d' = cat_products d1" "cat_outbox d' = cat_outbox d1" "cat_next_token d' = cat_next_token d1"
      "cat_gone d' = cat_gone d1" "set (cat_reclaims d1) \<subseteq> set (cat_reclaims d')"
    and key: "\<And>k. prod_image_key p = Some k \<Longrightarrow> k \<noteq> '''' \<Longrightarrow> prod_image_key (f p) = Some k \<or> k \<in> rcl_key ` set (cat_reclaims d')"
  shows "catalog_step d d'"
proof -
  let ?p = "bump (cat_clock d) (f p)"
  note p = find_pending [OF ok found]
  have live: "prod_deleted p = None" using p(2) by (simp add: pending_upload_def)
  have d1: "d1 = add_cat_outbox (flip_event ?p)
      (d\<lparr>cat_products := update_where (pending_upload pid token) (\<lambda>r. bump (cat_clock d) (f r)) (cat_products d)\<rparr>)"
    unfolding flip by (simp add: image_flip_def found Let_def)
  have rows: "cat_products d' = map (\<lambda>r. if prod_id r = prod_id p then ?p else r) (cat_products d)"
    using p(3) [of "\<lambda>r. bump (cat_clock d) (f r)"] by (simp add: rest d1 add_cat_outbox_def)
  have cols: "prod_id ?p = prod_id p" "prod_version ?p = prod_version p + 1" "prod_deleted ?p = None" "describes ?p (flip_event ?p)"
      "prod_image_key ?p = prod_image_key (f p)" "prod_upload_token ?p \<in> {None, prod_upload_token p}"
    using f live by (auto simp: image_columns_def bump_def flip_event_def)
  have "keys_known d \<subseteq> keys_known d'"
  proof (rule keys_write [OF ok p(1) rows])
    show "set (cat_gone d) \<subseteq> set (cat_gone d')" "set (cat_reclaims d) \<subseteq> set (cat_reclaims d')"
      using rest(4,5) by (auto simp: d1 add_cat_outbox_def)
    show "prod_deleted ?p = None \<and> prod_image_key ?p = Some k \<or> k \<in> rcl_key ` set (cat_reclaims d')"
      if "prod_image_key p = Some k" "k \<noteq> ''''" for k using key [OF that] cols(3,5) by simp
  qed
  moreover have "token_drawn ?p d" using cols(6) ok p(1) by (auto simp: catalog_ok_def token_drawn_def)
  ultimately show ?thesis
    using write_step [OF ok p(1) cols(1,2,4) rows] by (simp add: rest d1 add_cat_outbox_def)
qed

lemma queue_reclaim_props [simp]:
  "cat_products (queue_reclaim pid k d) = cat_products d" "cat_outbox (queue_reclaim pid k d) = cat_outbox d"
  "cat_next_token (queue_reclaim pid k d) = cat_next_token d" "cat_gone (queue_reclaim pid k d) = cat_gone d"
  "set (cat_reclaims d) \<subseteq> set (cat_reclaims (queue_reclaim pid k d))" "k \<in> rcl_key ` set (cat_reclaims (queue_reclaim pid k d))"
  by (auto simp: queue_reclaim_def)

lemma mark_ready_step:
  assumes ok: "catalog_ok d"
    and run: "atomic (bnd (gets (\<lambda>d. find (pending_upload pid token) (cat_products d))) (\<lambda>before.
       case before of
         None \<Rightarrow> ret \<lparr>fl_applied = False, fl_previous = None\<rparr>
       | Some p \<Rightarrow>
           thn (modify (\<lambda>d. snd (image_flip (pending_upload pid token)
             (\<lambda>r. r\<lparr>prod_image_key := Some key, prod_image_status := IMG_READY, prod_upload_expires := None\<rparr>) (Some flip_event) d)))
          (thn (case prod_image_key p of
                  None \<Rightarrow> ret ()
                | Some k \<Rightarrow>
                    if k = '''' \<or> k = key then ret ()
                    else bnd (gets (\<lambda>d. k \<in> rcl_key ` set (cat_reclaims d))) (\<lambda>queued.
                      if queued then raise (IntegrityError ''image_reclaim_object_key_key'') else modify (queue_reclaim pid k)))
           (ret \<lparr>fl_applied = True, fl_previous = prod_image_key p\<rparr>)))) d = (r, d')"
  shows "catalog_step d d'"
proof (cases "find (pending_upload pid token) (cat_products d)")
  case None
  then show ?thesis using run by (auto simp: atomic_run bnd_run catalog_step_refl)
next
  case (Some p)
  let ?f = "\<lambda>r. r\<lparr>prod_image_key := Some key, prod_image_status := IMG_READY, prod_upload_expires := None\<rparr>"
  let ?d1 = "snd (image_flip (pending_upload pid token) ?f (Some flip_event) d)"
  have f: "image_columns ?f" by (simp add: image_columns_def)
  show ?thesis
  proof (cases "d' = d")
    case True
    then show ?thesis by (simp add: catalog_step_refl)
  next
    case False
    then have "d' = ?d1 \<and> (prod_image_key p \<in> {None, Some '''', Some key}) \<or> (\<exists>k. prod_image_key p = Some k \<and> d' = queue_reclaim pid k ?d1)"
      using run Some by (auto simp: atomic_run bnd_run thn_run split: option.splits if_splits)
    then show ?thesis
    proof
      assume "d' = ?d1 \<and> prod_image_key p \<in> {None, Some '''', Some key}"
      then show ?thesis using flip_step [OF ok Some f refl, of d'] by auto
    next
      assume "\<exists>k. prod_image_key p = Some k \<and> d' = queue_reclaim pid k ?d1"
      then obtain k where "prod_image_key p = Some k" "d' = queue_reclaim pid k ?d1" by blast
      then show ?thesis using flip_step [OF ok Some f refl, of d'] by auto
    qed
  qed
qed

lemma flip_only_step:
  assumes ok: "catalog_ok d" and f: "image_columns f" and key: "\<And>p. prod_image_key (f p) = prod_image_key p"
  shows "catalog_step d (snd (image_flip (pending_upload pid token) f (Some flip_event) d))"
proof (cases "find (pending_upload pid token) (cat_products d)")
  case None
  then show ?thesis by (simp add: image_flip_def catalog_step_refl)
next
  case (Some p)
  show ?thesis using key by (intro flip_step [OF ok Some f refl]) auto
qed

section \<open>Requests among other sessions\<close>

text \<open>The other sessions keep to the same contract; so does a program, whatever they do and whatever fails.\<close>

interpretation cat: session_rely catalog_ok catalog_step
proof
  show "catalog_ok d \<Longrightarrow> catalog_step d d' \<Longrightarrow> catalog_ok d'" for d d' by (simp add: catalog_step_def)
qed (rule catalog_step_refl, rule catalog_step_trans)

text \<open>What the service holds of the product it read, and the identity map of its instance.\<close>

definition holds_product :: "product \<Rightarrow> cat_conn \<Rightarrow> bool" where
  "holds_product p c \<longleftrightarrow> seen p (cn_db c) \<and> cn_map c (prod_id p) = Some p"

lemma holds_stable:
  "holds_product p c \<Longrightarrow> catalog_ok (cn_db c) \<Longrightarrow> catalog_step (cn_db c) d \<Longrightarrow> holds_product p (c\<lparr>cn_db := d, cn_sched := s, cn_faults := f\<rparr>)"
  using seen_step by (auto simp: holds_product_def)

lemma live_product_seen:
  assumes "catalog_ok d" and "live_product pid d = Some p"
  shows "seen p d \<and> prod_id p = pid"
proof -
  have p: "p \<in> set (cat_products d)" "prod_id p = pid" "prod_deleted p = None"
    using assms(2) find_Some_mem [of _ "cat_products d" p] by (auto simp: live_product_def)
  then have "token_drawn p d" using assms(1) by (simp add: catalog_ok_def)
  with p show ?thesis unfolding seen_def using product_evolves_refl by blast
qed

lemma cat_rg_get: "cat.guarded cn_keeps (repo_get_product pid) (\<lambda>row c. case row of None \<Rightarrow> True | Some p \<Rightarrow> prod_id p = pid \<and> holds_product p c)"
  unfolding repo_get_product_def
proof (rule cat.guarded_bnd)
  show "cat.guarded cn_keeps (stmt (gets (live_product pid)))
      (\<lambda>row c. cn_keeps c \<and> (\<forall>p. row = Some p \<longrightarrow> prod_id p = pid \<and> seen p (cn_db c)))"
    by (rule cat.guarded_stmt) (auto simp: cat.survives_def atomic_run catalog_step_refl dest: live_product_seen)
  show "cat.guarded (\<lambda>c. cn_keeps c \<and> (\<forall>p. row = Some p \<longrightarrow> prod_id p = pid \<and> seen p (cn_db c)))
      (case row of None \<Rightarrow> ret None
       | Some p \<Rightarrow> thn (modify (\<lambda>c. c\<lparr>cn_map := (cn_map c)(pid := if cn_keeps c then Some p else None)\<rparr>)) (ret (Some p)))
      (\<lambda>row c. case row of None \<Rightarrow> True | Some p \<Rightarrow> prod_id p = pid \<and> holds_product p c)" for row
    by (cases row) (auto simp: cat.guarded_def thn_run catalog_step_refl cat.friendly_def holds_product_def)
qed

lemma cat_rg_owner: "cat.guarded P (assert_product_owner o1 o2 adm) (\<lambda>_. P)"
  by (simp add: assert_product_owner_def cat.guarded_def catalog_step_refl)

lemma cat_rg_if_match: "cat.guarded P (check_if_match v p) (\<lambda>_. P)"
  by (simp add: check_if_match_def cat.guarded_def catalog_step_refl)

lemma cat_rg_respond: "cat.guarded P (product_respond base p) (\<lambda>_ _. True)"
  by (simp add: product_respond_def cat.guarded_def catalog_step_refl)

section \<open>Every request keeps the contract\<close>

lemma same_books_step:
  assumes "cat_products d' = cat_products d" and "cat_outbox d' = cat_outbox d" and "cat_next_token d \<le> cat_next_token d'"
    and "rcl_key ` set (cat_reclaims d) \<union> set (cat_gone d) \<subseteq> rcl_key ` set (cat_reclaims d') \<union> set (cat_gone d')"
  shows "catalog_step d d'"
proof -
  have "announced_versions p d' = announced_versions p d" for p by (simp add: announced_versions_def events_of_def assms(2))
  moreover have "token_drawn p d \<Longrightarrow> token_drawn p d'" for p unfolding token_drawn_def using assms(3) by (meson less_le_trans)
  moreover have "keys_known d \<subseteq> keys_known d'" using assms(1,4) by (auto simp: keys_known_def)
  ultimately show ?thesis using assms product_evolves_refl unfolding catalog_step_def catalog_ok_def by metis
qed

lemma create_step:
  assumes "catalog_ok d" and fresh: "row_of (prod_id p) d = None" and p: "prod_version p = 1" "describes p e" "prod_upload_token p = None"
    and d': "d' = add_cat_outbox e (d\<lparr>cat_products := cat_products d @ [p]\<rparr>)"
  shows "catalog_step d d'"
proof -
  have new: "prod_id p \<notin> prod_id ` set (cat_products d)" using fresh by (auto simp: row_of_def find_None_iff)
  then have none: "events_of (prod_id p) d = []" using assms(1) unfolding events_of_def catalog_ok_def filter_empty_conv by metis
  have e: "event_product e = prod_id p" "product_version_of e = 1" using p by (cases e; simp)+
  have events: "events_of i d' = events_of i d @ (if i = prod_id p then [e] else [])" for i
    by (simp add: events_of_def d' add_cat_outbox_def e)
  have "announced_versions p d'" using p(1,2) e by (simp add: announced_versions_def events none)
  moreover have "announced_versions q d'" if "q \<in> set (cat_products d)" for q
  proof -
    have "prod_id q \<noteq> prod_id p" using that new by (metis image_eqI)
    then show ?thesis using that assms(1) by (simp add: announced_versions_def events catalog_ok_def)
  qed
  moreover have "token_drawn q d' = token_drawn q d" "token_drawn p d'" for q by (simp_all add: token_drawn_def d' add_cat_outbox_def p(3))
  ultimately have "catalog_ok d'" using assms(1) new e(1) by (auto simp: catalog_ok_def d' add_cat_outbox_def)
  moreover have "keys_known d \<subseteq> keys_known d'" by (auto simp: keys_known_def d' add_cat_outbox_def)
  moreover have "set (cat_products d) \<subseteq> set (cat_products d')" "cat_next_token d' = cat_next_token d" by (auto simp: d' add_cat_outbox_def)
  ultimately show ?thesis unfolding catalog_step_def using product_evolves_refl by (metis order_refl subsetD)
qed

lemma cat_rg_create: "cat.guarded (\<lambda>_. True) (svc_create_product base pid m b) (\<lambda>_ _. True)"
  unfolding svc_create_product_def repo_create_product_def
proof (rule cat.guarded_bnd [OF cat.guarded_simple cat_rg_respond], goal_cases)
  case (1 d r d')
  let ?p = "\<lparr>prod_id = pid, prod_merchant = m, prod_name = pc_name b, prod_description = pc_description b,
      prod_category = pc_category b, prod_price = pc_price b, prod_image_key = None, prod_image_status = IMG_NONE,
      prod_upload_token = None, prod_upload_expires = None, prod_created = cat_clock d, prod_updated = cat_clock d,
      prod_deleted = None, prod_version = 1\<rparr>"
  have "d' = d \<or> row_of pid d = None \<and>
      d' = add_cat_outbox (ProductCreatedV2 pid m (pc_name b) (pc_price b) (pc_category b) 1) (d\<lparr>cat_products := cat_products d @ [?p]\<rparr>)"
    using 1(2) by (auto simp: atomic_run bnd_run thn_run Let_def split: if_splits)
  then show ?case using create_step [OF 1(1), of ?p] catalog_step_refl by auto
qed

text \<open>The three writes of a merchant: read, load the aggregate, flush.\<close>

lemma survives_holds: "cat.survives (holds_product p)"
  unfolding cat.survives_def using holds_stable by blast

lemma cat_rg_load_from:
  assumes held: "\<And>c. R c \<Longrightarrow> holds_product p c"
    and stable: "cat.survives R"
  shows "cat.guarded R (load_aggregate (prod_id p)) (\<lambda>agg c. agg = p \<and> R c)"
  unfolding load_aggregate_def
proof (rule cat.guarded_bnd)
  show "cat.guarded R (stmt (gets (live_product (prod_id p)))) (\<lambda>_. R)"
  proof (rule cat.guarded_stmt [OF stable])
    show "catalog_step (cn_db c) d' \<and> (\<forall>x. r = Inr x \<longrightarrow> R (c\<lparr>cn_db := d'\<rparr>))"
      if "R c" "atomic (gets (live_product (prod_id p))) (cn_db c) = (r, d')" for c r d'
      using that by (auto simp: atomic_run catalog_step_refl)
  qed
  show "cat.guarded R
      (case row of None \<Rightarrow> raise (ConcurrentUpdateError ''product'')
       | Some q \<Rightarrow> (\<lambda>c. (Inr (case cn_map c (prod_id p) of Some held \<Rightarrow> held | None \<Rightarrow> q), c))) (\<lambda>agg c. agg = p \<and> R c)" for row
    using held by (cases row) (auto simp: cat.guarded_def catalog_step_refl holds_product_def)
qed

lemma cat_rg_flush_from:
  assumes held: "\<And>c. R c \<Longrightarrow> holds_product p c"
    and stable: "cat.survives R"
    and step: "\<And>c r d'. R c \<Longrightarrow> catalog_ok (cn_db c) \<Longrightarrow> atomic (m p) (cn_db c) = (r, d') \<Longrightarrow> catalog_step (cn_db c) d'"
  shows "cat.guarded R (bnd (load_aggregate (prod_id p)) (\<lambda>agg. stmt (m agg))) (\<lambda>_ _. True)"
proof (rule cat.guarded_bnd)
  show "cat.guarded R (load_aggregate (prod_id p)) (\<lambda>agg c. agg = p \<and> R c)" by (rule cat_rg_load_from) (use held stable in blast)+
  fix agg
  have "cat.guarded R (stmt (m p)) (\<lambda>_ _. True)" by (rule cat.guarded_stmt [OF stable]) (use step in blast)
  then show "cat.guarded (\<lambda>c. agg = p \<and> R c) (stmt (m agg)) (\<lambda>_ _. True)" by (intro cat.guarded_pure) simp
qed

lemma refreshed_run: "atomic (thn m (refreshed pid)) d = (r, d') \<Longrightarrow> d' = d \<or> (\<exists>x. m d = (Inr x, d'))"
  by (auto simp: atomic_run thn_run refreshed_def bnd_run split: option.splits sum.splits prod.splits)

lemma update_flush_step:
  assumes change: "apply_changes patch p \<noteq> p" and c: "holds_product p c" "catalog_ok (cn_db c)"
    and run: "atomic (thn (commit_versioned p (apply_changes patch p) (add_cat_outbox (updated_event patch p))) (refreshed (prod_id p)))
      (cn_db c) = (r, d')"
  shows "catalog_step (cn_db c) d'"
proof (cases "d' = cn_db c")
  case True
  then show ?thesis by (simp add: catalog_step_refl)
next
  case False
  have seen: "seen p (cn_db c)" "prod_deleted p = None" using c(1) by (auto simp: holds_product_def seen_def)
  from False obtain x where "commit_versioned p (apply_changes patch p) (add_cat_outbox (updated_event patch p)) (cn_db c) = (Inr x, d')"
    using refreshed_run [OF run] by blast
  then show ?thesis
    by (rule commit_step [OF c(2) seen(1) _ change])
      (use seen in \<open>auto simp: apply_changes_def updated_event_def add_cat_outbox_def seen_def token_drawn_def\<close>)
qed

lemma cat_rg_update_flush:
  assumes "apply_changes patch p \<noteq> p"
  shows "cat.guarded (holds_product p) (repo_update_product (prod_id p) patch (updated_event patch p)) (\<lambda>_ _. True)"
  unfolding repo_update_product_def
  by (rule cat_rg_flush_from [OF _ survives_holds update_flush_step [OF assms]])

lemma queue_image_props [simp]:
  "cat_products (queue_image p d) = cat_products d" "cat_outbox (queue_image p d) = cat_outbox d"
  "cat_next_token (queue_image p d) = cat_next_token d" "cat_gone (queue_image p d) = cat_gone d"
  "set (cat_reclaims d) \<subseteq> set (cat_reclaims (queue_image p d))"
  "prod_image_key p = Some k \<Longrightarrow> k \<noteq> '''' \<Longrightarrow> k \<in> rcl_key ` set (cat_reclaims (queue_image p d))"
  by (auto simp: queue_image_def split: option.splits)

lemma atomic_commit: "atomic (commit_versioned p q add) d = commit_versioned p q add d"
  by (auto simp: atomic_run commit_versioned_def)

lemma cat_rg_delete_flush:
  "cat.guarded (holds_product p) (repo_soft_delete_product (prod_id p) (ProductDeletedV2 (prod_id p) (prod_merchant p) (prod_version p + 1))) (\<lambda>_ _. True)"
  unfolding repo_soft_delete_product_def
proof (rule cat_rg_flush_from [OF _ survives_holds])
  let ?e = "ProductDeletedV2 (prod_id p) (prod_merchant p) (prod_version p + 1)"
  fix c r d' assume c: "holds_product p c" "catalog_ok (cn_db c)"
    and run: "atomic (bnd (gets cat_clock) (\<lambda>now. commit_versioned p (p\<lparr>prod_deleted := Some now\<rparr>) (\<lambda>d. queue_image p (add_cat_outbox ?e d))))
      (cn_db c) = (r, d')"
  have seen: "seen p (cn_db c)" "prod_deleted p = None" using c(1) by (auto simp: holds_product_def seen_def)
  have "commit_versioned p (p\<lparr>prod_deleted := Some (cat_clock (cn_db c))\<rparr>) (\<lambda>d. queue_image p (add_cat_outbox ?e d)) (cn_db c) = (r, d')"
    using run atomic_commit [of p] by (simp add: atomic_run bnd_run)
  then show "catalog_step (cn_db c) d'"
  proof (rule commit_step [OF c(2) seen(1)])
    show "set (cat_reclaims x) \<subseteq> set (cat_reclaims (queue_image p (add_cat_outbox ?e x)))" for x
      using queue_image_props(5) [of "add_cat_outbox ?e x" p] by (simp add: add_cat_outbox_def)
    show "p\<lparr>prod_deleted := Some (cat_clock (cn_db c))\<rparr> \<noteq> p" using seen(2) by (metis option.distinct(1) product.select_convs(13) product.surjective product.update_convs(13))
  qed (use seen queue_image_props(6) in \<open>auto simp: add_cat_outbox_def seen_def token_drawn_def\<close>)
qed

lemma hex_inj: "hex a = hex b \<Longrightarrow> a = b"
  using foldl_hex_val by metis

text \<open>The fresh token of a presigned upload: drawn, and not the one the product has.\<close>

definition fresh_token :: "product \<Rightarrow> string \<Rightarrow> cat_conn \<Rightarrow> bool" where
  "fresh_token p t c \<longleftrightarrow> holds_product p c \<and> prod_upload_token p \<noteq> Some t \<and> (\<exists>k < cat_next_token (cn_db c). t = hex k)"

lemma cat_rg_token: "cat.guarded (holds_product p) new_upload_token (fresh_token p)"
  unfolding cat.guarded_def
proof (intro allI impI)
  fix c r c' assume c: "cat.friendly c" "holds_product p c" and run: "new_upload_token c = (r, c')"
  let ?n = "cat_next_token (cn_db c)" and ?d = "(cn_db c)\<lparr>cat_next_token := Suc (cat_next_token (cn_db c))\<rparr>"
  have c': "r = Inr (hex ?n)" "c' = c\<lparr>cn_db := ?d\<rparr>" using run by (auto simp: new_upload_token_def)
  have step: "catalog_step (cn_db c) ?d" by (rule same_books_step) auto
  have "holds_product p c'" using holds_stable [OF c(2) _ step, where s = "cn_sched c" and f = "cn_faults c"] c(1) by (simp add: c' cat.friendly_def)
  moreover have "prod_upload_token p \<noteq> Some (hex ?n)"
    using c(2) by (auto simp: holds_product_def seen_def token_drawn_def dest: hex_inj)
  moreover have "cat.friendly c'" using c(1) step by (auto simp: cat.friendly_def c' catalog_step_def)
  ultimately show "cat.friendly c' \<and> catalog_step (cn_db c) (cn_db c') \<and> (\<forall>x. r = Inr x \<longrightarrow> fresh_token p x c')"
    using step by (auto simp: c' fresh_token_def)
qed

lemma survives_fresh_token: "cat.survives (fresh_token p t)"
  unfolding cat.survives_def
proof (intro allI impI)
  fix c d s f assume c: "fresh_token p t c" "catalog_ok (cn_db c)" "catalog_step (cn_db c) d"
  then have "holds_product p (c\<lparr>cn_db := d, cn_sched := s, cn_faults := f\<rparr>)" "cat_next_token (cn_db c) \<le> cat_next_token d"
    using holds_stable by (auto simp: fresh_token_def catalog_step_def)
  then show "fresh_token p t (c\<lparr>cn_db := d, cn_sched := s, cn_faults := f\<rparr>)" using c(1) by (auto simp: fresh_token_def intro: less_le_trans)
qed

lemma cat_rg_pending_flush:
  "cat.guarded (fresh_token p t)
     (repo_set_image_pending (prod_id p) t expires
        (Some (ProductUpdatedV2 (prod_id p) (prod_merchant p) (prod_name p) (prod_price p) (prod_category p) (prod_version p + 1))))
     (\<lambda>_ _. True)"
  unfolding repo_set_image_pending_def
proof (rule cat_rg_flush_from [OF _ survives_fresh_token])
  let ?e = "ProductUpdatedV2 (prod_id p) (prod_merchant p) (prod_name p) (prod_price p) (prod_category p) (prod_version p + 1)"
  let ?new = "p\<lparr>prod_image_status := IMG_PENDING, prod_upload_token := Some t, prod_upload_expires := Some expires\<rparr>"
  fix c r d' assume c: "fresh_token p t c" "catalog_ok (cn_db c)"
    and run: "atomic (commit_versioned p ?new (case Some ?e of None \<Rightarrow> id | Some e \<Rightarrow> add_cat_outbox e)) (cn_db c) = (r, d')"
  have seen: "seen p (cn_db c)" "prod_deleted p = None" using c(1) by (auto simp: fresh_token_def holds_product_def seen_def)
  have tok: "token_drawn ?new (cn_db c)" "?new \<noteq> p"
  proof -
    show "token_drawn ?new (cn_db c)" using c(1) by (simp add: fresh_token_def token_drawn_def)
    have "prod_upload_token ?new \<noteq> prod_upload_token p" using c(1) by (auto simp: fresh_token_def)
    then show "?new \<noteq> p" by metis
  qed
  show "catalog_step (cn_db c) d'"
    using run unfolding atomic_commit option.case
    by (rule commit_step [OF c(2) seen(1) _ tok(2), where e = ?e]) (use seen(2) tok(1) in \<open>auto simp: add_cat_outbox_def\<close>)
qed (simp_all add: fresh_token_def)

section \<open>Histories of requests\<close>

datatype cat_request =
    CreateProduct uuid uuid product_create
  | UpdateProduct uuid uuid bool product_patch "int option"
  | DeleteProduct uuid uuid bool "int option"
  | PresignUpload upload_config uuid uuid bool string int
  | ImageReady uuid string string
  | ImageFailed uuid string
  | ExpireUpload uuid string
  | DeferExpiry uuid string timestamp
  | ScheduleReclaim uuid string
  | ClaimReclaims nat timestamp
  | FinishReclaims "nat list"
  | DeferReclaim nat timestamp string

definition ignore_result :: "'a cat \<Rightarrow> unit cat" where
  "ignore_result m = bnd m (\<lambda>_. ret ())"

fun cat_run :: "string option \<Rightarrow> cat_request \<Rightarrow> unit cat" where
  "cat_run base (CreateProduct pid m b) = ignore_result (svc_create_product base pid m b)"
| "cat_run base (UpdateProduct pid m adm patch v) = ignore_result (svc_update_product base pid m adm patch v)"
| "cat_run base (DeleteProduct pid m adm v) = ignore_result (svc_delete_product pid m adm v)"
| "cat_run base (PresignUpload cfg pid m adm mime n) = ignore_result (svc_presign_image_upload cfg pid m adm mime n)"
| "cat_run base (ImageReady pid token key) = ignore_result (repo_mark_image_ready pid token key (Some flip_event))"
| "cat_run base (ImageFailed pid token) = ignore_result (repo_mark_image_failed pid token (Some flip_event))"
| "cat_run base (ExpireUpload pid token) = ignore_result (repo_expire_abandoned_upload pid token (Some flip_event))"
| "cat_run base (DeferExpiry pid token delay) = repo_defer_upload_expiry pid token delay"
| "cat_run base (ScheduleReclaim pid key) = repo_schedule_image_reclaim pid key"
| "cat_run base (ClaimReclaims batch lease) = ignore_result (repo_claim_image_reclaims batch lease)"
| "cat_run base (FinishReclaims ids) = repo_finish_image_reclaim ids"
| "cat_run base (DeferReclaim i delay error) = repo_defer_image_reclaim i delay error"

text \<open>A patch that sets every field to what it is already changes no column.\<close>

fun effective :: "cat_request \<Rightarrow> cat_conn \<Rightarrow> bool" where
  "effective (UpdateProduct pid m adm patch v) c =
     (case fst (repo_get_product pid c) of Inr (Some p) \<Rightarrow> apply_changes patch p \<noteq> p | _ \<Rightarrow> True)"
| "effective _ c = True"

definition session_of :: "(catalog_db \<Rightarrow> catalog_db) list \<Rightarrow> fault list \<Rightarrow> catalog_db \<Rightarrow> cat_conn" where
  "session_of sched faults d = \<lparr>cn_db = d, cn_sched = sched, cn_faults = faults, cn_map = (\<lambda>_. None), cn_keeps = True\<rparr>"

type_synonym cat_history = "(cat_request \<times> (catalog_db \<Rightarrow> catalog_db) list \<times> fault list) list"

fun run_requests :: "string option \<Rightarrow> cat_history \<Rightarrow> catalog_db \<Rightarrow> catalog_db" where
  "run_requests base [] d = d"
| "run_requests base ((q, sched, faults) # qs) d = run_requests base qs (cn_db (snd (cat_run base q (session_of sched faults d))))"

fun all_effective :: "string option \<Rightarrow> cat_history \<Rightarrow> catalog_db \<Rightarrow> bool" where
  "all_effective base [] d = True"
| "all_effective base ((q, sched, faults) # qs) d =
     (effective q (session_of sched faults d) \<and> all_effective base qs (cn_db (snd (cat_run base q (session_of sched faults d)))))"

text \<open>Every write of another session keeps the contract.\<close>

definition others_keep :: "cat_history \<Rightarrow> bool" where
  "others_keep qs \<longleftrightarrow> (\<forall>(q, sched, faults) \<in> set qs. \<forall>other \<in> set sched. \<forall>d. catalog_step d (other d))"

lemma cat_rg_ignore: "cat.guarded P m Q \<Longrightarrow> cat.guarded P (ignore_result m) (\<lambda>_ _. True)"
  unfolding ignore_result_def by (rule cat.guarded_bnd [OF cat.guarded_any cat.guarded_ret]) auto

lemma cat_rg_update:
  "cat.guarded (\<lambda>c. cn_keeps c \<and> effective (UpdateProduct pid m adm patch v) c) (svc_update_product base pid m adm patch v) (\<lambda>_ _. True)"
  unfolding svc_update_product_def
proof (rule cat.guarded_bnd)
  show "cat.guarded (\<lambda>c. cn_keeps c \<and> effective (UpdateProduct pid m adm patch v) c) (repo_get_product pid)
      (\<lambda>row c. (\<forall>p. row = Some p \<longrightarrow> apply_changes patch p \<noteq> p) \<and> (case row of None \<Rightarrow> True | Some p \<Rightarrow> prod_id p = pid \<and> holds_product p c))"
    by (rule cat.guarded_pre [OF cat.guarded_answer [OF cat_rg_get]]) (auto split: sum.splits option.splits)
  fix row
  show "cat.guarded (\<lambda>c. (\<forall>p. row = Some p \<longrightarrow> apply_changes patch p \<noteq> p) \<and> (case row of None \<Rightarrow> True | Some p \<Rightarrow> prod_id p = pid \<and> holds_product p c))
      (case row of None \<Rightarrow> ret None
       | Some p \<Rightarrow> thn (assert_product_owner (prod_merchant p) m adm) (thn (check_if_match v p)
          (bnd (repo_update_product (prod_id p) patch (updated_event patch p)) (\<lambda>r. bnd (product_respond base r) (\<lambda>x. ret (Some x))))))
      (\<lambda>_ _. True)"
  proof (cases row)
    case None
    then show ?thesis by (simp add: cat.guarded_def catalog_step_refl)
  next
    case (Some p)
    have "cat.guarded (\<lambda>c. apply_changes patch p \<noteq> p \<and> holds_product p c)
      (thn (assert_product_owner (prod_merchant p) m adm) (thn (check_if_match v p)
          (bnd (repo_update_product (prod_id p) patch (updated_event patch p)) (\<lambda>r. bnd (product_respond base r) (\<lambda>x. ret (Some x))))))
      (\<lambda>_ _. True)"
    proof (rule cat.guarded_pure)
      assume change: "apply_changes patch p \<noteq> p"
      show "cat.guarded (holds_product p) (thn (assert_product_owner (prod_merchant p) m adm) (thn (check_if_match v p)
          (bnd (repo_update_product (prod_id p) patch (updated_event patch p)) (\<lambda>r. bnd (product_respond base r) (\<lambda>x. ret (Some x))))))
        (\<lambda>_ _. True)"
        by (intro cat.guarded_thn [OF cat_rg_owner] cat.guarded_thn [OF cat_rg_if_match] cat.guarded_bnd [OF cat_rg_update_flush [OF change]]
            cat.guarded_bnd [OF cat_rg_respond] cat.guarded_ret) simp
    qed
    then show ?thesis unfolding Some option.case by (rule cat.guarded_pre) simp_all
  qed
qed

lemma cat_rg_read_then:
  assumes "\<And>p. prod_id p = pid \<Longrightarrow> cat.guarded (holds_product p) (f (Some p)) (\<lambda>_ _. True)" and "cat.guarded (\<lambda>_. True) (f None) (\<lambda>_ _. True)"
  shows "cat.guarded cn_keeps (bnd (repo_get_product pid) f) (\<lambda>_ _. True)"
proof (rule cat.guarded_bnd [OF cat_rg_get])
  fix row
  show "cat.guarded (\<lambda>c. case row of None \<Rightarrow> True | Some p \<Rightarrow> prod_id p = pid \<and> holds_product p c) (f row) (\<lambda>_ _. True)"
    using assms cat.guarded_pure [of "prod_id (the row) = pid"] by (cases row) auto
qed

lemma cat_rg_delete: "cat.guarded cn_keeps (svc_delete_product pid m adm v) (\<lambda>_ _. True)"
  unfolding svc_delete_product_def
proof (rule cat_rg_read_then)
  fix p :: product assume "prod_id p = pid"
  from this [symmetric] show "cat.guarded (holds_product p)
      (case Some p of None \<Rightarrow> ret False
       | Some p \<Rightarrow> thn (assert_product_owner (prod_merchant p) m adm) (thn (check_if_match v p)
          (thn (repo_soft_delete_product (prod_id p) (ProductDeletedV2 pid (prod_merchant p) (prod_version p + 1))) (ret True)))) (\<lambda>_ _. True)"
    unfolding option.case
    by (intro cat.guarded_thn [OF cat_rg_owner] cat.guarded_thn [OF cat_rg_if_match] cat.guarded_thn [where R = "\<lambda>_. True"]) (simp_all add: cat_rg_delete_flush cat.guarded_ret)
qed (simp add: cat.guarded_ret)

lemma cat_rg_presign: "cat.guarded cn_keeps (svc_presign_image_upload cfg pid m adm mime n) (\<lambda>_ _. True)"
  unfolding svc_presign_image_upload_def
proof (rule cat_rg_read_then)
  fix p :: product assume "prod_id p = pid"
  then have pid: "pid = prod_id p" by simp
  have "cat.guarded (holds_product p) (bnd new_upload_token (\<lambda>token. bnd (gets (\<lambda>c. cat_clock (cn_db c))) (\<lambda>now.
      thn (repo_set_image_pending (prod_id p) token (now + up_ttl cfg)
         (Some (ProductUpdatedV2 (prod_id p) (prod_merchant p) (prod_name p) (prod_price p) (prod_category p) (prod_version p + 1))))
        (ret (Some (upload_key (prod_id p) token, min n (up_max_bytes cfg), up_ttl cfg)))))) (\<lambda>_ _. True)"
    by (intro cat.guarded_bnd [OF cat_rg_token] cat.guarded_bnd [OF cat.guarded_gets] cat.guarded_thn [OF cat_rg_pending_flush] cat.guarded_ret) simp
  then show "cat.guarded (holds_product p)
      (case Some p of None \<Rightarrow> ret None
       | Some p \<Rightarrow> thn (assert_product_owner (prod_merchant p) m adm)
          (if mime \<notin> set allowed_mime then raise (InvalidUploadError mime)
           else if n > up_max_bytes cfg then raise (InvalidUploadError ''content_length'')
           else if \<not> up_store cfg then raise (RuntimeError ''image store is not configured'')
           else bnd new_upload_token (\<lambda>token. bnd (gets (\<lambda>c. cat_clock (cn_db c))) (\<lambda>now.
             thn (repo_set_image_pending (prod_id p) token (now + up_ttl cfg)
                   (Some (ProductUpdatedV2 pid (prod_merchant p) (prod_name p) (prod_price p) (prod_category p) (prod_version p + 1))))
            (ret (Some (upload_key pid token, min n (up_max_bytes cfg), up_ttl cfg))))))) (\<lambda>_ _. True)"
    unfolding option.case pid by (intro cat.guarded_thn [OF cat_rg_owner]) (simp only: cat.guarded_raise split: if_split, simp)
qed (simp add: cat.guarded_ret)

text \<open>The worker's statements.\<close>

lemma cat_rg_flip:
  assumes "image_columns f" and "\<And>p. prod_image_key (f p) = prod_image_key p"
  shows "cat.guarded (\<lambda>_. True) (stmt (\<lambda>d. let (row, d') = image_flip (pending_upload pid token) f (Some flip_event) d in (Inr (row \<noteq> None), d'))) (\<lambda>_ _. True)"
proof (rule cat.guarded_simple)
  fix d r d' assume d: "catalog_ok d"
    and "atomic (\<lambda>d. let (row, d') = image_flip (pending_upload pid token) f (Some flip_event) d in (Inr (row \<noteq> None), d')) d = (r, d')"
  then have "d' = snd (image_flip (pending_upload pid token) f (Some flip_event) d)" by (auto simp: atomic_run split: prod.splits)
  then show "catalog_step d d'" using flip_only_step [OF d assms] by simp
qed

lemma defer_expiry_step:
  "catalog_step d (d\<lparr>cat_products := update_where Q (\<lambda>p. p\<lparr>prod_upload_expires := Some t\<rparr>) (cat_products d)\<rparr>)"
  (is "catalog_step d ?d")
proof -
  define f where "f = (\<lambda>p. if Q p then p\<lparr>prod_upload_expires := Some t\<rparr> else p)"
  have rows: "cat_products ?d = map f (cat_products d)" by (simp add: update_where_def f_def)
  have same: "prod_id (f p) = prod_id p" "prod_version (f p) = prod_version p" "prod_image_key (f p) = prod_image_key p"
      "prod_deleted (f p) = prod_deleted p" "prod_upload_token (f p) = prod_upload_token p" "describes (f p) e = describes p e" for p e
    by (cases e; simp add: f_def)+
  have ids: "map prod_id (map f ps) = map prod_id ps" for ps by (simp add: same)
  have "announced_versions (f p) ?d = announced_versions p d" "token_drawn (f p) ?d = token_drawn p d" for p
    by (simp_all add: announced_versions_def events_of_def token_drawn_def same)
  then have "catalog_ok d \<Longrightarrow> catalog_ok ?d"
    unfolding catalog_ok_def rows ids by (simp add: image_image same(1))
  moreover have "keys_known ?d = keys_known d"
    unfolding keys_known_def rows by (simp add: same)
  moreover have "product_evolves p (f p)" for p by (simp add: product_evolves_def f_def)
  then have "\<forall>p \<in> set (cat_products d). \<exists>p' \<in> set (cat_products ?d). product_evolves p p'" unfolding rows by (metis image_eqI list.set_map)
  ultimately show ?thesis unfolding catalog_step_def by simp
qed

lemma cat_rg_books:
  assumes "\<And>d. cat_products (f d) = cat_products d" "\<And>d. cat_outbox (f d) = cat_outbox d" "\<And>d. cat_next_token (f d) = cat_next_token d"
    and "\<And>d. rcl_key ` set (cat_reclaims d) \<union> set (cat_gone d) \<subseteq> rcl_key ` set (cat_reclaims (f d)) \<union> set (cat_gone (f d))"
  shows "cat.guarded (\<lambda>_. True) (stmt (\<lambda>d. (Inr (g d), f d))) (\<lambda>_ _. True)"
  proof (rule cat.guarded_simple)
  fix d r d' assume "atomic (\<lambda>d. (Inr (g d), f d)) d = (r, d')"
  then have "d' = f d" by (simp add: atomic_run)
  then show "catalog_step d d'" by (intro same_books_step) (simp_all only: assms order_refl)
qed

lemma rcl_keys_update: "(\<And>r. rcl_key (g r) = rcl_key r) \<Longrightarrow> rcl_key ` set (update_where Q g rs) = rcl_key ` set rs"
  unfolding update_where_def list.set_map image_image by (rule image_cong) auto

lemma modify_as_pair: "modify f = (\<lambda>d. (Inr (), f d))"
  by (rule ext) simp

theorem cat_rg_request: "cat.guarded (\<lambda>c. cn_keeps c \<and> effective q c) (cat_run base q) (\<lambda>_ _. True)"
proof (cases q)
  case (CreateProduct pid m b)
  then show ?thesis using cat.guarded_pre [OF cat_rg_ignore [OF cat_rg_create]] by simp
next
  case (UpdateProduct pid m adm patch v)
  then show ?thesis using cat_rg_ignore [OF cat_rg_update] by (simp del: effective.simps)
next
  case (DeleteProduct pid m adm v)
  then show ?thesis using cat_rg_ignore [OF cat_rg_delete] by simp
next
  case (PresignUpload cfg pid m adm mime n)
  then show ?thesis using cat_rg_ignore [OF cat_rg_presign] by simp
next
  case (ImageReady pid token key)
  have "cat.guarded (\<lambda>_. True) (repo_mark_image_ready pid token key (Some flip_event)) (\<lambda>_ _. True)"
    unfolding repo_mark_image_ready_def by (rule cat.guarded_simple) (rule mark_ready_step)
  then show ?thesis using ImageReady by (auto intro: cat.guarded_pre [OF cat_rg_ignore])
next
  case (ImageFailed pid token)
  have "cat.guarded (\<lambda>_. True) (repo_mark_image_failed pid token (Some flip_event)) (\<lambda>_ _. True)"
    unfolding repo_mark_image_failed_def by (rule cat_rg_flip) (simp_all add: image_columns_def)
  then show ?thesis using ImageFailed by (auto intro: cat.guarded_pre [OF cat_rg_ignore])
next
  case (ExpireUpload pid token)
  have "cat.guarded (\<lambda>_. True) (repo_expire_abandoned_upload pid token (Some flip_event)) (\<lambda>_ _. True)"
    unfolding repo_expire_abandoned_upload_def by (rule cat_rg_flip) (simp_all add: image_columns_def)
  then show ?thesis using ExpireUpload by (auto intro: cat.guarded_pre [OF cat_rg_ignore])
next
  case (DeferExpiry pid token delay)
  have "cat.guarded (\<lambda>_. True) (repo_defer_upload_expiry pid token delay) (\<lambda>_ _. True)"
    unfolding repo_defer_upload_expiry_def by (rule cat.guarded_simple) (auto simp: atomic_run defer_expiry_step)
  then show ?thesis using DeferExpiry by (auto intro: cat.guarded_pre)
next
  case (ScheduleReclaim pid key)
  have "cat.guarded (\<lambda>_. True) (repo_schedule_image_reclaim pid key) (\<lambda>_ _. True)"
    unfolding repo_schedule_image_reclaim_def modify_as_pair 
    by (rule cat_rg_books) (simp_all only: queue_reclaim_props image_mono Un_mono order_refl)
  then show ?thesis using ScheduleReclaim by (auto intro: cat.guarded_pre)
next
  case (ClaimReclaims batch lease)
  have "cat.guarded (\<lambda>_. True) (repo_claim_image_reclaims batch lease) (\<lambda>_ _. True)"
    unfolding repo_claim_image_reclaims_def Let_def by (rule cat_rg_books) (simp_all add: rcl_keys_update)
  then show ?thesis using ClaimReclaims by (auto intro: cat.guarded_pre [OF cat_rg_ignore])
next
  case (FinishReclaims ids)
  have "cat.guarded (\<lambda>_. True) (repo_finish_image_reclaim ids) (\<lambda>_ _. True)"
    unfolding repo_finish_image_reclaim_def modify_as_pair by (rule cat_rg_books) auto
  then show ?thesis using FinishReclaims by (auto intro: cat.guarded_pre)
next
  case (DeferReclaim i delay error)
  have "cat.guarded (\<lambda>_. True) (repo_defer_image_reclaim i delay error) (\<lambda>_ _. True)"
    unfolding repo_defer_image_reclaim_def modify_as_pair by (rule cat_rg_books) (simp_all add: rcl_keys_update)
  then show ?thesis using DeferReclaim by (auto intro: cat.guarded_pre)
qed

lemma request_keeps:
  assumes "catalog_ok d" and "\<forall>other \<in> set sched. \<forall>d. catalog_step d (other d)" and "effective q (session_of sched faults d)"
  shows "catalog_step d (cn_db (snd (cat_run base q (session_of sched faults d))))"
proof -
  obtain r c' where run: "cat_run base q (session_of sched faults d) = (r, c')" by fastforce
  have "cat.friendly (session_of sched faults d)" "cn_keeps (session_of sched faults d)" using assms by (simp_all add: cat.friendly_def session_of_def)
  with run assms(3) cat_rg_request [of q base] have "catalog_step (cn_db (session_of sched faults d)) (cn_db c')" unfolding cat.guarded_def by blast
  then show ?thesis by (simp add: run) (simp add: session_of_def)
qed

lemma history_keeps:
  "catalog_ok d \<Longrightarrow> others_keep qs \<Longrightarrow> all_effective base qs d \<Longrightarrow> catalog_step d (run_requests base qs d)"
proof (induction base qs d rule: run_requests.induct)
  case (2 base q sched faults qs d)
  then have step: "catalog_step d (cn_db (snd (cat_run base q (session_of sched faults d))))"
    by (intro request_keeps) (auto simp: others_keep_def)
  then have "catalog_ok (cn_db (snd (cat_run base q (session_of sched faults d))))" using 2(2) by (simp add: catalog_step_def)
  with 2 have "catalog_step (cn_db (snd (cat_run base q (session_of sched faults d)))) (run_requests base ((q, sched, faults) # qs) d)"
    by (auto simp: others_keep_def)
  with step show ?case by (rule catalog_step_trans)
qed (simp add: catalog_step_refl)

lemma run_append: "run_requests base (qs @ rs) d = run_requests base rs (run_requests base qs d)"
  by (induction base qs d rule: run_requests.induct) auto

lemma effective_append: "all_effective base (qs @ rs) d \<longleftrightarrow> all_effective base qs d \<and> all_effective base rs (run_requests base qs d)"
  by (induction base qs d rule: run_requests.induct) auto

text \<open>A request that runs between the statements of another is such an other session.\<close>

definition as_other :: "string option \<Rightarrow> cat_request \<Rightarrow> catalog_db \<Rightarrow> catalog_db" where
  "as_other base q d = cn_db (snd (cat_run base q (session_of [] [] d)))"

lemma as_other_keeps: "(\<And>c. effective q c) \<Longrightarrow> catalog_step d (as_other base q d)"
  unfolding as_other_def using request_keeps [of d "[]" q "[]" base] by (simp add: catalog_step_def)

lemma empty_catalog_ok: "catalog_ok empty_catalog"
  by (simp add: catalog_ok_def empty_catalog_def)

section \<open>Properties\<close>


definition sample_create :: product_create where
  "sample_create = \<lparr>pc_name = ''mug'', pc_description = None, pc_category = Some ''kitchen'', pc_price = 12\<rparr>"

definition price_patch :: "decimal \<Rightarrow> product_patch" where
  "price_patch v = \<lparr>pp_name = None, pp_description = None, pp_category = None, pp_price = Some v\<rparr>"

definition sample_upload :: upload_config where
  "sample_upload = \<lparr>up_max_bytes = 1000, up_ttl = 300, up_store = True\<rparr>"

definition upload_request :: cat_request where
  "upload_request = PresignUpload sample_upload 7 1 False ''image/png'' 900"

text \<open>The upload commits between the read and the flush of the first update, which then loses; the answer of the
  second is lost after its commit.\<close>

definition sample_history :: cat_history where
  "sample_history =
     [(CreateProduct 7 1 sample_create, [], []), (UpdateProduct 7 1 False (price_patch 15) None, [id, id, as_other None upload_request], []),
      (UpdateProduct 7 1 False (price_patch 15) None, [], [Fine, Fine, Landed TimeoutError]), (ImageReady 7 (hex 0) ''k1'', [], []), (upload_request, [], []),
      (ImageReady 7 (hex 1) ''k2'', [], [])]"

lemma sample_others_keep: "others_keep sample_history"
  using as_other_keeps [of upload_request _ None] by (simp add: others_keep_def sample_history_def upload_request_def catalog_step_refl)

lemma sample_effective: "all_effective None sample_history empty_catalog"
  by code_simp

definition sample_catalog :: catalog_db where
  "sample_catalog = run_requests None sample_history empty_catalog"

lemma sample_product: "hd (cat_products sample_catalog) \<in> set (cat_products sample_catalog)" "prod_version (hd (cat_products sample_catalog)) = 6"
  by code_simp+


text \<open>
  An image a live product serves is never forgotten: whatever requests follow, in any interleaving,
  it is still served by a live product, or queued in the reclaim table for deletion, or a reclaim of it
  was finished.
\<close>
theorem replaced_images_reclaimed:
  assumes "others_keep (qs @ rs)" and "all_effective base (qs @ rs) empty_catalog"
    and "d = run_requests base qs empty_catalog" and "d' = run_requests base (qs @ rs) empty_catalog"
    and "p \<in> set (cat_products d)" and "prod_deleted p = None" and "prod_image_key p = Some k" and "k \<noteq> ''''"
  shows "(\<exists>p' \<in> set (cat_products d'). prod_deleted p' = None \<and> prod_image_key p' = Some k) \<or>
    k \<in> rcl_key ` set (cat_reclaims d') \<or> k \<in> set (cat_gone d')"
proof -
  have both: "all_effective base qs empty_catalog" "all_effective base rs d" "d' = run_requests base rs d"
    using assms(2,3,4) by (simp_all add: effective_append run_append)
  have others: "others_keep qs" "others_keep rs" using assms(1) by (auto simp: others_keep_def)
  have "catalog_ok d" using history_keeps [OF empty_catalog_ok others(1) both(1)] empty_catalog_ok assms(3) by (simp add: catalog_step_def)
  with history_keeps [OF this others(2) both(2)] have "keys_known d \<subseteq> keys_known d'" by (simp add: both(3) catalog_step_def)
  moreover have "k \<in> keys_known d" using assms(5-8) by (auto simp: keys_known_def)
  ultimately show ?thesis by (auto simp: keys_known_def)
qed

theorem replaced_images_reclaimed_witness:
  "prod_image_key (hd (cat_products (run_requests None (take 4 sample_history) empty_catalog))) = Some ''k1'' \<and>
   prod_image_key (hd (cat_products sample_catalog)) = Some ''k2'' \<and>
   ((\<exists>p' \<in> set (cat_products sample_catalog). prod_deleted p' = None \<and> prod_image_key p' = Some ''k1'') \<or>
    ''k1'' \<in> rcl_key ` set (cat_reclaims sample_catalog) \<or> ''k1'' \<in> set (cat_gone sample_catalog))"
proof -
  let ?d = "run_requests None (take 4 sample_history) empty_catalog"
  have p: "hd (cat_products ?d) \<in> set (cat_products ?d)" "prod_deleted (hd (cat_products ?d)) = None"
      "prod_image_key (hd (cat_products ?d)) = Some ''k1''" "prod_image_key (hd (cat_products sample_catalog)) = Some ''k2''" by code_simp+
  have "others_keep (take 4 sample_history @ drop 4 sample_history)" "all_effective None (take 4 sample_history @ drop 4 sample_history) empty_catalog"
      "sample_catalog = run_requests None (take 4 sample_history @ drop 4 sample_history) empty_catalog"
    by (simp_all only: append_take_drop_id sample_others_keep sample_effective sample_catalog_def)
  from replaced_images_reclaimed [OF this(1,2) refl this(3) p(1-3)] p(3,4) show ?thesis by simp
qed

section \<open>Where a version is announced twice\<close>

text \<open>
  An update that sets a field to the value it has sends no UPDATE, so the version stays, but its event
  announces the next version; the update after it announces that version again, and a consumer that has
  seen the first ignores the second.
\<close>

lemma noop_update_reuses_version:
  "let d = run_requests None [(CreateProduct 7 1 sample_create, [], []), (UpdateProduct 7 1 False (price_patch 12) None, [], []),
       (UpdateProduct 7 1 False (price_patch 15) None, [], [])] empty_catalog
   in map product_version_of (cat_outbox d) = [1, 2, 2] \<and> map prod_version (cat_products d) = [2] \<and> map prod_price (cat_products d) = [15]"
  by code_simp

text \<open>
  Where the session no longer holds the instance it read, the second load takes the newer row: a
  concurrent update is not noticed, and both announce version 2.
\<close>

lemma lost_instance_reuses_version:
  "let d = cn_db (snd (cat_run None (UpdateProduct 7 1 False (price_patch 15) None)
       ((session_of [id, as_other None (UpdateProduct 7 1 False (price_patch 14) None)] []
          (run_requests None [(CreateProduct 7 1 sample_create, [], [])] empty_catalog))\<lparr>cn_keeps := False\<rparr>)))
   in map product_version_of (cat_outbox d) = [1, 2, 2] \<and> map prod_version (cat_products d) = [3]"
  by code_simp

end
