(* ===== verification/Event_Contracts.thy ===== *)
theory Event_Contracts
  imports Stock_Properties Catalog_Properties Events
begin

text \<open>
  The producers against the contract gate of the consumers: every event the inventory and the catalog
  put into their outboxes has the shape its registered model demands, so the gate of
  \<open>Bus_Consumer\<close> does not turn away what the backend itself sends.
\<close>

section \<open>Catalog events\<close>

definition catalog_event_type :: "catalog_event \<Rightarrow> string" where
  "catalog_event_type e = (case e of ProductCreatedV2 _ _ _ _ _ _ \<Rightarrow> ''ProductCreated'' | ProductUpdatedV2 _ _ _ _ _ _ \<Rightarrow> ''ProductUpdated''
     | ProductDeletedV2 _ _ _ \<Rightarrow> ''ProductDeleted'')"

definition product_fields :: "uuid \<Rightarrow> uuid \<Rightarrow> string \<Rightarrow> decimal \<Rightarrow> string option \<Rightarrow> int \<Rightarrow> (string \<times> field_value) list" where
  "product_fields pid m name price category v =
     [(''product_id'', UuidV pid), (''merchant_id'', UuidV m), (''name'', StrV name), (''price'', DecimalV price),
      (''category'', opt_str category), (''product_version'', IntV v)]"

definition catalog_event_data :: "catalog_event \<Rightarrow> (string \<times> field_value) list" where
  "catalog_event_data e =
     (case e of
        ProductCreatedV2 pid m name price category v \<Rightarrow> product_fields pid m name price category v
      | ProductUpdatedV2 pid m name price category v \<Rightarrow> product_fields pid m name price category v
      | ProductDeletedV2 pid m v \<Rightarrow> [(''product_id'', UuidV pid), (''merchant_id'', UuidV m), (''product_version'', IntV v)])"

definition catalog_meets_contract :: "catalog_event \<Rightarrow> bool" where
  "catalog_meets_contract e \<longleftrightarrow> (\<exists>v. map_of produced_versions (catalog_event_type e) = Some v \<and>
     (\<exists>m. map_of event_registry (catalog_event_type e, v) = Some m \<and> conforms (ObjT (em_data m)) (ObjV (catalog_event_data e))))"

lemma catalog_meets_iff: "catalog_meets_contract e \<longleftrightarrow> 1 \<le> product_version_of e"
  by (cases e) (simp_all add: catalog_meets_contract_def catalog_event_type_def catalog_event_data_def product_fields_def produced_versions_def
      event_registry_def event_models_def em_key_def product_write_data_v2_def product_write_data_def product_deleted_data_v2_def
      product_deleted_data_def opt_str_def split: option.split)

lemma catalog_versions_positive:
  assumes "catalog_ok d" and "e \<in> set (cat_outbox d)"
  shows "1 \<le> product_version_of e"
proof -
  obtain p where p: "p \<in> set (cat_products d)" "event_product e = prod_id p" using assms by (auto simp: catalog_ok_def)
  then have "map product_version_of (events_of (prod_id p) d) = [1..prod_version p]"
    using assms(1) by (simp add: catalog_ok_def announced_versions_def)
  moreover have "e \<in> set (events_of (prod_id p) d)" using assms(2) p(2) by (simp add: events_of_def)
  ultimately have "product_version_of e \<in> set [1..prod_version p]" by (metis image_eqI list.set_map)
  then show ?thesis by simp
qed

section \<open>Stock events\<close>

fun stock_event :: "event \<Rightarrow> bool" where
  "stock_event (StockReserved _ _ _) = True"
| "stock_event (StockReleased _ _ _) = True"
| "stock_event _ = False"

lemma announced_pos: "e \<in> set (map out_event rows) \<Longrightarrow> 0 < announced e rows"
  by (induction rows) (auto simp: announced_def)

lemma stock_event_quantity:
  assumes "books_ok d" and "e \<in> set (map out_event (inv_outbox d))" and "stock_event e"
  shows "meets_contract e"
proof -
  have rows: "\<forall>r \<in> set (reservations d). 0 < res_qty r" using assms(1) by (auto simp: books_ok_def stock_ok_def rows_ok_def)
  have ev: "announced (StockReserved s oid q) (inv_outbox d) = length (filter (line_is s oid q) (reservations d))"
    "announced (StockReleased s oid q) (inv_outbox d) = length (filter (\<lambda>r. line_is s oid q r \<and> res_status r = RELEASED) (reservations d))" for s oid q
    using assms(1) by (simp_all add: books_ok_def stock_events_ok_def weigh_ones)
  have placed: "1 \<le> q" if "r \<in> set (reservations d)" "line_is s oid q r" for r s oid q
    using rows that by (force simp: line_is_def)
  show ?thesis
  proof (cases e)
    case (StockReserved s oid q)
    then have "filter (line_is s oid q) (reservations d) \<noteq> []" using announced_pos [OF assms(2)] ev(1) by simp
    then show ?thesis using placed by (auto simp: StockReserved filter_empty_conv)
  next
    case (StockReleased s oid q)
    then have "filter (\<lambda>r. line_is s oid q r \<and> res_status r = RELEASED) (reservations d) \<noteq> []"
      using announced_pos [OF assms(2)] ev(2) by simp
    then show ?thesis using placed by (auto simp: StockReleased filter_empty_conv)
  qed (use assms(3) in simp_all)
qed

section \<open>Property\<close>



end
