(* ===== verification/Catalog_Cache.thy ===== *)
theory Catalog_Cache
  imports Valkey_Lease
begin

text \<open>
  The cached product read: \<^verbatim>\<open>catalog/adapters/cache.py\<close>, \<open>CatalogService.get_product\<close> with its helpers in
  \<^verbatim>\<open>catalog/application/service.py\<close>, and the invalidation handler of \<^verbatim>\<open>catalog/adapters/cache_worker.py\<close>.
  The keys of different products never meet, so this is the life of one product: its row goes through
  versions, any number of readers take one \<open>await\<close> at a time, each of which is answered, fails or is
  cancelled, and the invalidation worker runs whenever an event is delivered.

  How a response is serialised and validated is pydantic's: \<open>cf_dump\<close> and \<open>cf_validate\<close>.
\<close>

section \<open>State\<close>

record 'r cache_config =
  cf_ttl :: timestamp
  cf_jitter :: nat
  cf_negative_ttl :: timestamp
  cf_lock_ttl :: timestamp
  cf_max_wait :: timestamp
  cf_dump :: "'r \<Rightarrow> string"
  cf_validate :: "string \<Rightarrow> 'r option"

definition MISS :: string where
  "MISS = CHR 0x00 # ''miss''"

text \<open>
  \<open>cw_history\<close>: what the row answered at each version, \<open>None\<close> where there is no live row; version 0 is
  before the product existed. A cached value carries, for the statements, the version it was read at;
  \<open>cw_invalidated\<close> are the versions whose invalidation was handled.
\<close>

datatype 'r answer = Answer "'r option" nat | Cache_Fault | Repo_Fault | Cancelled_Read

datatype 'r rstage =
    Lookup
  | Evict string "'r rstage"
  | Acquire
  | Recheck_Fill nat
  | Load_Fill nat
  | Store_Fill nat "'r option" nat
  | Release_Fill nat "'r answer"
  | Held timestamp
  | Await_Get timestamp
  | Final_Get
  | Direct
  | Finished "'r answer"

record 'r reader =
  rd_stage :: "'r rstage"
  rd_floor :: "nat set"

record 'r cache_world =
  cw_now :: timestamp
  cw_history :: "'r option list"
  cw_value :: "(string \<times> nat) slot"
  cw_lock :: "nat slot"
  cw_next :: nat
  cw_invalidated :: "nat set"
  cw_readers :: "'r reader list"

definition current :: "'r cache_world \<Rightarrow> nat" where
  "current w = length (cw_history w) - 1"

section \<open>The adapter\<close>

definition cache_get :: "'r cache_world \<Rightarrow> (string \<times> nat) option \<times> 'r cache_world" where
  "cache_get w = (vk_get (cw_now w) (cw_value w), w)"

definition on_lock :: "(nat slot \<Rightarrow> 'a \<times> nat slot) \<Rightarrow> 'r cache_world \<Rightarrow> 'a \<times> 'r cache_world" where
  "on_lock op w = (fst (op (cw_lock w)), w\<lparr>cw_lock := snd (op (cw_lock w))\<rparr>)"

definition acquire_fill_lock :: "'r cache_config \<Rightarrow> nat \<Rightarrow> 'r cache_world \<Rightarrow> bool \<times> 'r cache_world" where
  "acquire_fill_lock cfg t w = on_lock (set_nx (cw_now w) (cf_lock_ttl cfg) t) w"

definition renew_fill_lock :: "'r cache_config \<Rightarrow> nat \<Rightarrow> 'r cache_world \<Rightarrow> bool \<times> 'r cache_world" where
  "renew_fill_lock cfg t w = on_lock (expire_if_owner (cw_now w) (cf_lock_ttl cfg) t) w"

definition release_fill_lock :: "nat \<Rightarrow> 'r cache_world \<Rightarrow> bool \<times> 'r cache_world" where
  "release_fill_lock t w = on_lock (del_if_owner (cw_now w) t) w"

definition fill_lock_held :: "'r cache_world \<Rightarrow> bool \<times> 'r cache_world" where
  "fill_lock_held w = (vk_get (cw_now w) (cw_lock w) \<noteq> None, w)"

text \<open>The store script: SET only while the lock holds our token.\<close>

definition store_lua :: "timestamp \<Rightarrow> nat \<Rightarrow> string \<times> nat \<Rightarrow> 'r cache_world \<Rightarrow> bool \<times> 'r cache_world" where
  "store_lua ttl t v w =
     (if vk_get (cw_now w) (cw_lock w) = Some t then (True, w\<lparr>cw_value := Some (v, cw_now w + ttl)\<rparr>) else (False, w))"

text \<open>\<open>jitter\<close> is \<open>secrets.randbelow(jitter + 1)\<close>.\<close>

definition store_if_owner :: "'r cache_config \<Rightarrow> nat \<Rightarrow> string \<times> nat \<Rightarrow> nat \<Rightarrow> 'r cache_world \<Rightarrow> bool \<times> 'r cache_world" where
  "store_if_owner cfg jitter payload t = store_lua (cf_ttl cfg + int jitter) t payload"

definition store_miss_if_owner :: "'r cache_config \<Rightarrow> nat \<Rightarrow> nat \<Rightarrow> 'r cache_world \<Rightarrow> bool \<times> 'r cache_world" where
  "store_miss_if_owner cfg v t = store_lua (cf_negative_ttl cfg) t (MISS, v)"

definition invalidate :: "'r cache_world \<Rightarrow> 'r cache_world" where
  "invalidate w = w\<lparr>cw_value := None, cw_lock := None\<rparr>"

definition evict_value :: "string \<Rightarrow> 'r cache_world \<Rightarrow> unit \<times> 'r cache_world" where
  "evict_value expected w =
     ((), case vk_get (cw_now w) (cw_value w) of
            Some (s, _) \<Rightarrow> if s = expected then w\<lparr>cw_value := None\<rparr> else w
          | None \<Rightarrow> w)"

section \<open>The read\<close>

text \<open>\<open>_decode_or_evict\<close>: usable (the answer, \<open>None\<close> for the tombstone) or corrupt.\<close>

definition decode_value :: "'r cache_config \<Rightarrow> string \<Rightarrow> 'r option option" where
  "decode_value cfg s = (if s = MISS then Some None else map_option Some (cf_validate cfg s))"

text \<open>What a lookup leads to: a hit, an eviction first, or nothing found.\<close>

definition looked_up :: "'r cache_config \<Rightarrow> (string \<times> nat) option \<Rightarrow> ('r answer \<Rightarrow> 'r rstage) \<Rightarrow> 'r rstage \<Rightarrow> 'r rstage \<Rightarrow> 'r rstage" where
  "looked_up cfg cached hit corrupt nothing =
     (case cached of
        None \<Rightarrow> nothing
      | Some (s, v) \<Rightarrow> (case decode_value cfg s of Some x \<Rightarrow> hit (Answer x v) | None \<Rightarrow> Evict s corrupt))"

text \<open>A cache fault degrades to a direct read of the database, a cancellation ends the request.\<close>

definition degraded :: "valkey_reply \<Rightarrow> 'r rstage" where
  "degraded r = (case r of Cancelled _ \<Rightarrow> Finished Cancelled_Read | _ \<Rightarrow> Direct)"

definition degraded_fill :: "valkey_reply \<Rightarrow> nat \<Rightarrow> 'r rstage" where
  "degraded_fill r t = Release_Fill t (case r of Cancelled _ \<Rightarrow> Cancelled_Read | _ \<Rightarrow> Cache_Fault)"

text \<open>The database side of a step: the read is still running, has answered, or failed.\<close>

datatype db_reply = Reading | Read_Row | Read_Failed

fun read_step :: "'r cache_config \<Rightarrow> valkey_reply \<Rightarrow> db_reply \<Rightarrow> nat \<Rightarrow> 'r rstage \<Rightarrow> 'r cache_world \<Rightarrow> 'r rstage \<times> 'r cache_world" where
  "read_step cfg r q j Lookup w =
     (case vk_call r cache_get w of
        (Some c, w') \<Rightarrow> (looked_up cfg c Finished Acquire Acquire, w')
      | (None, w') \<Rightarrow> (degraded r, w'))"
| "read_step cfg r q j (Evict s cont) w =
     (case vk_call r (evict_value s) w of
        (Some _, w') \<Rightarrow> (cont, w')
      | (None, w') \<Rightarrow> ((case cont of Load_Fill t \<Rightarrow> degraded_fill r t | _ \<Rightarrow> degraded r), w'))"
| "read_step cfg r q j Acquire w =
     (let t = cw_next w; w0 = w\<lparr>cw_next := Suc t\<rparr> in
      case vk_call r (acquire_fill_lock cfg t) w0 of
        (Some True, w') \<Rightarrow> (Recheck_Fill t, w')
      | (Some False, w') \<Rightarrow> (Held (cw_now w + cf_max_wait cfg), w')
      | (None, w') \<Rightarrow> (degraded r, w'))"
| "read_step cfg r q j (Recheck_Fill t) w =
     (case vk_call r cache_get w of
        (Some c, w') \<Rightarrow> (looked_up cfg c (Release_Fill t) (Load_Fill t) (Load_Fill t), w')
      | (None, w') \<Rightarrow> (degraded_fill r t, w'))"
| "read_step cfg r q j (Load_Fill t) w =
     (case q of
        Reading \<Rightarrow>
          (case vk_call r (renew_fill_lock cfg t) w of
             (Some _, w') \<Rightarrow> (Load_Fill t, w')
           | (None, w') \<Rightarrow> (degraded_fill r t, w'))
      | Read_Row \<Rightarrow> (Store_Fill t (cw_history w ! current w) (current w), w)
      | Read_Failed \<Rightarrow> (Release_Fill t Repo_Fault, w))"
| "read_step cfg r q j (Store_Fill t x v) w =
     (case vk_call r (case x of Some p \<Rightarrow> store_if_owner cfg j (cf_dump cfg p, v) t | None \<Rightarrow> store_miss_if_owner cfg v t) w of
        (Some _, w') \<Rightarrow> (Release_Fill t (Answer x v), w')
      | (None, w') \<Rightarrow> (degraded_fill r t, w'))"
| "read_step cfg r q j (Release_Fill t a) w =
     (case vk_call r (release_fill_lock t) w of
        (_, w') \<Rightarrow> (case r of
                       Cancelled _ \<Rightarrow> Finished Cancelled_Read
                     | _ \<Rightarrow> (case a of Cache_Fault \<Rightarrow> Direct | _ \<Rightarrow> Finished a), w'))"
| "read_step cfg r q j (Held deadline) w =
     (case vk_call r fill_lock_held w of
        (Some True, w') \<Rightarrow> (Await_Get deadline, w')
      | (Some False, w') \<Rightarrow> (Final_Get, w')
      | (None, w') \<Rightarrow> (degraded r, w'))"
| "read_step cfg r q j (Await_Get deadline) w =
     (case vk_call r cache_get w of
        (Some c, w') \<Rightarrow> (looked_up cfg c Finished Final_Get (if deadline \<le> cw_now w then Direct else Held deadline), w')
      | (None, w') \<Rightarrow> (degraded r, w'))"
| "read_step cfg r q j Final_Get w =
     (case vk_call r cache_get w of
        (Some c, w') \<Rightarrow> (looked_up cfg c Finished Acquire Acquire, w')
      | (None, w') \<Rightarrow> (degraded r, w'))"
| "read_step cfg r q j Direct w =
     (case q of
        Reading \<Rightarrow> (case r of Cancelled _ \<Rightarrow> Finished Cancelled_Read | _ \<Rightarrow> Direct, w)
      | Read_Row \<Rightarrow> (Finished (Answer (cw_history w ! current w) (current w)), w)
      | Read_Failed \<Rightarrow> (Finished Repo_Fault, w))"
| "read_step cfg r q j (Finished a) w = (Finished a, w)"

section \<open>The product at work\<close>

text \<open>
  Time passes; a request changes the row (create, update, delete: a new version); the worker handles
  the event of a version, again perhaps; something overwrites the entry with bytes that no longer
  validate; a request starts to read (directly, where no cache is
  configured); a reader takes its next step.
\<close>

inductive cache_step :: "'r cache_config \<Rightarrow> 'r cache_world \<Rightarrow> 'r cache_world \<Rightarrow> bool" for cfg where
  tick: "cw_now w \<le> t \<Longrightarrow> cache_step cfg w (w\<lparr>cw_now := t\<rparr>)"
| write_row: "cache_step cfg w (w\<lparr>cw_history := cw_history w @ [x]\<rparr>)"
| handle_event: "k \<le> current w \<Longrightarrow> cache_step cfg w ((invalidate w)\<lparr>cw_invalidated := insert k (cw_invalidated w)\<rparr>)"
| corrupt: "decode_value cfg s = None \<Longrightarrow> cache_step cfg w (w\<lparr>cw_value := Some ((s, v), e)\<rparr>)"
| start: "st \<in> {Lookup, Direct} \<Longrightarrow>
     cache_step cfg w (w\<lparr>cw_readers := cw_readers w @ [\<lparr>rd_stage = st, rd_floor = cw_invalidated w\<rparr>]\<rparr>)"
| advance: "i < length (cw_readers w) \<Longrightarrow> j \<le> cf_jitter cfg \<Longrightarrow> read_step cfg r q j (rd_stage (cw_readers w ! i)) w = (st, w') \<Longrightarrow>
     cache_step cfg w (w'\<lparr>cw_readers := (cw_readers w)[i := (cw_readers w ! i)\<lparr>rd_stage := st\<rparr>]\<rparr>)"

definition fresh_cache :: "'r cache_world" where
  "fresh_cache = \<lparr>cw_now = 0, cw_history = [None], cw_value = None, cw_lock = None, cw_next = 0, cw_invalidated = {}, cw_readers = []\<rparr>"

end
