(* ===== verification/Cache_Properties.thy ===== *)
theory Cache_Properties
  imports Catalog_Cache
begin

text \<open>
  Freshness of the cached read: once the invalidation of a version was handled, no read that starts
  afterwards answers an older one, under every interleaving of readers, fills, renewals, expiries,
  writes, redelivered events, Valkey faults and cancellations. The fill lock is a token lease.
\<close>

section \<open>Invariant\<close>

definition content :: "'r cache_world \<Rightarrow> nat set \<Rightarrow> 'r option \<Rightarrow> nat \<Rightarrow> bool" where
  "content w F x v \<longleftrightarrow> v < length (cw_history w) \<and> x = cw_history w ! v \<and> (\<forall>k \<in> F. k \<le> v)"

fun stage_ok :: "'r cache_world \<Rightarrow> nat set \<Rightarrow> 'r rstage \<Rightarrow> bool" where
  "stage_ok w F (Evict s cont) = stage_ok w F cont"
| "stage_ok w F (Recheck_Fill t) = (t < cw_next w)"
| "stage_ok w F (Load_Fill t) = (t < cw_next w)"
| "stage_ok w F (Store_Fill t x v) = (t < cw_next w \<and> content w F x v \<and>
     (vk_get (cw_now w) (cw_lock w) = Some t \<longrightarrow> (\<forall>k \<in> cw_invalidated w. k \<le> v)))"
| "stage_ok w F (Release_Fill t (Answer x v)) = content w F x v"
| "stage_ok w F (Finished (Answer x v)) = content w F x v"
| "stage_ok w F _ = True"

definition value_ok :: "'r cache_config \<Rightarrow> 'r cache_world \<Rightarrow> bool" where
  "value_ok cfg w = (case cw_value w of
     None \<Rightarrow> True
   | Some ((s, v), e) \<Rightarrow> (case decode_value cfg s of None \<Rightarrow> True | Some x \<Rightarrow> content w (cw_invalidated w) x v))"

definition books_cache :: "'r cache_config \<Rightarrow> 'r cache_world \<Rightarrow> bool" where
  "books_cache cfg w \<longleftrightarrow> value_ok cfg w \<and> cw_history w \<noteq> [] \<and> (\<forall>k \<in> cw_invalidated w. k \<le> current w)"

definition cache_ok :: "'r cache_config \<Rightarrow> 'r cache_world \<Rightarrow> bool" where
  "cache_ok cfg w \<longleftrightarrow> books_cache cfg w \<and>
     (\<forall>rd \<in> set (cw_readers w). rd_floor rd \<subseteq> cw_invalidated w \<and> stage_ok w (rd_floor rd) (rd_stage rd))"

text \<open>A serialised response validates to itself and is not the tombstone.\<close>

definition serialises :: "'r cache_config \<Rightarrow> bool" where
  "serialises cfg \<longleftrightarrow> (\<forall>p. cf_validate cfg (cf_dump cfg p) = Some p \<and> cf_dump cfg p \<noteq> MISS)"

section \<open>What the others leave of a reader\<close>

definition frame_cache :: "'r cache_world \<Rightarrow> 'r cache_world \<Rightarrow> bool" where
  "frame_cache w w' \<longleftrightarrow> (\<exists>xs. cw_history w' = cw_history w @ xs) \<and> cw_next w \<le> cw_next w' \<and>
     (\<forall>t < cw_next w. vk_get (cw_now w') (cw_lock w') = Some t \<longrightarrow>
        vk_get (cw_now w) (cw_lock w) = Some t \<and> cw_invalidated w' = cw_invalidated w)"

lemma frame_refl [simp]: "frame_cache w w"
  by (simp add: frame_cache_def)

lemma content_frame: "content w F x v \<Longrightarrow> frame_cache w w' \<Longrightarrow> content w' F x v"
  by (auto simp: content_def frame_cache_def nth_append)

lemma frame_next: "frame_cache w w' \<Longrightarrow> cw_next w \<le> cw_next w'"
  by (simp add: frame_cache_def)

lemma stage_frame: "stage_ok w F st \<Longrightarrow> frame_cache w w' \<Longrightarrow> stage_ok w' F st"
proof (induction w F st rule: stage_ok.induct)
  case (4 w F t x v)
  then have "t < cw_next w'" by (auto simp: frame_cache_def)
  moreover have "content w' F x v" using 4 content_frame by auto
  moreover have "\<forall>k \<in> cw_invalidated w'. k \<le> v" if "vk_get (cw_now w') (cw_lock w') = Some t"
    using 4 that by (auto simp: frame_cache_def)
  ultimately show ?case by simp
qed (auto dest: frame_next content_frame intro: less_le_trans)

text \<open>A command leaves the row and the invalidations alone.\<close>

definition tidy :: "'r cache_config \<Rightarrow> 'r cache_world \<Rightarrow> 'r cache_world \<Rightarrow> bool" where
  "tidy cfg w w' \<longleftrightarrow> books_cache cfg w' \<and> frame_cache w w' \<and> cw_invalidated w' = cw_invalidated w"

lemma tidy_id: "books_cache cfg w \<Longrightarrow> tidy cfg w w"
  by (simp add: tidy_def)

lemma content_upd [simp]:
  "content (w\<lparr>cw_lock := l\<rparr>) = content w" "content (w\<lparr>cw_next := n\<rparr>) = content w" "content (w\<lparr>cw_now := t\<rparr>) = content w"
  "content (w\<lparr>cw_readers := rs\<rparr>) = content w" "content (w\<lparr>cw_value := v\<rparr>) = content w"
  by (simp_all add: content_def fun_eq_iff)

lemma books_lock: "books_cache cfg (w\<lparr>cw_lock := l\<rparr>) = books_cache cfg w" "books_cache cfg (w\<lparr>cw_next := n\<rparr>) = books_cache cfg w"
  "books_cache cfg (w\<lparr>cw_now := t\<rparr>) = books_cache cfg w" "books_cache cfg (w\<lparr>cw_readers := rs\<rparr>) = books_cache cfg w"
  unfolding books_cache_def value_ok_def current_def by (simp_all add: content_upd cong: option.case_cong prod.case_cong)

lemma tidy_renew: "books_cache cfg w \<Longrightarrow> tidy cfg w (snd (renew_fill_lock cfg t w))"
  by (auto simp: tidy_def renew_fill_lock_def on_lock_def books_lock frame_cache_def expire_if_owner_def split: if_splits)

lemma tidy_release: "books_cache cfg w \<Longrightarrow> tidy cfg w (snd (release_fill_lock t w))"
  by (auto simp: tidy_def release_fill_lock_def on_lock_def books_lock frame_cache_def del_if_owner_def)

lemma tidy_evict: "books_cache cfg w \<Longrightarrow> tidy cfg w (snd (evict_value s w))"
  by (auto simp: tidy_def evict_value_def books_cache_def value_ok_def frame_cache_def current_def split: option.splits)

lemma tidy_acquire: "books_cache cfg w \<Longrightarrow> tidy cfg w (snd (acquire_fill_lock cfg (cw_next w) (w\<lparr>cw_next := Suc (cw_next w)\<rparr>)))"
  by (auto simp: tidy_def acquire_fill_lock_def on_lock_def books_lock frame_cache_def set_nx_def)

lemma tidy_store:
  assumes "books_cache cfg w" and "stage_ok w F (Store_Fill t x v)" and "decode_value cfg s = Some x"
  shows "tidy cfg w (snd (store_lua ttl t (s, v) w))"
proof (cases "vk_get (cw_now w) (cw_lock w) = Some t")
  case True
  let ?w = "w\<lparr>cw_value := Some ((s, v), cw_now w + ttl)\<rparr>"
  have "content w (cw_invalidated w) x v" using assms(2) True by (auto simp: content_def)
  then have "books_cache cfg ?w" using assms(1,3) by (simp add: books_cache_def value_ok_def current_def content_def)
  then show ?thesis using True by (simp add: tidy_def store_lua_def frame_cache_def)
next
  case False
  then show ?thesis using assms(1) by (simp add: tidy_def store_lua_def)
qed

section \<open>The steps of a reader\<close>

lemma value_content:
  assumes "books_cache cfg w" and "vk_get (cw_now w) (cw_value w) = Some (s, v)" and "decode_value cfg s = Some x" and "F \<subseteq> cw_invalidated w"
  shows "content w F x v"
  using assms by (auto simp: books_cache_def value_ok_def vk_get_Some content_def)

lemma looked_up_ok:
  assumes "books_cache cfg w" and "F \<subseteq> cw_invalidated w" and "cached = vk_get (cw_now w) (cw_value w)"
    and "stage_ok w F corrupt" and "stage_ok w F nothing" and "\<And>x v. content w F x v \<Longrightarrow> stage_ok w F (hit (Answer x v))"
  shows "stage_ok w F (looked_up cfg cached hit corrupt nothing)"
  using assms(2-6) value_content [OF assms(1), of _ _ _ F] by (auto simp: looked_up_def split: option.splits)

lemma degraded_ok [simp]: "stage_ok w F (degraded r)" "stage_ok w F (degraded_fill r t)"
  by (cases r; simp add: degraded_def degraded_fill_def)+

lemma tidy_call:
  assumes "tidy cfg w (snd (op w))" and "books_cache cfg w" and "vk_call r op w = (y, w')"
  shows "tidy cfg w w'"
  using vk_call_outcome [OF assms(3)] assms(1,2) tidy_id [of cfg w] by (auto simp: tidy_def)

lemma tidyD: "tidy cfg w w' \<Longrightarrow> stage_ok w F st \<Longrightarrow> stage_ok w' F st"
  unfolding tidy_def using stage_frame by blast

lemma lookup_step_ok:
  assumes "books_cache cfg w" and "F \<subseteq> cw_invalidated w" and "vk_call r cache_get w = (y, w')"
    and "stage_ok w F corrupt" and "stage_ok w F nothing" and "\<And>x v. content w F x v \<Longrightarrow> stage_ok w F (hit (Answer x v))"
  shows "w' = w \<and> (\<forall>c. y = Some c \<longrightarrow> stage_ok w F (looked_up cfg c hit corrupt nothing))"
  using vk_call_outcome [OF assms(3)] looked_up_ok [OF assms(1,2) refl assms(4,5), of hit] assms(6) by (auto simp: cache_get_def)

lemma load_row_ok:
  assumes "books_cache cfg w" and "F \<subseteq> cw_invalidated w"
  shows "content w F (cw_history w ! current w) (current w)" and "\<forall>k \<in> cw_invalidated w. k \<le> current w"
  using assms by (auto simp: books_cache_def content_def current_def)

lemma read_step_ok:
  assumes books: "books_cache cfg w" and enc: "serialises cfg" and floor: "F \<subseteq> cw_invalidated w"
    and st: "stage_ok w F st" and run: "read_step cfg r q j st w = (st', w')"
  shows "tidy cfg w w' \<and> stage_ok w' F st'"
proof (cases st)
  case Lookup
  obtain y w1 where c: "vk_call r cache_get w = (y, w1)" by fastforce
  note l = lookup_step_ok [OF books floor c, of Acquire Acquire Finished]
  show ?thesis using run l Lookup c tidy_id [OF books] by (cases y) auto
next
  case (Evict s cont)
  obtain y w1 where c: "vk_call r (evict_value s) w = (y, w1)" by fastforce
  have t: "tidy cfg w w1" by (rule tidy_call [OF tidy_evict [OF books] books c])
  then have "stage_ok w1 F cont" using st Evict by (auto intro: tidyD)
  then show ?thesis using run Evict c t by (cases y) (auto split: rstage.splits)
next
  case Acquire
  let ?op = "\<lambda>w. acquire_fill_lock cfg (cw_next w) (w\<lparr>cw_next := Suc (cw_next w)\<rparr>)"
  let ?w0 = "w\<lparr>cw_next := Suc (cw_next w)\<rparr>"
  obtain y w1 where c: "vk_call r (acquire_fill_lock cfg (cw_next w)) ?w0 = (y, w1)" by fastforce
  have "tidy cfg w w1"
  proof -
    have "w1 = ?w0 \<or> w1 = snd (?op w)" using vk_call_outcome [OF c] by auto
    moreover have "tidy cfg w ?w0" using books by (simp add: tidy_def books_lock frame_cache_def)
    ultimately show ?thesis using tidy_acquire [OF books] by metis
  qed
  moreover have "cw_next w < cw_next w1" using vk_call_outcome [OF c] by (auto simp: acquire_fill_lock_def on_lock_def)
  ultimately show ?thesis using run Acquire c by (cases y) (auto simp: Let_def split: bool.splits)
next
  case (Recheck_Fill t)
  obtain y w1 where c: "vk_call r cache_get w = (y, w1)" by fastforce
  note l = lookup_step_ok [OF books floor c, of "Load_Fill t" "Load_Fill t" "Release_Fill t"]
  show ?thesis using run l st Recheck_Fill c tidy_id [OF books] by (cases y) auto
next
  case (Load_Fill t)
  obtain y w1 where c: "vk_call r (renew_fill_lock cfg t) w = (y, w1)" by fastforce
  have "tidy cfg w w1" by (rule tidy_call [OF tidy_renew [OF books] books c])
  moreover have "stage_ok w1 F (Load_Fill t)" using tidyD [OF calculation] st Load_Fill by blast
  ultimately show ?thesis using run st Load_Fill c load_row_ok [OF books floor] tidy_id [OF books] by (cases q; cases y) auto
next
  case (Store_Fill t x v)
  let ?op = "case x of Some p \<Rightarrow> store_if_owner cfg j (cf_dump cfg p, v) t | None \<Rightarrow> store_miss_if_owner cfg v t"
  obtain y w1 where c: "vk_call r ?op w = (y, w1)" by fastforce
  have s: "stage_ok w F (Store_Fill t x v)" using st Store_Fill by simp
  have "tidy cfg w (snd (?op w))"
    using tidy_store [OF books s] enc by (cases x) (auto simp: store_if_owner_def store_miss_if_owner_def decode_value_def serialises_def)
  from tidy_call [OF this books c] have t: "tidy cfg w w1" .
  then have "stage_ok w1 F (Release_Fill t (Answer x v))" by (rule tidyD) (use s in simp)
  then show ?thesis using run Store_Fill c t by (cases y) auto
next
  case (Release_Fill t a)
  obtain y w1 where c: "vk_call r (release_fill_lock t) w = (y, w1)" by fastforce
  have t: "tidy cfg w w1" by (rule tidy_call [OF tidy_release [OF books] books c])
  moreover have "stage_ok w F (Finished a)" using st Release_Fill by (cases a) auto
  then have "stage_ok w1 F (Finished a)" by (rule tidyD [OF t])
  ultimately show ?thesis using run Release_Fill c by (cases r; cases a) auto
next
  case (Held deadline)
  obtain y w1 where c: "vk_call r fill_lock_held w = (y, w1)" by fastforce
  have "w1 = w" using vk_call_outcome [OF c] by (auto simp: fill_lock_held_def)
  then show ?thesis using run Held c tidy_id [OF books] by (cases y) (auto split: bool.splits)
next
  case (Await_Get deadline)
  obtain y w1 where c: "vk_call r cache_get w = (y, w1)" by fastforce
  note l = lookup_step_ok [OF books floor c, of Final_Get "if deadline \<le> cw_now w then Direct else Held deadline" Finished]
  show ?thesis using run l Await_Get c tidy_id [OF books] by (cases y) auto
next
  case Final_Get
  obtain y w1 where c: "vk_call r cache_get w = (y, w1)" by fastforce
  note l = lookup_step_ok [OF books floor c, of Acquire Acquire Finished]
  show ?thesis using run l Final_Get c tidy_id [OF books] by (cases y) auto
next
  case Direct
  then show ?thesis using run load_row_ok [OF books floor] tidy_id [OF books] by (cases q; cases r) auto
next
  case (Finished a)
  then show ?thesis using run st tidy_id [OF books] by simp
qed

section \<open>Every step keeps the invariant\<close>

lemma read_step_readers: "read_step cfg r q j st w = (st', w') \<Longrightarrow> cw_readers w' = cw_readers w"
  by (cases st) (auto simp: vk_call_def cache_get_def evict_value_def acquire_fill_lock_def renew_fill_lock_def release_fill_lock_def on_lock_def
      fill_lock_held_def store_if_owner_def store_miss_if_owner_def store_lua_def Let_def
      split: valkey_reply.splits option.splits prod.splits if_splits bool.splits db_reply.splits)

lemma readers_frame:
  assumes "cache_ok cfg w" and "books_cache cfg w'" and "frame_cache w w'" and "cw_invalidated w \<subseteq> cw_invalidated w'" and "cw_readers w' = cw_readers w"
  shows "cache_ok cfg w'"
  using assms stage_frame [OF _ assms(3)] unfolding cache_ok_def by (metis order_trans)

lemma handled_ok:
  assumes "cache_ok cfg w" and "k \<le> current w"
  shows "cache_ok cfg ((invalidate w)\<lparr>cw_invalidated := insert k (cw_invalidated w)\<rparr>)" (is "cache_ok cfg ?w")
proof (rule readers_frame [OF assms(1)])
  show "books_cache cfg ?w" using assms by (auto simp: cache_ok_def books_cache_def value_ok_def invalidate_def current_def)
qed (auto simp: frame_cache_def invalidate_def)

lemma written_ok:
  assumes "cache_ok cfg w"
  shows "cache_ok cfg (w\<lparr>cw_history := cw_history w @ [x]\<rparr>)" (is "cache_ok cfg ?w")
proof (rule readers_frame [OF assms])
  have frame: "frame_cache w ?w" by (simp add: frame_cache_def)
  then show "frame_cache w ?w" .
  have "value_ok cfg ?w"
    using assms content_frame [OF _ frame] by (auto simp: cache_ok_def books_cache_def value_ok_def split: option.splits)
  moreover have "\<forall>k \<in> cw_invalidated w. k \<le> current ?w"
    using assms unfolding cache_ok_def books_cache_def current_def by fastforce
  ultimately show "books_cache cfg ?w" by (simp add: books_cache_def)
qed simp_all

lemma cache_ok_step: "cache_step cfg w w' \<Longrightarrow> serialises cfg \<Longrightarrow> cache_ok cfg w \<Longrightarrow> cache_ok cfg w'"
proof (induction rule: cache_step.induct)
  case (tick w t)
  show ?case
  proof (rule readers_frame [OF tick(3)])
    show "frame_cache w (w\<lparr>cw_now := t\<rparr>)" using tick(1) vk_get_later by (auto simp: frame_cache_def)
  qed (use tick(3) in \<open>simp_all add: cache_ok_def books_lock\<close>)
next
  case (write_row w x)
  then show ?case by (simp add: written_ok)
next
  case (handle_event k w)
  then show ?case by (simp add: handled_ok)
next
  case (corrupt s w v e)
  show ?case
    by (rule readers_frame [OF corrupt(3)])
      (use corrupt in \<open>auto simp: cache_ok_def books_cache_def value_ok_def current_def frame_cache_def\<close>)
next
  case (start st w)
  let ?w = "w\<lparr>cw_readers := cw_readers w @ [\<lparr>rd_stage = st, rd_floor = cw_invalidated w\<rparr>]\<rparr>"
  have "frame_cache w ?w" by (simp add: frame_cache_def)
  then have "stage_ok w F s \<Longrightarrow> stage_ok ?w F s" for F s by (rule stage_frame [rotated])
  moreover have "stage_ok w (cw_invalidated w) st" using start(1) by auto
  ultimately show ?case using start(3) by (auto simp: cache_ok_def books_lock)
next
  case (advance i w j r q st w')
  let ?rd = "cw_readers w ! i"
  have rd: "?rd \<in> set (cw_readers w)" using advance(1) by simp
  then have t: "tidy cfg w w' \<and> stage_ok w' (rd_floor ?rd) st"
    using advance by (intro read_step_ok) (auto simp: cache_ok_def)
  let ?w = "w'\<lparr>cw_readers := (cw_readers w)[i := ?rd\<lparr>rd_stage := st\<rparr>]\<rparr>"
  have frame: "frame_cache w' ?w" by (simp add: frame_cache_def)
  have inv: "cw_invalidated ?w = cw_invalidated w" using t by (simp add: tidy_def)
  have "rd_floor x \<subseteq> cw_invalidated ?w \<and> stage_ok ?w (rd_floor x) (rd_stage x)" if "x \<in> set (cw_readers ?w)" for x
  proof -
    consider "x = ?rd\<lparr>rd_stage := st\<rparr>" | "x \<in> set (cw_readers w)" using \<open>x \<in> set (cw_readers ?w)\<close> set_update_subset_insert by fastforce
    then show ?thesis
    proof cases
      case 1
      have "rd_floor ?rd \<subseteq> cw_invalidated w" using advance(5) rd by (auto simp: cache_ok_def)
      then show ?thesis using 1 t stage_frame [OF _ frame] inv by simp
    next
      case 2
      then have "rd_floor x \<subseteq> cw_invalidated w" "stage_ok w (rd_floor x) (rd_stage x)" using advance(5) by (auto simp: cache_ok_def)
      then show ?thesis using t tidyD stage_frame [OF _ frame] inv by metis
    qed
  qed
  moreover have "books_cache cfg ?w" using t by (simp add: tidy_def books_lock)
  ultimately show ?case by (simp add: cache_ok_def)
qed

lemma fresh_cache_ok: "cache_ok cfg fresh_cache"
  by (simp add: cache_ok_def books_cache_def value_ok_def fresh_cache_def)

lemma cache_ok_reachable: "(cache_step cfg)\<^sup>*\<^sup>* fresh_cache w \<Longrightarrow> serialises cfg \<Longrightarrow> cache_ok cfg w"
  by (induction rule: rtranclp_induct) (auto simp: fresh_cache_ok cache_ok_step)

section \<open>The fill lock\<close>

lemma read_step_lock:
  assumes "read_step cfg r q j st w = (st', w')"
  shows "cw_next w \<le> cw_next w' \<and> cw_now w' = cw_now w \<and>
    (\<forall>t < cw_next w. vk_get (cw_now w') (cw_lock w') = Some t \<longrightarrow> vk_get (cw_now w) (cw_lock w) = Some t)"
  using assms
  by (cases st) (auto simp: vk_call_def cache_get_def evict_value_def acquire_fill_lock_def renew_fill_lock_def release_fill_lock_def on_lock_def
      fill_lock_held_def store_if_owner_def store_miss_if_owner_def store_lua_def Let_def set_nx_def expire_if_owner_def del_if_owner_def
      split: valkey_reply.splits option.splits prod.splits if_splits bool.splits db_reply.splits)

interpretation fill_lock: token_lease "cache_step cfg" cw_lock cw_now "\<lambda>w. {..<cw_next w}" for cfg
proof
  show "{..<cw_next w} \<subseteq> {..<cw_next w'}" if "cache_step cfg w w'" for w w'
    using that by (induction rule: cache_step.induct) (auto simp: invalidate_def dest!: read_step_lock)
  show "vk_get (cw_now w) (cw_lock w) = Some t"
    if "cache_step cfg w w'" "t \<in> {..<cw_next w}" "vk_get (cw_now w') (cw_lock w') = Some t" for w w' t
    using that
  proof (induction rule: cache_step.induct)
    case (tick w u)
    then show ?case using vk_get_later by auto
  next
    case (advance i w j r q st w')
    then show ?case using read_step_lock [OF advance(3)] by auto
  qed (auto simp: invalidate_def)
qed

section \<open>Properties\<close>

text \<open>
  C36. A read answers what the row was at some version, and never an older version than one whose
  invalidation had been handled before the read began: whatever the interleaving of readers, fills,
  lock renewals and expiries, writes, repeated or late events, corrupt entries, Valkey faults and
  cancellations. And a filler that lost the lock stores nothing, however the system goes on.
\<close>
theorem cached_reads_are_fresh:
  assumes "serialises cfg" and "(cache_step cfg)\<^sup>*\<^sup>* fresh_cache w"
  shows "(\<forall>rd x v. rd \<in> set (cw_readers w) \<longrightarrow> rd_stage rd = Finished (Answer x v) \<longrightarrow>
       v \<le> current w \<and> x = cw_history w ! v \<and> (\<forall>k \<in> rd_floor rd. k \<le> v)) \<and>
     (\<forall>t w' ttl payload. t < cw_next w \<longrightarrow> vk_get (cw_now w) (cw_lock w) \<noteq> Some t \<longrightarrow> (cache_step cfg)\<^sup>*\<^sup>* w w' \<longrightarrow>
       store_lua ttl t payload w' = (False, w'))"
proof (intro conjI allI impI)
  fix rd x v assume rd: "rd \<in> set (cw_readers w)" "rd_stage rd = Finished (Answer x v)"
  with cache_ok_reachable [OF assms(2,1)] have "content w (rd_floor rd) x v" unfolding cache_ok_def by (metis stage_ok.simps(6))
  then show "v \<le> current w" "x = cw_history w ! v" "\<forall>k \<in> rd_floor rd. k \<le> v" by (auto simp: content_def current_def)
next
  fix t w' ttl payload
  assume "t < cw_next w" "vk_get (cw_now w) (cw_lock w) \<noteq> Some t" "(cache_step cfg)\<^sup>*\<^sup>* w w'"
  then have "vk_get (cw_now w') (cw_lock w') \<noteq> Some t" using fill_lock.lost_for_good [of cfg w w' t] by (simp add: fill_lock.owns_def)
  then show "store_lua ttl t payload w' = (False, w')" by (simp add: store_lua_def)
qed

lemma current_upd: "current (w\<lparr>cw_next := n\<rparr>) = current w" "current (w\<lparr>cw_lock := l\<rparr>) = current w"
  by (simp_all add: current_def)

fun drive_read :: "'r cache_config \<Rightarrow> (valkey_reply \<times> db_reply) list \<Rightarrow> 'r rstage \<Rightarrow> 'r cache_world \<Rightarrow> 'r rstage \<times> 'r cache_world" where
  "drive_read cfg [] st w = (st, w)"
| "drive_read cfg ((r, q) # rs) st w = (case read_step cfg r q 0 st w of (st', w') \<Rightarrow> drive_read cfg rs st' w')"

text \<open>
  The cache is an optimisation: a read of an uncached product that nothing disturbs answers the row in six
  steps and leaves it cached, so the next read answers the same without the database (also "there is
  none"); and when Valkey fails the read still answers the row, from the database.
\<close>
theorem cached_read_answers:
  assumes "serialises cfg" and "0 < cf_lock_ttl cfg" and "0 < cf_ttl cfg" and "0 < cf_negative_ttl cfg"
    and "vk_get (cw_now w) (cw_value w) = None" and "vk_get (cw_now w) (cw_lock w) = None"
    and "row = cw_history w ! current w" and "drive_read cfg (replicate 6 (Answered, Read_Row)) Lookup w = (st, w')"
  shows "st = Finished (Answer row (current w)) \<and> vk_get (cw_now w') (cw_lock w') = None \<and>
     fst (drive_read cfg [(Answered, Read_Failed)] Lookup w') = Finished (Answer row (current w)) \<and>
     fst (drive_read cfg [(Faulted b, Reading), (Faulted b, Read_Row)] Lookup w) = Finished (Answer row (current w))"
proof -
  define dump where "dump = (case row of Some p \<Rightarrow> cf_dump cfg p | None \<Rightarrow> MISS)"
  define ttl where "ttl = (case row of Some p \<Rightarrow> cf_ttl cfg | None \<Rightarrow> cf_negative_ttl cfg)"
  let ?w = "w\<lparr>cw_value := Some ((dump, current w), cw_now w + ttl), cw_lock := None, cw_next := Suc (cw_next w)\<rparr>"
  have run: "drive_read cfg (replicate 6 (Answered, Read_Row)) Lookup w = (Finished (Answer row (current w)), ?w)"
    using assms(2-6) assms(7) [symmetric] by (cases row)
      (auto simp: numeral_eq_Suc current_upd vk_call_def cache_get_def looked_up_def acquire_fill_lock_def on_lock_def set_nx_def store_if_owner_def
        store_miss_if_owner_def store_lua_def release_fill_lock_def del_if_owner_def dump_def ttl_def Let_def)
  have "decode_value cfg dump = Some row" using assms(1) by (cases row) (auto simp: decode_value_def dump_def serialises_def)
  moreover have "0 < ttl" using assms(3,4) by (cases row) (auto simp: ttl_def)
  ultimately have "fst (drive_read cfg [(Answered, Read_Failed)] Lookup ?w) = Finished (Answer row (current w))"
    by (simp add: vk_call_def cache_get_def looked_up_def)
  moreover have "fst (drive_read cfg [(Faulted b, Reading), (Faulted b, Read_Row)] Lookup w) = Finished (Answer row (current w))"
    using assms(7) by (simp add: vk_call_def cache_get_def degraded_def)
  ultimately show ?thesis using run assms(8) by simp
qed

subsection \<open>A concrete run\<close>

definition demo_cache :: "string cache_config" where
  "demo_cache = \<lparr>cf_ttl = 60, cf_jitter = 5, cf_negative_ttl = 10, cf_lock_ttl = 5, cf_max_wait = 3,
     cf_dump = (\<lambda>s. CHR ''v'' # s), cf_validate = (\<lambda>s. if s \<noteq> [] \<and> hd s = CHR ''v'' then Some (tl s) else None)\<rparr>"

lemma demo_serialises: "serialises demo_cache"
  by (simp add: serialises_def demo_cache_def MISS_def)

fun drive_reader :: "'r cache_config \<Rightarrow> (valkey_reply \<times> db_reply) list \<Rightarrow> nat \<Rightarrow> 'r cache_world \<Rightarrow> 'r cache_world" where
  "drive_reader cfg [] i w = w"
| "drive_reader cfg ((r, q) # rs) i w =
     (case read_step cfg r q 0 (rd_stage (cw_readers w ! i)) w of
        (st, w') \<Rightarrow> drive_reader cfg rs i (w'\<lparr>cw_readers := (cw_readers w)[i := (cw_readers w ! i)\<lparr>rd_stage := st\<rparr>]\<rparr>))"

lemma drive_reader_reachable: "i < length (cw_readers w) \<Longrightarrow> (cache_step cfg)\<^sup>*\<^sup>* w (drive_reader cfg rs i w)"
proof (induction cfg rs i w rule: drive_reader.induct)
  case (2 cfg r q rs i w)
  obtain st w' where one: "read_step cfg r q 0 (rd_stage (cw_readers w ! i)) w = (st, w')" by fastforce
  let ?w = "w'\<lparr>cw_readers := (cw_readers w)[i := (cw_readers w ! i)\<lparr>rd_stage := st\<rparr>]\<rparr>"
  have "cache_step cfg w ?w" using advance [OF 2(2) _ one] by simp
  moreover have "(cache_step cfg)\<^sup>*\<^sup>* ?w (drive_reader cfg rs i ?w)" using 2(1) [OF one [symmetric]] 2(2) by simp
  ultimately show ?case using one by (simp add: converse_rtranclp_into_rtranclp)
qed simp

definition add_reader :: "'r cache_world \<Rightarrow> 'r cache_world" where
  "add_reader w = w\<lparr>cw_readers := cw_readers w @ [\<lparr>rd_stage = Lookup, rd_floor = cw_invalidated w\<rparr>]\<rparr>"

text \<open>Version 1 is read and cached, version 2 is written and its event handled, and the next reader fills anew.\<close>

definition cached_once :: "string cache_world" where
  "cached_once = drive_reader demo_cache (replicate 6 (Answered, Read_Row)) 0
     (add_reader (fresh_cache\<lparr>cw_history := cw_history fresh_cache @ [Some ''a'']\<rparr>))"

definition invalidated_once :: "string cache_world" where
  "invalidated_once = (let w = cached_once\<lparr>cw_history := cw_history cached_once @ [Some ''b'']\<rparr> in
     (invalidate w)\<lparr>cw_invalidated := insert 2 (cw_invalidated w)\<rparr>)"

definition read_again :: "string cache_world" where
  "read_again = drive_reader demo_cache (replicate 6 (Answered, Read_Row)) 1 (add_reader invalidated_once)"

lemma read_again_facts:
  "map rd_stage (cw_readers read_again) = [Finished (Answer (Some ''a'') 1), Finished (Answer (Some ''b'') 2)]"
  "map rd_floor (cw_readers read_again) = [{}, {2}]" "vk_get (cw_now cached_once) (cw_value cached_once) = Some (''va'', 1)"
  "length (cw_readers cached_once) = 1" "current (cached_once\<lparr>cw_history := cw_history cached_once @ [Some ''b'']\<rparr>) = 2"
  by code_simp+

lemma read_again_reachable: "(cache_step demo_cache)\<^sup>*\<^sup>* fresh_cache read_again"
proof -
  have start': "cache_step demo_cache w (add_reader w)" for w unfolding add_reader_def by (rule start) simp
  let ?w1 = "fresh_cache\<lparr>cw_history := cw_history fresh_cache @ [Some ''a'']\<rparr>"
  let ?w2 = "cached_once\<lparr>cw_history := cw_history cached_once @ [Some ''b'']\<rparr>"
  have "cache_step demo_cache fresh_cache ?w1" by (rule write_row)
  moreover have "cache_step demo_cache ?w1 (add_reader ?w1)" by (rule start')
  moreover have "(cache_step demo_cache)\<^sup>*\<^sup>* (add_reader ?w1) cached_once"
    unfolding cached_once_def by (rule drive_reader_reachable) (simp add: add_reader_def)
  moreover have "cache_step demo_cache cached_once ?w2" by (rule write_row)
  moreover have "cache_step demo_cache ?w2 invalidated_once"
    unfolding invalidated_once_def Let_def by (rule handle_event) (simp add: read_again_facts)
  moreover have "cache_step demo_cache invalidated_once (add_reader invalidated_once)" by (rule start')
  moreover have "(cache_step demo_cache)\<^sup>*\<^sup>* (add_reader invalidated_once) read_again"
    unfolding read_again_def
    by (rule drive_reader_reachable) (simp add: add_reader_def invalidated_once_def invalidate_def Let_def read_again_facts(4))
  ultimately show ?thesis by (meson converse_rtranclp_into_rtranclp rtranclp_trans)
qed

theorem cached_reads_are_fresh_witness:
  "rd_stage (cw_readers read_again ! 1) = Finished (Answer (Some ''b'') 2) \<and> 2 \<le> current read_again \<and> Some ''b'' = cw_history read_again ! 2"
proof -
  have "length (cw_readers read_again) = 2" using arg_cong [OF read_again_facts(1), of length] by simp
  then have "cw_readers read_again ! 1 \<in> set (cw_readers read_again)" by simp
  moreover have "rd_stage (cw_readers read_again ! 1) = Finished (Answer (Some ''b'') 2)"
    using arg_cong [OF read_again_facts(1), of "\<lambda>l. l ! 1"] \<open>length (cw_readers read_again) = 2\<close> by simp
  ultimately show ?thesis using cached_reads_are_fresh [OF demo_serialises read_again_reachable] by blast
qed

theorem cached_read_answers_witness:
  "fst (drive_read demo_cache [(Faulted True, Reading), (Faulted True, Read_Row)] Lookup invalidated_once) = Finished (Answer (Some ''b'') 2)"
proof -
  have "vk_get (cw_now invalidated_once) (cw_value invalidated_once) = None" "vk_get (cw_now invalidated_once) (cw_lock invalidated_once) = None"
    by (simp_all add: invalidated_once_def invalidate_def Let_def)
  moreover have "0 < cf_lock_ttl demo_cache" "0 < cf_ttl demo_cache" "0 < cf_negative_ttl demo_cache" by (simp_all add: demo_cache_def)
  moreover have "cw_history invalidated_once ! current invalidated_once = Some ''b''" "current invalidated_once = 2" by code_simp+
  ultimately show ?thesis
    using cached_read_answers [OF demo_serialises, of invalidated_once, OF _ _ _ _ _ refl surjective_pairing, of True] by simp
qed

end
