(* ===== verification/Notifications.thy ===== *)
theory Notifications
  imports Sessions Codec
begin

text \<open>
  \<^verbatim>\<open>notifications\<close>: the e-mails the backend sends. \<^verbatim>\<open>adapters/db/repository.py\<close> keeps who is mailed
  and the durable state of every send, \<^verbatim>\<open>application/service.py\<close> claims, renders, sends and marks, and
  \<^verbatim>\<open>themes\<close> fills the templates. A worker runs its statements among the other workers (\<open>Sessions\<close>); the
  send itself is such a statement: \<open>nf_mailed\<close> is what the transport accepted. Metrics are left out.
\<close>

section \<open>Tables\<close>

datatype email_type = ORDER_CONFIRMATION | REFUND_ISSUED

datatype email_status = MAIL_PENDING | MAIL_SENT

record sent_email =
  se_order :: uuid
  se_type :: email_type
  se_recipient :: string
  se_status :: email_status
  se_message :: "uuid option"

text \<open>\<open>ml_order\<close> and \<open>ml_type\<close> are what the mail is about, for the statements.\<close>

record mail =
  ml_to :: string
  ml_subject :: string
  ml_body :: string
  ml_html :: string
  ml_message :: "uuid option"
  ml_order :: uuid
  ml_type :: email_type

record notify_db =
  nf_recipients :: "uuid \<Rightarrow> string option"
  nf_order_emails :: "uuid \<Rightarrow> string option"
  nf_sent :: "sent_email list"
  nf_suppressed :: "string list"
  nf_mailed :: "mail list"
  nf_next_id :: uuid

type_synonym 'a ntf = "(exn, notify_db conn, 'a) prog"

section \<open>Repository\<close>

definition repo_upsert_recipient :: "uuid \<Rightarrow> string \<Rightarrow> unit ntf" where
  "repo_upsert_recipient uid email = stmt (modify (\<lambda>d. d\<lparr>nf_recipients := (nf_recipients d)(uid := Some email)\<rparr>))"

definition repo_upsert_order_email :: "uuid \<Rightarrow> string \<Rightarrow> unit ntf" where
  "repo_upsert_order_email oid email = stmt (modify (\<lambda>d. d\<lparr>nf_order_emails := (nf_order_emails d)(oid := Some email)\<rparr>))"

definition repo_get_order_email :: "uuid \<Rightarrow> string option ntf" where
  "repo_get_order_email oid = stmt (gets (\<lambda>d. nf_order_emails d oid))"

definition repo_get_recipient_email :: "uuid \<Rightarrow> string option ntf" where
  "repo_get_recipient_email uid = stmt (gets (\<lambda>d. nf_recipients d uid))"

definition repo_is_suppressed :: "string \<Rightarrow> bool ntf" where
  "repo_is_suppressed email = stmt (gets (\<lambda>d. email \<in> set (nf_suppressed d)))"

definition send_row :: "uuid \<Rightarrow> email_type \<Rightarrow> notify_db \<Rightarrow> sent_email option" where
  "send_row oid ty d = find (\<lambda>r. se_order r = oid \<and> se_type r = ty) (nf_sent d)"

definition repo_has_sent :: "uuid \<Rightarrow> email_type \<Rightarrow> bool ntf" where
  "repo_has_sent oid ty = stmt (gets (\<lambda>d. list_ex (\<lambda>r. se_order r = oid \<and> se_type r = ty \<and> se_status r = MAIL_SENT) (nf_sent d)))"

datatype claim_outcome = Claimed | Already_Sent | Takeover

definition unique_send :: string where
  "unique_send = ''uq_sent_emails_order_id_email_type''"

text \<open>The INSERT of the claim draws its message id; a row of the order and type violates the unique key.\<close>

definition insert_claim :: "uuid \<Rightarrow> email_type \<Rightarrow> string \<Rightarrow> (exn, notify_db, claim_outcome \<times> uuid option) prog" where
  "insert_claim oid ty recipient = (\<lambda>d.
     if send_row oid ty d \<noteq> None then (Inl (IntegrityError unique_send), d)
     else (Inr (Claimed, Some (nf_next_id d)),
           d\<lparr>nf_sent := nf_sent d @ [\<lparr>se_order = oid, se_type = ty, se_recipient = recipient, se_status = MAIL_PENDING,
                                       se_message = Some (nf_next_id d)\<rparr>],
             nf_next_id := Suc (nf_next_id d)\<rparr>))"

definition repo_claim_send :: "uuid \<Rightarrow> email_type \<Rightarrow> string \<Rightarrow> (claim_outcome \<times> uuid option) ntf" where
  "repo_claim_send oid ty recipient =
     catch (stmt (insert_claim oid ty recipient)) (\<lambda>e.
       if e \<noteq> IntegrityError unique_send then raise e
       else bnd (stmt (gets (send_row oid ty))) (\<lambda>row.
         case row of
           None \<Rightarrow> raise (RuntimeError ''NoResultFound'')
         | Some r \<Rightarrow> ret (if se_status r = MAIL_SENT then Already_Sent else Takeover, se_message r)))"

definition mark_row :: "uuid \<Rightarrow> email_type \<Rightarrow> string \<Rightarrow> notify_db \<Rightarrow> notify_db" where
  "mark_row oid ty recipient d = d\<lparr>nf_sent :=
     update_where (\<lambda>r. se_order r = oid \<and> se_type r = ty) (\<lambda>r. r\<lparr>se_status := MAIL_SENT, se_recipient := recipient\<rparr>) (nf_sent d)\<rparr>"

definition repo_mark_sent :: "uuid \<Rightarrow> email_type \<Rightarrow> string \<Rightarrow> unit ntf" where
  "repo_mark_sent oid ty recipient = stmt (modify (mark_row oid ty recipient))"

section \<open>Templates\<close>

text \<open>
  \<open>string.Template.substitute\<close>: \<open>$$\<close>, \<open>$name\<close> and \<open>${name}\<close>; any other \<open>$\<close> is a \<open>ValueError\<close>, a name
  without a value a \<open>KeyError\<close>. What is filled in is not read again.
\<close>

definition id_start :: "char \<Rightarrow> bool" where
  "id_start c \<longleftrightarrow> c = CHR ''_'' \<or> 97 \<le> (of_char c :: nat) \<and> of_char c \<le> (122 :: nat) \<or> 65 \<le> (of_char c :: nat) \<and> of_char c \<le> (90 :: nat)"

definition id_char :: "char \<Rightarrow> bool" where
  "id_char c \<longleftrightarrow> id_start c \<or> is_digit c"

function template_substitute :: "(string \<Rightarrow> string option) \<Rightarrow> string \<Rightarrow> exn + string" where
  "template_substitute vals [] = Inr []"
| "template_substitute vals (c # t) =
     (if c \<noteq> CHR ''$'' then map_sum id ((#) c) (template_substitute vals t)
      else case t of
             [] \<Rightarrow> Inl (ValueError ''Invalid placeholder in string'')
           | d # u \<Rightarrow>
               if d = CHR ''$'' then map_sum id ((#) d) (template_substitute vals u)
               else if id_start d then
                 (case vals (takeWhile id_char t) of
                    None \<Rightarrow> Inl (KeyError (takeWhile id_char t))
                  | Some v \<Rightarrow> map_sum id ((@) v) (template_substitute vals (dropWhile id_char t)))
               else if d = CHR ''{'' \<and> u \<noteq> [] \<and> id_start (hd u) \<and> dropWhile id_char u \<noteq> [] \<and> hd (dropWhile id_char u) = CHR ''}'' then
                 (case vals (takeWhile id_char u) of
                    None \<Rightarrow> Inl (KeyError (takeWhile id_char u))
                  | Some v \<Rightarrow> map_sum id ((@) v) (template_substitute vals (tl (dropWhile id_char u))))
               else Inl (ValueError ''Invalid placeholder in string''))"
  by pat_completeness auto
termination
proof (relation "measure (\<lambda>(vals, t). length t)", goal_cases)
  case (4 vals c t d u)
  then show ?case using length_dropWhile_le [of id_char t] by simp
next
  case (5 vals c t d u)
  then show ?case using length_dropWhile_le [of id_char u] by simp
qed simp_all

record theme =
  th_confirmation :: "string \<times> string \<times> string"
  th_refund :: "string \<times> string \<times> string"

definition render_triple :: "string \<times> string \<times> string \<Rightarrow> (string \<Rightarrow> string option) \<Rightarrow> (string \<Rightarrow> string option) \<Rightarrow> (string \<Rightarrow> string option) \<Rightarrow>
    exn + string \<times> string \<times> string" where
  "render_triple t vs vb vh =
     (case template_substitute vs (fst t) of
        Inl e \<Rightarrow> Inl e
      | Inr subject \<Rightarrow>
          (case template_substitute vb (fst (snd t)) of
             Inl e \<Rightarrow> Inl e
           | Inr body \<Rightarrow>
               (case template_substitute vh (snd (snd t)) of
                  Inl e \<Rightarrow> Inl e
                | Inr html \<Rightarrow> Inr (subject, body, html))))"

definition render_order_confirmation :: "theme \<Rightarrow> string \<Rightarrow> string \<Rightarrow> string \<Rightarrow> string \<Rightarrow> exn + string \<times> string \<times> string" where
  "render_order_confirmation th oid amount items_text items_html =
     (let values = [''order_id'' \<mapsto> oid, ''total'' \<mapsto> amount] in
      render_triple (th_confirmation th) [''order_id'' \<mapsto> oid] (values(''items'' \<mapsto> items_text)) (values(''items'' \<mapsto> items_html)))"

definition render_refund_issued :: "theme \<Rightarrow> string \<Rightarrow> string \<Rightarrow> exn + string \<times> string \<times> string" where
  "render_refund_issued th oid amount =
     (let values = [''order_id'' \<mapsto> oid, ''amount'' \<mapsto> amount] in render_triple (th_refund th) values values values)"

section \<open>Service\<close>

record placed_line =
  pl_name :: "string option"
  pl_product :: string
  pl_qty :: int
  pl_price :: string

record placed_data =
  pd_order :: uuid
  pd_user :: uuid
  pd_email :: "string option"
  pd_total :: string
  pd_items :: "placed_line list"

text \<open>Python's \<open>a or b\<close> on an optional string.\<close>

definition or_else :: "string option \<Rightarrow> string \<Rightarrow> string" where
  "or_else a b = (case a of None \<Rightarrow> b | Some s \<Rightarrow> if s = '''' then b else s)"

definition join_lines :: "string list \<Rightarrow> string" where
  "join_lines ls = (case ls of [] \<Rightarrow> [] | l # rest \<Rightarrow> l @ concat (map (\<lambda>x. CHR 0x0A # x) rest))"

definition item_text :: "placed_line \<Rightarrow> string" where
  "item_text l = or_else (pl_name l) (pl_product l) @ '' x'' @ str_int (pl_qty l) @ '' @ '' @ pl_price l"

definition render_confirmation :: "theme \<Rightarrow> placed_data \<Rightarrow> exn + string \<times> string \<times> string" where
  "render_confirmation th data =
     render_order_confirmation th (str_uuid (pd_order data)) (pd_total data)
       (join_lines (map (\<lambda>l. ''  - '' @ item_text l) (pd_items data)))
       (join_lines (map (\<lambda>l. ''<li>'' @ item_text l @ ''</li>'') (pd_items data)))"

definition send_mail :: "mail \<Rightarrow> unit ntf" where
  "send_mail m = stmt (modify (\<lambda>d. d\<lparr>nf_mailed := nf_mailed d @ [m]\<rparr>))"

definition svc_send_claimed :: "uuid \<Rightarrow> string \<Rightarrow> email_type \<Rightarrow> exn + string \<times> string \<times> string \<Rightarrow> unit ntf" where
  "svc_send_claimed oid email ty rendered =
     bnd (repo_is_suppressed email) (\<lambda>suppressed.
       if suppressed then ret ()
       else bnd (repo_claim_send oid ty email) (\<lambda>(outcome, message_id).
         if outcome = Already_Sent then ret ()
         else case rendered of
                Inl e \<Rightarrow> raise e
              | Inr (subject, body, html) \<Rightarrow>
                  thn (send_mail \<lparr>ml_to = email, ml_subject = subject, ml_body = body, ml_html = html, ml_message = message_id,
                                   ml_order = oid, ml_type = ty\<rparr>)
                      (repo_mark_sent oid ty email)))"

definition svc_handle_user_created :: "uuid \<Rightarrow> string \<Rightarrow> unit ntf" where
  "svc_handle_user_created uid email = repo_upsert_recipient uid email"

definition svc_handle_order_placed :: "theme \<Rightarrow> placed_data \<Rightarrow> unit ntf" where
  "svc_handle_order_placed th data =
     bnd (if or_else (pd_email data) '''' \<noteq> '''' then ret (pd_email data) else repo_get_recipient_email (pd_user data)) (\<lambda>email.
       case email of
         None \<Rightarrow> raise (RuntimeError ''no address known for the user of the order'')
       | Some e \<Rightarrow>
           thn (repo_upsert_order_email (pd_order data) e)
               (svc_send_claimed (pd_order data) e ORDER_CONFIRMATION (render_confirmation th data)))"

definition svc_handle_payment_refunded :: "theme \<Rightarrow> uuid \<Rightarrow> string \<Rightarrow> unit ntf" where
  "svc_handle_payment_refunded th oid amount =
     bnd (repo_get_order_email oid) (\<lambda>email.
       case email of
         None \<Rightarrow> raise (RuntimeError ''no address known for the refunded order'')
       | Some e \<Rightarrow> svc_send_claimed oid e REFUND_ISSUED (render_refund_issued th (str_uuid oid) amount))"

text \<open>The handler of the worker: one validated event.\<close>

datatype notify_event =
    User_Created uuid string
  | Order_Placed placed_data
  | Payment_Refunded uuid string
  | Other_Event string

definition notification_handler :: "theme \<Rightarrow> notify_event \<Rightarrow> unit ntf" where
  "notification_handler th ev =
     (case ev of
        User_Created uid email \<Rightarrow> svc_handle_user_created uid email
      | Order_Placed data \<Rightarrow> svc_handle_order_placed th data
      | Payment_Refunded oid amount \<Rightarrow> svc_handle_payment_refunded th oid amount
      | Other_Event _ \<Rightarrow> ret ())"

end
