(* ===== verification/Notification_Properties.thy ===== *)
theory Notification_Properties
  imports Notifications
begin

text \<open>
  What the mail ledger promises: under any interleaving of workers and any failing call, all copies of
  a mail carry one identifier and different mails different ones, a row is only marked sent after the
  transport accepted the mail, and an undisturbed delivery sends exactly once. Templates are filled
  verbatim.
\<close>

section \<open>The contract of the workers\<close>

definition row_ok :: "notify_db \<Rightarrow> sent_email \<Rightarrow> bool" where
  "row_ok d r \<longleftrightarrow> (\<exists>i < nf_next_id d. se_message r = Some i) \<and>
     (se_status r = MAIL_SENT \<longrightarrow> (\<exists>m \<in> set (nf_mailed d). ml_order m = se_order r \<and> ml_type m = se_type r))"

definition mail_ok :: "notify_db \<Rightarrow> mail \<Rightarrow> bool" where
  "mail_ok d m \<longleftrightarrow> (\<exists>r \<in> set (nf_sent d). se_order r = ml_order m \<and> se_type r = ml_type m \<and> se_message r = ml_message m)"

definition notify_ok :: "notify_db \<Rightarrow> bool" where
  "notify_ok d \<longleftrightarrow> distinct (map (\<lambda>r. (se_order r, se_type r)) (nf_sent d)) \<and> distinct (map se_message (nf_sent d)) \<and>
     (\<forall>r \<in> set (nf_sent d). row_ok d r) \<and> (\<forall>m \<in> set (nf_mailed d). mail_ok d m)"

definition row_evolves_mail :: "sent_email \<Rightarrow> sent_email \<Rightarrow> bool" where
  "row_evolves_mail r r' \<longleftrightarrow> se_order r' = se_order r \<and> se_type r' = se_type r \<and> se_message r' = se_message r \<and>
     (se_status r = MAIL_SENT \<longrightarrow> se_status r' = MAIL_SENT)"

definition notify_step :: "notify_db \<Rightarrow> notify_db \<Rightarrow> bool" where
  "notify_step d d' \<longleftrightarrow> (notify_ok d \<longrightarrow> notify_ok d' \<and> set (nf_mailed d) \<subseteq> set (nf_mailed d') \<and>
     (\<forall>r \<in> set (nf_sent d). \<exists>r' \<in> set (nf_sent d'). row_evolves_mail r r'))"

lemma row_evolves_mail_refl [simp]: "row_evolves_mail r r"
  by (simp add: row_evolves_mail_def)

lemma row_evolves_mail_trans: "row_evolves_mail a b \<Longrightarrow> row_evolves_mail b c \<Longrightarrow> row_evolves_mail a c"
  by (simp add: row_evolves_mail_def)

interpretation ntf: session_rely notify_ok notify_step
proof
  show "notify_step d d" for d unfolding notify_step_def using row_evolves_mail_refl by blast
  show "notify_step a c" if "notify_step a b" "notify_step b c" for a b c
    using that row_evolves_mail_trans unfolding notify_step_def by (meson order_trans)
  show "notify_ok d \<Longrightarrow> notify_step d d' \<Longrightarrow> notify_ok d'" for d d' by (simp add: notify_step_def)
qed

lemma notify_grows:
  assumes "notify_ok d'" and "set (nf_mailed d) \<subseteq> set (nf_mailed d')" and "set (nf_sent d) \<subseteq> set (nf_sent d')"
  shows "notify_step d d'"
proof -
  have "\<exists>r' \<in> set (nf_sent d'). row_evolves_mail r r'" if "r \<in> set (nf_sent d)" for r
    using that assms(3) by (intro bexI [of _ r]) auto
  then show ?thesis using assms by (simp add: notify_step_def)
qed

text \<open>The claim of a send: its row is there, under the message id the worker uses.\<close>

definition has_claim :: "uuid \<Rightarrow> email_type \<Rightarrow> uuid option \<Rightarrow> notify_db \<Rightarrow> bool" where
  "has_claim oid ty mid d \<longleftrightarrow> (\<exists>r \<in> set (nf_sent d). se_order r = oid \<and> se_type r = ty \<and> se_message r = mid)"

definition has_mail :: "uuid \<Rightarrow> email_type \<Rightarrow> notify_db \<Rightarrow> bool" where
  "has_mail oid ty d \<longleftrightarrow> (\<exists>m \<in> set (nf_mailed d). ml_order m = oid \<and> ml_type m = ty)"

lemma has_claim_step: "has_claim oid ty mid d \<Longrightarrow> notify_ok d \<Longrightarrow> notify_step d d' \<Longrightarrow> has_claim oid ty mid d'"
  unfolding has_claim_def notify_step_def row_evolves_mail_def by metis

lemma has_mail_step: "has_mail oid ty d \<Longrightarrow> notify_ok d \<Longrightarrow> notify_step d d' \<Longrightarrow> has_mail oid ty d'"
  unfolding has_mail_def notify_step_def by blast

lemma survives_db:
  assumes "\<And>d d'. K d \<Longrightarrow> notify_ok d \<Longrightarrow> notify_step d d' \<Longrightarrow> K d'"
  shows "ntf.survives (\<lambda>c. K (cn_db c))"
  using assms by (simp add: ntf.survives_def)

section \<open>The writes\<close>

lemma claim_step:
  assumes ok: "notify_ok d" and fresh: "send_row oid ty d = None"
    and d': "d' = d\<lparr>nf_sent := nf_sent d @ [\<lparr>se_order = oid, se_type = ty, se_recipient = a, se_status = MAIL_PENDING,
                     se_message = Some (nf_next_id d)\<rparr>], nf_next_id := Suc (nf_next_id d)\<rparr>"
  shows "notify_step d d'"
proof -
  have new: "(oid, ty) \<notin> (\<lambda>r. (se_order r, se_type r)) ` set (nf_sent d)" using fresh by (auto simp: send_row_def find_None_iff)
  have "se_message r \<noteq> Some (nf_next_id d)" if "r \<in> set (nf_sent d)" for r
    using ok that by (fastforce simp: notify_ok_def row_ok_def)
  then have "Some (nf_next_id d) \<notin> se_message ` set (nf_sent d)" by (metis imageE)
  moreover have "row_ok d' r" if "row_ok d r" for r using that by (auto simp: row_ok_def d' less_SucI)
  moreover have "mail_ok d' m" if "mail_ok d m" for m using that by (auto simp: mail_ok_def d')
  ultimately have "notify_ok d'" using ok new by (simp add: notify_ok_def d') (simp add: row_ok_def)
  then show ?thesis by (rule notify_grows) (auto simp: d')
qed

lemma mark_step:
  assumes ok: "notify_ok d" and mailed: "has_mail oid ty d"
  shows "notify_step d (mark_row oid ty a d)"
proof -
  let ?d = "mark_row oid ty a d"
  define f where "f r = (if se_order r = oid \<and> se_type r = ty then r\<lparr>se_status := MAIL_SENT, se_recipient := a\<rparr> else r)" for r :: sent_email
  have rows: "nf_sent ?d = map f (nf_sent d)" and rest: "nf_mailed ?d = nf_mailed d" "nf_next_id ?d = nf_next_id d"
    by (simp_all add: mark_row_def update_where_def f_def)
  have same: "se_order (f r) = se_order r" "se_type (f r) = se_type r" "se_message (f r) = se_message r"
      "se_status (f r) = (if se_order r = oid \<and> se_type r = ty then MAIL_SENT else se_status r)" for r
    by (simp_all add: f_def)
  have "row_ok ?d (f r)" if "row_ok d r" for r
    using that mailed by (simp add: row_ok_def rest same has_mail_def)
  moreover have "mail_ok ?d m" if "mail_ok d m" for m
    using that unfolding mail_ok_def rows by (auto simp: same)
  ultimately have "notify_ok ?d" using ok by (simp add: notify_ok_def rest) (simp add: rows same comp_def)
  moreover have "row_evolves_mail r (f r)" for r by (simp add: row_evolves_mail_def same)
  ultimately show ?thesis unfolding notify_step_def rest unfolding rows by auto
qed

lemma send_step:
  assumes ok: "notify_ok d" and claim: "has_claim (ml_order m) (ml_type m) (ml_message m) d"
  shows "notify_step d (d\<lparr>nf_mailed := nf_mailed d @ [m]\<rparr>)"
proof -
  let ?d = "d\<lparr>nf_mailed := nf_mailed d @ [m]\<rparr>"
  have "row_ok ?d r" if "row_ok d r" for r using that by (auto simp: row_ok_def)
  moreover have "mail_ok ?d n" if "mail_ok d n" for n using that by (auto simp: mail_ok_def)
  moreover have "mail_ok ?d m" using claim by (auto simp: mail_ok_def has_claim_def)
  ultimately have "notify_ok ?d" using ok by (auto simp: notify_ok_def)
  then show ?thesis by (rule notify_grows) auto
qed

lemma projection_step:
  assumes "nf_sent d' = nf_sent d" "nf_mailed d' = nf_mailed d" "nf_next_id d' = nf_next_id d"
  shows "notify_step d d'"
proof -
  have "notify_ok d' = notify_ok d" by (simp add: notify_ok_def row_ok_def mail_ok_def assms)
  then show ?thesis using notify_grows [of d' d] by (auto simp: notify_step_def assms)
qed

section \<open>Every handler keeps the contract\<close>

lemma ntf_read: "ntf.survives P \<Longrightarrow> (\<And>c. P c \<Longrightarrow> Q (g (cn_db c)) c) \<Longrightarrow> ntf.guarded P (stmt (gets g)) Q"
  by (rule ntf.guarded_stmt) (auto simp: atomic_run ntf.step_refl)

lemma ntf_project:
  assumes "\<And>d. nf_sent (f d) = nf_sent d" "\<And>d. nf_mailed (f d) = nf_mailed d" "\<And>d. nf_next_id (f d) = nf_next_id d"
  shows "ntf.guarded (\<lambda>_. True) (stmt (modify f)) (\<lambda>_ _. True)"
  by (rule ntf.guarded_simple) (use assms in \<open>auto simp: atomic_run intro: projection_step\<close>)

lemma send_row_mem: "send_row oid ty d = Some r \<Longrightarrow> r \<in> set (nf_sent d) \<and> se_order r = oid \<and> se_type r = ty"
  unfolding send_row_def using find_Some_mem by fastforce

lemma ntf_claim: "ntf.guarded (\<lambda>_. True) (repo_claim_send oid ty a) (\<lambda>(outcome, mid) c. has_claim oid ty mid (cn_db c))"
  unfolding repo_claim_send_def
proof (rule ntf.guarded_catch)
  show "ntf.guarded (\<lambda>_. True) (stmt (insert_claim oid ty a)) (\<lambda>(outcome, mid) (c :: notify_db conn). has_claim oid ty mid (cn_db c))"
  proof (rule ntf.guarded_stmt [OF ntf.survives_True])
    fix c :: "notify_db conn" and r d' assume ok: "notify_ok (cn_db c)" and run: "atomic (insert_claim oid ty a) (cn_db c) = (r, d')"
    have "notify_step (cn_db c) d' \<and> (\<forall>outcome mid. r = Inr (outcome, mid) \<longrightarrow> has_claim oid ty mid d')"
    proof (cases "send_row oid ty (cn_db c)")
      case None
      then have "notify_step (cn_db c) d'" using run by (intro claim_step [OF ok None]) (auto simp: atomic_run insert_claim_def)
      then show ?thesis using run None by (auto simp: atomic_run insert_claim_def has_claim_def)
    next
      case (Some row)
      then show ?thesis using run by (auto simp: atomic_run insert_claim_def ntf.step_refl)
    qed
    then show "notify_step (cn_db c) d' \<and> (\<forall>x. r = Inr x \<longrightarrow> (case x of (outcome, mid) \<Rightarrow> \<lambda>c. has_claim oid ty mid (cn_db c)) (c\<lparr>cn_db := d'\<rparr>))"
      by auto
  qed
  show "ntf.guarded (\<lambda>_. True)
      (if e \<noteq> IntegrityError unique_send then raise e
       else bnd (stmt (gets (send_row oid ty))) (\<lambda>row.
         case row of None \<Rightarrow> raise (RuntimeError ''NoResultFound'')
         | Some r \<Rightarrow> ret (if se_status r = MAIL_SENT then Already_Sent else Takeover, se_message r)))
      (\<lambda>(outcome, mid) (c :: notify_db conn). has_claim oid ty mid (cn_db c))" for e
  proof (cases "e = IntegrityError unique_send")
    case True
    have "ntf.guarded (\<lambda>_. True) (stmt (gets (send_row oid ty)))
        (\<lambda>row (c :: notify_db conn). case row of None \<Rightarrow> True | Some r \<Rightarrow> has_claim oid ty (se_message r) (cn_db c))"
      by (rule ntf_read [OF ntf.survives_True]) (auto simp: has_claim_def dest: send_row_mem split: option.splits)
    then have "ntf.guarded (\<lambda>_. True) (bnd (stmt (gets (send_row oid ty))) (\<lambda>row.
         case row of None \<Rightarrow> raise (RuntimeError ''NoResultFound'')
         | Some r \<Rightarrow> ret (if se_status r = MAIL_SENT then Already_Sent else Takeover, se_message r)))
      (\<lambda>(outcome, mid) (c :: notify_db conn). has_claim oid ty mid (cn_db c))"
      by (rule ntf.guarded_bnd) (auto simp: ntf.guarded_raise intro: ntf.guarded_ret split: option.splits)
    then show ?thesis by (simp add: True)
  qed (simp add: ntf.guarded_raise)
qed

lemma ntf_send:
  "ntf.guarded (\<lambda>c. has_claim (ml_order m) (ml_type m) (ml_message m) (cn_db c)) (send_mail m) (\<lambda>_ c. has_mail (ml_order m) (ml_type m) (cn_db c))"
  unfolding send_mail_def
  by (rule ntf.guarded_stmt [OF survives_db [OF has_claim_step]]) (auto simp: atomic_run send_step has_mail_def)

lemma ntf_mark: "ntf.guarded (\<lambda>c. has_mail oid ty (cn_db c)) (repo_mark_sent oid ty a) (\<lambda>_ _. True)"
  unfolding repo_mark_sent_def
  by (rule ntf.guarded_stmt [OF survives_db [OF has_mail_step]]) (auto simp: atomic_run mark_step)

lemma ntf_send_claimed: "ntf.guarded (\<lambda>_. True) (svc_send_claimed oid email ty rendered) (\<lambda>_ _. True)"
  unfolding svc_send_claimed_def repo_is_suppressed_def
proof (rule ntf.guarded_bnd [OF ntf_read [where Q = "\<lambda>_ _. True"]], goal_cases)
  case (3 suppressed)
  have "ntf.guarded (\<lambda>_. True) (bnd (repo_claim_send oid ty email) (\<lambda>(outcome, message_id).
         if outcome = Already_Sent then ret ()
         else case rendered of
                Inl e \<Rightarrow> raise e
              | Inr (subject, body, html) \<Rightarrow>
                  thn (send_mail \<lparr>ml_to = email, ml_subject = subject, ml_body = body, ml_html = html, ml_message = message_id,
                                   ml_order = oid, ml_type = ty\<rparr>)
                      (repo_mark_sent oid ty email))) (\<lambda>_ _. True)"
  proof (rule ntf.guarded_bnd [OF ntf_claim])
    fix x :: "claim_outcome \<times> uuid option"
    obtain outcome mid where x: "x = (outcome, mid)" by fastforce
    have "ntf.guarded (\<lambda>c. has_claim oid ty mid (cn_db c))
        (thn (send_mail \<lparr>ml_to = email, ml_subject = s, ml_body = b, ml_html = h, ml_message = mid, ml_order = oid, ml_type = ty\<rparr>)
             (repo_mark_sent oid ty email)) (\<lambda>_ _. True)" for s b h
      using ntf.guarded_thn [OF ntf_send ntf_mark, of "\<lparr>ml_to = email, ml_subject = s, ml_body = b, ml_html = h, ml_message = mid, ml_order = oid, ml_type = ty\<rparr>"]
      by simp
    then show "ntf.guarded (case x of (outcome, mid) \<Rightarrow> \<lambda>c. has_claim oid ty mid (cn_db c))
        (case x of (outcome, message_id) \<Rightarrow>
           if outcome = Already_Sent then ret ()
           else case rendered of Inl e \<Rightarrow> raise e
             | Inr (subject, body, html) \<Rightarrow>
                 thn (send_mail \<lparr>ml_to = email, ml_subject = subject, ml_body = body, ml_html = html, ml_message = message_id,
                                  ml_order = oid, ml_type = ty\<rparr>) (repo_mark_sent oid ty email)) (\<lambda>_ _. True)"
      by (auto simp: x ntf.guarded_raise ntf.guarded_ret split: sum.splits)
  qed
  then show ?case by (simp add: ntf.guarded_ret)
qed simp_all

lemma ntf_handler: "ntf.guarded (\<lambda>_. True) (notification_handler th ev) (\<lambda>_ _. True)"
proof (cases ev)
  case (User_Created uid email)
  then show ?thesis
    by (simp add: notification_handler_def svc_handle_user_created_def repo_upsert_recipient_def ntf_project)
next
  case (Order_Placed data)
  have "ntf.guarded (\<lambda>_. True) (if or_else (pd_email data) '''' \<noteq> '''' then ret (pd_email data) else repo_get_recipient_email (pd_user data)) (\<lambda>_ _. True)"
    by (simp add: ntf.guarded_ret repo_get_recipient_email_def ntf_read)
  then have "ntf.guarded (\<lambda>_. True) (svc_handle_order_placed th data) (\<lambda>_ _. True)"
    unfolding svc_handle_order_placed_def
    by (rule ntf.guarded_bnd) (auto simp: ntf.guarded_raise repo_upsert_order_email_def split: option.splits
        intro!: ntf.guarded_thn [OF ntf_project ntf_send_claimed])
  then show ?thesis by (simp add: Order_Placed notification_handler_def)
next
  case (Payment_Refunded oid amount)
  have "ntf.guarded (\<lambda>_. True) (svc_handle_payment_refunded th oid amount) (\<lambda>_ _. True)"
    unfolding svc_handle_payment_refunded_def repo_get_order_email_def
    by (rule ntf.guarded_bnd [OF ntf_read [where Q = "\<lambda>_ _. True"]]) (auto simp: ntf.guarded_raise ntf_send_claimed split: option.splits)
  then show ?thesis by (simp add: Payment_Refunded notification_handler_def)
qed (simp add: notification_handler_def ntf.guarded_ret)

section \<open>Histories\<close>

definition empty_ledger :: notify_db where
  "empty_ledger = \<lparr>nf_recipients = (\<lambda>_. None), nf_order_emails = (\<lambda>_. None), nf_sent = [], nf_suppressed = [], nf_mailed = [], nf_next_id = 0\<rparr>"

definition delivered :: "theme \<Rightarrow> notify_event \<Rightarrow> (notify_db \<Rightarrow> notify_db) list \<Rightarrow> fault list \<Rightarrow> notify_db \<Rightarrow> notify_db" where
  "delivered th ev sched faults d = cn_db (snd (notification_handler th ev \<lparr>cn_db = d, cn_sched = sched, cn_faults = faults\<rparr>))"

type_synonym notify_history = "(notify_event \<times> (notify_db \<Rightarrow> notify_db) list \<times> fault list) list"

fun deliveries :: "theme \<Rightarrow> notify_history \<Rightarrow> notify_db \<Rightarrow> notify_db" where
  "deliveries th [] d = d"
| "deliveries th ((ev, sched, faults) # h) d = deliveries th h (delivered th ev sched faults d)"

text \<open>Between the statements of a worker the others run: every step they make keeps the contract.\<close>

definition workers_keep :: "notify_history \<Rightarrow> bool" where
  "workers_keep h \<longleftrightarrow> (\<forall>(ev, sched, faults) \<in> set h. \<forall>other \<in> set sched. \<forall>d. notify_step d (other d))"

lemma delivered_keeps:
  assumes "notify_ok d" and "\<forall>other \<in> set sched. \<forall>d. notify_step d (other d)"
  shows "notify_step d (delivered th ev sched faults d)"
  using ntf.guarded_run [OF ntf_handler, of "\<lparr>cn_db = d, cn_sched = sched, cn_faults = faults\<rparr>" th ev] assms
  by (simp add: delivered_def ntf.friendly_def)

lemma deliveries_ok: "notify_ok d \<Longrightarrow> workers_keep h \<Longrightarrow> notify_ok (deliveries th h d)"
proof (induction th h d rule: deliveries.induct)
  case (2 th ev sched faults h d)
  then have "notify_step d (delivered th ev sched faults d)" by (intro delivered_keeps) (auto simp: workers_keep_def)
  then have "notify_ok (delivered th ev sched faults d)" using 2(2) by (simp add: notify_step_def)
  then show ?case using 2 by (auto simp: workers_keep_def)
qed simp

text \<open>A worker delivering another event, or the same one again, is such an other session.\<close>

lemma delivered_as_other: "notify_step d (delivered th ev [] faults d)"
  using delivered_keeps [of d "[]" th ev faults] by (auto simp: notify_step_def)

lemma empty_ledger_ok: "notify_ok empty_ledger"
  by (simp add: notify_ok_def empty_ledger_def)

section \<open>Properties\<close>

text \<open>
  C34. Whatever events are delivered, how often, in which interleaving of workers and with whichever call
  failing, two accepted mails carry the same message identifier exactly when they are the same
  notification (order and type) - so every duplicate can be recognised - and a send is only on record
  as done when the transport accepted the mail.
\<close>
theorem mail_identified_once:
  assumes "workers_keep h" and "d = deliveries th h empty_ledger"
  shows "(\<forall>a \<in> set (nf_mailed d). \<forall>b \<in> set (nf_mailed d). ml_message a = ml_message b \<longleftrightarrow> ml_order a = ml_order b \<and> ml_type a = ml_type b) \<and>
     (\<forall>r \<in> set (nf_sent d). se_status r = MAIL_SENT \<longrightarrow> (\<exists>m \<in> set (nf_mailed d). ml_order m = se_order r \<and> ml_type m = se_type r))"
proof -
  have ok: "notify_ok d" unfolding assms(2) by (rule deliveries_ok [OF empty_ledger_ok assms(1)])
  have "ml_message a = ml_message b \<longleftrightarrow> ml_order a = ml_order b \<and> ml_type a = ml_type b"
    if mails: "a \<in> set (nf_mailed d)" "b \<in> set (nf_mailed d)" for a b
  proof -
    obtain ra where ra: "ra \<in> set (nf_sent d)" "se_order ra = ml_order a" "se_type ra = ml_type a" "se_message ra = ml_message a"
      using ok mails(1) by (auto simp: notify_ok_def mail_ok_def)
    obtain rb where rb: "rb \<in> set (nf_sent d)" "se_order rb = ml_order b" "se_type rb = ml_type b" "se_message rb = ml_message b"
      using ok mails(2) by (auto simp: notify_ok_def mail_ok_def)
    have "inj_on se_message (set (nf_sent d))" "inj_on (\<lambda>r. (se_order r, se_type r)) (set (nf_sent d))"
      using ok by (auto simp: notify_ok_def distinct_map)
    then have "se_message ra = se_message rb \<longleftrightarrow> ra = rb" "(se_order ra, se_type ra) = (se_order rb, se_type rb) \<longleftrightarrow> ra = rb"
      using ra(1) rb(1) by (auto dest: inj_onD)
    then show ?thesis using ra rb by auto
  qed
  moreover have "\<forall>r \<in> set (nf_sent d). se_status r = MAIL_SENT \<longrightarrow> (\<exists>m \<in> set (nf_mailed d). ml_order m = se_order r \<and> ml_type m = se_type r)"
    using ok by (auto simp: notify_ok_def row_ok_def)
  ultimately show ?thesis by blast
qed

subsection \<open>An undisturbed delivery\<close>

lemma stmt_quiet:
  "stmt m \<lparr>cn_db = d, cn_sched = [], cn_faults = []\<rparr> = (fst (atomic m d), \<lparr>cn_db = snd (atomic m d), cn_sched = [], cn_faults = []\<rparr>)"
  by (simp add: stmt_def seen_by_def after_stmt_def split_beta)

lemma send_row_marked:
  "send_row oid ty (mark_row oid ty a d) = map_option (\<lambda>r. r\<lparr>se_status := MAIL_SENT, se_recipient := a\<rparr>) (send_row oid ty d)"
proof -
  have "find (\<lambda>r. se_order r = oid \<and> se_type r = ty)
      (update_where (\<lambda>r. se_order r = oid \<and> se_type r = ty) (\<lambda>r. r\<lparr>se_status := MAIL_SENT, se_recipient := a\<rparr>) rs) =
    map_option (\<lambda>r. r\<lparr>se_status := MAIL_SENT, se_recipient := a\<rparr>) (find (\<lambda>r. se_order r = oid \<and> se_type r = ty) rs)" for rs :: "sent_email list"
    by (induction rs) (auto simp: update_where_def)
  then show ?thesis by (simp add: send_row_def mark_row_def)
qed

lemma send_row_append: "send_row oid ty (d\<lparr>nf_sent := nf_sent d @ [r], nf_next_id := n\<rparr>) =
    (case send_row oid ty d of Some x \<Rightarrow> Some x | None \<Rightarrow> if se_order r = oid \<and> se_type r = ty then Some r else None)"
proof -
  have "find p (xs @ [r]) = (case find p xs of Some x \<Rightarrow> Some x | None \<Rightarrow> if p r then Some r else None)" for p and xs :: "sent_email list"
    by (induction xs) auto
  then show ?thesis by (simp add: send_row_def)
qed

definition mails_of :: "uuid \<Rightarrow> email_type \<Rightarrow> notify_db \<Rightarrow> mail list" where
  "mails_of oid ty d = filter (\<lambda>m. ml_order m = oid \<and> ml_type m = ty) (nf_mailed d)"

definition recorded_sent :: "uuid \<Rightarrow> email_type \<Rightarrow> notify_db \<Rightarrow> bool" where
  "recorded_sent oid ty d \<longleftrightarrow> (case send_row oid ty d of None \<Rightarrow> False | Some r \<Rightarrow> se_status r = MAIL_SENT)"

lemma send_row_frame [simp]:
  "send_row oid ty (d\<lparr>nf_mailed := ms\<rparr>) = send_row oid ty d" "send_row oid ty (d\<lparr>nf_order_emails := es\<rparr>) = send_row oid ty d"
  by (simp_all add: send_row_def)

lemma mark_row_frame [simp]: "nf_mailed (mark_row oid ty a d) = nf_mailed d" "nf_suppressed (mark_row oid ty a d) = nf_suppressed d"
  "nf_order_emails (mark_row oid ty a d) = nf_order_emails d" "nf_recipients (mark_row oid ty a d) = nf_recipients d"
  by (simp_all add: mark_row_def)

lemma send_claimed_quiet:
  assumes "a \<notin> set (nf_suppressed d)" and "rendered = Inr (s, b, h)"
    and run: "svc_send_claimed oid a ty rendered \<lparr>cn_db = d, cn_sched = [], cn_faults = []\<rparr> = (r, c)"
  shows "r = Inr () \<and> recorded_sent oid ty (cn_db c) \<and>
    nf_suppressed (cn_db c) = nf_suppressed d \<and> nf_recipients (cn_db c) = nf_recipients d \<and> nf_order_emails (cn_db c) = nf_order_emails d \<and>
    (if recorded_sent oid ty d then nf_mailed (cn_db c) = nf_mailed d
     else \<exists>m. nf_mailed (cn_db c) = nf_mailed d @ [m] \<and> ml_to m = a \<and> ml_order m = oid \<and> ml_type m = ty \<and> ml_subject m = s \<and> ml_body m = b \<and> ml_html m = h)"
proof (cases "send_row oid ty d")
  case None
  with run assms(1,2) show ?thesis
    by (auto simp: svc_send_claimed_def repo_is_suppressed_def repo_claim_send_def catch_def bnd_run thn_run stmt_quiet atomic_run insert_claim_def
        send_mail_def repo_mark_sent_def recorded_sent_def send_row_marked send_row_append)
next
  case (Some row)
  with run assms(1,2) show ?thesis
    by (cases "se_status row") (auto simp: svc_send_claimed_def repo_is_suppressed_def repo_claim_send_def catch_def bnd_run thn_run stmt_quiet atomic_run
        insert_claim_def send_mail_def repo_mark_sent_def recorded_sent_def send_row_marked)
qed

definition address_for :: "placed_data \<Rightarrow> notify_db \<Rightarrow> string option" where
  "address_for data d = (if or_else (pd_email data) '''' \<noteq> '''' then pd_email data else nf_recipients d (pd_user data))"

lemma order_placed_quiet:
  assumes "address_for data d = Some a" and "a \<notin> set (nf_suppressed d)" and "render_confirmation th data = Inr (s, b, h)"
    and d': "d' = delivered th (Order_Placed data) [] [] d"
  shows "recorded_sent (pd_order data) ORDER_CONFIRMATION d' \<and> nf_order_emails d' (pd_order data) = Some a \<and>
     nf_suppressed d' = nf_suppressed d \<and> nf_recipients d' = nf_recipients d \<and>
     (if recorded_sent (pd_order data) ORDER_CONFIRMATION d then nf_mailed d' = nf_mailed d
      else \<exists>m. nf_mailed d' = nf_mailed d @ [m] \<and> ml_to m = a \<and> ml_order m = pd_order data \<and> ml_type m = ORDER_CONFIRMATION \<and>
        ml_subject m = s \<and> ml_body m = b \<and> ml_html m = h)"
proof -
  let ?d = "d\<lparr>nf_order_emails := (nf_order_emails d)(pd_order data := Some a)\<rparr>"
  obtain r c where run: "svc_send_claimed (pd_order data) a ORDER_CONFIRMATION (Inr (s, b, h)) \<lparr>cn_db = ?d, cn_sched = [], cn_faults = []\<rparr> = (r, c)"
    by fastforce
  have "d' = cn_db c"
    using assms(1,3) run unfolding d' delivered_def
    by (auto simp: notification_handler_def svc_handle_order_placed_def repo_get_recipient_email_def repo_upsert_order_email_def bnd_run thn_run
        stmt_quiet atomic_run address_for_def)
  with send_claimed_quiet [OF _ refl run] assms(2) show ?thesis by (auto simp: recorded_sent_def)
qed

text \<open>
  C35. A delivery of \<open>OrderPlaced\<close> that nothing disturbs mails the confirmation to the address of the order
  (its own, else the one its user is known by) and puts it on record, also when earlier attempts
  crashed anywhere; after that every further delivery of the event sends nothing. An address on the
  suppression list is never mailed.
\<close>
theorem confirmation_sent_once:
  assumes "address_for data d = Some a" and "render_confirmation th data = Inr (s, b, h)"
    and "d' = delivered th (Order_Placed data) [] [] d" and "d'' = delivered th (Order_Placed data) [] [] d'"
  shows "(a \<in> set (nf_suppressed d) \<longrightarrow> nf_mailed d' = nf_mailed d) \<and>
     (a \<notin> set (nf_suppressed d) \<longrightarrow>
        recorded_sent (pd_order data) ORDER_CONFIRMATION d' \<and> nf_mailed d'' = nf_mailed d' \<and>
        (if recorded_sent (pd_order data) ORDER_CONFIRMATION d then nf_mailed d' = nf_mailed d
         else \<exists>m. nf_mailed d' = nf_mailed d @ [m] \<and> ml_to m = a \<and> ml_order m = pd_order data \<and> ml_type m = ORDER_CONFIRMATION \<and>
           ml_subject m = s \<and> ml_body m = b \<and> ml_html m = h))"
proof (intro conjI impI)
  assume "a \<in> set (nf_suppressed d)"
  then show "nf_mailed d' = nf_mailed d"
    using assms(1,3) by (auto simp: delivered_def notification_handler_def svc_handle_order_placed_def repo_get_recipient_email_def
        repo_upsert_order_email_def svc_send_claimed_def repo_is_suppressed_def bnd_run thn_run stmt_quiet atomic_run address_for_def)
next
  assume free: "a \<notin> set (nf_suppressed d)"
  note first = order_placed_quiet [OF assms(1) free assms(2,3)]
  then show "recorded_sent (pd_order data) ORDER_CONFIRMATION d'" by simp
  have "nf_recipients d' = nf_recipients d" "a \<notin> set (nf_suppressed d')" using first free by simp_all
  then have "address_for data d' = address_for data d" by (simp add: address_for_def)
  with assms(1) \<open>a \<notin> set (nf_suppressed d')\<close> have "address_for data d' = Some a" "a \<notin> set (nf_suppressed d')" by simp_all
  from order_placed_quiet [OF this assms(2,4)] first show "nf_mailed d'' = nf_mailed d'" by simp
  from first show "if recorded_sent (pd_order data) ORDER_CONFIRMATION d then nf_mailed d' = nf_mailed d
      else \<exists>m. nf_mailed d' = nf_mailed d @ [m] \<and> ml_to m = a \<and> ml_order m = pd_order data \<and> ml_type m = ORDER_CONFIRMATION \<and>
        ml_subject m = s \<and> ml_body m = b \<and> ml_html m = h" by simp
qed

definition demo_theme :: theme where
  "demo_theme = \<lparr>th_confirmation = ([], [], []), th_refund = ([], [], [])\<rparr>"

definition demo_placed :: placed_data where
  "demo_placed = \<lparr>pd_order = 5, pd_user = 9, pd_email = None, pd_total = ''12'', pd_items = []\<rparr>"

text \<open>
  The first delivery dies after the transport took the mail and before the mark; the second one takes
  the claim over while a third delivery of the same event runs between its statements.
\<close>

definition demo_mails :: notify_history where
  "demo_mails =
     [(User_Created 9 ''u@x'', [], []), (Order_Placed demo_placed, [], [Fine, Fine, Fine, Fine, Landed ProcessCrash]),
      (Order_Placed demo_placed, [id, id, id, id, id, delivered demo_theme (Order_Placed demo_placed) [] []], []),
      (Payment_Refunded 5 ''12'', [], [])]"

definition demo_ledger :: notify_db where
  "demo_ledger = deliveries demo_theme demo_mails empty_ledger"

lemma demo_workers_keep: "workers_keep demo_mails"
  using delivered_as_other by (simp add: workers_keep_def demo_mails_def ntf.step_refl)

lemma demo_ledger_facts:
  "map (\<lambda>m. (ml_message m, ml_order m, ml_type m)) (nf_mailed demo_ledger) =
     [(Some 0, 5, ORDER_CONFIRMATION), (Some 0, 5, ORDER_CONFIRMATION), (Some 0, 5, ORDER_CONFIRMATION), (Some 1, 5, REFUND_ISSUED)] \<and>
   nf_suppressed demo_ledger = [] \<and> address_for demo_placed demo_ledger = Some ''u@x'' \<and> recorded_sent 5 ORDER_CONFIRMATION demo_ledger"
  by code_simp

lemma four_mails:
  assumes "map f xs = [p, q, r, s]"
  obtains a b c d where "xs = [a, b, c, d]" "f a = p" "f c = r" "f d = s"
  using assms by (auto simp: map_eq_Cons_conv)

theorem mail_identified_once_witness:
  "\<exists>a b c d. nf_mailed demo_ledger = [a, b, c, d] \<and> ml_message a = ml_message c \<and> ml_order a = ml_order c \<and> ml_message a \<noteq> ml_message d"
proof -
  obtain a b c d where m: "nf_mailed demo_ledger = [a, b, c, d]"
      "(ml_message a, ml_order a, ml_type a) = (Some 0, 5, ORDER_CONFIRMATION)" "(ml_message c, ml_order c, ml_type c) = (Some 0, 5, ORDER_CONFIRMATION)"
      "(ml_message d, ml_order d, ml_type d) = (Some 1, 5, REFUND_ISSUED)"
    by (rule four_mails [OF conjunct1 [OF demo_ledger_facts]])
  then have m': "ml_order a = ml_order c" "ml_type a = ml_type c" "ml_type a \<noteq> ml_type d" by simp_all
  have "a \<in> set (nf_mailed demo_ledger)" "c \<in> set (nf_mailed demo_ledger)" "d \<in> set (nf_mailed demo_ledger)" by (simp_all add: m(1))
  then have "ml_message a = ml_message c" "ml_message a \<noteq> ml_message d"
    using mail_identified_once [OF demo_workers_keep demo_ledger_def] m' by metis+
  with m(1) m' show ?thesis by metis
qed

theorem confirmation_sent_once_witness:
  "nf_mailed (delivered demo_theme (Order_Placed demo_placed) [] [] demo_ledger) = nf_mailed demo_ledger"
proof -
  have "\<not> isl (render_confirmation demo_theme demo_placed)" "pd_order demo_placed = 5" by code_simp+
  then obtain s b h where "render_confirmation demo_theme demo_placed = Inr (s, b, h)" by (metis prod_cases3 sum.collapse(2))
  then show ?thesis using confirmation_sent_once [of demo_placed demo_ledger "''u@x''", OF _ _ refl refl] demo_ledger_facts \<open>pd_order demo_placed = 5\<close> by simp
qed

section \<open>Templates\<close>

datatype piece = Text string | Hole string

fun piece_source :: "piece \<Rightarrow> string" where
  "piece_source (Text t) = concat (map (\<lambda>c. if c = CHR ''$'' then ''$$'' else [c]) t)"
| "piece_source (Hole n) = ''${'' @ n @ ''}''"

fun piece_filled :: "(string \<Rightarrow> string option) \<Rightarrow> piece \<Rightarrow> string" where
  "piece_filled vals (Text t) = t"
| "piece_filled vals (Hole n) = (case vals n of Some v \<Rightarrow> v | None \<Rightarrow> [])"

fun piece_ok :: "(string \<Rightarrow> string option) \<Rightarrow> piece \<Rightarrow> bool" where
  "piece_ok vals (Text t) = True"
| "piece_ok vals (Hole n) = (n \<noteq> [] \<and> id_start (hd n) \<and> list_all id_char n \<and> vals n \<noteq> None)"

lemma fill_text:
  "template_substitute vals (concat (map (\<lambda>c. if c = CHR ''$'' then ''$$'' else [c]) t) @ rest) = map_sum id ((@) t) (template_substitute vals rest)"
proof (induction t)
  case Nil
  show ?case by (cases "template_substitute vals rest") simp_all
next
  case (Cons c t)
  then show ?case by (cases "template_substitute vals rest") simp_all
qed

lemma fill_hole:
  assumes "piece_ok vals (Hole n)" and "vals n = Some v"
  shows "template_substitute vals (''${'' @ n @ ''}'' @ rest) = map_sum id ((@) v) (template_substitute vals rest)"
proof -
  have brace: "\<not> id_char (CHR ''}'')" "\<not> id_start (CHR ''{'')" by code_simp+
  have "\<forall>x \<in> set n. id_char x" using assms(1) by (simp add: list_all_iff)
  then have "takeWhile id_char (n @ CHR ''}'' # rest) = n" "dropWhile id_char (n @ CHR ''}'' # rest) = CHR ''}'' # rest"
    using brace(1) by (simp_all add: takeWhile_append dropWhile_append)
  then show ?thesis using assms brace by simp
qed

lemma piece_ok_value: "piece_ok vals (Hole n) \<Longrightarrow> \<exists>v. vals n = Some v"
  by auto

text \<open>
  Filling a theme is exact: a template made of text (with its dollar signs doubled) and holes comes out
  as the text with each hole replaced by its value, character by character, and a value is never read
  as a placeholder itself.
\<close>
theorem template_filled_verbatim:
  assumes "list_all (piece_ok vals) ps"
  shows "template_substitute vals (concat (map piece_source ps)) = Inr (concat (map (piece_filled vals) ps))"
  using assms
proof (induction ps)
  case (Cons p ps)
  then show ?case
  proof (cases p)
    case (Text t)
    with Cons show ?thesis using fill_text [of vals t] by simp
  next
    case (Hole n)
    with Cons.prems obtain v where "vals n = Some v" using piece_ok_value by fastforce
    with Hole Cons show ?thesis using fill_hole [of vals n v] by (simp del: template_substitute.simps)
  qed
qed simp

theorem template_filled_verbatim_witness:
  "template_substitute [''total'' \<mapsto> ''$order_id''] ''a$$${total}!'' = Inr ''a$$order_id!''"
  using template_filled_verbatim [of "[''total'' \<mapsto> ''$order_id'']" "[Text ''a$'', Hole ''total'', Text ''!'']"]
  by (simp add: id_start_def id_char_def is_digit_def del: template_substitute.simps)

text \<open>The HTML part of a confirmation carries a product's name as it is: markup in a name is markup of the mail.\<close>

lemma item_names_are_markup:
  "(case render_confirmation (demo_theme\<lparr>th_confirmation := ([], [], ''$items'')\<rparr>) (demo_placed\<lparr>pd_items := [\<lparr>pl_name = Some ''<b>'', pl_product = ''p1'', pl_qty = 1, pl_price = ''6''\<rparr>]\<rparr>) of
      Inl _ \<Rightarrow> False | Inr (s, b, h) \<Rightarrow> h = ''<li><b> x1 @ 6</li>'')"
  by code_simp

end
