(* ===== verification/Image_Ingest.thy ===== *)
theory Image_Ingest
  imports Catalog_Properties
begin

text \<open>
  The image pipeline: \<^verbatim>\<open>catalog/application/image_processing.py\<close> and \<^verbatim>\<open>image_ingest.py\<close>, the object
  store of \<^verbatim>\<open>catalog/adapters/s3_images.py\<close> and the worker of \<^verbatim>\<open>catalog/adapters/image_worker.py\<close>.

  A session of the worker is a sequence of statements, to the catalog, the bucket, the dedup store or
  the queue, among the statements of other workers and requests (\<open>Sessions\<close>). Pillow, libmagic, the digest,
  the text of an exception and how a body arrives are parameters. Bytes are characters.
\<close>

section \<open>Pictures\<close>

text \<open>
  libmagic's answer, the size in a picture's header, the decoded raster (both absent where Pillow
  raises), the downscaled copy, its size and its WebP encoding.
\<close>

record 'i imaging =
  im_sniff :: "string \<Rightarrow> string"
  im_header :: "string \<Rightarrow> (nat \<times> nat) option"
  im_load :: "string \<Rightarrow> 'i option"
  im_thumbnail :: "nat \<Rightarrow> 'i \<Rightarrow> 'i"
  im_size :: "'i \<Rightarrow> nat \<times> nat"
  im_encode :: "'i \<Rightarrow> string"

record processed_image =
  pi_mime :: string
  pi_size :: "nat \<times> nat"
  pi_main :: string
  pi_thumbnails :: "(string \<times> string) list"

record picture_limits =
  li_max_dimension :: nat
  li_max_bytes :: nat
  li_max_pixels :: nat

text \<open>\<open>UnsupportedImageError\<close> with its message.\<close>

definition process_image :: "'i imaging \<Rightarrow> picture_limits \<Rightarrow> string \<Rightarrow> string option \<Rightarrow> string + processed_image" where
  "process_image im li raw claimed =
     (let mime = im_sniff im raw in
      if length raw > li_max_bytes li then Inl ''upload exceeds the byte cap''
      else if mime \<notin> set allowed_mime then Inl ''sniffed type is not an allowed image''
      else if claimed \<noteq> None \<and> claimed \<noteq> Some mime then Inl ''sniffed type does not match claimed type''
      else case im_header im raw of
          None \<Rightarrow> Inl ''could not decode image''
        | Some (w, h) \<Rightarrow>
            if w * h > li_max_pixels li then Inl ''image exceeds the source pixels''
            else (case im_load im raw of
               None \<Rightarrow> Inl ''could not decode image''
             | Some rgb \<Rightarrow>
                 let main_image = im_thumbnail im (li_max_dimension li) rgb in
                 Inr \<lparr>pi_mime = mime, pi_size = im_size im main_image, pi_main = im_encode im main_image,
                      pi_thumbnails = map (\<lambda>(name, size). (name, im_encode im (im_thumbnail im size main_image))) thumbnail_sizes\<rparr>))"

definition content_version :: "(string \<Rightarrow> string) \<Rightarrow> string \<Rightarrow> string" where
  "content_version sha256 raw = take 32 (sha256 raw)"

section \<open>The bucket\<close>

record s3_object =
  ob_data :: string
  ob_type :: "string option"
  ob_etag :: string

text \<open>\<open>s.strip('"')\<close>, and the normal form of an entity tag.\<close>

definition strip_quotes :: "string \<Rightarrow> string" where
  "strip_quotes s = rev (dropWhile (\<lambda>c. c = CHR 0x22) (rev (dropWhile (\<lambda>c. c = CHR 0x22) s)))"

definition clean_etag :: "string \<Rightarrow> string" where
  "clean_etag etag = strip_quotes (strip etag)"

text \<open>
  The bounded read of a body: a read gives at most what was asked for, and at most what has arrived
  (\<open>arrived\<close>, at least one byte unless the body is at its end).
\<close>

definition download_chunk :: nat where
  "download_chunk = 65536"

definition read_size :: "nat \<Rightarrow> nat list \<Rightarrow> nat \<Rightarrow> nat" where
  "read_size max_bytes arrived got =
     (let amt = min download_chunk (Suc (max_bytes - got)) in case arrived of [] \<Rightarrow> amt | n # _ \<Rightarrow> min amt (max 1 n))"

lemma read_size_pos [simp]: "0 < read_size m a t"
  by (cases a) (simp_all add: read_size_def download_chunk_def Let_def less_max_iff_disj)

function read_body :: "nat \<Rightarrow> nat list \<Rightarrow> nat \<Rightarrow> string \<Rightarrow> string option" where
  "read_body max_bytes arrived got rest =
     (let chunk = take (read_size max_bytes arrived got) rest in
      if chunk = [] then Some []
      else if got + length chunk > max_bytes then None
      else map_option (\<lambda>data. chunk @ data)
             (read_body max_bytes (tl arrived) (got + length chunk) (drop (read_size max_bytes arrived got) rest)))"
  by pat_completeness auto
termination
  by (relation "measure (\<lambda>(_, _, _, rest). length rest)") auto

declare read_body.simps [simp del]

text \<open>
  However the body arrives, the bounded reads give the whole body or find it too large, and no read asks
  for more than one byte beyond the cap.
\<close>

lemma read_body_whole: "got \<le> max_bytes \<Longrightarrow>
  read_body max_bytes arrived got rest = (if got + length rest \<le> max_bytes then Some rest else None)"
proof (induction max_bytes arrived got rest rule: read_body.induct)
  case (1 max_bytes arrived got rest)
  let ?n = "read_size max_bytes arrived got"
  show ?case
  proof (cases "rest = [] \<or> max_bytes < got + length (take ?n rest)")
    case True
    then show ?thesis using 1(2) by (subst read_body.simps) (auto simp: Let_def)
  next
    case False
    then have more: "take ?n rest \<noteq> []" "\<not> max_bytes < got + length (take ?n rest)" by auto
    then have "read_body max_bytes (tl arrived) (got + length (take ?n rest)) (drop ?n rest) =
        (if got + length (take ?n rest) + length (drop ?n rest) \<le> max_bytes then Some (drop ?n rest) else None)"
      using 1(1) by auto
    moreover have "got + length (take ?n rest) + length (drop ?n rest) = got + length rest" by simp
    ultimately show ?thesis using more by (subst read_body.simps) (simp only: Let_def if_False option.map append_take_drop_id split: if_split, simp)
  qed
qed

lemma read_size_bound: "got \<le> max_bytes \<Longrightarrow> got + read_size max_bytes arrived got \<le> Suc max_bytes"
  by (cases arrived) (auto simp: read_size_def Let_def min_def)

lemma read_body_code [code]:
  "read_body max_bytes arrived got rest =
     (if got \<le> max_bytes then if got + length rest \<le> max_bytes then Some rest else None
      else if rest = [] then Some [] else None)"
proof (cases "got \<le> max_bytes")
  case False
  then show ?thesis using read_size_pos [of max_bytes arrived got] by (subst read_body.simps) (auto simp: Let_def simp del: read_size_pos)
qed (simp add: read_body_whole)

datatype storage_error = ObjectNotFoundError | ObjectChangedError | ObjectTooLargeError

text \<open>\<open>declared\<close> is the content length the response claims.\<close>

definition read_object :: "nat option \<Rightarrow> nat list \<Rightarrow> nat \<Rightarrow> string option \<Rightarrow> s3_object option \<Rightarrow> storage_error + s3_object" where
  "read_object declared arrived max_bytes expected found =
     (case found of
        None \<Rightarrow> Inl ObjectNotFoundError
      | Some ob \<Rightarrow>
          if expected \<noteq> None \<and> expected \<noteq> Some '''' \<and> clean_etag (the expected) \<noteq> ob_etag ob then Inl ObjectChangedError
          else if (case declared of None \<Rightarrow> False | Some n \<Rightarrow> n > max_bytes) then Inl ObjectTooLargeError
          else (case read_body max_bytes arrived 0 (ob_data ob) of
             None \<Rightarrow> Inl ObjectTooLargeError
           | Some data \<Rightarrow> Inr \<lparr>ob_data = data, ob_type = ob_type ob, ob_etag = clean_etag (ob_etag ob)\<rparr>))"

section \<open>The worker's sessions\<close>

text \<open>
  A queued message has its receipt and its records, each with the key as S3 quotes it and the entity
  tag, or absent where the record is not about an object. \<open>iw_offered\<close> is bookkeeping of the model: the
  uploads a presigned form was handed out for.
\<close>

type_synonym s3_message = "string \<times> (string \<times> string) option list"

record image_world =
  iw_cat :: catalog_db
  iw_objects :: "string \<Rightarrow> s3_object option"
  iw_marks :: "string list"
  iw_queue :: "s3_message list"
  iw_offered :: "(uuid \<times> string) list"

text \<open>\<open>ic_wrote\<close> and \<open>ic_marked\<close> record what this session put into the bucket and the dedup store.\<close>

record img_conn = "image_world conn" +
  ic_wrote :: "(string \<times> string) list"
  ic_marked :: "string list"

type_synonym 'a img = "(exn, img_conn, 'a) prog"

record 'i ingest_env =
  ie_imaging :: "'i imaging"
  ie_limits :: picture_limits
  ie_sha256 :: "string \<Rightarrow> string"
  ie_declared :: "string \<Rightarrow> nat option"
  ie_arrived :: "string \<Rightarrow> nat list"
  ie_etag :: "string \<Rightarrow> string"
  ie_exc_text :: "exn \<Rightarrow> string"
  ie_grace :: timestamp
  ie_max_messages :: nat

text \<open>A call of the catalog repository that is one statement.\<close>

definition in_catalog :: "'a cat \<Rightarrow> 'a img" where
  "in_catalog m = stmt (\<lambda>w. let (r, c) = m (session_of [] [] (iw_cat w)) in (r, w\<lparr>iw_cat := cn_db c\<rparr>))"

definition store_download :: "'i ingest_env \<Rightarrow> string \<Rightarrow> string \<Rightarrow> (storage_error + s3_object) img" where
  "store_download env key etag =
     stmt (gets (\<lambda>w. read_object (ie_declared env key) (ie_arrived env key) (li_max_bytes (ie_limits env))
       (if etag = '''' then None else Some etag) (iw_objects w key)))"

definition store_put :: "'i ingest_env \<Rightarrow> string \<Rightarrow> string \<Rightarrow> unit img" where
  "store_put env key data =
     thn (modify (\<lambda>c. c\<lparr>ic_wrote := ic_wrote c @ [(key, data)]\<rparr>))
       (stmt (modify (\<lambda>w. w\<lparr>iw_objects := (iw_objects w)(key \<mapsto> \<lparr>ob_data = data, ob_type = Some ''image/webp'', ob_etag = ie_etag env data\<rparr>)\<rparr>)))"

definition store_exists :: "string \<Rightarrow> bool img" where
  "store_exists key = stmt (gets (\<lambda>w. iw_objects w key \<noteq> None))"

definition store_delete :: "string \<Rightarrow> unit img" where
  "store_delete key = stmt (modify (\<lambda>w. w\<lparr>iw_objects := (iw_objects w)(key := None)\<rparr>))"

text \<open>The dedup store is best effort: what fails there counts as not seen, and as not remembered.\<close>

definition upload_seen :: "string \<Rightarrow> bool img" where
  "upload_seen dedup_key = catch (stmt (gets (\<lambda>w. dedup_key \<in> set (iw_marks w)))) (\<lambda>_. ret False)"

definition upload_remember :: "string \<Rightarrow> unit img" where
  "upload_remember dedup_key =
     catch (thn (modify (\<lambda>c. c\<lparr>ic_marked := ic_marked c @ [dedup_key]\<rparr>))
              (stmt (modify (\<lambda>w. w\<lparr>iw_marks := dedup_key # iw_marks w\<rparr>)))) (\<lambda>_. ret ())"

section \<open>Ingest\<close>

datatype ingest_outcome = IO_READY | IO_FAILED | IO_DUPLICATE | IO_SKIPPED | IO_STALE

definition ingest_fail :: "uuid \<Rightarrow> string \<Rightarrow> string \<Rightarrow> ingest_outcome img" where
  "ingest_fail pid token dedup_key =
     bnd (in_catalog (repo_mark_image_failed pid token (Some flip_event))) (\<lambda>failed.
       thn (upload_remember dedup_key) (ret (if failed then IO_FAILED else IO_STALE)))"

definition schedule_reclaim :: "uuid \<Rightarrow> string \<Rightarrow> unit img" where
  "schedule_reclaim pid main_key =
     bnd (in_catalog (repo_current_image_key pid)) (\<lambda>current.
       if current = Some main_key then ret () else in_catalog (repo_schedule_image_reclaim pid main_key))"

definition ingest_publish :: "'i ingest_env \<Rightarrow> uuid \<Rightarrow> string \<Rightarrow> string \<Rightarrow> processed_image \<Rightarrow> string \<Rightarrow> ingest_outcome img" where
  "ingest_publish env pid token ver processed dedup_key =
     (let main_key = public_main_key pid token ver in
      thn (store_put env main_key (pi_main processed))
     (thn (for_each (pi_thumbnails processed) (\<lambda>(name, data). store_put env (public_thumb_key pid token ver name) data))
     (bnd (in_catalog (repo_mark_image_ready pid token main_key (Some flip_event))) (\<lambda>flip.
        if \<not> fl_applied flip
        then thn (schedule_reclaim pid main_key) (thn (upload_remember dedup_key) (ret IO_STALE))
        else thn (upload_remember dedup_key) (ret IO_READY)))))"

text \<open>What the download gave: the three terminal answers of the store, or the bytes.\<close>

definition ingest_object :: "'i ingest_env \<Rightarrow> uuid \<Rightarrow> string \<Rightarrow> string \<Rightarrow> storage_error + s3_object \<Rightarrow> ingest_outcome img" where
  "ingest_object env pid token dedup_key got =
     (case got of
        Inl ObjectNotFoundError \<Rightarrow> ingest_fail pid token dedup_key
      | Inl ObjectChangedError \<Rightarrow> thn (upload_remember dedup_key) (ret IO_STALE)
      | Inl ObjectTooLargeError \<Rightarrow> ingest_fail pid token dedup_key
      | Inr obj \<Rightarrow>
          (case process_image (ie_imaging env) (ie_limits env) (ob_data obj) (ob_type obj) of
             Inl _ \<Rightarrow> ingest_fail pid token dedup_key
           | Inr processed \<Rightarrow>
               ingest_publish env pid token (content_version (ie_sha256 env) (ob_data obj)) processed dedup_key))"

definition ingest :: "'i ingest_env \<Rightarrow> string \<Rightarrow> string \<Rightarrow> ingest_outcome img" where
  "ingest env key etag =
     (let dedup_key = ''image:'' @ key @ '':'' @ etag in
      bnd (upload_seen dedup_key) (\<lambda>dup.
        if dup then ret IO_DUPLICATE
        else case parse_upload_key key of
            None \<Rightarrow> ret IO_SKIPPED
          | Some (pid, token) \<Rightarrow> bnd (store_download env key etag) (ingest_object env pid token dedup_key)))"

section \<open>The sweeps\<close>

text \<open>A probe that fails restores nothing.\<close>

fun reap_each :: "timestamp \<Rightarrow> (uuid \<times> string) list \<Rightarrow> nat \<Rightarrow> nat img" where
  "reap_each recheck [] restored = ret restored"
| "reap_each recheck ((pid, token) # rest) restored =
     bnd (catch (bnd (store_exists (upload_key pid token)) (\<lambda>found. ret (Some found))) (\<lambda>_. ret None)) (\<lambda>probe.
       case probe of
         None \<Rightarrow> reap_each recheck rest restored
       | Some True \<Rightarrow> thn (in_catalog (repo_defer_upload_expiry pid token recheck)) (reap_each recheck rest restored)
       | Some False \<Rightarrow>
           bnd (in_catalog (repo_expire_abandoned_upload pid token (Some flip_event))) (\<lambda>restored_now.
             reap_each recheck rest (if restored_now then Suc restored else restored)))"

definition reap_abandoned_uploads :: "'i ingest_env \<Rightarrow> nat \<Rightarrow> timestamp \<Rightarrow> nat img" where
  "reap_abandoned_uploads env batch recheck =
     bnd (in_catalog (repo_due_pending_uploads (ie_grace env) batch)) (\<lambda>candidates. reap_each recheck candidates 0)"

definition reclaim_one :: "'i ingest_env \<Rightarrow> timestamp \<Rightarrow> nat \<times> uuid \<times> string \<times> nat \<Rightarrow> bool img" where
  "reclaim_one env backoff = (\<lambda>(i, pid, key, attempts).
     catch
       (bnd (in_catalog (repo_current_image_key pid)) (\<lambda>current.
          if current = Some key then ret True
          else thn (for_each (public_rendition_keys key) store_delete) (ret True)))
       (\<lambda>e. thn (in_catalog (repo_defer_image_reclaim i backoff (ie_exc_text env e))) (ret False)))"

fun drain_each :: "'i ingest_env \<Rightarrow> timestamp \<Rightarrow> (nat \<times> uuid \<times> string \<times> nat) list \<Rightarrow> nat list \<Rightarrow> nat list img" where
  "drain_each env backoff [] finished = ret finished"
| "drain_each env backoff (t # ts) finished =
     bnd (reclaim_one env backoff t) (\<lambda>gone. drain_each env backoff ts (if gone then finished @ [fst t] else finished))"

definition drain_reclaims :: "'i ingest_env \<Rightarrow> nat \<Rightarrow> timestamp \<Rightarrow> nat img" where
  "drain_reclaims env batch backoff =
     bnd (in_catalog (repo_claim_image_reclaims batch 300)) (\<lambda>tasks.
       if tasks = [] then ret 0
       else bnd (drain_each env backoff tasks []) (\<lambda>finished.
         thn (if finished = [] then ret () else in_catalog (repo_finish_image_reclaim finished)) (ret (length finished))))"

section \<open>The worker\<close>

text \<open>\<open>urllib.parse.unquote_plus\<close> on one byte per character.\<close>

fun unquote_plus :: "string \<Rightarrow> string" where
  "unquote_plus [] = []"
| "unquote_plus (c # s) =
     (if c = CHR ''+'' then CHR '' '' # unquote_plus s
      else case (c = CHR ''%'', s) of
          (True, a # b # rest) \<Rightarrow>
            if is_hex a \<and> is_hex b then char_of (16 * hex_val a + hex_val b) # unquote_plus rest else c # unquote_plus s
        | _ \<Rightarrow> c # unquote_plus s)"

definition process_record :: "'i ingest_env \<Rightarrow> (string \<times> string) option \<Rightarrow> unit img" where
  "process_record env r =
     (case r of None \<Rightarrow> ret () | Some (key, etag) \<Rightarrow> bnd (ingest env (unquote_plus key) etag) (\<lambda>_. ret ()))"

definition process_message :: "'i ingest_env \<Rightarrow> s3_message \<Rightarrow> unit img" where
  "process_message env msg = for_each (snd msg) (process_record env)"

definition housekeeping :: "'i ingest_env \<Rightarrow> unit img" where
  "housekeeping env =
     catch (bnd (drain_reclaims env 20 60) (\<lambda>_. bnd (reap_abandoned_uploads env 100 3600) (\<lambda>_. ret ()))) (\<lambda>_. ret ())"

fun handle_messages :: "'i ingest_env \<Rightarrow> s3_message list \<Rightarrow> nat \<Rightarrow> nat img" where
  "handle_messages env [] handled = ret handled"
| "handle_messages env (msg # msgs) handled =
     bnd (catch (thn (process_message env msg) (ret True)) (\<lambda>_. ret False)) (\<lambda>clean.
       if \<not> clean then handle_messages env msgs handled
       else thn (stmt (modify (\<lambda>w. w\<lparr>iw_queue := filter (\<lambda>m. fst m \<noteq> fst msg) (iw_queue w)\<rparr>)))
                (handle_messages env msgs (Suc handled)))"

definition poll_once :: "'i ingest_env \<Rightarrow> nat img" where
  "poll_once env =
     bnd (stmt (gets (\<lambda>w. take (ie_max_messages env) (iw_queue w)))) (\<lambda>msgs.
     bnd (handle_messages env msgs 0) (\<lambda>handled.
     thn (housekeeping env) (ret handled)))"

end
