(* ===== verification/Image_Contract.thy ===== *)
theory Image_Contract
  imports Image_Ingest
begin

text \<open>
  The contract of the image pipeline, which every worker keeps at every statement and relies on the other
  sessions to keep.

  The argument is about upload tokens: a token is offered once, is pending at most once, and the key of
  a spent token that no product serves stays so. Only keys like that are ever deleted.
\<close>

section \<open>The contract\<close>

definition pending_in :: "uuid \<Rightarrow> string \<Rightarrow> catalog_db \<Rightarrow> bool" where
  "pending_in pid t d \<longleftrightarrow> list_ex (pending_upload pid t) (cat_products d)"

definition serves :: "string \<Rightarrow> catalog_db \<Rightarrow> bool" where
  "serves k d \<longleftrightarrow> list_ex (\<lambda>p. prod_deleted p = None \<and> prod_image_key p = Some k) (cat_products d)"

definition image_name :: "uuid \<Rightarrow> string \<Rightarrow> string \<Rightarrow> string \<Rightarrow> bool" where
  "image_name pid t v k \<longleftrightarrow> plain t \<and> plain v \<and> k = public_main_key pid t v"

definition spent :: "uuid \<Rightarrow> string \<Rightarrow> image_world \<Rightarrow> bool" where
  "spent pid t w \<longleftrightarrow> (pid, t) \<in> set (iw_offered w) \<and> \<not> pending_in pid t (iw_cat w)"

definition dead :: "string \<Rightarrow> image_world \<Rightarrow> bool" where
  "dead k w \<longleftrightarrow> (\<exists>pid t v. image_name pid t v k \<and> spent pid t w) \<and> \<not> serves k (iw_cat w)"

definition complete :: "string \<Rightarrow> image_world \<Rightarrow> bool" where
  "complete k w \<longleftrightarrow> (\<forall>r \<in> set (public_rendition_keys k). iw_objects w r \<noteq> None)"

text \<open>An image a product serves: named after it and a spent upload of it, with all its objects.\<close>

definition served_well :: "uuid \<Rightarrow> string \<Rightarrow> image_world \<Rightarrow> bool" where
  "served_well pid k w \<longleftrightarrow> (\<exists>t v. image_name pid t v k \<and> spent pid t w) \<and> complete k w"

text \<open>S3 reports objects that were uploaded with a form the service handed out.\<close>

definition genuine :: "s3_message \<Rightarrow> image_world \<Rightarrow> bool" where
  "genuine msg w \<longleftrightarrow> (\<forall>key etag pid t. Some (key, etag) \<in> set (snd msg) \<longrightarrow>
     parse_upload_key (unquote_plus key) = Some (pid, t) \<longrightarrow> (pid, t) \<in> set (iw_offered w))"

definition gallery_ok :: "image_world \<Rightarrow> bool" where
  "gallery_ok w \<longleftrightarrow> catalog_ok (iw_cat w) \<and>
     (\<forall>(pid, t) \<in> set (iw_offered w). \<exists>n < cat_next_token (iw_cat w). t = hex n) \<and>
     (\<forall>p \<in> set (cat_products (iw_cat w)). \<forall>k. prod_deleted p = None \<longrightarrow> prod_image_key p = Some k \<longrightarrow> served_well (prod_id p) k w) \<and>
     (\<forall>r \<in> set (cat_reclaims (iw_cat w)). dead (rcl_key r) w) \<and>
     (\<forall>msg \<in> set (iw_queue w). genuine msg w)"

lemma gallery_okI:
  assumes "catalog_ok (iw_cat w)" and "\<And>pid t. (pid, t) \<in> set (iw_offered w) \<Longrightarrow> \<exists>n < cat_next_token (iw_cat w). t = hex n"
    and "\<And>p k. p \<in> set (cat_products (iw_cat w)) \<Longrightarrow> prod_deleted p = None \<Longrightarrow> prod_image_key p = Some k \<Longrightarrow> served_well (prod_id p) k w"
    and "\<And>r. r \<in> set (cat_reclaims (iw_cat w)) \<Longrightarrow> dead (rcl_key r) w" and "\<And>msg. msg \<in> set (iw_queue w) \<Longrightarrow> genuine msg w"
  shows "gallery_ok w"
  unfolding gallery_ok_def using assms by blast

lemma gallery_okD:
  assumes "gallery_ok w"
  shows "catalog_ok (iw_cat w)" "(pid, t) \<in> set (iw_offered w) \<Longrightarrow> \<exists>n < cat_next_token (iw_cat w). t = hex n"
    "p \<in> set (cat_products (iw_cat w)) \<Longrightarrow> prod_deleted p = None \<Longrightarrow> prod_image_key p = Some k \<Longrightarrow> served_well (prod_id p) k w"
    "r \<in> set (cat_reclaims (iw_cat w)) \<Longrightarrow> dead (rcl_key r) w" "msg \<in> set (iw_queue w) \<Longrightarrow> genuine msg w"
  using assms unfolding gallery_ok_def by blast+

text \<open>What every session guarantees and may rely on.\<close>

definition gallery_step :: "image_world \<Rightarrow> image_world \<Rightarrow> bool" where
  "gallery_step w w' \<longleftrightarrow> (gallery_ok w \<longrightarrow>
     gallery_ok w' \<and> catalog_step (iw_cat w) (iw_cat w') \<and> set (iw_offered w) \<subseteq> set (iw_offered w') \<and>
     (\<forall>pid t. spent pid t w \<longrightarrow> spent pid t w') \<and> (\<forall>k. dead k w \<longrightarrow> dead k w') \<and>
     (\<forall>pid t v k r. (pid, t) \<in> set (iw_offered w) \<longrightarrow> image_name pid t v k \<longrightarrow> r \<in> set (public_rendition_keys k) \<longrightarrow>
        iw_objects w r \<noteq> None \<longrightarrow> iw_objects w' r = None \<longrightarrow> dead k w'))"

lemma gallery_step_refl: "gallery_step w w"
  unfolding gallery_step_def using catalog_step_refl by auto

lemma gallery_step_when: "(gallery_ok w \<Longrightarrow> gallery_step w w') \<Longrightarrow> gallery_step w w'"
  unfolding gallery_step_def by blast

lemma gallery_stepD:
  assumes "gallery_step w w'" and "gallery_ok w"
  shows "gallery_ok w'" "catalog_step (iw_cat w) (iw_cat w')" "set (iw_offered w) \<subseteq> set (iw_offered w')"
    "spent pid t w \<Longrightarrow> spent pid t w'" "dead k w \<Longrightarrow> dead k w'"
    "(pid, t) \<in> set (iw_offered w) \<Longrightarrow> image_name pid t v k \<Longrightarrow> r \<in> set (public_rendition_keys k) \<Longrightarrow>
      iw_objects w r \<noteq> None \<Longrightarrow> iw_objects w' r = None \<Longrightarrow> dead k w'"
  using assms unfolding gallery_step_def by metis+

lemma gallery_step_trans:
  assumes ab: "gallery_step a b" and bc: "gallery_step b c"
  shows "gallery_step a c"
  unfolding gallery_step_def
proof
  assume ok: "gallery_ok a"
  note s1 = gallery_stepD [OF ab ok]
  note s2 = gallery_stepD [OF bc s1(1)]
  have "dead k c" if "(pid, t) \<in> set (iw_offered a)" "image_name pid t v k" "r \<in> set (public_rendition_keys k)"
      "iw_objects a r \<noteq> None" "iw_objects c r = None" for pid t v k r
  proof (cases "iw_objects b r = None")
    case True
    from s1(6) [OF that(1-4) True] show ?thesis by (rule s2(5))
  next
    case False
    have "(pid, t) \<in> set (iw_offered b)" using s1(3) that(1) by blast
    from s2(6) [OF this that(2,3) False that(5)] show ?thesis .
  qed
  then show "gallery_ok c \<and> catalog_step (iw_cat a) (iw_cat c) \<and> set (iw_offered a) \<subseteq> set (iw_offered c) \<and>
     (\<forall>pid t. spent pid t a \<longrightarrow> spent pid t c) \<and> (\<forall>k. dead k a \<longrightarrow> dead k c) \<and>
     (\<forall>pid t v k r. (pid, t) \<in> set (iw_offered a) \<longrightarrow> image_name pid t v k \<longrightarrow> r \<in> set (public_rendition_keys k) \<longrightarrow>
        iw_objects a r \<noteq> None \<longrightarrow> iw_objects c r = None \<longrightarrow> dead k c)"
    using s2(1) catalog_step_trans [OF s1(2) s2(2)] subset_trans [OF s1(3) s2(3)] s2(4) [OF s1(4)] s2(5) [OF s1(5)] by blast
qed

interpretation gal: session_rely gallery_ok gallery_step
proof
  show "gallery_ok d \<Longrightarrow> gallery_step d d' \<Longrightarrow> gallery_ok d'" for d d' by (simp add: gallery_step_def)
qed (rule gallery_step_refl, rule gallery_step_trans)

section \<open>Keys\<close>

lemma rendition_owner:
  assumes "image_name p t v k" and "image_name p' t' v' k'" and "r \<in> set (public_rendition_keys k)" and "r \<in> set (public_rendition_keys k')"
  shows "p = p' \<and> t = t' \<and> v = v' \<and> k = k'"
proof -
  have "(str_uuid p, t, v) = (str_uuid p', t', v')"
    using assms rendition_parts [of t v r p] rendition_parts [of t' v' r p'] unfolding image_name_def by metis
  then show ?thesis using assms(1,2) by (simp add: image_name_def)
qed

lemma main_is_rendition: "image_name p t v k \<Longrightarrow> k \<in> set (public_rendition_keys k)"
  by (simp add: image_name_def public_rendition_main)

lemma image_name_unique: "image_name p t v k \<Longrightarrow> image_name p' t' v' k \<Longrightarrow> p = p' \<and> t = t' \<and> v = v'"
  using rendition_owner main_is_rendition by blast

lemma plain_hex [simp]: "plain (hex n)"
proof -
  have "is_hex c" if "c \<in> set (hex n)" for c
    using that
  proof (induction n rule: hex.induct)
    case (1 n)
    then show ?case by (subst (asm) (2) hex.simps) (auto simp: hex_digit_props split: if_splits)
  qed
  moreover have "\<not> is_hex (CHR ''/'')" "\<not> is_hex (CHR ''_'')" "\<not> is_hex (CHR ''.'')" by code_simp+
  ultimately show ?thesis unfolding plain_def by blast
qed

lemma dead_spent: "dead k w \<Longrightarrow> image_name pid t v k \<Longrightarrow> spent pid t w"
  unfolding dead_def using image_name_unique by blast

section \<open>Writes\<close>

text \<open>
  A write of the catalog keeps the contract if it makes no offered upload pending, every image it lets
  a product serve was served before or is the complete image of the upload it spends, and every key it
  queues is dead.
\<close>

lemma catalog_write:
  assumes ok: "gallery_ok w" and step: "catalog_step (iw_cat w) d"
    and pend: "\<And>pid t. (pid, t) \<in> set (iw_offered w) \<Longrightarrow> pending_in pid t d \<Longrightarrow> pending_in pid t (iw_cat w)"
    and served: "\<And>p k. p \<in> set (cat_products d) \<Longrightarrow> prod_deleted p = None \<Longrightarrow> prod_image_key p = Some k \<Longrightarrow>
      (\<exists>q \<in> set (cat_products (iw_cat w)). prod_id q = prod_id p \<and> prod_deleted q = None \<and> prod_image_key q = Some k) \<or>
      (\<exists>t v. image_name (prod_id p) t v k \<and> pending_in (prod_id p) t (iw_cat w) \<and> served_well (prod_id p) k (w\<lparr>iw_cat := d\<rparr>))"
    and queued: "\<And>r. r \<in> set (cat_reclaims d) \<Longrightarrow> rcl_key r \<in> rcl_key ` set (cat_reclaims (iw_cat w)) \<or> dead (rcl_key r) (w\<lparr>iw_cat := d\<rparr>)"
  shows "gallery_step w (w\<lparr>iw_cat := d\<rparr>)"
  unfolding gallery_step_def
proof (intro impI conjI)
  let ?w = "w\<lparr>iw_cat := d\<rparr>"
  have spent: "spent pid t ?w" if "spent pid t w" for pid t using that pend by (auto simp: spent_def)
  then show "\<forall>pid t. spent pid t w \<longrightarrow> spent pid t ?w" by blast
  have "dead k ?w" if k: "dead k w" for k
  proof -
    have "\<not> serves k d"
    proof
      assume "serves k d"
      then obtain p where p: "p \<in> set (cat_products d)" "prod_deleted p = None" "prod_image_key p = Some k"
        by (auto simp: serves_def list_ex_iff)
      from served [OF p] show False
      proof
        assume "\<exists>q \<in> set (cat_products (iw_cat w)). prod_id q = prod_id p \<and> prod_deleted q = None \<and> prod_image_key q = Some k"
        then have "serves k (iw_cat w)" by (auto simp: serves_def list_ex_iff)
        with k show False by (simp add: dead_def)
      next
        assume "\<exists>t v. image_name (prod_id p) t v k \<and> pending_in (prod_id p) t (iw_cat w) \<and> served_well (prod_id p) k ?w"
        with dead_spent [OF k] show False by (auto simp: spent_def)
      qed
    qed
    with k spent show ?thesis by (auto simp: dead_def)
  qed
  note dead = this
  then show "\<forall>k. dead k w \<longrightarrow> dead k ?w" by blast
  show "catalog_step (iw_cat w) (iw_cat ?w)" using step by simp
  have next_token: "catalog_ok d" "cat_next_token (iw_cat w) \<le> cat_next_token d"
    using gallery_okD(1) [OF ok] step by (auto simp: catalog_step_def)
  show "gallery_ok ?w"
  proof (rule gallery_okI)
    show "catalog_ok (iw_cat ?w)" using next_token(1) by simp
    fix pid t assume "(pid, t) \<in> set (iw_offered ?w)"
    then show "\<exists>n < cat_next_token (iw_cat ?w). t = hex n"
      using gallery_okD(2) [OF ok, of pid t] next_token(2) by (auto intro: less_le_trans)
  next
    fix p k assume "p \<in> set (cat_products (iw_cat ?w))" and live: "prod_deleted p = None" "prod_image_key p = Some k"
    then have "p \<in> set (cat_products d)" by simp
    from served [OF this live] show "served_well (prod_id p) k ?w"
    proof
      assume "\<exists>q \<in> set (cat_products (iw_cat w)). prod_id q = prod_id p \<and> prod_deleted q = None \<and> prod_image_key q = Some k"
      then have "served_well (prod_id p) k w" using gallery_okD(3) [OF ok] by metis
      then show ?thesis using spent unfolding served_well_def complete_def by auto
    qed blast
  next
    fix r assume "r \<in> set (cat_reclaims (iw_cat ?w))"
    then have "r \<in> set (cat_reclaims d)" by simp
    from queued [OF this] show "dead (rcl_key r) ?w" using dead gallery_okD(4) [OF ok] by (metis imageE)
  next
    fix msg assume "msg \<in> set (iw_queue ?w)"
    then show "genuine msg ?w" using gallery_okD(5) [OF ok, of msg] by (simp add: genuine_def)
  qed
qed auto

text \<open>A write that rewrites product rows one by one and lets none of them become pending or serve a new image.\<close>

lemma catalog_rewrite:
  assumes "gallery_ok w" and "catalog_step (iw_cat w) d" and rows: "cat_products d = map g (cat_products (iw_cat w))"
    and g: "\<And>r. prod_id (g r) = prod_id r" "\<And>pid t r. pending_upload pid t (g r) \<Longrightarrow> pending_upload pid t r"
      "\<And>r k. prod_deleted (g r) = None \<Longrightarrow> prod_image_key (g r) = Some k \<Longrightarrow> prod_deleted r = None \<and> prod_image_key r = Some k"
    and queued: "\<And>r. r \<in> set (cat_reclaims d) \<Longrightarrow> rcl_key r \<in> rcl_key ` set (cat_reclaims (iw_cat w)) \<or> dead (rcl_key r) (w\<lparr>iw_cat := d\<rparr>)"
  shows "gallery_step w (w\<lparr>iw_cat := d\<rparr>)"
  using assms(1,2)
proof (rule catalog_write)
  fix pid t assume "pending_in pid t d"
  then show "pending_in pid t (iw_cat w)" using g(2) by (auto simp: pending_in_def list_ex_iff rows)
next
  fix p k assume "p \<in> set (cat_products d)" "prod_deleted p = None" "prod_image_key p = Some k"
  then have "\<exists>q \<in> set (cat_products (iw_cat w)). prod_id q = prod_id p \<and> prod_deleted q = None \<and> prod_image_key q = Some k"
    using g(1,3) by (auto simp: rows)
  then show "?this \<or> (\<exists>t v. image_name (prod_id p) t v k \<and> pending_in (prod_id p) t (iw_cat w) \<and> served_well (prod_id p) k (w\<lparr>iw_cat := d\<rparr>))"
    by blast
qed (rule queued)

lemma image_flip_rows:
  "cat_products (snd (image_flip guard f factory d)) = map (\<lambda>r. if guard r then bump (cat_clock d) (f r) else r) (cat_products d)"
  "cat_reclaims (snd (image_flip guard f factory d)) = cat_reclaims d"
proof -
  have "map (\<lambda>r. if guard r then bump (cat_clock d) (f r) else r) (cat_products d) = cat_products d" if "find guard (cat_products d) = None"
    using that by (auto simp: find_None_iff intro: map_idI)
  then show "cat_products (snd (image_flip guard f factory d)) = map (\<lambda>r. if guard r then bump (cat_clock d) (f r) else r) (cat_products d)"
    by (auto simp: image_flip_def update_where_def add_cat_outbox_def Let_def split: option.split)
qed (simp add: image_flip_def add_cat_outbox_def Let_def split: option.split)

lemma bump_simps [simp]:
  "prod_id (bump now p) = prod_id p" "prod_image_key (bump now p) = prod_image_key p" "prod_deleted (bump now p) = prod_deleted p"
  "prod_image_status (bump now p) = prod_image_status p" "prod_upload_token (bump now p) = prod_upload_token p"
  by (simp_all add: bump_def)

section \<open>Statements\<close>

lemma stmt_alone: "stmt body (session_of [] [] d) = (fst (atomic body d), after_stmt (snd (atomic body d)) (session_of [] [] d))"
  by (simp add: stmt_def seen_by_def session_of_def Let_def split_beta)

lemma alone_keeps:
  assumes "m (session_of [] [] d) = (Inr x, c)" and "cat_run None q = ignore_result m" and "\<And>c. effective q c"
  shows "catalog_step d (cn_db c)"
proof -
  have "as_other None q d = cn_db c" using assms(1,2) by (simp add: as_other_def ignore_result_def bnd_run)
  with as_other_keeps [OF assms(3), of d None] show ?thesis by simp
qed

lemma ignore_unit: "ignore_result m = m" for m :: "unit cat"
  by (auto simp: ignore_result_def bnd_def fun_eq_iff split: prod.split sum.split)

lemma gal_rg_catalog:
  assumes "gal.survives P"
    and keep: "\<And>c x k. P c \<Longrightarrow> gallery_ok (cn_db c) \<Longrightarrow> m (session_of [] [] (iw_cat (cn_db c))) = (Inr x, k) \<Longrightarrow>
      gallery_step (cn_db c) ((cn_db c)\<lparr>iw_cat := cn_db k\<rparr>) \<and> Q x (c\<lparr>cn_db := (cn_db c)\<lparr>iw_cat := cn_db k\<rparr>\<rparr>)"
  shows "gal.guarded P (in_catalog m) Q"
  unfolding in_catalog_def
proof (rule gal.guarded_stmt [OF assms(1)])
  fix c r w' assume c: "P c" "gallery_ok (cn_db c)"
    and run: "atomic (\<lambda>w. let (r, k) = m (session_of [] [] (iw_cat w)) in (r, w\<lparr>iw_cat := cn_db k\<rparr>)) (cn_db c) = (r, w')"
  obtain y k where y: "m (session_of [] [] (iw_cat (cn_db c))) = (y, k)" by fastforce
  show "gallery_step (cn_db c) w' \<and> (\<forall>x. r = Inr x \<longrightarrow> Q x (c\<lparr>cn_db := w'\<rparr>))"
  proof (cases y)
    case (Inl e)
    then have "w' = cn_db c" "r = Inl e" using run y by (auto simp: atomic_run)
    then show ?thesis by (simp add: gallery_step_refl)
  next
    case (Inr x)
    then have "w' = (cn_db c)\<lparr>iw_cat := cn_db k\<rparr>" "r = Inr x" using run y by (auto simp: atomic_run)
    with keep [OF c] y Inr show ?thesis by simp
  qed
qed

text \<open>A catalog call that keeps the contract whatever the session knows.\<close>

definition harmless :: "'a cat \<Rightarrow> bool" where
  "harmless m \<longleftrightarrow> (\<forall>w x k. gallery_ok w \<longrightarrow> m (session_of [] [] (iw_cat w)) = (Inr x, k) \<longrightarrow> gallery_step w (w\<lparr>iw_cat := cn_db k\<rparr>))"

lemma gal_kept_catalog:
  assumes "harmless m" and "gal.survives P"
  shows "gal.kept P (in_catalog m)"
  unfolding in_catalog_def
proof (rule gal.kept_stmt [OF assms(2)])
  fix c r w' assume c: "gallery_ok (cn_db c)"
    and run: "atomic (\<lambda>w. let (r, k) = m (session_of [] [] (iw_cat w)) in (r, w\<lparr>iw_cat := cn_db k\<rparr>)) (cn_db c) = (r, w')"
  obtain y k where y: "m (session_of [] [] (iw_cat (cn_db c))) = (y, k)" by fastforce
  then show "gallery_step (cn_db c) w'"
    using run assms(1) c unfolding harmless_def by (cases y) (auto simp: atomic_run gallery_step_refl)
qed

lemma gal_kept_world:
  assumes "\<And>w. gallery_ok w \<Longrightarrow> gallery_step w (g w)" and "gal.survives P"
  shows "gal.kept P (stmt (modify g))"
  using assms by (intro gal.kept_stmt) (auto simp: atomic_run)

lemma gal_kept_read: "gal.survives P \<Longrightarrow> gal.kept P (stmt (gets g))"
  by (rule gal.kept_stmt) (auto simp: atomic_run gallery_step_refl)

lemma gal_rg_modify:
  assumes "\<And>c. cn_db (g c) = cn_db c" "\<And>c. cn_sched (g c) = cn_sched c" "\<And>c. P c \<Longrightarrow> Q () (g c)"
  shows "gal.guarded P (modify g) Q"
  unfolding gal.guarded_def using assms by (auto simp: gal.friendly_def gallery_step_refl)

lemma harmlessI:
  assumes "cat_run None q = ignore_result m" and "\<And>c. effective q c"
    and "\<And>d x k. m (session_of [] [] d) = (Inr x, k) \<Longrightarrow> \<exists>g. cat_products (cn_db k) = map g (cat_products d) \<and>
      (\<forall>r. prod_id (g r) = prod_id r) \<and> (\<forall>pid t r. pending_upload pid t (g r) \<longrightarrow> pending_upload pid t r) \<and>
      (\<forall>r k. prod_deleted (g r) = None \<longrightarrow> prod_image_key (g r) = Some k \<longrightarrow> prod_deleted r = None \<and> prod_image_key r = Some k) \<and>
      rcl_key ` set (cat_reclaims (cn_db k)) \<subseteq> rcl_key ` set (cat_reclaims d)"
  shows "harmless m"
  unfolding harmless_def
proof (intro allI impI)
  fix w x k assume ok: "gallery_ok w" and run: "m (session_of [] [] (iw_cat w)) = (Inr x, k)"
  from assms(3) [OF run] obtain g where g: "cat_products (cn_db k) = map g (cat_products (iw_cat w))" "\<And>r. prod_id (g r) = prod_id r"
      "\<And>pid t r. pending_upload pid t (g r) \<Longrightarrow> pending_upload pid t r"
      "\<And>r k. prod_deleted (g r) = None \<Longrightarrow> prod_image_key (g r) = Some k \<Longrightarrow> prod_deleted r = None \<and> prod_image_key r = Some k"
      "rcl_key ` set (cat_reclaims (cn_db k)) \<subseteq> rcl_key ` set (cat_reclaims (iw_cat w))" by metis
  show "gallery_step w (w\<lparr>iw_cat := cn_db k\<rparr>)"
    using ok alone_keeps [OF run assms(1,2)] g(1-4) by (rule catalog_rewrite) (use g(5) in auto)
qed

lemma cn_db_session [simp]: "cn_db (session_of s f d) = d"
  by (simp add: session_of_def)

text \<open>The guarded updates, which leave an upload that is no longer pending.\<close>

lemma harmless_flip:
  assumes run: "\<And>d. m (session_of [] [] d) = (let (row, d') = image_flip (pending_upload pid token) f (Some flip_event) d in
      (Inr (row \<noteq> None), after_stmt d' (session_of [] [] d)))"
    and "cat_run None q = ignore_result m" and "\<And>c. effective q c"
    and f: "\<And>r. prod_id (f r) = prod_id r" "\<And>r. prod_deleted (f r) = prod_deleted r" "\<And>r. prod_image_key (f r) = prod_image_key r"
      "\<And>r. prod_image_status (f r) \<noteq> IMG_PENDING"
  shows "harmless m"
  using assms(2,3)
proof (rule harmlessI)
  fix d x k assume "m (session_of [] [] d) = (Inr x, k)"
  then have "cn_db k = snd (image_flip (pending_upload pid token) f (Some flip_event) d)" by (auto simp: run split: prod.splits)
  then show "\<exists>g. cat_products (cn_db k) = map g (cat_products d) \<and>
      (\<forall>r. prod_id (g r) = prod_id r) \<and> (\<forall>pid t r. pending_upload pid t (g r) \<longrightarrow> pending_upload pid t r) \<and>
      (\<forall>r k. prod_deleted (g r) = None \<longrightarrow> prod_image_key (g r) = Some k \<longrightarrow> prod_deleted r = None \<and> prod_image_key r = Some k) \<and>
      rcl_key ` set (cat_reclaims (cn_db k)) \<subseteq> rcl_key ` set (cat_reclaims d)"
    using f by (intro exI [of _ "\<lambda>r. if pending_upload pid token r then bump (cat_clock d) (f r) else r"])
      (auto simp: image_flip_rows pending_upload_def)
qed

lemma harmless_failed: "harmless (repo_mark_image_failed pid token (Some flip_event))"
  by (rule harmless_flip [where f = "\<lambda>r. r\<lparr>prod_image_status := IMG_FAILED, prod_upload_expires := None\<rparr>" and q = "ImageFailed pid token"])
    (simp_all add: repo_mark_image_failed_def stmt_alone atomic_run split_beta Let_def)

lemma harmless_expire: "harmless (repo_expire_abandoned_upload pid token (Some flip_event))"
  by (rule harmless_flip [where f = "\<lambda>r. r\<lparr>prod_image_status := (if prod_image_key r = None then IMG_NONE else IMG_READY),
        prod_upload_token := None, prod_upload_expires := None\<rparr>" and q = "ExpireUpload pid token"])
    (simp_all add: repo_expire_abandoned_upload_def stmt_alone atomic_run split_beta Let_def)

lemma harmless_defer_expiry: "harmless (repo_defer_upload_expiry pid token delay)"
  by (rule harmlessI [where q = "DeferExpiry pid token delay"])
    (auto simp: ignore_unit repo_defer_upload_expiry_def stmt_alone atomic_run update_where_def pending_upload_def
      intro!: exI [of _ "\<lambda>p. if prod_id p = pid \<and> prod_upload_token p = Some token \<and> prod_image_status p = IMG_PENDING
        then p\<lparr>prod_upload_expires := Some (cat_clock d + delay)\<rparr> else p" for d]
      split: if_splits)

text \<open>Calls that leave the products alone.\<close>

lemma harmless_books:
  assumes "cat_run None q = ignore_result m" and "\<And>c. effective q c"
    and "\<And>d x k. m (session_of [] [] d) = (Inr x, k) \<Longrightarrow> cat_products (cn_db k) = cat_products d \<and>
      rcl_key ` set (cat_reclaims (cn_db k)) \<subseteq> rcl_key ` set (cat_reclaims d)"
  shows "harmless m"
  using assms(1,2)
proof (rule harmlessI)
  fix d x k assume "m (session_of [] [] d) = (Inr x, k)"
  from assms(3) [OF this] show "\<exists>g. cat_products (cn_db k) = map g (cat_products d) \<and>
      (\<forall>r. prod_id (g r) = prod_id r) \<and> (\<forall>pid t r. pending_upload pid t (g r) \<longrightarrow> pending_upload pid t r) \<and>
      (\<forall>r k. prod_deleted (g r) = None \<longrightarrow> prod_image_key (g r) = Some k \<longrightarrow> prod_deleted r = None \<and> prod_image_key r = Some k) \<and>
      rcl_key ` set (cat_reclaims (cn_db k)) \<subseteq> rcl_key ` set (cat_reclaims d)" by (intro exI [of _ id]) simp
qed

lemma harmless_finish: "harmless (repo_finish_image_reclaim ids)"
  by (rule harmless_books [where q = "FinishReclaims ids"])
    (auto simp: ignore_unit repo_finish_image_reclaim_def stmt_alone atomic_run)

lemma harmless_defer: "harmless (repo_defer_image_reclaim i delay error)"
  by (rule harmless_books [where q = "DeferReclaim i delay error"])
    (auto simp: ignore_unit repo_defer_image_reclaim_def stmt_alone atomic_run rcl_keys_update)

lemma harmless_read: "harmless (stmt (gets g))"
  unfolding harmless_def by (auto simp: stmt_alone atomic_run gallery_step_refl)

section \<open>Objects\<close>

lemma object_write:
  assumes ok: "gallery_ok w"
    and gone: "\<And>pid t v k r. image_name pid t v k \<Longrightarrow> r \<in> set (public_rendition_keys k) \<Longrightarrow> iw_objects w r \<noteq> None \<Longrightarrow> obs r = None \<Longrightarrow> dead k w"
  shows "gallery_step w (w\<lparr>iw_objects := obs\<rparr>)"
proof -
  let ?w = "w\<lparr>iw_objects := obs\<rparr>"
  have same: "spent pid t ?w = spent pid t w" "dead k ?w = dead k w" "genuine msg ?w = genuine msg w" for pid t k msg
    by (simp_all add: spent_def dead_def genuine_def)
  have "served_well (prod_id p) k ?w" if p: "p \<in> set (cat_products (iw_cat w))" "prod_deleted p = None" "prod_image_key p = Some k" for p k
  proof -
    from gallery_okD(3) [OF ok p] obtain t v where name: "image_name (prod_id p) t v k" "spent (prod_id p) t w" and full: "complete k w"
      by (auto simp: served_well_def)
    have "\<not> dead k w" using p by (auto simp: dead_def serves_def list_ex_iff)
    then have "complete k ?w" using full gone [OF name(1)] unfolding complete_def by auto
    then show ?thesis using name same(1) unfolding served_well_def by blast
  qed
  then have "gallery_ok ?w"
    using gallery_okD [OF ok] by (intro gallery_okI) (simp_all add: same)
  then show ?thesis using gone unfolding gallery_step_def same by (simp add: catalog_step_refl)
qed

lemma put_step: "gallery_ok w \<Longrightarrow> gallery_step w (w\<lparr>iw_objects := (iw_objects w)(key \<mapsto> ob)\<rparr>)"
  by (rule object_write) (auto split: if_splits)

lemma delete_step:
  assumes "gallery_ok w" and "dead k w" and "r \<in> set (public_rendition_keys k)"
  shows "gallery_step w (w\<lparr>iw_objects := (iw_objects w)(r := None)\<rparr>)"
  using assms(1)
proof (rule object_write)
  fix pid t v k' r' assume "image_name pid t v k'" "r' \<in> set (public_rendition_keys k')" "iw_objects w r' \<noteq> None" "((iw_objects w)(r := None)) r' = None"
  then have "r' = r" by (auto split: if_splits)
  with \<open>image_name pid t v k'\<close> \<open>r' \<in> set (public_rendition_keys k')\<close> assms(2,3) have "k' = k"
    unfolding dead_def using rendition_owner by blast
  with assms(2) show "dead k' w" by simp
qed

lemma idle_step:
  assumes ok: "gallery_ok w" and same: "iw_cat w' = iw_cat w" "iw_objects w' = iw_objects w" "iw_offered w' = iw_offered w"
    and "set (iw_queue w') \<subseteq> set (iw_queue w)"
  shows "gallery_step w w'"
proof -
  have eqs: "spent pid t w' = spent pid t w" "dead k w' = dead k w" "genuine msg w' = genuine msg w" "served_well pid k w' = served_well pid k w" for pid t k msg
    by (simp_all add: spent_def dead_def genuine_def served_well_def complete_def same)
  have "gallery_ok w'" using gallery_okD [OF ok] assms(5) by (intro gallery_okI) (auto simp: eqs same)
  then show ?thesis unfolding gallery_step_def eqs by (auto simp: catalog_step_refl same)
qed

section \<open>The flip and the reclaim queue\<close>

lemma mark_ready_run:
  assumes "repo_mark_image_ready pid token key (Some flip_event) (session_of [] [] d) = (Inr x, c)"
  shows "fl_applied x = pending_in pid token d"
    and "\<not> fl_applied x \<Longrightarrow> cn_db c = d"
    and "fl_applied x \<Longrightarrow> cat_products (cn_db c) = map (\<lambda>r. if pending_upload pid token r then bump (cat_clock d)
       (r\<lparr>prod_image_key := Some key, prod_image_status := IMG_READY, prod_upload_expires := None\<rparr>) else r) (cat_products d)"
    and "r \<in> set (cat_reclaims (cn_db c)) \<Longrightarrow> rcl_key r \<in> rcl_key ` set (cat_reclaims d) \<or>
      (\<exists>p \<in> set (cat_products d). pending_upload pid token p \<and> prod_image_key p = Some (rcl_key r) \<and> rcl_key r \<noteq> key)"
proof -
  let ?f = "\<lambda>r. r\<lparr>prod_image_key := Some key, prod_image_status := IMG_READY, prod_upload_expires := None\<rparr>"
  let ?d = "snd (image_flip (pending_upload pid token) ?f (Some flip_event) d)"
  consider (none) "find (pending_upload pid token) (cat_products d) = None" "x = \<lparr>fl_applied = False, fl_previous = None\<rparr>" "cn_db c = d"
    | (flip) p where "find (pending_upload pid token) (cat_products d) = Some p" "fl_applied x"
        "cn_db c = ?d \<or> (\<exists>k. prod_image_key p = Some k \<and> k \<noteq> key \<and> cn_db c = queue_reclaim pid k ?d)"
    using assms
    by (auto simp: repo_mark_image_ready_def stmt_alone atomic_run bnd_run thn_run split: option.splits if_splits prod.splits sum.splits)
  note runs = this
  have pend: "pending_in pid token d \<longleftrightarrow> find (pending_upload pid token) (cat_products d) \<noteq> None"
    by (auto simp: pending_in_def find_None_iff list_ex_iff)
  show "fl_applied x = pending_in pid token d" using runs by cases (auto simp: pend)
  show "cn_db c = d" if "\<not> fl_applied x" using runs that by cases auto
  show "cat_products (cn_db c) = map (\<lambda>r. if pending_upload pid token r then bump (cat_clock d) (?f r) else r) (cat_products d)" if "fl_applied x"
    using runs that by cases (auto simp: image_flip_rows queue_reclaim_props)
  show "rcl_key r \<in> rcl_key ` set (cat_reclaims d) \<or>
      (\<exists>p \<in> set (cat_products d). pending_upload pid token p \<and> prod_image_key p = Some (rcl_key r) \<and> rcl_key r \<noteq> key)"
    if r: "r \<in> set (cat_reclaims (cn_db c))"
    using runs
  proof cases
    case none
    then show ?thesis using r by auto
  next
    case (flip p)
    then show ?thesis using r find_Some_mem [OF flip(1)]
      by (auto simp: image_flip_rows queue_reclaim_def split: if_splits)
  qed
qed

lemma same_product:
  assumes "gallery_ok w" and "p \<in> set (cat_products (iw_cat w))" and "q \<in> set (cat_products (iw_cat w))" and "prod_id p = prod_id q"
  shows "p = q"
  using assms(2-4) gallery_okD(1) [OF assms(1)] by (auto simp: catalog_ok_def distinct_map inj_on_def)

lemma flip_gallery:
  assumes ok: "gallery_ok w" and offered: "(pid, t) \<in> set (iw_offered w)" and name: "image_name pid t v k"
    and known: "spent pid t w \<or> complete k w"
    and run: "repo_mark_image_ready pid t k (Some flip_event) (session_of [] [] (iw_cat w)) = (Inr x, c)"
  shows "gallery_step w (w\<lparr>iw_cat := cn_db c\<rparr>)"
    and "fl_applied x \<Longrightarrow> serves k (cn_db c)"
    and "\<not> fl_applied x \<Longrightarrow> spent pid t (w\<lparr>iw_cat := cn_db c\<rparr>)"
proof -
  note flip = mark_ready_run [OF run]
  show "spent pid t (w\<lparr>iw_cat := cn_db c\<rparr>)" if "\<not> fl_applied x" using flip(1,2) that offered by (simp add: spent_def)
  show "serves k (cn_db c)" if a: "fl_applied x"
  proof -
    obtain p where p: "p \<in> set (cat_products (iw_cat w))" "pending_upload pid t p" using flip(1) a by (auto simp: pending_in_def list_ex_iff)
    then have "prod_deleted p = None" by (simp add: pending_upload_def)
    with p show ?thesis unfolding serves_def flip(3) [OF a] list_ex_iff set_map bex_simps(7) by (intro bexI [of _ p]) simp_all
  qed
  show "gallery_step w (w\<lparr>iw_cat := cn_db c\<rparr>)"
  proof (cases "fl_applied x")
    case False
    then show ?thesis using flip(2) by (simp add: gallery_step_refl)
  next
    case True
    note rows = flip(3) [OF True]
    have pend: "pending_in pid' t' (iw_cat w) \<and> (pid', t') \<noteq> (pid, t)" if "pending_in pid' t' (cn_db c)" for pid' t'
    proof -
      from that obtain r where r: "r \<in> set (cat_products (iw_cat w))" "pending_upload pid' t' (if pending_upload pid t r then bump (cat_clock (iw_cat w))
          (r\<lparr>prod_image_key := Some k, prod_image_status := IMG_READY, prod_upload_expires := None\<rparr>) else r)"
        unfolding pending_in_def list_ex_iff rows set_map bex_simps(7) by blast
      then have "\<not> pending_upload pid t r" "pending_upload pid' t' r" by (auto simp: pending_upload_def split: if_splits)
      then show ?thesis using r(1) unfolding pending_in_def list_ex_iff by blast
    qed
    have now: "pending_in pid t (iw_cat w)" "complete k w" using flip(1) True known by (auto simp: spent_def)
    have spent': "spent pid' t' (w\<lparr>iw_cat := cn_db c\<rparr>)" if "spent pid' t' w" for pid' t' using that pend by (auto simp: spent_def)
    have "catalog_step (iw_cat w) (cn_db c)"
      using alone_keeps [of "repo_mark_image_ready pid t k (Some flip_event)" "iw_cat w" x c "ImageReady pid t k"] run by simp
    with ok show ?thesis
    proof (rule catalog_write)
      fix p k' assume p: "p \<in> set (cat_products (cn_db c))" "prod_deleted p = None" "prod_image_key p = Some k'"
      then obtain r where r: "r \<in> set (cat_products (iw_cat w))" "p = (if pending_upload pid t r then bump (cat_clock (iw_cat w))
          (r\<lparr>prod_image_key := Some k, prod_image_status := IMG_READY, prod_upload_expires := None\<rparr>) else r)" by (auto simp: rows)
      show "(\<exists>q \<in> set (cat_products (iw_cat w)). prod_id q = prod_id p \<and> prod_deleted q = None \<and> prod_image_key q = Some k') \<or>
        (\<exists>t v. image_name (prod_id p) t v k' \<and> pending_in (prod_id p) t (iw_cat w) \<and> served_well (prod_id p) k' (w\<lparr>iw_cat := cn_db c\<rparr>))"
      proof (cases "pending_upload pid t r")
        case True
        then have "prod_id p = pid" "k' = k" using r p by (auto simp: pending_upload_def)
        moreover have "spent pid t (w\<lparr>iw_cat := cn_db c\<rparr>)" using offered pend [of pid t] by (auto simp: spent_def)
        then have "served_well pid k (w\<lparr>iw_cat := cn_db c\<rparr>)" using name now(2) unfolding served_well_def by (auto simp: complete_def)
        ultimately show ?thesis using name now(1) by blast
      qed (use r p in auto)
    next
      fix r assume "r \<in> set (cat_reclaims (cn_db c))"
      from flip(4) [OF this] show "rcl_key r \<in> rcl_key ` set (cat_reclaims (iw_cat w)) \<or> dead (rcl_key r) (w\<lparr>iw_cat := cn_db c\<rparr>)"
      proof
        assume "\<exists>p \<in> set (cat_products (iw_cat w)). pending_upload pid t p \<and> prod_image_key p = Some (rcl_key r) \<and> rcl_key r \<noteq> k"
        then obtain p where p: "p \<in> set (cat_products (iw_cat w))" "pending_upload pid t p" "prod_image_key p = Some (rcl_key r)" "rcl_key r \<noteq> k" by blast
        then have live: "prod_deleted p = None" by (simp add: pending_upload_def)
        from gallery_okD(3) [OF ok p(1) live p(3)] obtain t0 v0 where old: "image_name (prod_id p) t0 v0 (rcl_key r)" "spent (prod_id p) t0 w"
          by (auto simp: served_well_def)
        have "\<not> serves (rcl_key r) (cn_db c)"
        proof
          assume "serves (rcl_key r) (cn_db c)"
          then obtain q where q: "q \<in> set (cat_products (iw_cat w))" "prod_deleted q = None" "prod_image_key q = Some (rcl_key r)" "\<not> pending_upload pid t q"
            using p(4) by (auto simp: serves_def list_ex_iff rows split: if_splits)
          from gallery_okD(3) [OF ok q(1-3)] have "prod_id q = prod_id p" using old(1) image_name_unique by (auto simp: served_well_def)
          then have "q = p" using same_product [OF ok q(1) p(1)] by simp
          then show False using q(4) p(2) by simp
        qed
        then have "dead (rcl_key r) (w\<lparr>iw_cat := cn_db c\<rparr>)" using old(1) spent' [OF old(2)] unfolding dead_def by auto
        then show ?thesis ..
      qed blast
    qed (use pend in simp_all)
  qed
qed

lemma schedule_gallery:
  assumes "gallery_ok w" and "dead k w" and run: "repo_schedule_image_reclaim pid k (session_of [] [] (iw_cat w)) = (Inr x, c)"
  shows "gallery_step w (w\<lparr>iw_cat := cn_db c\<rparr>)" and "k \<in> rcl_key ` set (cat_reclaims (cn_db c))"
proof -
  have c: "cn_db c = queue_reclaim pid k (iw_cat w)" using run by (auto simp: repo_schedule_image_reclaim_def stmt_alone atomic_run)
  show "k \<in> rcl_key ` set (cat_reclaims (cn_db c))" unfolding c by (rule queue_reclaim_props)
  have step: "catalog_step (iw_cat w) (cn_db c)" 
    using alone_keeps [of "repo_schedule_image_reclaim pid k" "iw_cat w" x c "ScheduleReclaim pid k"] run by (simp add: ignore_unit)
  have "dead k (w\<lparr>iw_cat := cn_db c\<rparr>)" using assms(2) by (simp add: dead_def spent_def pending_in_def serves_def c)
  then show "gallery_step w (w\<lparr>iw_cat := cn_db c\<rparr>)"
    by (intro catalog_rewrite [OF assms(1) step, where g = id]) (auto simp: c queue_reclaim_def split: if_splits)
qed

lemma claim_gallery:
  assumes ok: "gallery_ok w" and run: "repo_claim_image_reclaims batch lease (session_of [] [] (iw_cat w)) = (Inr tasks, c)"
  shows "gallery_step w (w\<lparr>iw_cat := cn_db c\<rparr>)" and "(i, pid, k, n) \<in> set tasks \<Longrightarrow> dead k (w\<lparr>iw_cat := cn_db c\<rparr>)"
proof -
  have "harmless (repo_claim_image_reclaims batch lease)"
    by (rule harmless_books [where q = "ClaimReclaims batch lease"])
      (auto simp: repo_claim_image_reclaims_def stmt_alone atomic_run rcl_keys_update Let_def)
  with ok run show step: "gallery_step w (w\<lparr>iw_cat := cn_db c\<rparr>)" unfolding harmless_def by blast
  assume "(i, pid, k, n) \<in> set tasks"
  then obtain r where "r \<in> set (cat_reclaims (cn_db c))" "rcl_key r = k"
    using run by (auto simp: repo_claim_image_reclaims_def stmt_alone atomic_run Let_def)
  with gallery_okD(4) [OF gallery_stepD(1) [OF step ok]] show "dead k (w\<lparr>iw_cat := cn_db c\<rparr>)" by auto
qed

section \<open>What a session knows\<close>

definition accounted :: "string \<Rightarrow> image_world \<Rightarrow> bool" where
  "accounted ob w \<longleftrightarrow> (\<exists>k \<in> keys_known (iw_cat w). ob \<in> set (public_rendition_keys k))"

definition settled :: "img_conn \<Rightarrow> bool" where
  "settled c \<longleftrightarrow> (\<forall>(ob, _) \<in> set (ic_wrote c). accounted ob (cn_db c))"

definition owes :: "string \<Rightarrow> img_conn \<Rightarrow> bool" where
  "owes k c \<longleftrightarrow> (\<forall>(ob, _) \<in> set (ic_wrote c). ob \<in> set (public_rendition_keys k) \<or> accounted ob (cn_db c))"

text \<open>
  While the objects of an image are written: they stay, unless the upload is spent. What was written is
  only followed where \<open>track\<close> says so.
\<close>

definition publishing :: "bool \<Rightarrow> uuid \<Rightarrow> string \<Rightarrow> string \<Rightarrow> string set \<Rightarrow> img_conn \<Rightarrow> bool" where
  "publishing track pid t k written c \<longleftrightarrow> (pid, t) \<in> set (iw_offered (cn_db c)) \<and>
     (spent pid t (cn_db c) \<or> (\<forall>r \<in> written. iw_objects (cn_db c) r \<noteq> None)) \<and> (track \<longrightarrow> owes k c)"

lemma accounted_step:
  assumes "gallery_step w w'" and "gallery_ok w" and "accounted ob w"
  shows "accounted ob w'"
proof -
  have "keys_known (iw_cat w) \<subseteq> keys_known (iw_cat w')"
    using gallery_stepD(2) [OF assms(1,2)] gallery_okD(1) [OF assms(2)] by (simp add: catalog_step_def)
  then show ?thesis using assms(3) by (auto simp: accounted_def)
qed

lemma survives_settled: "gal.survives (\<lambda>c. track \<longrightarrow> settled c)"
  unfolding gal.survives_def settled_def using accounted_step by fastforce

lemma survives_owes: "gal.survives (\<lambda>c. track \<longrightarrow> owes k c)"
  unfolding gal.survives_def owes_def using accounted_step by fastforce

lemma survives_offered: "gal.survives (\<lambda>c :: img_conn. x \<in> set (iw_offered (cn_db c)))"
  unfolding gal.survives_def using gallery_stepD(3) by auto

lemma survives_spent: "gal.survives (\<lambda>c :: img_conn. spent pid t (cn_db c))"
  unfolding gal.survives_def using gallery_stepD(4) by simp

lemma survives_dead: "gal.survives (\<lambda>c :: img_conn. \<forall>k \<in> ks. dead k (cn_db c))"
  unfolding gal.survives_def using gallery_stepD(5) by simp

lemma survives_conj: "gal.survives P \<Longrightarrow> gal.survives Q \<Longrightarrow> gal.survives (\<lambda>c. P c \<and> Q c)"
  unfolding gal.survives_def by blast

lemma survives_publishing:
  assumes "image_name pid t v k" and "written \<subseteq> set (public_rendition_keys k)"
  shows "gal.survives (publishing track pid t k written)"
  unfolding gal.survives_def
proof (intro allI impI)
  fix c :: img_conn and w s f assume c: "publishing track pid t k written c" "gallery_ok (cn_db c)" and step: "gallery_step (cn_db c) w"
  let ?c = "c\<lparr>cn_db := w, cn_sched := s, cn_faults := f\<rparr>"
  note d = gallery_stepD [OF step c(2)]
  have off: "(pid, t) \<in> set (iw_offered (cn_db c))" using c(1) by (simp add: publishing_def)
  have "track \<longrightarrow> owes k ?c" using survives_owes c step unfolding gal.survives_def publishing_def by blast
  moreover have "spent pid t w \<or> (\<forall>r \<in> written. iw_objects w r \<noteq> None)"
  proof (rule ccontr)
    assume not: "\<not> (spent pid t w \<or> (\<forall>r \<in> written. iw_objects w r \<noteq> None))"
    then obtain r where r: "r \<in> written" "iw_objects w r = None" by blast
    have "\<not> spent pid t (cn_db c)" using not d(4) by blast
    then have "iw_objects (cn_db c) r \<noteq> None" using c(1) r(1) by (auto simp: publishing_def)
    from d(6) [OF off assms(1) _ this r(2)] r(1) assms(2) have "dead k w" by blast
    from dead_spent [OF this assms(1)] not show False by blast
  qed
  ultimately show "publishing track pid t k written ?c" using off d(3) by (auto simp: publishing_def)
qed

section \<open>Ingest\<close>

lemma kept_remember: "gal.survives P \<Longrightarrow> (\<And>c m. P c \<Longrightarrow> P (c\<lparr>ic_marked := m\<rparr>)) \<Longrightarrow> gal.kept P (upload_remember key)"
  unfolding upload_remember_def
  by (intro gal.kept_catch gal.kept_thn gal_kept_world gal.kept_ret)
    (auto simp: gal.kept_def gal.friendly_def gallery_step_refl intro!: idle_step)

lemma kept_seen: "gal.survives P \<Longrightarrow> gal.kept P (upload_seen key)"
  unfolding upload_seen_def by (intro gal.kept_catch gal_kept_read gal.kept_ret)

lemma settled_marked [simp]: "settled (c\<lparr>ic_marked := m\<rparr>) = settled c"
  by (simp add: settled_def)

lemma rg_remember_then: "gal.guarded (\<lambda>c. track \<longrightarrow> settled c) (thn (upload_remember key) (ret x)) (\<lambda>_ c. track \<longrightarrow> settled c)"
  by (intro gal.guarded_thn [OF gal.kept_guarded [OF kept_remember]] gal.guarded_ret survives_settled) simp_all

lemma rg_fail: "gal.guarded (\<lambda>c. track \<longrightarrow> settled c) (ingest_fail pid token key) (\<lambda>_ c. track \<longrightarrow> settled c)"
  unfolding ingest_fail_def
  by (intro gal.guarded_bnd [OF gal.kept_guarded [OF gal_kept_catalog]] harmless_failed survives_settled rg_remember_then)

lemma rg_put:
  assumes name: "image_name pid t v k" and "written \<subseteq> set (public_rendition_keys k)" and "r \<in> set (public_rendition_keys k)"
  shows "gal.guarded (publishing track pid t k written) (store_put env r data) (\<lambda>_. publishing track pid t k (insert r written))"
  unfolding store_put_def
proof (rule gal.guarded_thn)
  show "gal.guarded (publishing track pid t k written) (modify (\<lambda>c. c\<lparr>ic_wrote := ic_wrote c @ [(r, data)]\<rparr>)) (\<lambda>_. publishing track pid t k written)"
    using assms(3) by (intro gal_rg_modify) (auto simp: publishing_def owes_def)
  let ?g = "\<lambda>w. w\<lparr>iw_objects := (iw_objects w)(r \<mapsto> \<lparr>ob_data = data, ob_type = Some ''image/webp'', ob_etag = ie_etag env data\<rparr>)\<rparr>"
  show "gal.guarded (publishing track pid t k written) (stmt (modify ?g)) (\<lambda>_. publishing track pid t k (insert r written))"
  proof (rule gal.guarded_stmt [OF survives_publishing [OF assms(1,2)]])
    fix c y w' assume c: "publishing track pid t k written c" "gallery_ok (cn_db c)" and "atomic (modify ?g) (cn_db c) = (y, w')"
    then have w': "w' = ?g (cn_db c)" by (simp add: atomic_run)
    have "gallery_step (cn_db c) w'" unfolding w' by (rule put_step [OF c(2)])
    moreover have "publishing track pid t k (insert r written) (c\<lparr>cn_db := w'\<rparr>)"
      using c(1) unfolding publishing_def w' by (auto simp: spent_def owes_def accounted_def)
    ultimately show "gallery_step (cn_db c) w' \<and> (\<forall>x. y = Inr x \<longrightarrow> publishing track pid t k (insert r written) (c\<lparr>cn_db := w'\<rparr>))" by blast
  qed
qed

lemma serves_known: "serves k d \<Longrightarrow> k \<noteq> '''' \<Longrightarrow> k \<in> keys_known d"
  by (auto simp: serves_def list_ex_iff keys_known_def)

lemma owes_settled: "owes k c \<Longrightarrow> k \<in> keys_known (iw_cat (cn_db c)) \<Longrightarrow> settled c"
  unfolding owes_def settled_def accounted_def by blast

lemma image_name_nonempty: "image_name pid t v k \<Longrightarrow> k \<noteq> ''''"
  by (simp add: image_name_def public_main_key_def)

lemma rg_flip:
  assumes name: "image_name pid t v k"
  shows "gal.guarded (publishing track pid t k (set (public_rendition_keys k))) (in_catalog (repo_mark_image_ready pid t k (Some flip_event)))
    (\<lambda>x c. if fl_applied x then track \<longrightarrow> settled c else spent pid t (cn_db c) \<and> (track \<longrightarrow> owes k c))"
proof (rule gal_rg_catalog [OF survives_publishing [OF name subset_refl]])
  fix c x k' assume c: "publishing track pid t k (set (public_rendition_keys k)) c" "gallery_ok (cn_db c)"
    and run: "repo_mark_image_ready pid t k (Some flip_event) (session_of [] [] (iw_cat (cn_db c))) = (Inr x, k')"
  let ?w = "(cn_db c)\<lparr>iw_cat := cn_db k'\<rparr>"
  have "(pid, t) \<in> set (iw_offered (cn_db c))" "spent pid t (cn_db c) \<or> complete k (cn_db c)" using c(1) by (auto simp: publishing_def complete_def)
  note flip = flip_gallery [OF c(2) this(1) name this(2) run]
  have owes: "track \<longrightarrow> owes k (c\<lparr>cn_db := ?w, cn_sched := cn_sched c, cn_faults := cn_faults c\<rparr>)"
    using survives_owes c flip(1) unfolding gal.survives_def publishing_def by blast
  then have owes: "track \<longrightarrow> owes k (c\<lparr>cn_db := ?w\<rparr>)" by simp
  have "fl_applied x \<longrightarrow> track \<longrightarrow> settled (c\<lparr>cn_db := ?w\<rparr>)"
    using owes owes_settled [of k "c\<lparr>cn_db := ?w\<rparr>"] serves_known [OF flip(2) image_name_nonempty [OF name]] by simp
  with owes flip(1,3) show "gallery_step (cn_db c) ?w \<and> (if fl_applied x then track \<longrightarrow> settled (c\<lparr>cn_db := ?w\<rparr>)
      else spent pid t (cn_db (c\<lparr>cn_db := ?w\<rparr>)) \<and> (track \<longrightarrow> owes k (c\<lparr>cn_db := ?w\<rparr>)))" by simp
qed

lemma current_key:
  assumes "gallery_ok w" and "image_name pid t v k"
  shows "(case live_product pid (iw_cat w) of None \<Rightarrow> None | Some p \<Rightarrow> prod_image_key p) = Some k \<longleftrightarrow> serves k (iw_cat w)"
proof
  assume "(case live_product pid (iw_cat w) of None \<Rightarrow> None | Some p \<Rightarrow> prod_image_key p) = Some k"
  then obtain p where "live_product pid (iw_cat w) = Some p" "prod_image_key p = Some k" by (auto split: option.splits)
  then show "serves k (iw_cat w)" using find_Some_mem by (fastforce simp: live_product_def serves_def list_ex_iff)
next
  assume "serves k (iw_cat w)"
  then obtain p where p: "p \<in> set (cat_products (iw_cat w))" "prod_deleted p = None" "prod_image_key p = Some k" by (auto simp: serves_def list_ex_iff)
  from gallery_okD(3) [OF assms(1) p] have id: "prod_id p = pid" using assms(2) image_name_unique by (auto simp: served_well_def)
  then have "live_product pid (iw_cat w) \<noteq> None" using p unfolding live_product_def find_None by blast
  then obtain q where q: "live_product pid (iw_cat w) = Some q" by blast
  then have "q \<in> set (cat_products (iw_cat w))" "prod_id q = pid" using find_Some_mem by (fastforce simp: live_product_def)+
  then have "q = p" using same_product [OF assms(1) _ p(1)] id by simp
  then show "(case live_product pid (iw_cat w) of None \<Rightarrow> None | Some p \<Rightarrow> prod_image_key p) = Some k" using q p(3) by simp
qed

lemma rg_current:
  assumes name: "image_name pid t v k" and P: "gal.survives P"
  shows "gal.guarded P (in_catalog (repo_current_image_key pid)) (\<lambda>x c. P c \<and> (x = Some k \<longleftrightarrow> serves k (iw_cat (cn_db c))))"
proof (rule gal_rg_catalog [OF P])
  fix c x d assume c: "P c" "gallery_ok (cn_db c)" and run: "repo_current_image_key pid (session_of [] [] (iw_cat (cn_db c))) = (Inr x, d)"
  have "x = (case live_product pid (iw_cat (cn_db c)) of None \<Rightarrow> None | Some p \<Rightarrow> prod_image_key p)" "cn_db d = iw_cat (cn_db c)"
    using run by (auto simp: repo_current_image_key_def stmt_alone atomic_run)
  then show "gallery_step (cn_db c) ((cn_db c)\<lparr>iw_cat := cn_db d\<rparr>) \<and> P (c\<lparr>cn_db := (cn_db c)\<lparr>iw_cat := cn_db d\<rparr>\<rparr>) \<and>
      (x = Some k \<longleftrightarrow> serves k (iw_cat (cn_db (c\<lparr>cn_db := (cn_db c)\<lparr>iw_cat := cn_db d\<rparr>\<rparr>))))"
    using c current_key [OF c(2) name] by (simp add: gallery_step_refl)
qed

lemma rg_schedule:
  assumes name: "image_name pid t v k"
  shows "gal.guarded (\<lambda>c. spent pid t (cn_db c) \<and> (track \<longrightarrow> owes k c)) (schedule_reclaim pid k) (\<lambda>_ c. track \<longrightarrow> settled c)"
  unfolding schedule_reclaim_def
proof (rule gal.guarded_bnd [OF rg_current [OF name survives_conj [OF survives_spent survives_owes]]])
  fix current
  let ?P = "\<lambda>c. (\<forall>k \<in> {k}. dead k (cn_db c)) \<and> (track \<longrightarrow> owes k c)"
  have put: "gal.guarded ?P (in_catalog (repo_schedule_image_reclaim pid k)) (\<lambda>_ c. track \<longrightarrow> settled c)"
  proof (rule gal_rg_catalog [OF survives_conj [OF survives_dead survives_owes]])
    fix c x d assume c: "?P c" "gallery_ok (cn_db c)" and run: "repo_schedule_image_reclaim pid k (session_of [] [] (iw_cat (cn_db c))) = (Inr x, d)"
    let ?w = "(cn_db c)\<lparr>iw_cat := cn_db d\<rparr>"
    from c(1) have "dead k (cn_db c)" by simp
    note queue = schedule_gallery [OF c(2) this run]
    have "track \<longrightarrow> owes k (c\<lparr>cn_db := ?w, cn_sched := cn_sched c, cn_faults := cn_faults c\<rparr>)"
      using survives_owes c queue(1) unfolding gal.survives_def by blast
    then have "track \<longrightarrow> settled (c\<lparr>cn_db := ?w\<rparr>)" using owes_settled [of k "c\<lparr>cn_db := ?w\<rparr>"] queue(2) by (simp add: keys_known_def)
    with queue(1) show "gallery_step (cn_db c) ?w \<and> (track \<longrightarrow> settled (c\<lparr>cn_db := ?w\<rparr>))" by blast
  qed
  show "gal.guarded (\<lambda>c. (spent pid t (cn_db c) \<and> (track \<longrightarrow> owes k c)) \<and> (current = Some k \<longleftrightarrow> serves k (iw_cat (cn_db c))))
      (if current = Some k then ret () else in_catalog (repo_schedule_image_reclaim pid k)) (\<lambda>_ c. track \<longrightarrow> settled c)"
  proof (cases "current = Some k")
    case True
    then show ?thesis using owes_settled serves_known image_name_nonempty [OF name] by (auto intro!: gal.guarded_ret)
  next
    case False
    have "dead k (cn_db c)" if "spent pid t (cn_db c)" "\<not> serves k (iw_cat (cn_db c))" for c :: img_conn
      using that name unfolding dead_def by blast
    with False show ?thesis by (auto intro!: gal.guarded_pre [OF put])
  qed
qed

lemma rg_publish:
  assumes "plain t" and "plain ver" and thumbs: "map fst (pi_thumbnails im) = map fst thumbnail_sizes"
  shows "gal.guarded (\<lambda>c. (pid, t) \<in> set (iw_offered (cn_db c)) \<and> (track \<longrightarrow> settled c)) (ingest_publish env pid t ver im key)
    (\<lambda>_ c. track \<longrightarrow> settled c)"
proof -
  define k where "k = public_main_key pid t ver"
  have name: "image_name pid t ver k" using assms(1,2) by (simp add: image_name_def k_def)
  obtain a b where ab: "pi_thumbnails im = [(''thumb_256'', a), (''thumb_64'', b)]" using thumbs by (auto simp: thumbnail_sizes_def)
  have keys: "public_rendition_keys k = [k, public_thumb_key pid t ver ''thumb_256'', public_thumb_key pid t ver ''thumb_64'']"
    by (simp add: k_def public_rendition_main thumbnail_sizes_def)
  let ?R = "set (public_rendition_keys k)"
  have finish: "gal.guarded (publishing track pid t k ?R)
      (bnd (in_catalog (repo_mark_image_ready pid t k (Some flip_event))) (\<lambda>flip.
        if \<not> fl_applied flip then thn (schedule_reclaim pid k) (thn (upload_remember key) (ret IO_STALE))
        else thn (upload_remember key) (ret IO_READY))) (\<lambda>_ c. track \<longrightarrow> settled c)"
    (is "gal.guarded _ (bnd _ ?rest) _")
  proof (rule gal.guarded_bnd [OF rg_flip [OF name]])
    fix x
    show "gal.guarded (\<lambda>c. if fl_applied x then track \<longrightarrow> settled c else spent pid t (cn_db c) \<and> (track \<longrightarrow> owes k c)) (?rest x)
        (\<lambda>_ c. track \<longrightarrow> settled c)"
      using rg_remember_then gal.guarded_thn [OF rg_schedule [OF name] rg_remember_then] by (cases "fl_applied x") auto
  qed
  note put = rg_put [OF name, where track = track and env = env]
  have puts: "gal.guarded (publishing track pid t k {k})
      (for_each (pi_thumbnails im) (\<lambda>(name, data). store_put env (public_thumb_key pid t ver name) data)) (\<lambda>_. publishing track pid t k ?R)"
    unfolding ab for_each.simps split thn_ret_unit
    by (rule gal.guarded_thn [OF put], simp_all add: keys) (rule gal.guarded_post [OF put], simp_all add: keys insert_commute)
  have "gal.guarded (publishing track pid t k {}) (ingest_publish env pid t ver im key) (\<lambda>_ c. track \<longrightarrow> settled c)"
    unfolding ingest_publish_def Let_def k_def [symmetric]
    by (rule gal.guarded_thn [OF put gal.guarded_thn [OF puts finish]]) (simp_all add: keys)
  then show ?thesis
    by (rule gal.guarded_pre) (auto simp: publishing_def owes_def settled_def)
qed

lemma process_image_thumbs: "process_image im li raw claimed = Inr out \<Longrightarrow> map fst (pi_thumbnails out) = map fst thumbnail_sizes"
  by (auto simp: process_image_def Let_def thumbnail_sizes_def split: if_splits option.splits)

lemma plain_take: "plain s \<Longrightarrow> plain (take n s)"
  unfolding plain_def by (meson in_set_takeD)

lemma guarded_fact:
  assumes "\<And>c. gal.friendly c \<Longrightarrow> P c \<Longrightarrow> A" and "A \<Longrightarrow> gal.guarded P m Q"
  shows "gal.guarded P m Q"
  using assms unfolding gal.guarded_def by blast

definition hex_digest :: "(string \<Rightarrow> string) \<Rightarrow> bool" where
  "hex_digest sha256 \<longleftrightarrow> (\<forall>raw. plain (sha256 raw))"

lemma rg_ingest_object:
  assumes sha: "hex_digest (ie_sha256 env)"
  shows "gal.guarded (\<lambda>c. (pid, t) \<in> set (iw_offered (cn_db c)) \<and> (track \<longrightarrow> settled c)) (ingest_object env pid t key got)
    (\<lambda>_ c. track \<longrightarrow> settled c)" (is "gal.guarded ?P _ _")
proof (rule guarded_fact [where A = "plain t"])
  fix c :: img_conn assume "gal.friendly c" "?P c"
  then show "plain t" using gallery_okD(2) unfolding gal.friendly_def by (metis plain_hex)
next
  assume t: "plain t"
  have ver: "plain (content_version (ie_sha256 env) raw)" for raw using sha by (simp add: content_version_def hex_digest_def plain_take)
  show "gal.guarded ?P (ingest_object env pid t key got) (\<lambda>_ c. track \<longrightarrow> settled c)"
    using rg_publish [OF t ver process_image_thumbs] unfolding ingest_object_def
    by (auto intro!: gal.guarded_pre [OF rg_fail] gal.guarded_pre [OF rg_remember_then] split: sum.split storage_error.split)
qed

text \<open>The upload a key stands for was offered.\<close>

definition offered_key :: "string \<Rightarrow> image_world \<Rightarrow> bool" where
  "offered_key key w \<longleftrightarrow> (case parse_upload_key key of None \<Rightarrow> True | Some u \<Rightarrow> u \<in> set (iw_offered w))"

lemma survives_offered_key: "gal.survives (\<lambda>c :: img_conn. offered_key key (cn_db c))"
  using survives_offered unfolding offered_key_def by (auto simp: gal.survives_def split: option.split)

lemma rg_ingest:
  assumes sha: "hex_digest (ie_sha256 env)"
  shows "gal.guarded (\<lambda>c. offered_key key (cn_db c) \<and> (track \<longrightarrow> settled c)) (ingest env key etag) (\<lambda>_ c. track \<longrightarrow> settled c)"
  unfolding ingest_def Let_def
proof (rule gal.guarded_bnd [OF gal.kept_guarded [OF kept_seen]])
  show surv: "gal.survives (\<lambda>c. offered_key key (cn_db c) \<and> (track \<longrightarrow> settled c))"
    by (rule survives_conj [OF survives_offered_key survives_settled])
  fix dup
  show "gal.guarded (\<lambda>c. offered_key key (cn_db c) \<and> (track \<longrightarrow> settled c))
      (if dup then ret IO_DUPLICATE
        else case parse_upload_key key of
            None \<Rightarrow> ret IO_SKIPPED
          | Some (pid, token) \<Rightarrow> bnd (store_download env key etag) (ingest_object env pid token (''image:'' @ key @ '':'' @ etag)))
      (\<lambda>_ c. track \<longrightarrow> settled c)"
  proof (cases "parse_upload_key key")
    case (Some u)
    have "gal.guarded (\<lambda>c. u \<in> set (iw_offered (cn_db c)) \<and> (track \<longrightarrow> settled c)) (ingest_object env (fst u) (snd u) dk got) (\<lambda>_ c. track \<longrightarrow> settled c)" for dk got
      using rg_ingest_object [OF sha, of "fst u" "snd u" track] by simp
    note object = gal.guarded_bnd [OF gal.kept_guarded [OF gal_kept_read [OF survives_conj [OF survives_offered survives_settled]]] this]
    have "gal.guarded (\<lambda>c. u \<in> set (iw_offered (cn_db c)) \<and> (track \<longrightarrow> settled c))
        (bnd (store_download env key etag) (ingest_object env (fst u) (snd u) (''image:'' @ key @ '':'' @ etag))) (\<lambda>_ c. track \<longrightarrow> settled c)"
      unfolding store_download_def by (rule object)
    then show ?thesis using Some by (auto simp: offered_key_def split_beta intro: gal.guarded_ret)
  qed (auto intro!: gal.guarded_ret)
qed

section \<open>The sweeps and the worker\<close>

lemma kept_delete:
  assumes "k \<in> ks" and "r \<in> set (public_rendition_keys k)"
  shows "gal.kept (\<lambda>c. \<forall>k \<in> ks. dead k (cn_db c)) (store_delete r)"
  unfolding store_delete_def
proof (rule gal.kept_stmt [OF survives_dead])
  fix c :: img_conn and x w' assume c: "\<forall>k \<in> ks. dead k (cn_db c)" "gallery_ok (cn_db c)"
    and run: "atomic (modify (\<lambda>w. w\<lparr>iw_objects := (iw_objects w)(r := None)\<rparr>)) (cn_db c) = (x, w')"
  then show "gallery_step (cn_db c) w'" using delete_step [OF c(2) _ assms(2)] assms(1) by (auto simp: atomic_run)
qed

lemma harmless_current: "harmless (repo_current_image_key pid)"
  unfolding repo_current_image_key_def by (rule harmless_read)

lemma harmless_due: "harmless (repo_due_pending_uploads grace batch)"
  unfolding repo_due_pending_uploads_def by (rule harmless_read)

lemma kept_reclaim_one:
  assumes "k \<in> ks"
  shows "gal.kept (\<lambda>c. \<forall>k \<in> ks. dead k (cn_db c)) (reclaim_one env backoff (i, pid, k, n))"
  unfolding reclaim_one_def split
  by (intro gal.kept_catch gal.kept_bnd gal.kept_thn gal_kept_catalog [OF harmless_defer survives_dead]
      gal_kept_catalog [OF harmless_current survives_dead] gal.kept_ret)
    (auto intro!: gal.kept_thn gal.kept_for_each kept_delete [OF assms])

lemma kept_drain_each:
  "(\<And>t. t \<in> set ts \<Longrightarrow> fst (snd (snd t)) \<in> ks) \<Longrightarrow> gal.kept (\<lambda>c. \<forall>k \<in> ks. dead k (cn_db c)) (drain_each env backoff ts finished)"
proof (induction ts arbitrary: finished)
  case (Cons t ts)
  obtain i pid k n where t: "t = (i, pid, k, n)" by (cases t) auto
  have "k \<in> ks" using Cons.prems [of t] by (simp add: t)
  then show ?case using Cons by (auto simp: t intro!: gal.kept_bnd kept_reclaim_one)
qed simp

lemma rg_drain: "gal.guarded (\<lambda>_. True) (drain_reclaims env batch backoff) (\<lambda>_ _. True)"
  unfolding drain_reclaims_def
proof (rule gal.guarded_bnd)
  show "gal.guarded (\<lambda>_. True) (in_catalog (repo_claim_image_reclaims batch 300))
      (\<lambda>tasks c. \<forall>k \<in> (\<lambda>t. fst (snd (snd t))) ` set tasks. dead k (cn_db c))"
    by (rule gal_rg_catalog) (auto dest: claim_gallery)
  fix tasks :: "(nat \<times> uuid \<times> string \<times> nat) list"
  define P where "P = (\<lambda>c :: img_conn. \<forall>k \<in> (\<lambda>t. fst (snd (snd t))) ` set tasks. dead k (cn_db c))"
  have each: "gal.kept P (drain_each env backoff tasks [])" unfolding P_def by (rule kept_drain_each) simp
  have fin: "gal.kept P (in_catalog (repo_finish_image_reclaim ids))" for ids
    unfolding P_def by (rule gal_kept_catalog [OF harmless_finish survives_dead])
  have "gal.kept P (bnd (drain_each env backoff tasks []) (\<lambda>finished.
         thn (if finished = [] then ret () else in_catalog (repo_finish_image_reclaim finished)) (ret (length finished))))"
    using fin by (intro gal.kept_bnd gal.kept_thn each gal.kept_ret) simp
  then have "gal.guarded P (if tasks = [] then ret 0 else bnd (drain_each env backoff tasks []) (\<lambda>finished.
         thn (if finished = [] then ret () else in_catalog (repo_finish_image_reclaim finished)) (ret (length finished)))) (\<lambda>_ _. True)"
    using gal.guarded_any [OF gal.kept_guarded] by (auto intro: gal.guarded_ret)
  then show "gal.guarded (\<lambda>c. \<forall>k \<in> (\<lambda>t. fst (snd (snd t))) ` set tasks. dead k (cn_db c)) (if tasks = [] then ret 0
      else bnd (drain_each env backoff tasks []) (\<lambda>finished.
         thn (if finished = [] then ret () else in_catalog (repo_finish_image_reclaim finished)) (ret (length finished)))) (\<lambda>_ _. True)"
    unfolding P_def .
qed

lemma kept_reap_each: "gal.kept (\<lambda>_. True) (reap_each recheck cands n)"
proof (induction recheck cands n rule: reap_each.induct)
  case (2 recheck pid token rest restored)
  note read = gal_kept_read [OF gal.survives_True]
    and later = gal_kept_catalog [OF harmless_defer_expiry gal.survives_True]
    and expire = gal_kept_catalog [OF harmless_expire gal.survives_True]
  show ?case
    unfolding reap_each.simps store_exists_def
    by (rule gal.kept_bnd [OF gal.kept_catch [OF gal.kept_bnd [OF read]]])
      (use 2 in \<open>auto split: option.split bool.split intro!: gal.kept_thn gal.kept_bnd later expire\<close>)
qed (simp only: reap_each.simps gal.kept_ret)

lemma rg_housekeeping: "gal.guarded (\<lambda>_. True) (housekeeping env) (\<lambda>_ _. True)"
  unfolding housekeeping_def reap_abandoned_uploads_def
  by (intro gal.guarded_catch gal.guarded_bnd [OF rg_drain] gal.guarded_ret
      gal.guarded_bnd [OF gal.guarded_any [OF gal.kept_guarded [OF gal.kept_bnd [OF gal_kept_catalog [OF harmless_due gal.survives_True] kept_reap_each]]]])
    simp_all

text \<open>What depends on the world only, and no step invalidates, holds on both exits.\<close>

lemma kept_db:
  assumes "gal.guarded (\<lambda>c. R (cn_db c)) m Q" and "\<And>w w'. gallery_ok w \<Longrightarrow> gallery_step w w' \<Longrightarrow> R w \<Longrightarrow> R w'"
  shows "gal.kept (\<lambda>c. R (cn_db c)) m"
  using assms unfolding gal.kept_def gal.guarded_def gal.friendly_def by metis

definition messages_genuine :: "s3_message list \<Rightarrow> image_world \<Rightarrow> bool" where
  "messages_genuine msgs w \<longleftrightarrow> (\<forall>msg \<in> set msgs. genuine msg w)"

lemma messages_genuine_step: "gallery_ok w \<Longrightarrow> gallery_step w w' \<Longrightarrow> messages_genuine msgs w \<Longrightarrow> messages_genuine msgs w'"
  unfolding messages_genuine_def genuine_def using gallery_stepD(3) by blast

lemma survives_messages: "gal.survives (\<lambda>c :: img_conn. messages_genuine msgs (cn_db c))"
  unfolding gal.survives_def using messages_genuine_step by simp

lemma kept_process_message:
  assumes "hex_digest (ie_sha256 env)" and "msg \<in> set msgs"
  shows "gal.kept (\<lambda>c. messages_genuine msgs (cn_db c)) (process_message env msg)"
  unfolding process_message_def
proof (rule gal.kept_for_each)
  fix r assume r: "r \<in> set (snd msg)"
  show "gal.kept (\<lambda>c. messages_genuine msgs (cn_db c)) (process_record env r)"
  proof (cases r)
    case None
    then show ?thesis by (simp add: process_record_def)
  next
    case (Some ke)
    have "offered_key (unquote_plus (fst ke)) (cn_db c)" if "messages_genuine msgs (cn_db c)" for c :: img_conn
      using that assms(2) r unfolding messages_genuine_def genuine_def offered_key_def Some
      by (cases ke) (fastforce split: option.split)
    then have "gal.guarded (\<lambda>c. messages_genuine msgs (cn_db c)) (ingest env (unquote_plus (fst ke)) (snd ke)) (\<lambda>_ _. True)"
      using gal.guarded_any [OF gal.guarded_pre [OF rg_ingest [OF assms(1), where track = False]]] by simp
    from gal.kept_bnd [OF kept_db [OF this messages_genuine_step] gal.kept_ret] show ?thesis
      by (simp add: process_record_def Some split_beta)
  qed
qed

lemma kept_handle:
  assumes "hex_digest (ie_sha256 env)"
  shows "set ms \<subseteq> set msgs \<Longrightarrow> gal.kept (\<lambda>c. messages_genuine msgs (cn_db c)) (handle_messages env ms n)"
proof (induction ms arbitrary: n)
  case (Cons m ms)
  have ack: "gal.kept (\<lambda>c :: img_conn. messages_genuine msgs (cn_db c)) (stmt (modify (\<lambda>w. w\<lparr>iw_queue := filter (\<lambda>x. fst x \<noteq> fst m) (iw_queue w)\<rparr>)))"
    by (rule gal_kept_world [OF idle_step survives_messages]) auto
  show ?case
    unfolding handle_messages.simps
    by (intro gal.kept_bnd gal.kept_catch gal.kept_thn gal.kept_ret kept_process_message [OF assms])
      (use Cons ack in \<open>auto intro!: gal.kept_thn\<close>)
qed simp

theorem rg_poll:
  assumes "hex_digest (ie_sha256 env)"
  shows "gal.guarded (\<lambda>_. True) (poll_once env) (\<lambda>_ _. True)"
  unfolding poll_once_def
proof (rule gal.guarded_bnd)
  show "gal.guarded (\<lambda>_. True) (stmt (gets (\<lambda>w. take (ie_max_messages env) (iw_queue w)))) (\<lambda>msgs c :: img_conn. messages_genuine msgs (cn_db c))"
  proof (rule gal.guarded_stmt)
    fix c :: img_conn and r w' assume ok: "gallery_ok (cn_db c)" and "atomic (gets (\<lambda>w. take (ie_max_messages env) (iw_queue w))) (cn_db c) = (r, w')"
    then have "w' = cn_db c" "r = Inr (take (ie_max_messages env) (iw_queue (cn_db c)))" by (auto simp: atomic_run)
    then show "gallery_step (cn_db c) w' \<and> (\<forall>x. r = Inr x \<longrightarrow> messages_genuine x (cn_db (c\<lparr>cn_db := w'\<rparr>)))"
      using gallery_okD(5) [OF ok] by (auto simp: gallery_step_refl messages_genuine_def dest: in_set_takeD)
  qed simp
  fix msgs
  show "gal.guarded (\<lambda>c. messages_genuine msgs (cn_db c)) (bnd (handle_messages env msgs 0) (\<lambda>handled. thn (housekeeping env) (ret handled))) (\<lambda>_ _. True)"
    by (rule gal.guarded_bnd [OF gal.guarded_any [OF gal.kept_guarded [OF kept_handle [OF assms subset_refl]]]])
      (auto intro: gal.guarded_thn [OF rg_housekeeping] gal.guarded_ret)
qed

end
