(* ===== verification/Image_Properties.thy ===== *)
theory Image_Properties
  imports Image_Contract
begin

text \<open>
  What the image pipeline promises while workers, requests and clients interleave and statements fail: a
  product never serves an image with a missing object, and an upload event is only acknowledged when
  every object written for it is served or queued for deletion. The other sessions of the examples are
  merchants and clients.
\<close>

section \<open>Other sessions\<close>

text \<open>What merchants and clients do between the statements of a worker: requests, a presigned form, an upload.\<close>

definition shop_create :: "uuid \<Rightarrow> uuid \<Rightarrow> product_create \<Rightarrow> image_world \<Rightarrow> image_world" where
  "shop_create pid merchant b w = w\<lparr>iw_cat := cn_db (snd (svc_create_product None pid merchant b (session_of [] [] (iw_cat w))))\<rparr>"

definition shop_presign :: "upload_config \<Rightarrow> uuid \<Rightarrow> uuid \<Rightarrow> string \<Rightarrow> int \<Rightarrow> image_world \<Rightarrow> image_world" where
  "shop_presign cfg pid merchant mime n w =
     (let (r, c) = svc_presign_image_upload cfg pid merchant False mime n (session_of [] [] (iw_cat w)); w' = w\<lparr>iw_cat := cn_db c\<rparr> in
      case r of Inr (Some _) \<Rightarrow> w'\<lparr>iw_offered := (pid, hex (cat_next_token (iw_cat w))) # iw_offered w'\<rparr> | _ \<Rightarrow> w')"

definition client_post :: "string \<Rightarrow> string \<Rightarrow> s3_object \<Rightarrow> image_world \<Rightarrow> image_world" where
  "client_post receipt key ob w =
     (if offered_key (unquote_plus key) w
      then w\<lparr>iw_objects := (iw_objects w)(unquote_plus key \<mapsto> ob), iw_queue := iw_queue w @ [(receipt, [Some (key, ob_etag ob)])]\<rparr>
      else w)"

definition worker_session :: "(image_world \<Rightarrow> image_world) list \<Rightarrow> fault list \<Rightarrow> image_world \<Rightarrow> img_conn" where
  "worker_session sched faults w = \<lparr>cn_db = w, cn_sched = sched, cn_faults = faults, ic_wrote = [], ic_marked = []\<rparr>"

type_synonym passes = "((image_world \<Rightarrow> image_world) list \<times> fault list) list"

fun run_polls :: "'i ingest_env \<Rightarrow> passes \<Rightarrow> image_world \<Rightarrow> image_world" where
  "run_polls env [] w = w"
| "run_polls env ((sched, faults) # ps) w = run_polls env ps (cn_db (snd (poll_once env (worker_session sched faults w))))"

definition empty_world :: image_world where
  "empty_world = \<lparr>iw_cat = empty_catalog, iw_objects = (\<lambda>_. None), iw_marks = [], iw_queue = [], iw_offered = []\<rparr>"

definition others_behave :: "passes \<Rightarrow> bool" where
  "others_behave ps \<longleftrightarrow> (\<forall>(sched, faults) \<in> set ps. \<forall>other \<in> set sched. \<forall>w. gallery_step w (other w))"

lemma other_keeps:
  assumes "cat_run None q = ignore_result m" and "\<And>c. effective q c"
  shows "catalog_step d (cn_db (snd (m (session_of [] [] d))))"
proof -
  have "as_other None q d = cn_db (snd (m (session_of [] [] d)))"
    using assms(1) by (simp add: as_other_def ignore_result_def bnd_run split: prod.split sum.split)
  with as_other_keeps [OF assms(2), of d None] show ?thesis by simp
qed

lemma create_keeps: "gallery_step w (shop_create pid merchant b w)"
proof (rule gallery_step_when)
  assume ok: "gallery_ok w"
  let ?d = "cn_db (snd (svc_create_product None pid merchant b (session_of [] [] (iw_cat w))))"
  have "(\<exists>p. cat_products ?d = cat_products (iw_cat w) @ [p] \<and> prod_image_key p = None \<and> prod_image_status p = IMG_NONE) \<or>
      cat_products ?d = cat_products (iw_cat w)" and same: "cat_reclaims ?d = cat_reclaims (iw_cat w)"
    by (auto simp: svc_create_product_def repo_create_product_def bnd_run stmt_alone atomic_run thn_run add_cat_outbox_def product_respond_def Let_def
        split: if_splits sum.splits)
  then have rows: "\<And>p. p \<in> set (cat_products ?d) \<Longrightarrow> p \<in> set (cat_products (iw_cat w)) \<or> prod_image_key p = None \<and> prod_image_status p = IMG_NONE" by auto
  have "catalog_step (iw_cat w) ?d" by (rule other_keeps [of "CreateProduct pid merchant b"]) simp_all
  with ok have "gallery_step w (w\<lparr>iw_cat := ?d\<rparr>)"
  proof (rule catalog_write)
    fix pid t assume "pending_in pid t ?d"
    then show "pending_in pid t (iw_cat w)" using rows by (fastforce simp: pending_in_def list_ex_iff pending_upload_def)
  next
    fix p k assume p: "p \<in> set (cat_products ?d)" "prod_deleted p = None" "prod_image_key p = Some k"
    then show "(\<exists>q \<in> set (cat_products (iw_cat w)). prod_id q = prod_id p \<and> prod_deleted q = None \<and> prod_image_key q = Some k) \<or>
        (\<exists>t v. image_name (prod_id p) t v k \<and> pending_in (prod_id p) t (iw_cat w) \<and> served_well (prod_id p) k (w\<lparr>iw_cat := ?d\<rparr>))"
      using rows [OF p(1)] by auto
  qed (simp add: same)
  then show "gallery_step w (shop_create pid merchant b w)" by (simp add: shop_create_def)
qed

lemma offer_step:
  assumes ok: "gallery_ok w" and "n < cat_next_token (iw_cat w)"
  shows "gallery_step w (w\<lparr>iw_offered := (pid, hex n) # iw_offered w\<rparr>)"
proof -
  let ?w = "w\<lparr>iw_offered := (pid, hex n) # iw_offered w\<rparr>"
  have mono: "spent i t w \<Longrightarrow> spent i t ?w" "genuine msg w \<Longrightarrow> genuine msg ?w" for i t msg by (auto simp: spent_def genuine_def)
  then have more: "dead k w \<Longrightarrow> dead k ?w" "served_well i k w \<Longrightarrow> served_well i k ?w" for i k
    unfolding dead_def served_well_def complete_def by auto
  have "gallery_ok ?w"
    using gallery_okD [OF ok] assms(2) mono more by (intro gallery_okI) auto
  then show ?thesis unfolding gallery_step_def using mono more by (auto simp: catalog_step_refl)
qed

text \<open>The effect of a presigned form: the upload it names, which nobody was offered before, is pending.\<close>

lemma stmt_undisturbed: "cn_sched c = [] \<Longrightarrow> cn_faults c = [] \<Longrightarrow> stmt m c = (fst (atomic m (cn_db c)), after_stmt (snd (atomic m (cn_db c))) c)"
  by (simp add: stmt_def seen_by_def Let_def split_beta)

lemma presign_commit:
  assumes "svc_presign_image_upload cfg pid m adm mime n (session_of [] [] d) = (r, c)"
  shows "cn_db c = d \<and> (\<forall>x. r \<noteq> Inr (Some x)) \<or>
    (\<exists>p. live_product pid d = Some p \<and> cn_db c = snd (atomic (commit_versioned p
      (p\<lparr>prod_image_status := IMG_PENDING, prod_upload_token := Some (hex (cat_next_token d)), prod_upload_expires := Some (cat_clock d + up_ttl cfg)\<rparr>)
      (add_cat_outbox (ProductUpdatedV2 pid (prod_merchant p) (prod_name p) (prod_price p) (prod_category p) (prod_version p + 1))))
      (d\<lparr>cat_next_token := Suc (cat_next_token d)\<rparr>)))"
proof (cases "live_product pid d")
  case None
  then show ?thesis using assms
    by (auto simp: svc_presign_image_upload_def repo_get_product_def bnd_run stmt_alone atomic_run)
next
  case (Some p)
  then have id: "prod_id p = pid" "live_product pid (d\<lparr>cat_next_token := x\<rparr>) = Some p" for x
    using find_Some_mem by (fastforce simp: live_product_def)+
  show ?thesis using assms Some id
    by (auto simp: svc_presign_image_upload_def repo_get_product_def bnd_run thn_run stmt_undisturbed session_of_def atomic_run after_stmt_def
        assert_product_owner_def new_upload_token_def repo_set_image_pending_def load_aggregate_def split: if_splits prod.splits sum.splits)
qed


lemma commit_rows:
  "cat_reclaims (snd (atomic (commit_versioned p new (add_cat_outbox e)) d)) = cat_reclaims d"
  "cat_next_token (snd (atomic (commit_versioned p new (add_cat_outbox e)) d)) = cat_next_token d"
  "q \<in> set (cat_products (snd (atomic (commit_versioned p new (add_cat_outbox e)) d))) \<Longrightarrow> q \<in> set (cat_products d) \<or>
     (\<exists>v \<in> set (cat_products d). versioned_row p v \<and> q = (set_columns p new v)\<lparr>prod_version := prod_version v + 1, prod_updated := cat_clock d\<rparr>)"
  by (auto simp: commit_versioned_def atomic_run add_cat_outbox_def update_where_def split: if_splits)

text \<open>A presigned form makes an upload pending that nobody was offered before.\<close>

lemma presign_effect:
  assumes ok: "catalog_ok d" and run: "svc_presign_image_upload cfg pid m adm mime n (session_of [] [] d) = (r, c)"
  shows "cat_reclaims (cn_db c) = cat_reclaims d"
    and "q \<in> set (cat_products (cn_db c)) \<Longrightarrow> \<exists>p \<in> set (cat_products d). prod_id p = prod_id q \<and> prod_image_key p = prod_image_key q \<and>
      prod_deleted p = prod_deleted q \<and> (\<forall>i t. pending_upload i t q \<longrightarrow> pending_upload i t p \<or> t = hex (cat_next_token d))"
    and "r = Inr (Some x) \<Longrightarrow> cat_next_token d < cat_next_token (cn_db c)"
proof -
  have "cn_db c = d \<and> (\<forall>x. r \<noteq> Inr (Some x)) \<or> (\<exists>p new e. live_product pid d = Some p \<and>
      cn_db c = snd (atomic (commit_versioned p new (add_cat_outbox e)) (d\<lparr>cat_next_token := Suc (cat_next_token d)\<rparr>)) \<and>
      prod_upload_token new = Some (hex (cat_next_token d)) \<and> prod_deleted new = prod_deleted p)"
    using presign_commit [OF run]
  proof (elim disjE exE conjE, goal_cases)
    case (2 p)
    then show ?case by (intro disjI2 exI conjI) (assumption | simp)+
  qed blast
  then consider (idle) "cn_db c = d" "\<forall>x. r \<noteq> Inr (Some x)"
    | (commit) p new e where "live_product pid d = Some p" "prod_upload_token new = Some (hex (cat_next_token d))"
        "cn_db c = snd (atomic (commit_versioned p new (add_cat_outbox e)) (d\<lparr>cat_next_token := Suc (cat_next_token d)\<rparr>))"
        "prod_deleted new = prod_deleted p"
    by blast
  note cases = this
  show "cat_reclaims (cn_db c) = cat_reclaims d" "r = Inr (Some x) \<Longrightarrow> cat_next_token d < cat_next_token (cn_db c)"
    using cases by (cases; simp add: commit_rows)+
  assume q: "q \<in> set (cat_products (cn_db c))"
  show "\<exists>p \<in> set (cat_products d). prod_id p = prod_id q \<and> prod_image_key p = prod_image_key q \<and>
      prod_deleted p = prod_deleted q \<and> (\<forall>i t. pending_upload i t q \<longrightarrow> pending_upload i t p \<or> t = hex (cat_next_token d))"
  proof (cases "q \<in> set (cat_products d)")
    case False
    with cases q obtain p new v where p: "live_product pid d = Some p" "prod_upload_token new = Some (hex (cat_next_token d))" "prod_deleted new = prod_deleted p"
        and v: "v \<in> set (cat_products d)" "versioned_row p v" "q = (set_columns p new v)\<lparr>prod_version := prod_version v + 1, prod_updated := cat_clock d\<rparr>"
      by (cases; force dest: commit_rows(3))
    have "p \<in> set (cat_products d)" using p(1) find_Some_mem by (fastforce simp: live_product_def)
    then have "v = p" using v(1,2) ok by (auto simp: versioned_row_def catalog_ok_def distinct_map inj_on_def)
    then show ?thesis using v p(2,3) by (intro bexI [of _ v]) (auto simp: set_columns_def pending_upload_def split: if_splits)
  qed blast
qed

lemma presign_keeps: "gallery_step w (shop_presign cfg pid merchant mime n w)"
proof (rule gallery_step_when)
  assume ok: "gallery_ok w"
  obtain r c where run: "svc_presign_image_upload cfg pid merchant False mime n (session_of [] [] (iw_cat w)) = (r, c)" by fastforce
  note effect = presign_effect [OF gallery_okD(1) [OF ok] run]
  have "catalog_step (iw_cat w) (cn_db c)"
    using other_keeps [of "PresignUpload cfg pid merchant False mime n" "svc_presign_image_upload cfg pid merchant False mime n" "iw_cat w"] run by simp
  with ok have step: "gallery_step w (w\<lparr>iw_cat := cn_db c\<rparr>)"
  proof (rule catalog_write)
    fix i t assume off: "(i, t) \<in> set (iw_offered w)" and "pending_in i t (cn_db c)"
    then obtain q where q: "q \<in> set (cat_products (cn_db c))" "pending_upload i t q" by (auto simp: pending_in_def list_ex_iff)
    have "t \<noteq> hex (cat_next_token (iw_cat w))" using gallery_okD(2) [OF ok off] hex_inj by fastforce
    then show "pending_in i t (iw_cat w)" using effect(2) [OF q(1)] q(2) by (auto simp: pending_in_def list_ex_iff)
  next
    fix p k assume "p \<in> set (cat_products (cn_db c))" "prod_deleted p = None" "prod_image_key p = Some k"
    then have "\<exists>q \<in> set (cat_products (iw_cat w)). prod_id q = prod_id p \<and> prod_deleted q = None \<and> prod_image_key q = Some k"
      using effect(2) by fastforce
    then show "?this \<or> (\<exists>t v. image_name (prod_id p) t v k \<and> pending_in (prod_id p) t (iw_cat w) \<and> served_well (prod_id p) k (w\<lparr>iw_cat := cn_db c\<rparr>))"
      by blast
  qed (simp add: effect(1))
  show "gallery_step w (shop_presign cfg pid merchant mime n w)"
  proof (cases "\<exists>x. r = Inr (Some x)")
    case True
    then obtain x where x: "r = Inr (Some x)" by blast
    have "gallery_step (w\<lparr>iw_cat := cn_db c\<rparr>)
        ((w\<lparr>iw_cat := cn_db c\<rparr>)\<lparr>iw_offered := (pid, hex (cat_next_token (iw_cat w))) # iw_offered (w\<lparr>iw_cat := cn_db c\<rparr>)\<rparr>)"
      using effect(3) [OF x] by (intro offer_step gallery_stepD(1) [OF step ok]) simp
    from gallery_step_trans [OF step this] show ?thesis using run x by (simp add: shop_presign_def)
  next
    case False
    then have "shop_presign cfg pid merchant mime n w = w\<lparr>iw_cat := cn_db c\<rparr>"
      using run by (auto simp: shop_presign_def Let_def split: sum.split option.split)
    with step show ?thesis by simp
  qed
qed

lemma post_keeps: "gallery_step w (client_post receipt key ob w)"
proof (rule gallery_step_when)
  assume ok: "gallery_ok w"
  show "gallery_step w (client_post receipt key ob w)"
  proof (cases "offered_key (unquote_plus key) w")
    case True
    define u where "u = w\<lparr>iw_objects := (iw_objects w)(unquote_plus key \<mapsto> ob)\<rparr>"
    define v where "v = u\<lparr>iw_queue := iw_queue u @ [(receipt, [Some (key, ob_etag ob)])]\<rparr>"
    have step: "gallery_step w u" unfolding u_def by (rule put_step [OF ok])
    note u = gallery_stepD(1) [OF step ok]
    have eqs: "spent i t v = spent i t u" "dead k v = dead k u" "genuine msg v = genuine msg u" "served_well i k v = served_well i k u" for i t k msg
      by (simp_all add: spent_def dead_def genuine_def served_well_def complete_def v_def)
    have "genuine (receipt, [Some (key, ob_etag ob)]) u" using True by (auto simp: genuine_def offered_key_def u_def)
    then have "gallery_ok v"
      using gallery_okD [OF u] unfolding v_def by (intro gallery_okI) (auto simp: eqs [unfolded v_def])
    then have "gallery_step u v" unfolding gallery_step_def eqs by (auto simp: catalog_step_refl v_def)
    from gallery_step_trans [OF step this] show ?thesis using True by (simp add: client_post_def u_def v_def)
  qed (simp add: client_post_def gallery_step_refl)
qed

lemma empty_world_ok: "gallery_ok empty_world"
  using empty_catalog_ok by (intro gallery_okI) (simp_all add: empty_world_def, simp_all add: empty_catalog_def)

lemma polls_keep:
  "hex_digest (ie_sha256 env) \<Longrightarrow> others_behave ps \<Longrightarrow> gallery_ok w \<Longrightarrow> gallery_ok (run_polls env ps w)"
proof (induction env ps w rule: run_polls.induct)
  case (2 env sched faults ps w)
  have "gal.friendly (worker_session sched faults w)" using 2(3,4) by (auto simp: gal.friendly_def worker_session_def others_behave_def)
  from gal.guarded_run [OF rg_poll [OF 2(2)] this]
  have "gallery_step w (cn_db (snd (poll_once env (worker_session sched faults w))))" by (simp add: worker_session_def)
  then show ?case using 2 gallery_stepD(1) by (simp add: others_behave_def)
qed simp

section \<open>The marker comes last\<close>

text \<open>A program that leaves the dedup store alone, and one that does so when it raises.\<close>

definition unmarking :: "'a img \<Rightarrow> bool" where
  "unmarking m \<longleftrightarrow> (\<forall>c. ic_marked (snd (m c)) = ic_marked c)"

definition marks_last :: "'a img \<Rightarrow> bool" where
  "marks_last m \<longleftrightarrow> (\<forall>c e. fst (m c) = Inl e \<longrightarrow> ic_marked (snd (m c)) = ic_marked c)"

lemma unmarking_stmt [simp]: "unmarking (stmt m)"
  by (auto simp: unmarking_def stmt_def after_stmt_def Let_def split: prod.split list.split fault.split)

lemma unmarking_bnd: "unmarking m \<Longrightarrow> (\<And>x. unmarking (f x)) \<Longrightarrow> unmarking (bnd m f)"
  by (simp add: unmarking_def bnd_run split: prod.split sum.split) (metis snd_conv)

lemma unmarking_thn: "unmarking m \<Longrightarrow> unmarking n \<Longrightarrow> unmarking (thn m n)"
  unfolding thn_def by (rule unmarking_bnd)

lemma unmarking_ret [simp]: "unmarking (ret x)"
  by (simp add: unmarking_def)

lemma unmarking_for_each: "(\<And>x. unmarking (f x)) \<Longrightarrow> unmarking (for_each xs f)"
  by (induction xs) (simp_all add: unmarking_thn del: for_each.simps(1), simp_all)

lemma unmarking_put [simp]: "unmarking (store_put env key data)"
  unfolding store_put_def by (rule unmarking_thn) (simp_all add: unmarking_def [of "modify g" for g])

lemma unmarking_catalog [simp]: "unmarking (in_catalog m)"
  by (simp add: in_catalog_def)

lemma unmarking_seen [simp]: "unmarking (upload_seen k)"
proof -
  have "ic_marked (snd (catch m (\<lambda>_. ret x) c)) = ic_marked (snd (m c))" for m :: "'b img" and x c
    by (simp add: catch_run split: prod.split sum.split)
  then show ?thesis using unmarking_stmt unfolding upload_seen_def unmarking_def by metis
qed

lemma unmarking_schedule [simp]: "unmarking (schedule_reclaim pid k)"
  unfolding schedule_reclaim_def by (intro unmarking_bnd) simp_all

lemma marks_last_bnd: "unmarking m \<Longrightarrow> (\<And>x. marks_last (f x)) \<Longrightarrow> marks_last (bnd m f)"
  unfolding unmarking_def marks_last_def by (simp add: bnd_run split: prod.split sum.split) (metis snd_conv)

lemma marks_last_thn: "unmarking m \<Longrightarrow> marks_last n \<Longrightarrow> marks_last (thn m n)"
  unfolding thn_def by (rule marks_last_bnd)

lemma marks_last_ret [simp]: "marks_last (ret x)"
  by (simp add: marks_last_def)

lemma marks_last_remember [simp]: "marks_last (thn (upload_remember k) (ret x))"
  by (simp add: marks_last_def upload_remember_def thn_run catch_run split: prod.split sum.split)

lemma marks_last_fail [simp]: "marks_last (ingest_fail pid t k)"
  unfolding ingest_fail_def by (rule marks_last_bnd) simp_all

lemma marks_last_publish [simp]: "marks_last (ingest_publish env pid t ver im k)"
  unfolding ingest_publish_def Let_def
  by (intro marks_last_thn marks_last_bnd unmarking_put unmarking_for_each unmarking_catalog) (auto intro: marks_last_thn)

lemma marks_last_ingest: "marks_last (ingest env key etag)"
proof -
  have "marks_last (ingest_object env pid t k got)" for pid t k got
    unfolding ingest_object_def by (auto split: sum.split storage_error.split)
  then have "marks_last (bnd (store_download env key etag) (ingest_object env pid t k))" for pid t k
    unfolding store_download_def by (intro marks_last_bnd) simp_all
  then show ?thesis
    unfolding ingest_def Let_def by (intro marks_last_bnd unmarking_seen) (auto split: option.split)
qed

section \<open>What is published\<close>

text \<open>Bytes that came out of the encoder, from an upload that passed every check.\<close>

definition reencoded :: "'i imaging \<Rightarrow> picture_limits \<Rightarrow> string \<Rightarrow> bool" where
  "reencoded im li data \<longleftrightarrow> (\<exists>raw w h rgb size. length raw \<le> li_max_bytes li \<and> im_sniff im raw \<in> set allowed_mime \<and>
     im_header im raw = Some (w, h) \<and> w * h \<le> li_max_pixels li \<and> im_load im raw = Some rgb \<and>
     data \<in> {im_encode im (im_thumbnail im (li_max_dimension li) rgb), im_encode im (im_thumbnail im size (im_thumbnail im (li_max_dimension li) rgb))})"

lemma process_image_reencodes:
  assumes "process_image im li raw claimed = Inr out"
  shows "reencoded im li (pi_main out)" and "list_all (\<lambda>(name, data). reencoded im li data) (pi_thumbnails out)"
    and "claimed \<in> {None, Some (im_sniff im raw)}"
proof -
  obtain w h rgb where passed: "length raw \<le> li_max_bytes li" "im_sniff im raw \<in> set allowed_mime" "im_header im raw = Some (w, h)"
      "w * h \<le> li_max_pixels li" "im_load im raw = Some rgb"
    and out: "pi_main out = im_encode im (im_thumbnail im (li_max_dimension li) rgb)"
      "pi_thumbnails out = map (\<lambda>(name, size). (name, im_encode im (im_thumbnail im size (im_thumbnail im (li_max_dimension li) rgb)))) thumbnail_sizes"
    and "claimed \<in> {None, Some (im_sniff im raw)}"
    using assms unfolding process_image_def by (auto simp: Let_def split: if_splits option.splits)
  then show "claimed \<in> {None, Some (im_sniff im raw)}" by blast
  show "reencoded im li (pi_main out)" unfolding reencoded_def out using passed by blast
  have "reencoded im li (im_encode im (im_thumbnail im size (im_thumbnail im (li_max_dimension li) rgb)))" for size
    unfolding reencoded_def using passed by blast
  then show "list_all (\<lambda>(name, data). reencoded im li data) (pi_thumbnails out)" by (simp add: out list_all_iff split_beta)
qed

definition publishes :: "'i ingest_env \<Rightarrow> img_conn \<Rightarrow> bool" where
  "publishes env c \<longleftrightarrow> list_all (\<lambda>(key, data). reencoded (ie_imaging env) (ie_limits env) data) (ic_wrote c)"

lemma publishes_stmt [keeps_intros]: "keeps (publishes env) (stmt m)"
proof (rule keepsI)
  fix c r c' assume "publishes env c" "stmt m c = (r, c')"
  then show "publishes env c'" by (elim stmt_outcome) (auto simp: publishes_def after_stmt_def)
qed

lemma publishes_put: "reencoded (ie_imaging env) (ie_limits env) data \<Longrightarrow> keeps (publishes env) (store_put env key data)"
  unfolding store_put_def by (intro keeps_intros keeps_modify) (simp add: publishes_def)

lemma publishes_remember [keeps_intros]: "keeps (publishes env) (upload_remember key)"
  unfolding upload_remember_def by (intro keeps_intros keeps_modify) (simp add: publishes_def)

lemma publishes_catalog [keeps_intros]: "keeps (publishes env) (in_catalog m)"
  unfolding in_catalog_def by (rule keeps_intros)

lemma keeps_for_each_mem: "(\<And>x. x \<in> set xs \<Longrightarrow> keeps I (f x)) \<Longrightarrow> keeps I (for_each xs f)"
  by (induction xs) (simp_all only: for_each.simps keeps_ret keeps_thn list.set_intros)

lemma publishes_publish:
  assumes "process_image (ie_imaging env) (ie_limits env) raw claimed = Inr im"
  shows "keeps (publishes env) (ingest_publish env pid t ver im key)"
proof -
  have "keeps (publishes env) (for_each (pi_thumbnails im) (\<lambda>(name, data). store_put env (public_thumb_key pid t ver name) data))"
    using process_image_reencodes(2) [OF assms] by (intro keeps_for_each_mem) (auto simp: list_all_iff intro!: publishes_put)
  then show ?thesis
    unfolding ingest_publish_def Let_def schedule_reclaim_def
    by (intro keeps_bnd keeps_thn keeps_if keeps_ret publishes_catalog publishes_remember publishes_put process_image_reencodes(1) [OF assms])
qed

lemma publishes_fail [keeps_intros]: "keeps (publishes env) (ingest_fail pid t key)"
  unfolding ingest_fail_def by (intro keeps_intros)

lemma publishes_ingest: "keeps (publishes env) (ingest env key etag)"
proof -
  have "keeps (publishes env) (ingest_object env pid t k got)" for pid t k got
    unfolding ingest_object_def
    by (auto split: sum.split storage_error.split intro!: publishes_publish publishes_fail keeps_thn publishes_remember keeps_ret)
  then have "keeps (publishes env) (bnd (store_download env key etag) (ingest_object env pid t k))" for pid t k
    unfolding store_download_def by (intro keeps_bnd publishes_stmt)
  then show ?thesis
    unfolding ingest_def Let_def upload_seen_def
    by (intro keeps_bnd keeps_catch publishes_stmt keeps_if keeps_ret keeps_case_option) (auto simp: split_beta)
qed

section \<open>An upload, step by step\<close>

definition demo_imaging :: "string imaging" where
  "demo_imaging = \<lparr>im_sniff = (\<lambda>_. ''image/png''), im_header = (\<lambda>_. Some (1, 1)), im_load = Some, im_thumbnail = (\<lambda>_ i. i),
     im_size = (\<lambda>_. (1, 1)), im_encode = id\<rparr>"

definition demo_env :: "string ingest_env" where
  "demo_env = \<lparr>ie_imaging = demo_imaging, ie_limits = \<lparr>li_max_dimension = 1, li_max_bytes = 1, li_max_pixels = 1\<rparr>, ie_sha256 = (\<lambda>_. ''c''),
     ie_declared = (\<lambda>_. None), ie_arrived = (\<lambda>_. []), ie_etag = id, ie_exc_text = (\<lambda>_. ''e''), ie_grace = 0, ie_max_messages = 1\<rparr>"

definition demo_object :: s3_object where
  "demo_object = \<lparr>ob_data = ''x'', ob_type = None, ob_etag = ''x''\<rparr>"

text \<open>A merchant creates a product and asks for a form; a client uploads with it.\<close>

definition demo_arrival :: "image_world \<Rightarrow> image_world" where
  "demo_arrival w = client_post ''r'' (upload_key 7 (hex 0)) demo_object
     (shop_presign \<lparr>up_max_bytes = 1, up_ttl = 1, up_store = True\<rparr> 7 1 ''image/png'' 1
       (shop_create 7 1 \<lparr>pc_name = ''mug'', pc_description = None, pc_category = None, pc_price = 1\<rparr> w))"

definition demo_world :: image_world where
  "demo_world = run_polls demo_env [([demo_arrival], [])] empty_world"

lemma demo_behaves: "others_behave [([demo_arrival], faults)]" "hex_digest (ie_sha256 demo_env)"
  using gallery_step_trans [OF gallery_step_trans [OF create_keeps presign_keeps] post_keeps]
  by (simp_all add: others_behave_def demo_arrival_def hex_digest_def demo_env_def plain_def)

lemma unquote_plain: "CHR ''%'' \<notin> set s \<Longrightarrow> CHR ''+'' \<notin> set s \<Longrightarrow> unquote_plus s = s"
proof (induction s)
  case (Cons c s)
  then have c: "c \<noteq> CHR ''%''" "c \<noteq> CHR ''+''" by auto
  have "unquote_plus (c # s) = c # unquote_plus s" using c by (simp split: list.split)
  with Cons show ?case by simp
qed simp

lemma demo_key: "unquote_plus (upload_key 7 (hex 0)) = upload_key 7 (hex 0)" "parse_upload_key (upload_key 7 (hex 0)) = Some (7, hex 0)"
proof -
  have "CHR ''%'' \<notin> set (upload_key 7 (hex 0))" "CHR ''+'' \<notin> set (upload_key 7 (hex 0))" by code_simp+
  then show "unquote_plus (upload_key 7 (hex 0)) = upload_key 7 (hex 0)" by (rule unquote_plain)
qed (rule parse_upload, simp_all)

lemma demo_process: "process_image demo_imaging (ie_limits demo_env) ''x'' None =
    Inr \<lparr>pi_mime = ''image/png'', pi_size = (1, 1), pi_main = ''x'', pi_thumbnails = [(''thumb_256'', ''x''), (''thumb_64'', ''x'')]\<rparr>"
  by code_simp

lemma demo_read: "read_object (ie_declared demo_env k) (ie_arrived demo_env k) (li_max_bytes (ie_limits demo_env)) (Some ''x'') (Some demo_object) = Inr demo_object"
  by (simp add: demo_env_def) code_simp

lemma demo_config: "ie_imaging demo_env = demo_imaging" "content_version (ie_sha256 demo_env) ''x'' = ''c''" "ie_max_messages demo_env = 1" "ie_grace demo_env = 0"
  by (simp_all add: demo_env_def content_version_def)

lemma demo_object_fields: "ob_data demo_object = ''x''" "ob_type demo_object = None"
  by (simp_all add: demo_object_def)

definition demo_catalog :: catalog_db where
  "demo_catalog = iw_cat (demo_arrival empty_world)"

definition demo_product :: product where
  "demo_product = \<lparr>prod_id = 7, prod_merchant = 1, prod_name = ''mug'', prod_description = None, prod_category = None, prod_price = 1,
     prod_image_key = None, prod_image_status = IMG_PENDING, prod_upload_token = Some (hex 0), prod_upload_expires = Some 1,
     prod_created = 0, prod_updated = 0, prod_deleted = None, prod_version = 2\<rparr>"

lemma demo_catalog: "cat_products demo_catalog = [demo_product]" "cat_reclaims demo_catalog = []" "cat_clock demo_catalog = 0"
  by code_simp+

lemma demo_arrived: "demo_arrival empty_world = \<lparr>iw_cat = demo_catalog, iw_objects = (\<lambda>_. None)(upload_key 7 (hex 0) \<mapsto> demo_object),
    iw_marks = [], iw_queue = [(''r'', [Some (upload_key 7 (hex 0), ''x'')])], iw_offered = [(7, hex 0)]\<rparr>"
proof -
  define w where "w = shop_presign \<lparr>up_max_bytes = 1, up_ttl = 1, up_store = True\<rparr> 7 1 ''image/png'' 1
       (shop_create 7 1 \<lparr>pc_name = ''mug'', pc_description = None, pc_category = None, pc_price = 1\<rparr> empty_world)"
  have off: "iw_offered w = [(7, hex 0)]" unfolding w_def by code_simp
  have rest: "iw_objects w = (\<lambda>_. None)" "iw_marks w = []" "iw_queue w = []"
    unfolding w_def shop_presign_def shop_create_def empty_world_def by (simp_all add: Let_def split: prod.split sum.split option.split)
  have "demo_arrival empty_world = w\<lparr>iw_objects := (\<lambda>_. None)(upload_key 7 (hex 0) \<mapsto> demo_object), iw_queue := [(''r'', [Some (upload_key 7 (hex 0), ''x'')])]\<rparr>"
    unfolding demo_arrival_def w_def [symmetric] client_post_def using off rest by (simp add: demo_key offered_key_def demo_object_def)
  moreover have "demo_catalog = iw_cat w" unfolding demo_catalog_def calculation by simp
  ultimately show ?thesis using off rest by (cases w) simp
qed

lemmas run_simps = prog_simps stmt_undisturbed after_stmt_def Let_def session_of_def in_catalog_def
lemmas demo_ingest_simps = worker_session_def ingest_def upload_seen_def run_simps demo_key store_download_def demo_read ingest_object_def
  demo_config demo_process demo_object_fields ingest_publish_def store_put_def upload_remember_def

definition ready_product :: product where
  "ready_product = demo_product\<lparr>prod_image_key := Some (public_main_key 7 (hex 0) ''c''), prod_image_status := IMG_READY, prod_upload_expires := None, prod_version := 3\<rparr>"

lemma demo_flip: "cat_products d = [demo_product] \<Longrightarrow> cat_clock d = 0 \<Longrightarrow>
    repo_mark_image_ready 7 (hex 0) (public_main_key 7 (hex 0) ''c'') (Some flip_event) (session_of [] [] d) =
    (Inr \<lparr>fl_applied = True, fl_previous = None\<rparr>,
     session_of [] [] (add_cat_outbox (flip_event ready_product) (d\<lparr>cat_products := [ready_product]\<rparr>)))"
  by (simp add: repo_mark_image_ready_def run_simps image_flip_def bump_def demo_product_def ready_product_def pending_upload_def)

lemma demo_world_products: "cat_products (iw_cat demo_world) = [ready_product]"
proof -
  note ingest_simps = process_message_def process_record_def ingest_def upload_seen_def demo_key store_download_def demo_read
  show ?thesis
    unfolding demo_world_def run_polls.simps poll_once_def
    apply (simp add: worker_session_def stmt_def seen_by_def demo_arrived run_simps demo_config)
    apply (simp add: ingest_simps run_simps)
    apply (simp add: ingest_object_def demo_config demo_process demo_object_fields)
    apply (simp add: ingest_publish_def run_simps store_put_def demo_flip [unfolded session_of_def] demo_catalog)
    apply (simp add: upload_remember_def run_simps)
    apply (simp add: housekeeping_def drain_reclaims_def run_simps repo_claim_image_reclaims_def due_reclaims_def add_cat_outbox_def demo_catalog)
    by (simp add: reap_abandoned_uploads_def run_simps repo_due_pending_uploads_def add_cat_outbox_def demo_catalog ready_product_def)
qed

text \<open>The first receive fails, so the upload waits; then it is ingested.\<close>

lemma demo_waiting: "run_polls demo_env [([demo_arrival], [Lost TimeoutError])] empty_world = demo_arrival empty_world"
  by (simp add: worker_session_def poll_once_def stmt_def seen_by_def bnd_run after_stmt_def Let_def split_beta)

definition demo_ingested :: img_conn where
  "demo_ingested = snd (ingest demo_env (upload_key 7 (hex 0)) ''x'' (worker_session [] [] (demo_arrival empty_world)))"

lemma demo_ingest: "fst (ingest demo_env (upload_key 7 (hex 0)) ''x'' (worker_session [] [] (demo_arrival empty_world))) = Inr IO_READY"
    "map fst (ic_wrote demo_ingested) = public_rendition_keys (public_main_key 7 (hex 0) ''c'')"
  unfolding demo_ingested_def
  by (simp_all add: demo_ingest_simps demo_arrived demo_flip [unfolded session_of_def] demo_catalog public_rendition_main thumbnail_sizes_def)

section \<open>Properties\<close>

text \<open>
  C24. A product never serves an image with a missing object: after any number of passes of the image
  worker, whatever merchants, clients and other workers do between its statements and whichever of them
  fail, every live product with an image key has the main image and all its thumbnails in the bucket.
  (The digest is hexadecimal; S3 reports only objects uploaded with a form the service handed out.)
\<close>
theorem served_images_complete:
  assumes "hex_digest (ie_sha256 env)" and "others_behave passes" and "w = run_polls env passes empty_world"
    and "p \<in> set (cat_products (iw_cat w))" and "prod_deleted p = None" and "prod_image_key p = Some k"
  shows "k \<in> set (public_rendition_keys k) \<and> list_all (\<lambda>r. iw_objects w r \<noteq> None) (public_rendition_keys k)"
proof -
  have "gallery_ok w" using polls_keep [OF assms(1,2) empty_world_ok] by (simp add: assms(3))
  from gallery_okD(3) [OF this assms(4-6)] show ?thesis
    unfolding served_well_def complete_def list_all_iff using main_is_rendition by blast
qed

theorem served_images_complete_witness:
  "cat_products (iw_cat demo_world) = [ready_product] \<and> prod_image_key ready_product = Some (public_main_key 7 (hex 0) ''c'') \<and>
   list_all (\<lambda>r. iw_objects demo_world r \<noteq> None) (public_rendition_keys (public_main_key 7 (hex 0) ''c''))"
proof -
  have p: "ready_product \<in> set (cat_products (iw_cat demo_world))" "prod_deleted ready_product = None"
      "prod_image_key ready_product = Some (public_main_key 7 (hex 0) ''c'')"
    by (simp_all add: demo_world_products ready_product_def demo_product_def)
  from served_images_complete [OF demo_behaves(2,1) demo_world_def p] p(3) demo_world_products show ?thesis by blast
qed



text \<open>
  C26. The worker publishes nothing a client uploaded as it was: every object an ingest puts, whatever the others do and
  whatever fails, is the WebP encoding of a picture decoded from bytes within the size cap, of a sniffed
  type on the allow-list and with a header within the pixel cap, scaled down to the maximal dimension.
\<close>
theorem only_reencoded_bytes_published:
  "list_all (\<lambda>(key, data). reencoded (ie_imaging env) (ie_limits env) data)
     (ic_wrote (snd (ingest env key etag (worker_session sched faults w))))"
proof -
  have "publishes env (worker_session sched faults w)" by (simp add: publishes_def worker_session_def)
  with publishes_ingest [of env key etag] show ?thesis unfolding keeps_def publishes_def by blast
qed

section \<open>A lost reclaim\<close>

definition reclaim_world :: image_world where
  "reclaim_world = \<lparr>iw_cat = queue_reclaim 7 (public_main_key 7 (hex 0) ''c'') (empty_catalog\<lparr>cat_next_token := 1\<rparr>),
     iw_objects = (\<lambda>_. None)(upload_key 7 (hex 0) \<mapsto> demo_object), iw_marks = [], iw_queue = [], iw_offered = [(7, hex 0)]\<rparr>"

definition redelivery :: "image_world \<Rightarrow> image_world" where
  "redelivery w = cn_db (snd (ingest demo_env (upload_key 7 (hex 0)) ''x'' (worker_session [] [] w)))"

lemma reclaim_world_ok: "gallery_ok reclaim_world"
proof (rule gallery_okI)
  show "catalog_ok (iw_cat reclaim_world)" using empty_catalog_ok
    by (simp add: reclaim_world_def queue_reclaim_def catalog_ok_def empty_catalog_def)
  have "image_name 7 (hex 0) ''c'' (public_main_key 7 (hex 0) ''c'')" by (simp add: image_name_def plain_def [of "''c''"])
  moreover have "spent 7 (hex 0) reclaim_world" "\<not> serves k (iw_cat reclaim_world)" for k
    by (simp_all add: spent_def reclaim_world_def pending_in_def serves_def queue_reclaim_def empty_catalog_def)
  ultimately show "dead (rcl_key r) reclaim_world" if "r \<in> set (cat_reclaims (iw_cat reclaim_world))" for r
    using that unfolding dead_def by (auto simp: reclaim_world_def queue_reclaim_def empty_catalog_def)
qed (auto simp: reclaim_world_def queue_reclaim_def empty_catalog_def)

lemma redelivery_run:
  assumes "iw_objects w (upload_key 7 (hex 0)) = Some demo_object" "iw_marks w = []" "cat_products (iw_cat w) = []"
    "public_main_key 7 (hex 0) ''c'' \<in> rcl_key ` set (cat_reclaims (iw_cat w))"
  shows "iw_objects (redelivery w) (public_main_key 7 (hex 0) ''c'') \<noteq> None" "iw_cat (redelivery w) = iw_cat w" "iw_marks (redelivery w) \<noteq> []"
  using assms unfolding redelivery_def
  by (simp_all add: demo_ingest_simps repo_mark_image_ready_def schedule_reclaim_def repo_current_image_key_def live_product_def
      repo_schedule_image_reclaim_def queue_reclaim_def)

lemma upload_not_public: "plain t \<Longrightarrow> p < 16 ^ 32 \<Longrightarrow> upload_key p t \<noteq> public_main_key p' t' v"
    "plain t \<Longrightarrow> p < 16 ^ 32 \<Longrightarrow> upload_key p t \<noteq> public_thumb_key p' t' v name"
  using parse_upload [of t p] parse_upload_public unfolding public_main_key_def public_thumb_key_def by (metis option.distinct(1))+

text \<open>
  The reclaim queue forgets a request it gets while it is carrying out the same one: a late redelivery
  of the upload writes the objects again after the drain has deleted them, its request conflicts with the
  row in work, and the drain then drops that row. The objects stay, served by no product and queued for
  nobody, and the redelivery is remembered as done.
\<close>

lemma reclaim_forgets_redelivery:
  "gallery_ok reclaim_world \<and>
   (case drain_reclaims demo_env 20 60 (worker_session [id, id, id, id, id, redelivery] [] reclaim_world) of
      (r, c) \<Rightarrow> r = Inr 1 \<and> iw_objects (cn_db c) (public_main_key 7 (hex 0) ''c'') \<noteq> None \<and> cat_reclaims (iw_cat (cn_db c)) = [] \<and>
        cat_products (iw_cat (cn_db c)) = [] \<and> iw_marks (cn_db c) \<noteq> [])"
  apply (rule conjI [OF reclaim_world_ok])
  apply (simp add: drain_reclaims_def worker_session_def stmt_def seen_by_def in_catalog_def repo_claim_image_reclaims_def run_simps
    due_reclaims_def reclaim_world_def queue_reclaim_def empty_catalog_def reclaim_one_def)
  apply (simp add: public_rendition_main thumbnail_sizes_def store_delete_def stmt_def seen_by_def run_simps repo_current_image_key_def live_product_def)
  by (simp add: seen_by_def repo_finish_image_reclaim_def stmt_def run_simps redelivery_run(2,3) redelivery_run(1) [unfolded not_None_eq] upload_not_public upload_not_public [symmetric])

end
