(* ===== verification/Conditional_Requests.thy ===== *)
theory Conditional_Requests
  imports Catalog_Properties
begin

text \<open>
  \<^verbatim>\<open>shared/api/etag.py\<close>: entity tags and the \<open>If-Match\<close> header, and what a conditional update of a product
  promises a client that sends back the tag it was given.
\<close>

section \<open>Headers\<close>

definition etag_of :: "int \<Rightarrow> string" where
  "etag_of ver = [CHR 0x22] @ str_int ver @ [CHR 0x22]"

text \<open>\<open>^"(\d+)"$\<close> on ASCII text.\<close>

definition quoted_integer :: "string \<Rightarrow> int option" where
  "quoted_integer t =
     (if 3 \<le> length t \<and> hd t = CHR 0x22 \<and> last t = CHR 0x22 \<and> list_all is_digit (butlast (tl t))
      then Some (digits_value (butlast (tl t))) else None)"

text \<open>No precondition, the version to compare, or the status of the refusal.\<close>

definition parse_if_match :: "string option \<Rightarrow> nat + int option" where
  "parse_if_match header =
     (case header of
        None \<Rightarrow> Inr None
      | Some h \<Rightarrow>
          if strip h = ''*'' then Inr None
          else (case quoted_integer (strip h) of None \<Rightarrow> Inl 400 | Some n \<Rightarrow> Inr (Some n)))"

definition set_etag :: "(string \<rightharpoonup> string) \<Rightarrow> int \<Rightarrow> (string \<rightharpoonup> string)" where
  "set_etag headers ver = headers(''ETag'' \<mapsto> etag_of ver)"

lemma is_blank_quote: "\<not> is_blank (CHR 0x22)"
  by (simp add: is_blank_def)

lemma strip_etag: "strip (etag_of v) = etag_of v"
  using is_blank_quote by (intro strip_unblank) (auto simp: etag_of_def)

lemma parse_etag: "parse_if_match (Some (etag_of (int n))) = Inr (Some (int n))"
proof -
  have digits: "str_int (int n) = str_nat n" by (simp add: str_int_def)
  have "Suc 0 \<le> length (str_nat n)" using str_nat_digits [of n] by (simp add: Suc_le_eq)
  then have "quoted_integer (etag_of (int n)) = Some (int n)"
    using str_nat_digits [of n] by (simp add: quoted_integer_def etag_of_def digits butlast_append digits_value_str_nat)
  moreover have "etag_of (int n) \<noteq> ''*''" by (simp add: etag_of_def)
  ultimately show ?thesis by (simp add: parse_if_match_def strip_etag)
qed

text \<open>A client that sends back the \<open>ETag\<close> header of a response asks for exactly that version.\<close>

lemma header_echo: "parse_if_match (set_etag headers (int n) ''ETag'') = Inr (Some (int n))"
  by (simp add: set_etag_def parse_etag)

text \<open>Weak tags, lists and unquoted numbers are refused.\<close>

lemma parse_if_match_refuses:
  "parse_if_match (Some ''W/1'') = Inl 400" "parse_if_match (Some ''1'') = Inl 400" "parse_if_match (Some '''') = Inl 400"
  "parse_if_match (Some (etag_of 1 @ '', '' @ etag_of 2)) = Inl 400"
  by code_simp+

section \<open>The conditional update\<close>

lemma commit_refreshed_version:
  assumes ok: "catalog_ok d" and seen: "seen p d" and change: "new \<noteq> p"
    and run: "atomic (thn (commit_versioned p new (add_cat_outbox e)) (refreshed (prod_id p))) d = (Inr r, d')"
  shows "prod_version r = prod_version p + 1"
proof -
  let ?f = "\<lambda>v. (set_columns p new v)\<lparr>prod_version := prod_version v + 1, prod_updated := cat_clock d\<rparr>"
  have there: "list_ex (versioned_row p) (cat_products d)" and row: "row_of (prod_id p) d' = Some r"
    and rows: "cat_products d' = update_where (versioned_row p) ?f (cat_products d)"
    using run change by (auto simp: atomic_run thn_run commit_versioned_def refreshed_def bnd_run add_cat_outbox_def split: if_splits option.splits)
  have r: "r \<in> set (cat_products d')" "prod_id r = prod_id p" using row find_Some_mem by (fastforce simp: row_of_def)+
  then obtain v where v: "v \<in> set (cat_products d)" "r = (if versioned_row p v then ?f v else v)" by (auto simp: rows update_where_def)
  have "prod_id v = prod_id p" using v(2) r(2) by (auto simp: set_columns_def split: if_splits)
  then have "versioned_row p v" using seen_versioned [OF ok seen there] v(1) by metis
  then show ?thesis using v(2) by (simp add: versioned_row_def)
qed

lemma update_flush_version:
  assumes change: "apply_changes patch p \<noteq> p"
  shows "cat.guarded (holds_product p) (repo_update_product (prod_id p) patch (updated_event patch p)) (\<lambda>r _. prod_version r = prod_version p + 1)"
  unfolding repo_update_product_def
proof (rule cat.guarded_bnd)
  show "cat.guarded (holds_product p) (load_aggregate (prod_id p)) (\<lambda>agg c. agg = p \<and> holds_product p c)"
    by (rule cat_rg_load_from [OF _ survives_holds])
  fix agg
  have "cat.guarded (holds_product p)
      (stmt (thn (commit_versioned p (apply_changes patch p) (add_cat_outbox (updated_event patch p))) (refreshed (prod_id p))))
      (\<lambda>r _. prod_version r = prod_version p + 1)"
  proof (rule cat.guarded_stmt [OF survives_holds])
    fix c r d' assume c: "holds_product p c" "catalog_ok (cn_db c)"
      and run: "atomic (thn (commit_versioned p (apply_changes patch p) (add_cat_outbox (updated_event patch p))) (refreshed (prod_id p))) (cn_db c) = (r, d')"
    have "seen p (cn_db c)" using c(1) by (simp add: holds_product_def)
    then show "catalog_step (cn_db c) d' \<and> (\<forall>x. r = Inr x \<longrightarrow> prod_version x = prod_version p + 1)"
      using update_flush_step [OF change c run] commit_refreshed_version [OF c(2) _ change] run by blast
  qed
  then show "cat.guarded (\<lambda>c. agg = p \<and> holds_product p c)
      (stmt (thn (commit_versioned agg (apply_changes patch agg) (add_cat_outbox (updated_event patch p))) (refreshed (prod_id p))))
      (\<lambda>r _. prod_version r = prod_version p + 1)" by (intro cat.guarded_pure) simp
qed

lemma rg_if_match: "cat.guarded P (check_if_match (Some n) p) (\<lambda>_ c. prod_version p = n \<and> P c)"
  by (simp add: check_if_match_def cat.guarded_def catalog_step_refl)

lemma rg_respond_version: "cat.guarded (\<lambda>_. prod_version r = n) (bnd (product_respond base r) (\<lambda>x. ret (Some x)))
    (\<lambda>y _. \<forall>x. y = Some x \<longrightarrow> prod_version (rsp_product x) = n)"
proof (rule cat.guarded_bnd)
  show "cat.guarded (\<lambda>_. prod_version r = n) (product_respond base r) (\<lambda>x _. prod_version (rsp_product x) = n)"
    by (auto simp: cat.guarded_def catalog_step_refl product_respond_def product_response_of_def split: sum.splits)
qed (auto intro: cat.guarded_ret)

lemma rg_conditional_update:
  "cat.guarded (\<lambda>c. cn_keeps c \<and> effective (UpdateProduct pid m adm patch (Some n)) c) (svc_update_product base pid m adm patch (Some n))
     (\<lambda>y _. \<forall>x. y = Some x \<longrightarrow> prod_version (rsp_product x) = n + 1)"
  unfolding svc_update_product_def
proof (rule cat.guarded_bnd)
  show "cat.guarded (\<lambda>c. cn_keeps c \<and> effective (UpdateProduct pid m adm patch (Some n)) c) (repo_get_product pid)
      (\<lambda>row c. (\<forall>p. row = Some p \<longrightarrow> apply_changes patch p \<noteq> p) \<and> (case row of None \<Rightarrow> True | Some p \<Rightarrow> prod_id p = pid \<and> holds_product p c))"
    by (rule cat.guarded_pre [OF cat.guarded_answer [OF cat_rg_get]]) (auto split: sum.splits option.splits)
  fix row
  let ?rest = "\<lambda>p. thn (assert_product_owner (prod_merchant p) m adm) (thn (check_if_match (Some n) p)
      (bnd (repo_update_product (prod_id p) patch (updated_event patch p)) (\<lambda>r. bnd (product_respond base r) (\<lambda>x. ret (Some x)))))"
  show "cat.guarded (\<lambda>c. (\<forall>p. row = Some p \<longrightarrow> apply_changes patch p \<noteq> p) \<and> (case row of None \<Rightarrow> True | Some p \<Rightarrow> prod_id p = pid \<and> holds_product p c))
      (case row of None \<Rightarrow> ret None | Some p \<Rightarrow> ?rest p) (\<lambda>y _. \<forall>x. y = Some x \<longrightarrow> prod_version (rsp_product x) = n + 1)"
  proof (cases row)
    case (Some p)
    have "cat.guarded (\<lambda>c. apply_changes patch p \<noteq> p \<and> holds_product p c) (?rest p) (\<lambda>y _. \<forall>x. y = Some x \<longrightarrow> prod_version (rsp_product x) = n + 1)"
    proof (rule cat.guarded_pure)
      assume change: "apply_changes patch p \<noteq> p"
      have "cat.guarded (\<lambda>c. prod_version p = n \<and> holds_product p c)
          (bnd (repo_update_product (prod_id p) patch (updated_event patch p)) (\<lambda>r. bnd (product_respond base r) (\<lambda>x. ret (Some x))))
          (\<lambda>y _. \<forall>x. y = Some x \<longrightarrow> prod_version (rsp_product x) = n + 1)"
        by (rule cat.guarded_pure, rule cat.guarded_bnd [OF update_flush_version [OF change]]) (auto intro: rg_respond_version)
      then show "cat.guarded (holds_product p) (?rest p) (\<lambda>y _. \<forall>x. y = Some x \<longrightarrow> prod_version (rsp_product x) = n + 1)"
        by (intro cat.guarded_thn [OF cat_rg_owner] cat.guarded_thn [OF rg_if_match])
    qed
    then show ?thesis unfolding Some option.case by (rule cat.guarded_pre) simp_all
  qed (auto intro: cat.guarded_ret)
qed

section \<open>Property\<close>


definition tagged_catalog :: catalog_db where
  "tagged_catalog = run_requests None [(CreateProduct 7 1 sample_create, [], [])] empty_catalog"

lemma tagged_catalog_ok: "catalog_ok tagged_catalog"
  using history_keeps [of empty_catalog "[(CreateProduct 7 1 sample_create, [], [])]" None] empty_catalog_ok
  by (simp add: tagged_catalog_def others_keep_def catalog_step_def)

definition tagged_update :: "exn + product_response option" where
  "tagged_update = fst (svc_update_product None 7 1 False (price_patch 15) (Some 1) (session_of [id] [] tagged_catalog))"

lemma tagged_update_answers: "case tagged_update of Inr (Some x) \<Rightarrow> True | _ \<Rightarrow> False"
  by code_simp

lemma tagged_update_run:
  obtains x c where "tagged_update = Inr (Some x)"
    "svc_update_product None 7 1 False (price_patch 15) (Some 1) (session_of [id] [] tagged_catalog) = (Inr (Some x), c)"
proof -
  obtain r c where run: "svc_update_product None 7 1 False (price_patch 15) (Some 1) (session_of [id] [] tagged_catalog) = (r, c)"
    by (rule prod.exhaust)
  then have r: "tagged_update = r" by (simp add: tagged_update_def)
  show thesis using tagged_update_answers that run unfolding r by (auto split: sum.splits option.splits)
qed


end
