(* ===== verification/Identity.thy ===== *)
theory Identity
  imports Events
begin

text \<open>
  \<^verbatim>\<open>identity\<close>: the local mirror of the Keycloak accounts. Its rows are written by just-in-time provisioning
  (the first request of a caller, \<open>get_current_db_user\<close> in \<^verbatim>\<open>bootstrap/container.py\<close>) and by the admin's
  \<open>disable_user\<close>, each in a transaction that holds the advisory lock of the account. Any number of such
  tasks are interleaved; \<open>lock_key\<close> is the digest of \<open>_lock_key\<close>, a parameter (two accounts that share a
  key only wait for each other).
\<close>

section \<open>The schema\<close>

record user_row =
  usr_id :: uuid
  usr_sub :: string
  usr_email :: string
  usr_active :: bool
  usr_created :: timestamp
  usr_updated :: timestamp

record user_created =
  uc_user_id :: uuid
  uc_email :: string

record identity_db =
  idn_users :: "user_row list"
  idn_outbox :: "user_created list"
  idn_next :: uuid
  idn_clock :: timestamp

definition user_created_outbox :: "uuid \<Rightarrow> string \<Rightarrow> user_created" where
  "user_created_outbox user_id email = \<lparr>uc_user_id = user_id, uc_email = email\<rparr>"

section \<open>The repository\<close>

definition repo_get_by_oidc_sub :: "string \<Rightarrow> (exn, identity_db, user_row option) prog" where
  "repo_get_by_oidc_sub sub = gets (\<lambda>d. find (\<lambda>u. usr_sub u = sub) (idn_users d))"

definition repo_get_user_by_id :: "uuid \<Rightarrow> (exn, identity_db, user_row option) prog" where
  "repo_get_user_by_id user_id = gets (\<lambda>d. find (\<lambda>u. usr_id u = user_id) (idn_users d))"

text \<open>\<open>INSERT .. ON CONFLICT (oidc_sub) DO UPDATE .. RETURNING\<close>: the row, and whether it was inserted.\<close>

definition upsert_user :: "string \<Rightarrow> string \<Rightarrow> bool \<Rightarrow> (exn, identity_db, user_row \<times> bool) prog" where
  "upsert_user sub email is_active = (\<lambda>d.
     case find (\<lambda>u. usr_sub u = sub) (idn_users d) of
       Some u \<Rightarrow>
         (let v = u\<lparr>usr_email := email, usr_updated := idn_clock d, usr_active := (if \<not> is_active then False else usr_active u)\<rparr> in
          (Inr (v, False), d\<lparr>idn_users := update_where (\<lambda>r. usr_sub r = sub) (\<lambda>_. v) (idn_users d)\<rparr>))
     | None \<Rightarrow>
         (let v = \<lparr>usr_id = idn_next d, usr_sub = sub, usr_email = email, usr_active = is_active,
                   usr_created = idn_clock d, usr_updated = idn_clock d\<rparr> in
          (Inr (v, True), d\<lparr>idn_users := idn_users d @ [v], idn_next := Suc (idn_next d)\<rparr>)))"

definition add_idn_outbox :: "user_created \<Rightarrow> (exn, identity_db, unit) prog" where
  "add_idn_outbox e = modify (\<lambda>d. d\<lparr>idn_outbox := idn_outbox d @ [e]\<rparr>)"

text \<open>The statements of \<open>get_or_create\<close> between taking the lock and the commit.\<close>

definition repo_get_or_create ::
  "string \<Rightarrow> string \<Rightarrow> (uuid \<Rightarrow> string \<Rightarrow> user_created) option \<Rightarrow> bool \<Rightarrow> (exn, identity_db, user_row) prog" where
  "repo_get_or_create sub email outbox is_active =
     bnd (upsert_user sub email is_active) (\<lambda>(row, inserted).
       case outbox of
         Some f \<Rightarrow> if inserted then thn (add_idn_outbox (f (usr_id row) (usr_email row))) (ret row) else ret row
       | None \<Rightarrow> ret row)"

definition repo_set_active :: "string \<Rightarrow> bool \<Rightarrow> (exn, identity_db, user_row option) prog" where
  "repo_set_active sub is_active = (\<lambda>d.
     let rows = update_where (\<lambda>u. usr_sub u = sub) (\<lambda>u. u\<lparr>usr_active := is_active, usr_updated := idn_clock d\<rparr>) (idn_users d) in
     (Inr (find (\<lambda>u. usr_sub u = sub) rows), d\<lparr>idn_users := rows\<rparr>))"

section \<open>Reads\<close>

text \<open>\<open>IdentityService\<close>; a \<open>UserResponse\<close> has the fields of the row.\<close>

definition svc_get_by_oidc_sub :: "string \<Rightarrow> (exn, identity_db, user_row option) prog" where
  "svc_get_by_oidc_sub sub = repo_get_by_oidc_sub sub"

definition svc_get_user_by_id :: "uuid \<Rightarrow> (exn, identity_db, user_row option) prog" where
  "svc_get_user_by_id user_id = repo_get_user_by_id user_id"

section \<open>Tasks\<close>

text \<open>
  \<open>Request sub email\<close> is \<open>get_current_db_user\<close> with the claims of a verified token, \<open>DisableUser sub\<close> the
  admin use case. A stage names the await the task is at: \<open>Locking\<close> waits for the advisory lock, which is
  held from then on until the transaction ends; \<open>Provisioning\<close> and \<open>Mirroring\<close> run their statements and
  commit (one step: nobody sees a row before the commit, and only the owner of the lock writes it);
  \<open>Asking\<close> and \<open>Disabling\<close> call Keycloak.
\<close>

datatype identity_task = Request string "string option" | DisableUser string

datatype identity_stage =
    Locking
  | Provisioning
  | Asking
  | Mirroring "string option"
  | Disabling
  | Finished "exn + user_row option"

record identity_world =
  iw_db :: identity_db
  iw_locks :: "int \<Rightarrow> nat option"
  iw_tasks :: "(identity_task \<times> identity_stage) list"

text \<open>What the awaited call answers: Keycloak's answers are the environment's.\<close>

datatype identity_reply = Replied fault | EmailReply "exn + string option" | KeycloakReply "exn + unit"

definition unlock :: "nat \<Rightarrow> identity_world \<Rightarrow> identity_world" where
  "unlock i w = w\<lparr>iw_locks := (\<lambda>k. if iw_locks w k = Some i then None else iw_locks w k)\<rparr>"

definition repo_lock :: "(string \<Rightarrow> int) \<Rightarrow> nat \<Rightarrow> string \<Rightarrow> identity_world \<Rightarrow> identity_world option" where
  "repo_lock lock_key i sub w =
     (if iw_locks w (lock_key sub) \<in> {None, Some i} then Some (w\<lparr>iw_locks := (iw_locks w)(lock_key sub \<mapsto> i)\<rparr>) else None)"

text \<open>The end of a transaction; a lost connection or a cancelled task rolls back, or learns too late that it committed.\<close>

definition commit_identity :: "fault \<Rightarrow> nat \<Rightarrow> (exn, identity_db, 'a) prog \<Rightarrow> identity_world \<Rightarrow> (exn + 'a) \<times> identity_world" where
  "commit_identity f i m w =
     (let (r, d) = atomic m (iw_db w) in
      case f of
        Fine \<Rightarrow> (r, unlock i (w\<lparr>iw_db := d\<rparr>))
      | Lost e \<Rightarrow> (Inl e, unlock i w)
      | Landed e \<Rightarrow> (Inl e, unlock i (w\<lparr>iw_db := d\<rparr>)))"

text \<open>\<open>if not user.is_active\<close>.\<close>

definition admitted :: "exn + user_row \<Rightarrow> exn + user_row option" where
  "admitted r = (case r of Inl e \<Rightarrow> Inl e | Inr u \<Rightarrow> if usr_active u then Inr (Some u) else Inl (AuthorizationError ''account disabled''))"

text \<open>One await of a task; no value where the lock is taken and the task waits on.\<close>

fun request_step ::
  "(string \<Rightarrow> int) \<Rightarrow> nat \<Rightarrow> fault \<Rightarrow> string \<Rightarrow> string option \<Rightarrow> identity_stage \<Rightarrow> identity_world \<Rightarrow> (identity_stage \<times> identity_world) option" where
  "request_step lock_key i f sub None Locking w =
     Some (Finished (Inl (AuthenticationError ''token is missing the required 'email' claim'')), w)"
| "request_step lock_key i Fine sub (Some email) Locking w = map_option (Pair Provisioning) (repo_lock lock_key i sub w)"
| "request_step lock_key i (Lost e) sub (Some email) Locking w = Some (Finished (Inl e), w)"
| "request_step lock_key i (Landed e) sub (Some email) Locking w = Some (Finished (Inl e), w)"
| "request_step lock_key i f sub (Some email) Provisioning w =
     (let (r, w') = commit_identity f i (repo_get_or_create sub email (Some user_created_outbox) True) w in
      Some (Finished (admitted r), w'))"
| "request_step lock_key i f sub email st w = None"

definition mirror_disabled :: "string \<Rightarrow> string option \<Rightarrow> (exn, identity_db, unit) prog" where
  "mirror_disabled sub email =
     (case email of
        None \<Rightarrow> thn (repo_set_active sub False) (ret ())
      | Some e \<Rightarrow> thn (repo_get_or_create sub e None False) (ret ()))"

fun disable_step ::
  "(string \<Rightarrow> int) \<Rightarrow> nat \<Rightarrow> identity_reply \<Rightarrow> string \<Rightarrow> identity_stage \<Rightarrow> identity_world \<Rightarrow> (identity_stage \<times> identity_world) option" where
  "disable_step lock_key i (Replied Fine) sub Locking w = map_option (Pair Asking) (repo_lock lock_key i sub w)"
| "disable_step lock_key i (Replied (Lost e)) sub Locking w = Some (Finished (Inl e), w)"
| "disable_step lock_key i (Replied (Landed e)) sub Locking w = Some (Finished (Inl e), w)"
| "disable_step lock_key i (EmailReply (Inl e)) sub Asking w = Some (Finished (Inl e), unlock i w)"
| "disable_step lock_key i (EmailReply (Inr email)) sub Asking w = Some (Mirroring email, w)"
| "disable_step lock_key i (Replied f) sub (Mirroring email) w =
     (let (r, w') = commit_identity f i (mirror_disabled sub email) w in
      Some (case r of Inl e \<Rightarrow> Finished (Inl e) | Inr _ \<Rightarrow> Disabling, w'))"
| "disable_step lock_key i (KeycloakReply (Inl e)) sub Disabling w = Some (Finished (Inl e), w)"
| "disable_step lock_key i (KeycloakReply (Inr _)) sub Disabling w = Some (Finished (Inr None), w)"
| "disable_step lock_key i r sub st w = None"

fun identity_task_step ::
  "(string \<Rightarrow> int) \<Rightarrow> nat \<Rightarrow> identity_reply \<Rightarrow> identity_task \<Rightarrow> identity_stage \<Rightarrow> identity_world \<Rightarrow> (identity_stage \<times> identity_world) option" where
  "identity_task_step lock_key i (Replied f) (Request sub email) st w = request_step lock_key i f sub email st w"
| "identity_task_step lock_key i r (Request sub email) st w = None"
| "identity_task_step lock_key i r (DisableUser sub) st w = disable_step lock_key i r sub st w"

text \<open>Time passes, a task starts, a task takes its next step, a process dies and its transaction with it.\<close>

inductive identity_step :: "(string \<Rightarrow> int) \<Rightarrow> identity_world \<Rightarrow> identity_world \<Rightarrow> bool" for lock_key where
  tick: "idn_clock (iw_db w) \<le> t \<Longrightarrow> identity_step lock_key w (w\<lparr>iw_db := (iw_db w)\<lparr>idn_clock := t\<rparr>\<rparr>)"
| start: "identity_step lock_key w (w\<lparr>iw_tasks := iw_tasks w @ [(task, Locking)]\<rparr>)"
| advance: "i < length (iw_tasks w) \<Longrightarrow> iw_tasks w ! i = (task, st) \<Longrightarrow>
     identity_task_step lock_key i r task st w = Some (st', w') \<Longrightarrow>
     identity_step lock_key w (w'\<lparr>iw_tasks := (iw_tasks w)[i := (task, st')]\<rparr>)"
| crash: "i < length (iw_tasks w) \<Longrightarrow> iw_tasks w ! i = (task, st) \<Longrightarrow> (\<forall>r. st \<noteq> Finished r) \<Longrightarrow>
     identity_step lock_key w ((unlock i w)\<lparr>iw_tasks := (iw_tasks w)[i := (task, Finished (Inl ProcessCrash))]\<rparr>)"

definition fresh_identity :: identity_world where
  "fresh_identity = \<lparr>iw_db = \<lparr>idn_users = [], idn_outbox = [], idn_next = 1, idn_clock = 0\<rparr>, iw_locks = (\<lambda>_. None), iw_tasks = []\<rparr>"

end
