(* ===== verification/Identity_Properties.thy ===== *)
theory Identity_Properties
  imports Identity
begin

text \<open>
  What the identity mirror promises under every interleaving and failure of requests and disables: rows and
  announcements are unique, and a disabled account is not served again, from the moment the disable holds
  the lock.
\<close>

section \<open>The database\<close>

definition mirror_ok :: "identity_db \<Rightarrow> bool" where
  "mirror_ok d \<longleftrightarrow> distinct (map usr_sub (idn_users d)) \<and> distinct (map usr_id (idn_users d)) \<and>
     (\<forall>u \<in> set (idn_users d). usr_id u < idn_next d) \<and> distinct (map uc_user_id (idn_outbox d)) \<and>
     uc_user_id ` set (idn_outbox d) \<subseteq> usr_id ` set (idn_users d) \<and>
     (\<forall>u \<in> set (idn_users d). usr_active u \<longrightarrow> usr_id u \<in> uc_user_id ` set (idn_outbox d))"

definition blocked :: "string \<Rightarrow> identity_db \<Rightarrow> bool" where
  "blocked sub d \<longleftrightarrow> (\<exists>u \<in> set (idn_users d). usr_sub u = sub \<and> \<not> usr_active u)"

definition registered :: "string \<Rightarrow> identity_db \<Rightarrow> bool" where
  "registered sub d \<longleftrightarrow> sub \<in> usr_sub ` set (idn_users d)"

text \<open>No write deletes a row, wakes a disabled account up or withdraws an announcement.\<close>

definition mirror_step :: "identity_db \<Rightarrow> identity_db \<Rightarrow> bool" where
  "mirror_step d d' \<longleftrightarrow> (mirror_ok d \<longrightarrow> mirror_ok d') \<and> set (idn_outbox d) \<subseteq> set (idn_outbox d') \<and>
     (\<forall>sub. blocked sub d \<longrightarrow> blocked sub d') \<and> (\<forall>sub. registered sub d \<longrightarrow> registered sub d')"

lemma mirror_step_refl [simp]: "mirror_step d d"
  by (simp add: mirror_step_def)

lemma mirror_step_tick: "mirror_step d (d\<lparr>idn_clock := t\<rparr>)"
  by (simp add: mirror_step_def mirror_ok_def blocked_def registered_def)

text \<open>Replacing the row of an account by one with its keys that is not more active.\<close>

lemma mirror_step_map:
  assumes g: "\<And>u. usr_sub (g u) = usr_sub u" "\<And>u. usr_id (g u) = usr_id u" "\<And>u. usr_active (g u) \<Longrightarrow> usr_active u"
  shows "mirror_step d (d\<lparr>idn_users := map g (idn_users d)\<rparr>)"
proof -
  have keys: "map usr_sub (map g us) = map usr_sub us" "map usr_id (map g us) = map usr_id us"
    "usr_id ` g ` S = usr_id ` S" "usr_sub ` g ` S = usr_sub ` S" for us S
    using g by (simp_all add: image_image)
  have "blocked sub (d\<lparr>idn_users := map g (idn_users d)\<rparr>)" if "blocked sub d" for sub
    using that g by (auto simp: blocked_def)
  moreover have "mirror_ok (d\<lparr>idn_users := map g (idn_users d)\<rparr>)" if "mirror_ok d"
    using that g unfolding mirror_ok_def by (simp add: keys del: map_map)
  ultimately show ?thesis by (simp add: mirror_step_def registered_def keys)
qed

lemma mirror_step_replace:
  assumes "\<And>u. usr_sub (f u) = usr_sub u \<and> usr_id (f u) = usr_id u \<and> (usr_active (f u) \<longrightarrow> usr_active u)"
  shows "mirror_step d (d\<lparr>idn_users := update_where (\<lambda>u. usr_sub u = sub) f (idn_users d)\<rparr>)"
  unfolding update_where_def by (rule mirror_step_map) (use assms in \<open>auto split: if_splits\<close>)

lemma mirror_step_set_active: "mirror_step d (snd (repo_set_active sub False d))"
  unfolding repo_set_active_def Let_def snd_conv by (rule mirror_step_replace) simp

lemma updated_member: "r \<in> set rs \<Longrightarrow> p r \<Longrightarrow> f r \<in> set (update_where p f rs)"
  by (auto simp: set_update_where)

lemma set_active_blocks:
  assumes "registered sub d"
  shows "blocked sub (snd (repo_set_active sub False d))"
proof -
  obtain u where u: "u \<in> set (idn_users d)" "usr_sub u = sub" using assms by (auto simp: registered_def)
  then have "u\<lparr>usr_active := False, usr_updated := idn_clock d\<rparr> \<in> set (idn_users (snd (repo_set_active sub False d)))"
    by (simp add: repo_set_active_def Let_def updated_member [where f = "\<lambda>u. u\<lparr>usr_active := False, usr_updated := idn_clock d\<rparr>"])
  with u show ?thesis unfolding blocked_def by (intro bexI [of _ "u\<lparr>usr_active := False, usr_updated := idn_clock d\<rparr>"]) simp_all
qed

lemma find_sub: "mirror_ok d \<Longrightarrow> find (\<lambda>u. usr_sub u = sub) (idn_users d) = Some u \<longleftrightarrow> u \<in> set (idn_users d) \<and> usr_sub u = sub"
  using find_unique [of usr_sub "idn_users d" u] by (auto simp: mirror_ok_def dest: find_Some_mem)

text \<open>What provisioning and the mirror write of a disable do.\<close>

lemma get_or_create_existing:
  assumes "mirror_ok d" and u: "u \<in> set (idn_users d)" "usr_sub u = sub"
  shows "repo_get_or_create sub email out act d =
    (Inr (u\<lparr>usr_email := email, usr_updated := idn_clock d, usr_active := (act \<and> usr_active u)\<rparr>),
     d\<lparr>idn_users := update_where (\<lambda>r. usr_sub r = sub) (\<lambda>r. r\<lparr>usr_email := email, usr_updated := idn_clock d, usr_active := (act \<and> usr_active r)\<rparr>) (idn_users d)\<rparr>)"
proof -
  have "find (\<lambda>u. usr_sub u = sub) (idn_users d) = Some u" using assms by (simp add: find_sub)
  moreover have same: "update_where (\<lambda>r. usr_sub r = sub) (\<lambda>_. g u) (idn_users d) = update_where (\<lambda>r. usr_sub r = sub) g (idn_users d)" for g
  proof -
    have "r = u" if "r \<in> set (idn_users d)" "usr_sub r = sub" for r
      using that assms by (auto simp: mirror_ok_def distinct_map dest: inj_onD)
    then show ?thesis unfolding update_where_def by (intro map_cong) auto
  qed
  ultimately show ?thesis
    using same [of "\<lambda>r. r\<lparr>usr_email := email, usr_updated := idn_clock d\<rparr>"]
      same [of "\<lambda>r. r\<lparr>usr_email := email, usr_updated := idn_clock d, usr_active := False\<rparr>"]
    by (cases act) (simp_all add: repo_get_or_create_def upsert_user_def bnd_run Let_def split: option.split)
qed

lemma get_or_create_new:
  assumes "\<not> registered sub d"
  shows "repo_get_or_create sub email out act d =
    (let u = \<lparr>usr_id = idn_next d, usr_sub = sub, usr_email = email, usr_active = act, usr_created = idn_clock d, usr_updated = idn_clock d\<rparr> in
     (Inr u, d\<lparr>idn_users := idn_users d @ [u], idn_next := Suc (idn_next d),
       idn_outbox := (case out of None \<Rightarrow> idn_outbox d | Some f \<Rightarrow> idn_outbox d @ [f (idn_next d) email])\<rparr>))"
proof -
  have "find (\<lambda>u. usr_sub u = sub) (idn_users d) = None" using assms by (auto simp: registered_def find_None)
  then show ?thesis
    by (simp add: repo_get_or_create_def upsert_user_def bnd_run thn_run add_idn_outbox_def Let_def split: option.split)
qed

lemma get_or_create_effect:
  assumes ok: "mirror_ok d" and run: "repo_get_or_create sub email out act d = (r, d')"
    and out: "if act then out = Some user_created_outbox else out = None"
  obtains u where "r = Inr u" "mirror_step d d'" "u \<in> set (idn_users d')" "usr_sub u = sub" "usr_active u \<longrightarrow> act \<and> \<not> blocked sub d"
proof (cases "registered sub d")
  case True
  then obtain v where v: "v \<in> set (idn_users d)" "usr_sub v = sub" by (auto simp: registered_def)
  have "mirror_step d d'" using run unfolding get_or_create_existing [OF ok v] by (auto intro: mirror_step_replace)
  moreover have "blocked sub d \<longrightarrow> \<not> usr_active v" using v ok by (auto simp: blocked_def mirror_ok_def distinct_map dest: inj_onD)
  moreover have "r = Inr (v\<lparr>usr_email := email, usr_updated := idn_clock d, usr_active := (act \<and> usr_active v)\<rparr>)"
    using run unfolding get_or_create_existing [OF ok v] by simp
  moreover have "v\<lparr>usr_email := email, usr_updated := idn_clock d, usr_active := (act \<and> usr_active v)\<rparr> \<in> set (idn_users d')"
    using run updated_member [OF v(1), of "\<lambda>r. usr_sub r = sub"] v(2) unfolding get_or_create_existing [OF ok v] by fastforce
  ultimately show thesis using that v by auto
next
  case False
  have fresh: "idn_next d \<notin> usr_id ` set (idn_users d)" "sub \<notin> usr_sub ` set (idn_users d)" using ok False by (auto simp: mirror_ok_def registered_def)
  moreover have "\<not> blocked sub d" using False by (auto simp: registered_def blocked_def)
  moreover have "idn_next d \<notin> uc_user_id ` set (idn_outbox d)" using ok fresh by (auto simp: mirror_ok_def)
  ultimately have "mirror_step d d'" using run out ok unfolding get_or_create_new [OF False] Let_def
    by (cases act) (auto simp: mirror_step_def mirror_ok_def blocked_def registered_def user_created_outbox_def image_subset_iff less_SucI)
  then show thesis using that run \<open>\<not> blocked sub d\<close> unfolding get_or_create_new [OF False] Let_def by auto
qed

section \<open>Tasks\<close>

fun holding :: "identity_stage \<Rightarrow> bool" where
  "holding Provisioning = True"
| "holding Asking = True"
| "holding (Mirroring email) = True"
| "holding st = False"

primrec task_sub :: "identity_task \<Rightarrow> string" where
  "task_sub (Request sub email) = sub"
| "task_sub (DisableUser sub) = sub"

text \<open>What one step of task i does to the database, to the locks and to its caller.\<close>

definition task_effect ::
  "(string \<Rightarrow> int) \<Rightarrow> nat \<Rightarrow> identity_task \<Rightarrow> identity_stage \<Rightarrow> identity_world \<Rightarrow> identity_stage \<Rightarrow> identity_world \<Rightarrow> bool" where
  "task_effect lock_key i task st w st' w' \<longleftrightarrow>
     mirror_step (iw_db w) (iw_db w') \<and> iw_tasks w' = iw_tasks w \<and>
     (\<forall>k j. j \<noteq> i \<longrightarrow> iw_locks w k = Some j \<longrightarrow> iw_locks w' k = Some j) \<and>
     (holding st' \<longrightarrow> iw_locks w' (lock_key (task_sub task)) = Some i \<or> holding st \<and> iw_locks w' = iw_locks w) \<and>
     (\<forall>u. st' = Finished (Inr (Some u)) \<longrightarrow> st = Provisioning \<and> (\<exists>e. task = Request (task_sub task) e) \<and>
        \<not> blocked (task_sub task) (iw_db w) \<and> usr_active u \<and> u \<in> set (idn_users (iw_db w'))) \<and>
     st' \<noteq> Locking \<and> (st' = Asking \<or> st' = Provisioning \<longrightarrow> st = Locking) \<and> (\<forall>email. st' = Mirroring email \<longrightarrow> st = Asking) \<and> (\<forall>q. st \<noteq> Finished q) \<and>
     (st' = Disabling \<longrightarrow> (\<exists>email. st = Mirroring email \<and>
        (email \<noteq> None \<or> registered (task_sub task) (iw_db w) \<longrightarrow> blocked (task_sub task) (iw_db w'))))"

lemma unlock_simps [simp]:
  "iw_db (unlock i w) = iw_db w" "iw_tasks (unlock i w) = iw_tasks w"
  "iw_locks (unlock i w) = (\<lambda>k. if iw_locks w k = Some i then None else iw_locks w k)"
  by (simp_all add: unlock_def)

lemma commit_effect:
  assumes "commit_identity f i m w = (r, w')" and "m (iw_db w) = (Inr x, d')" and "mirror_step (iw_db w) d'"
  shows "iw_tasks w' = iw_tasks w" "iw_locks w' = iw_locks (unlock i w)" "mirror_step (iw_db w) (iw_db w')"
    "r = Inr y \<Longrightarrow> iw_db w' = d' \<and> y = x"
  using assms by (auto simp: commit_identity_def atomic_run split: fault.splits)

lemma lock_effect:
  assumes "repo_lock lock_key i sub w = Some w'"
  shows "iw_db w' = iw_db w" "iw_tasks w' = iw_tasks w" "iw_locks w' (lock_key sub) = Some i"
    "j \<noteq> i \<Longrightarrow> iw_locks w k = Some j \<Longrightarrow> iw_locks w' k = Some j"
  using assms by (auto simp: repo_lock_def split: if_splits)

lemma map_Pair_eq: "Some (a, b) = map_option (Pair c) x \<longleftrightarrow> a = c \<and> x = Some b"
  by (cases x) auto

lemma provisioning_effect:
  assumes ok: "mirror_ok (iw_db w)"
    and run: "commit_identity f i (repo_get_or_create sub email (Some user_created_outbox) True) w = (r, w')"
  shows "task_effect lock_key i (Request sub (Some email)) Provisioning w (Finished (admitted r)) w'"
proof -
  obtain q d' where q: "repo_get_or_create sub email (Some user_created_outbox) True (iw_db w) = (q, d')" by fastforce
  then obtain u where u: "q = Inr u" "mirror_step (iw_db w) d'" "u \<in> set (idn_users d')" "usr_active u \<longrightarrow> \<not> blocked sub (iw_db w)"
    by (rule get_or_create_effect [OF ok]) auto
  note effect = commit_effect [OF run q [unfolded u(1)] u(2)]
  show ?thesis using effect u by (auto simp: task_effect_def admitted_def split: sum.splits if_splits)
qed

lemma mirror_write:
  assumes "mirror_ok d"
  obtains d' where "mirror_disabled sub email d = (Inr (), d')"
    "mirror_step d d'" "email \<noteq> None \<or> registered sub d \<longrightarrow> blocked sub d'"
proof (cases email)
  case None
  then show thesis using that [of "snd (repo_set_active sub False d)"] mirror_step_set_active [of d sub] set_active_blocks [of sub d]
    by (simp add: mirror_disabled_def thn_run repo_set_active_def Let_def)
next
  case (Some e)
  obtain q d' where q: "repo_get_or_create sub e None False d = (q, d')" by fastforce
  then obtain u where "q = Inr u" "mirror_step d d'" "u \<in> set (idn_users d')" "usr_sub u = sub" "\<not> usr_active u"
    by (rule get_or_create_effect [OF assms]) auto
  then show thesis using that [of d'] q Some by (auto simp: mirror_disabled_def thn_run blocked_def)
qed

lemma task_effect:
  assumes step: "identity_task_step lock_key i r task st w = Some (st', w')" and ok: "mirror_ok (iw_db w)"
  shows "task_effect lock_key i task st w st' w'"
proof (cases task)
  case (Request sub email)
  then obtain f where "request_step lock_key i f sub email st w = Some (st', w')" using step by (cases r) auto
  then show ?thesis
  proof (cases rule: request_step.elims)
    case 5
    then show ?thesis using provisioning_effect [OF ok] by (auto simp: Request split: prod.splits)
  qed (use lock_effect in \<open>auto simp: Request task_effect_def map_Pair_eq\<close>)
next
  case (DisableUser sub)
  then have "disable_step lock_key i r sub st w = Some (st', w')" using step by simp
  then show ?thesis
  proof (cases rule: disable_step.elims)
    case (6 j f s email v)
    obtain d' where d': "mirror_disabled sub email (iw_db w) = (Inr (), d')"
      "mirror_step (iw_db w) d'" and blocks: "email \<noteq> None \<or> registered sub (iw_db w) \<longrightarrow> blocked sub d'" by (rule mirror_write [OF ok, where sub = sub and email = email])
    from 6 obtain q where run: "commit_identity f i (mirror_disabled sub email) w = (q, w')"
      and st: "st = Mirroring email" "st' = (case q of Inl e \<Rightarrow> Finished (Inl e) | Inr _ \<Rightarrow> Disabling)" by (auto split: prod.splits)
    show ?thesis using commit_effect [OF run d'] st blocks by (auto simp: DisableUser task_effect_def split: sum.splits)
  qed (use lock_effect in \<open>auto simp: DisableUser task_effect_def map_Pair_eq\<close>)
qed

section \<open>Interleavings\<close>

definition locks_ok :: "(string \<Rightarrow> int) \<Rightarrow> identity_world \<Rightarrow> bool" where
  "locks_ok lock_key w \<longleftrightarrow> (\<forall>i < length (iw_tasks w). holding (snd (iw_tasks w ! i)) \<longrightarrow>
     iw_locks w (lock_key (task_sub (fst (iw_tasks w ! i)))) = Some i)"

definition served_ok :: "identity_world \<Rightarrow> bool" where
  "served_ok w \<longleftrightarrow> (\<forall>i < length (iw_tasks w). \<forall>u. snd (iw_tasks w ! i) = Finished (Inr (Some u)) \<longrightarrow>
     usr_id u \<in> uc_user_id ` set (idn_outbox (iw_db w)))"

definition identity_ok :: "(string \<Rightarrow> int) \<Rightarrow> identity_world \<Rightarrow> bool" where
  "identity_ok lock_key w \<longleftrightarrow> mirror_ok (iw_db w) \<and> locks_ok lock_key w \<and> served_ok w"

text \<open>A step of the system leaves every task where it is, except new ones and one that moves.\<close>

lemma identity_step_frame:
  assumes "identity_step lock_key w w'" and "mirror_ok (iw_db w)"
  obtains (quiet) new where "mirror_step (iw_db w) (iw_db w')" "iw_locks w' = iw_locks w"
      "iw_tasks w' = iw_tasks w @ map (\<lambda>task. (task, Locking)) new"
  | (move) i task st st' v where "i < length (iw_tasks w)" "iw_tasks w ! i = (task, st)" "task_effect lock_key i task st w st' v"
      "w' = v\<lparr>iw_tasks := (iw_tasks w)[i := (task, st')]\<rparr>"
  using assms(1)
proof cases
  case (tick t)
  then show thesis using quiet [of "[]"] by (simp add: mirror_step_tick)
next
  case (start task)
  then show thesis using quiet [of "[task]"] by simp
next
  case (advance i task st r st' v)
  then show thesis using move [OF advance(2,3) task_effect [OF advance(4) assms(2)]] by simp
next
  case (crash i task st)
  then have "task_effect lock_key i task st w (Finished (Inl ProcessCrash)) (unlock i w)" by (simp add: task_effect_def)
  then show thesis using move crash by blast
qed

lemma identity_ok_step:
  assumes "identity_step lock_key w w'" and ok: "identity_ok lock_key w"
  shows "identity_ok lock_key w' \<and> mirror_step (iw_db w) (iw_db w')"
proof -
  have mirror: "mirror_ok (iw_db w)" using ok by (simp add: identity_ok_def)
  from assms(1) mirror show ?thesis
  proof (cases rule: identity_step_frame)
    case (quiet new)
    then show ?thesis using ok
      by (auto simp: identity_ok_def locks_ok_def served_ok_def mirror_step_def nth_append subset_iff image_iff split: if_splits) blast+
  next
    case (move i task st st' v)
    note effect = move(3) [unfolded task_effect_def]
    have mirror': "mirror_ok (iw_db v)" and grows: "set (idn_outbox (iw_db w)) \<subseteq> set (idn_outbox (iw_db v))"
      using effect mirror by (auto simp: mirror_step_def)
    have "iw_locks v (lock_key (task_sub task)) = Some i" if "holding st'"
      using that effect ok move(1,2) by (fastforce simp: identity_ok_def locks_ok_def)
    moreover have "iw_locks v (lock_key (task_sub (fst (iw_tasks w ! j)))) = Some j"
      if "j < length (iw_tasks w)" "j \<noteq> i" "holding (snd (iw_tasks w ! j))" for j
      using that effect ok by (simp add: identity_ok_def locks_ok_def)
    ultimately have "locks_ok lock_key w'" using move(1) by (auto simp: locks_ok_def move(4) nth_list_update)
    moreover have "usr_id u \<in> uc_user_id ` set (idn_outbox (iw_db v))" if "st' = Finished (Inr (Some u))" for u
      using that effect mirror' by (simp add: mirror_ok_def)
    then have "served_ok w'" using move(1) ok grows by (auto simp: served_ok_def identity_ok_def move(4) nth_list_update) blast
    ultimately show ?thesis using effect mirror' by (simp add: identity_ok_def move(4))
  qed
qed


lemma identity_ok_run: "(identity_step lock_key)\<^sup>*\<^sup>* w w' \<Longrightarrow> identity_ok lock_key w \<Longrightarrow> identity_ok lock_key w'"
  by (induction rule: rtranclp_induct) (auto dest: identity_ok_step)

lemma fresh_identity_ok: "identity_ok lock_key fresh_identity"
  by (simp add: identity_ok_def mirror_ok_def locks_ok_def served_ok_def fresh_identity_def)

section \<open>Who is served\<close>

definition served :: "string \<Rightarrow> identity_world \<Rightarrow> nat set" where
  "served sub w = {j. j < length (iw_tasks w) \<and> (\<exists>email u. iw_tasks w ! j = (Request sub email, Finished (Inr (Some u))))}"

text \<open>Only the owner of the account's lock can newly be served, and only while the account is not disabled.\<close>

lemma newly_served:
  assumes "identity_step lock_key w w'" and ok: "identity_ok lock_key w" and j: "j \<in> served sub w'" "j \<notin> served sub w"
  shows "j < length (iw_tasks w) \<and> (\<exists>email. iw_tasks w ! j = (Request sub email, Provisioning)) \<and>
    iw_locks w (lock_key sub) = Some j \<and> \<not> blocked sub (iw_db w)"
proof -
  have mirror: "mirror_ok (iw_db w)" using ok by (simp add: identity_ok_def)
  from assms(1) mirror show ?thesis
  proof (cases rule: identity_step_frame)
    case (quiet new)
    then show ?thesis using j by (auto simp: served_def nth_append split: if_splits)
  next
    case (move i task st st' v)
    then have i: "j = i" "task_sub task = sub" and st': "\<exists>u. st' = Finished (Inr (Some u))" using j by (auto simp: served_def nth_list_update split: if_splits)
    then have "st = Provisioning" "\<exists>e. task = Request sub e" "\<not> blocked sub (iw_db w)" using move(3) by (auto simp: task_effect_def)
    then show ?thesis using i move(1,2) ok by (fastforce simp: identity_ok_def locks_ok_def)
  qed
qed

lemma blocked_run:
  assumes "(identity_step lock_key)\<^sup>*\<^sup>* w w'" and "identity_ok lock_key w" and "blocked sub (iw_db w)"
  shows "blocked sub (iw_db w') \<and> served sub w' \<subseteq> served sub w"
  using assms
proof (induction rule: rtranclp_induct)
  case (step v v')
  then have v: "identity_ok lock_key v" "blocked sub (iw_db v)" "served sub v \<subseteq> served sub w" by (auto intro: identity_ok_run)
  then have "served sub v' \<subseteq> served sub v" using newly_served [OF step(2)] by blast
  then show ?case using v identity_ok_step [OF step(2) v(1)] by (auto simp: mirror_step_def)
qed simp

text \<open>A disable that holds the lock keeps it until it fails, or writes the mirror.\<close>

lemma disable_progress:
  assumes "identity_step lock_key w w'" and ok: "identity_ok lock_key w" and i: "i < length (iw_tasks w)" "iw_tasks w ! i = (DisableUser sub, st)"
    and st: "st = Asking \<or> (\<exists>email. st = Mirroring email)"
  shows "served sub w' \<subseteq> served sub w \<and> i < length (iw_tasks w') \<and>
    (\<exists>st'. iw_tasks w' ! i = (DisableUser sub, st') \<and>
      (st' = st \<or> st = Asking \<and> (\<exists>email. st' = Mirroring email) \<or> (\<exists>q. st' = Finished q) \<or>
       st' = Disabling \<and> (\<exists>email. st = Mirroring email \<and> (email \<noteq> None \<or> registered sub (iw_db w) \<longrightarrow> blocked sub (iw_db w')))))"
proof -
  have lock: "iw_locks w (lock_key sub) = Some i" using ok i st by (fastforce simp: identity_ok_def locks_ok_def)
  have "served sub w' \<subseteq> served sub w"
  proof
    fix j assume "j \<in> served sub w'"
    then show "j \<in> served sub w" using newly_served [OF assms(1) ok] lock i st by fastforce
  qed
  moreover have mirror: "mirror_ok (iw_db w)" using ok by (simp add: identity_ok_def)
  from assms(1) mirror have "i < length (iw_tasks w') \<and>
    (\<exists>st'. iw_tasks w' ! i = (DisableUser sub, st') \<and>
      (st' = st \<or> st = Asking \<and> (\<exists>email. st' = Mirroring email) \<or> (\<exists>q. st' = Finished q) \<or>
       st' = Disabling \<and> (\<exists>email. st = Mirroring email \<and> (email \<noteq> None \<or> registered sub (iw_db w) \<longrightarrow> blocked sub (iw_db w')))))"
  proof (cases rule: identity_step_frame)
    case (quiet new)
    then show ?thesis using i by (simp add: nth_append)
  next
    case (move k task s s' v)
    show ?thesis
    proof (cases "k = i")
      case True
      then show ?thesis using move i st by (cases s') (auto simp: task_effect_def)
    qed (use move i in simp)
  qed
  ultimately show ?thesis by blast
qed


lemma disable_left:
  assumes "identity_step lock_key w w'" and ok: "identity_ok lock_key w" and i: "i < length (iw_tasks w)" "iw_tasks w ! i = (task, st)"
    and st: "st = Disabling \<or> (\<exists>q. st = Finished q)"
  shows "i < length (iw_tasks w') \<and> (\<exists>st'. iw_tasks w' ! i = (task, st') \<and> (st' = st \<or> (\<exists>q. st' = Finished q)))"
proof -
  have mirror: "mirror_ok (iw_db w)" using ok by (simp add: identity_ok_def)
  from assms(1) mirror show ?thesis
  proof (cases rule: identity_step_frame)
    case (move k task s s' v)
    then show ?thesis using i st by (cases "k = i"; cases s') (auto simp: task_effect_def)
  qed (use i in \<open>simp add: nth_append\<close>)
qed

text \<open>While the disable of an account waits for Keycloak and until its write is committed, nobody is newly served.\<close>

lemma disable_excludes:
  assumes "(identity_step lock_key)\<^sup>*\<^sup>* w w'" and ok: "identity_ok lock_key w" and i: "i < length (iw_tasks w)" "iw_tasks w ! i = (DisableUser sub, st)"
    and st: "st = Asking \<or> (\<exists>email. st = Mirroring email \<and> (email \<noteq> None \<or> registered sub (iw_db w)))"
  shows "i < length (iw_tasks w') \<and> (\<exists>st'. iw_tasks w' ! i = (DisableUser sub, st') \<and>
    ((st = Asking \<and> st' = Asking \<or> (\<exists>email. st' = Mirroring email \<and> (st = Asking \<or> email \<noteq> None \<or> registered sub (iw_db w')))) \<and> served sub w' \<subseteq> served sub w \<or>
     st' = Disabling \<and> (st = Asking \<or> blocked sub (iw_db w') \<and> served sub w' \<subseteq> served sub w) \<or> (\<exists>q. st' = Finished q)))"
  using assms(1)
proof (induction rule: rtranclp_induct)
  case base
  then show ?case using i st by auto
next
  case (step v v')
  then have okv: "identity_ok lock_key v" using ok by (auto intro: identity_ok_run)
  obtain s where s: "i < length (iw_tasks v)" "iw_tasks v ! i = (DisableUser sub, s)" using step.IH by blast
  have mono: "registered sub (iw_db v) \<longrightarrow> registered sub (iw_db v')" "blocked sub (iw_db v) \<longrightarrow> blocked sub (iw_db v')"
    using identity_ok_step [OF step.hyps(2) okv] by (auto simp: mirror_step_def)
  have served: "served sub v' \<subseteq> served sub w" if "blocked sub (iw_db v)" "served sub v \<subseteq> served sub w"
    using newly_served [OF step.hyps(2) okv] that by blast
  show ?case
  proof (cases "s = Asking \<or> (\<exists>email. s = Mirroring email)")
    case True
    note progress = disable_progress [OF step.hyps(2) okv s True]
    then have "served sub v \<subseteq> served sub w \<longrightarrow> served sub v' \<subseteq> served sub w" by blast
    then show ?thesis using conjunct2 [OF progress] step.IH s mono by auto
  next
    case False
    then have "s = Disabling \<or> (\<exists>q. s = Finished q)" using step.IH s by auto
    from disable_left [OF step.hyps(2) okv s this] obtain s' where s': "i < length (iw_tasks v')" "iw_tasks v' ! i = (DisableUser sub, s')"
      "s' = s \<or> (\<exists>q. s' = Finished q)" by blast
    have "s = Disabling \<longrightarrow> st = Asking \<or> blocked sub (iw_db v) \<and> served sub v \<subseteq> served sub w" using step.IH s by auto
    then have "s = Disabling \<longrightarrow> st = Asking \<or> blocked sub (iw_db v') \<and> served sub v' \<subseteq> served sub w" using mono served by blast
    with \<open>s = Disabling \<or> (\<exists>q. s = Finished q)\<close> s' show ?thesis by simp blast
  qed
qed


text \<open>
  Every served user has been announced once: whatever requests and disables are interleaved, fail and crash,
  no two rows of the mirror share an account, and the row a request was served for has exactly one \<open>UserCreated\<close>
  event in the outbox.
\<close>
theorem user_created_once:
  assumes "(identity_step lock_key)\<^sup>*\<^sup>* fresh_identity w"
    and "i < length (iw_tasks w)" and "iw_tasks w ! i = (Request sub email, Finished (Inr (Some u)))"
  shows "distinct (map usr_sub (idn_users (iw_db w))) \<and>
    length (filter (\<lambda>e. uc_user_id e = usr_id u) (idn_outbox (iw_db w))) = 1"
proof -
  have ok: "identity_ok lock_key w" using assms(1) fresh_identity_ok by (rule identity_ok_run)
  have count: "distinct (map f xs) \<Longrightarrow> y \<in> f ` set xs \<Longrightarrow> length (filter (\<lambda>x. f x = y) xs) = 1" for f :: "user_created \<Rightarrow> uuid" and xs y
    by (induction xs) (force simp: filter_empty_conv image_iff)+
  have "usr_id u \<in> uc_user_id ` set (idn_outbox (iw_db w))" using ok assms(2,3) by (fastforce simp: identity_ok_def served_ok_def)
  then show ?thesis using ok count by (simp add: identity_ok_def mirror_ok_def)
qed

section \<open>A concrete history\<close>

datatype identity_command = StartTask identity_task | Advance nat identity_reply

fun run_identity :: "(string \<Rightarrow> int) \<Rightarrow> identity_command list \<Rightarrow> identity_world \<Rightarrow> identity_world" where
  "run_identity lock_key [] w = w"
| "run_identity lock_key (StartTask task # cs) w = run_identity lock_key cs (w\<lparr>iw_tasks := iw_tasks w @ [(task, Locking)]\<rparr>)"
| "run_identity lock_key (Advance i r # cs) w =
     run_identity lock_key cs
       (if i < length (iw_tasks w)
        then case identity_task_step lock_key i r (fst (iw_tasks w ! i)) (snd (iw_tasks w ! i)) w of
               None \<Rightarrow> w
             | Some (st', w') \<Rightarrow> w'\<lparr>iw_tasks := (iw_tasks w)[i := (fst (iw_tasks w ! i), st')]\<rparr>
        else w)"

lemma run_identity_steps: "(identity_step lock_key)\<^sup>*\<^sup>* w (run_identity lock_key cs w)"
proof (induction lock_key cs w rule: run_identity.induct)
  case (2 lock_key task cs w)
  then show ?case using identity_step.start [of lock_key w task] by (simp add: converse_rtranclp_into_rtranclp)
next
  case (3 lock_key i r cs w)
  let ?w = "if i < length (iw_tasks w)
        then case identity_task_step lock_key i r (fst (iw_tasks w ! i)) (snd (iw_tasks w ! i)) w of
               None \<Rightarrow> w
             | Some (st', w') \<Rightarrow> w'\<lparr>iw_tasks := (iw_tasks w)[i := (fst (iw_tasks w ! i), st')]\<rparr>
        else w"
  have "?w = w \<or> identity_step lock_key w ?w" by (auto split: option.splits intro!: identity_step.advance)
  then show ?case using 3 by (auto simp del: if_splits intro: converse_rtranclp_into_rtranclp)
qed simp

definition sample_key :: "string \<Rightarrow> int" where
  "sample_key sub = int (length sub)"

definition sample_locked :: identity_world where
  "sample_locked = run_identity sample_key
     [StartTask (Request ''ann'' (Some ''a'')), Advance 0 (Replied Fine), Advance 0 (Replied Fine), StartTask (DisableUser ''ann''), Advance 1 (Replied Fine)]
     fresh_identity"

definition sample_asked :: identity_world where
  "sample_asked = run_identity sample_key
     [StartTask (Request ''ann'' (Some ''a'')), Advance 2 (Replied Fine), Advance 1 (EmailReply (Inr (Some ''a'')))] sample_locked"

definition sample_mirrored :: identity_world where
  "sample_mirrored = run_identity sample_key [Advance 1 (Replied Fine)] sample_asked"

definition sample_refused :: identity_world where
  "sample_refused = run_identity sample_key
     [Advance 2 (Replied Fine), Advance 2 (Replied Fine), Advance 1 (KeycloakReply (Inl TimeoutError))] sample_mirrored"

lemma sample_run:
  "(identity_step sample_key)\<^sup>*\<^sup>* fresh_identity sample_locked" "(identity_step sample_key)\<^sup>*\<^sup>* sample_locked sample_asked"
  "(identity_step sample_key)\<^sup>*\<^sup>* sample_asked sample_mirrored" "(identity_step sample_key)\<^sup>*\<^sup>* sample_mirrored sample_refused"
  unfolding sample_locked_def sample_asked_def sample_mirrored_def sample_refused_def by (rule run_identity_steps)+


theorem user_created_once_witness:
  "length (filter (\<lambda>e. uc_user_id e = 1) (idn_outbox (iw_db sample_refused))) = 1"
proof -
  have "(identity_step sample_key)\<^sup>*\<^sup>* fresh_identity sample_refused"
    using rtranclp_trans [OF rtranclp_trans [OF sample_run(1,2)] rtranclp_trans [OF sample_run(3,4)]] .
  moreover have "0 < length (iw_tasks sample_refused)" by code_simp
  moreover have "iw_tasks sample_refused ! 0 = (Request ''ann'' (Some ''a''), Finished (Inr (Some
      \<lparr>usr_id = 1, usr_sub = ''ann'', usr_email = ''a'', usr_active = True, usr_created = 0, usr_updated = 0\<rparr>)))" by code_simp
  ultimately show ?thesis using user_created_once by fastforce
qed

end
