(* ===== verification/Keycloak_Admin.thy ===== *)
theory Keycloak_Admin
  imports Resilient_Gateway Events
begin

text \<open>
  \<^verbatim>\<open>identity/adapters/keycloak/admin_client.py\<close>: the client of Keycloak's Admin API. Keycloak, behind
  python-keycloak, is the argument \<open>server\<close>: for each kind of call any function from the calls made so far, with
  what they were answered, to the answer, a value or an exception (a cancellation during the await included).
  \<open>kl_history\<close> is that record of calls; the state around it is the shell of \<open>Resilient_Gateway\<close>.
\<close>

section \<open>Keycloak\<close>

text \<open>The members of a user representation the code reads; each may be absent.\<close>

record kc_account =
  ac_id :: "string option"
  ac_email :: "string option"
  ac_enabled :: "bool option"

type_synonym kc_fields = "(string \<times> json) list"

datatype kc_call =
    GetRealmRole string
  | AssignRealmRoles string "json list"
  | DeleteRealmRolesOfUser string "json list"
  | UpdateUser string kc_fields
  | GetUser string
  | CreateUser kc_fields
  | SendUpdateAccount string "string list"
  | SetUserPassword string string bool
  | DeleteUser string
  | GetUsers kc_fields
  | GetRealmRolesOfUser string

datatype kc_value = Void | RoleRep json | Account "kc_account option" | Accounts "kc_account list" | RoleNames "string option list" | NewSub string

type_synonym kc_history = "(kc_call \<times> (exn + kc_value)) list"

record kc_server =
  ks_role :: "kc_history \<Rightarrow> string \<Rightarrow> exn + json"
  ks_write :: "kc_history \<Rightarrow> kc_call \<Rightarrow> exn + unit"
  ks_user :: "kc_history \<Rightarrow> string \<Rightarrow> exn + kc_account option"
  ks_users :: "kc_history \<Rightarrow> kc_fields \<Rightarrow> exn + kc_account list"
  ks_roles :: "kc_history \<Rightarrow> string \<Rightarrow> exn + string option list"
  ks_create :: "kc_history \<Rightarrow> kc_fields \<Rightarrow> exn + string"

text \<open>Unset settings are empty.\<close>

record kc_settings =
  kc_issuer :: string
  kc_server_url :: string
  kc_realm :: string
  kc_client_id :: string
  kc_client_secret :: string

record kc_connection =
  cx_server_url :: string
  cx_realm :: string
  cx_client_id :: string
  cx_secret :: string

record kc_link =
  kl_admin :: "kc_connection option"
  kl_history :: kc_history

definition kc_ask :: "(kc_history \<Rightarrow> exn + 'v) \<Rightarrow> ('v \<Rightarrow> kc_value) \<Rightarrow> kc_call \<Rightarrow> (exn, kc_link, 'v) prog" where
  "kc_ask answer wrap c = (\<lambda>g.
     let r = answer (kl_history g) in (r, g\<lparr>kl_history := kl_history g @ [(c, map_sum id wrap r)]\<rparr>))"

definition a_get_realm_role :: "kc_server \<Rightarrow> string \<Rightarrow> (exn, kc_link, json) prog" where
  "a_get_realm_role kc role = kc_ask (\<lambda>h. ks_role kc h role) RoleRep (GetRealmRole role)"

definition a_write :: "kc_server \<Rightarrow> kc_call \<Rightarrow> (exn, kc_link, unit) prog" where
  "a_write kc c = kc_ask (\<lambda>h. ks_write kc h c) (\<lambda>_. Void) c"

definition a_get_user :: "kc_server \<Rightarrow> string \<Rightarrow> (exn, kc_link, kc_account option) prog" where
  "a_get_user kc user_sub = kc_ask (\<lambda>h. ks_user kc h user_sub) Account (GetUser user_sub)"

definition a_get_users :: "kc_server \<Rightarrow> kc_fields \<Rightarrow> (exn, kc_link, kc_account list) prog" where
  "a_get_users kc query = kc_ask (\<lambda>h. ks_users kc h query) Accounts (GetUsers query)"

definition a_get_realm_roles_of_user :: "kc_server \<Rightarrow> string \<Rightarrow> (exn, kc_link, string option list) prog" where
  "a_get_realm_roles_of_user kc user_sub = kc_ask (\<lambda>h. ks_roles kc h user_sub) RoleNames (GetRealmRolesOfUser user_sub)"

definition a_create_user :: "kc_server \<Rightarrow> kc_fields \<Rightarrow> (exn, kc_link, string) prog" where
  "a_create_user kc payload = kc_ask (\<lambda>h. ks_create kc h payload) NewSub (CreateUser payload)"

text \<open>\<open>s.rsplit(sep, 1)[0]\<close>.\<close>

definition before_last :: "string \<Rightarrow> string \<Rightarrow> string" where
  "before_last sep s =
     (case find (\<lambda>i. take (length sep) (drop i s) = sep) (rev [0..<Suc (length s)]) of Some i \<Rightarrow> take i s | None \<Rightarrow> s)"

definition kc_client :: "kc_settings \<Rightarrow> (exn, kc_link, unit) prog" where
  "kc_client cfg =
     bnd (gets kl_admin) (\<lambda>admin.
       if admin \<noteq> None then ret ()
       else if kc_issuer cfg = [] \<or> kc_client_id cfg = [] \<or> kc_client_secret cfg = []
       then raise (RuntimeError ''Keycloak admin client is not configured'')
       else modify (\<lambda>g. g\<lparr>kl_admin := Some
              \<lparr>cx_server_url = (if kc_server_url cfg \<noteq> [] then kc_server_url cfg else before_last ''/realms/'' (kc_issuer cfg) @ ''/''),
               cx_realm = kc_realm cfg, cx_client_id = kc_client_id cfg, cx_secret = kc_client_secret cfg\<rparr>\<rparr>))"

section \<open>The faults\<close>

definition response_code :: "exn \<Rightarrow> int option" where
  "response_code e = (case e of KeycloakError _ code \<Rightarrow> code | _ \<Rightarrow> None)"

definition is_KeycloakError :: "exn \<Rightarrow> bool" where
  "is_KeycloakError e = (case e of KeycloakError _ _ \<Rightarrow> True | _ \<Rightarrow> False)"

definition is_KeycloakGetError :: "exn \<Rightarrow> bool" where
  "is_KeycloakGetError e = (case e of KeycloakError KeycloakGetError _ \<Rightarrow> True | _ \<Rightarrow> False)"

definition translate :: "exn \<Rightarrow> exn" where
  "translate e =
     (if response_code e = Some 404 then KeycloakEntityNotFoundError ''''
      else if response_code e = Some 409 then KeycloakConflictError ''a Keycloak account with this email already exists''
      else if response_code e = Some 400 then KeycloakInvalidRequestError ''Keycloak rejected this request''
      else e)"

definition map_admin_errors :: "(exn, 'w, 'a) prog \<Rightarrow> (exn, 'w, 'a) prog" where
  "map_admin_errors fn = catch fn (\<lambda>e. if is_KeycloakError e then raise (translate e) else raise e)"

definition keycloak_transient :: "exn \<Rightarrow> bool" where
  "keycloak_transient e \<longleftrightarrow> is_transient_exception e \<or>
     (case e of KeycloakError KeycloakConnectionError _ \<Rightarrow> True | _ \<Rightarrow> False)"

definition keycloak_shell :: shell_kind where
  "keycloak_shell =
     \<lparr>sk_transient = keycloak_transient,
      sk_open = CircuitOpenError ''Keycloak Admin API is unavailable (circuit open)'',
      sk_shed = DependencyUnavailableError ''Keycloak is saturated (concurrency budget exhausted)'',
      sk_down = DependencyUnavailableError ''Keycloak is unavailable''\<rparr>"

section \<open>The operations\<close>

record kc_config =
  kx_settings :: kc_settings
  kx_server :: kc_server
  kx_retry :: "kc_link shell retry_config"

definition kc_guarded :: "kc_config \<Rightarrow> timestamp \<Rightarrow> bool \<Rightarrow> (exn, kc_link, 'a) prog \<Rightarrow> (exn, kc_link shell, 'a) prog" where
  "kc_guarded cfg now retry op =
     resilient keycloak_shell now ((kx_retry cfg)\<lparr>rt_attempts := (if retry then rt_attempts (kx_retry cfg) else 1)\<rparr>) (on_inner op)"

text \<open>Every operation first gets the client, inside the attempt.\<close>

definition guarded_call :: "kc_config \<Rightarrow> timestamp \<Rightarrow> bool \<Rightarrow> (kc_server \<Rightarrow> (exn, kc_link, 'a) prog) \<Rightarrow> (exn, kc_link shell, 'a) prog" where
  "guarded_call cfg now retry op = kc_guarded cfg now retry (thn (kc_client (kx_settings cfg)) (op (kx_server cfg)))"

definition grant_realm_role :: "kc_config \<Rightarrow> timestamp \<Rightarrow> string \<Rightarrow> string \<Rightarrow> (exn, kc_link shell, unit) prog" where
  "grant_realm_role cfg now user_sub role = map_admin_errors (guarded_call cfg now True (\<lambda>kc.
     bnd (a_get_realm_role kc role) (\<lambda>role_rep. a_write kc (AssignRealmRoles user_sub [role_rep]))))"

definition revoke_realm_role :: "kc_config \<Rightarrow> timestamp \<Rightarrow> string \<Rightarrow> string \<Rightarrow> (exn, kc_link shell, unit) prog" where
  "revoke_realm_role cfg now user_sub role = map_admin_errors (guarded_call cfg now True (\<lambda>kc.
     bnd (a_get_realm_role kc role) (\<lambda>role_rep. a_write kc (DeleteRealmRolesOfUser user_sub [role_rep]))))"

definition set_enabled :: "kc_config \<Rightarrow> timestamp \<Rightarrow> string \<Rightarrow> bool \<Rightarrow> (exn, kc_link shell, unit) prog" where
  "set_enabled cfg now user_sub enabled = map_admin_errors (guarded_call cfg now True (\<lambda>kc.
     a_write kc (UpdateUser user_sub [(''enabled'', JBool enabled)])))"

definition get_user_email :: "kc_config \<Rightarrow> timestamp \<Rightarrow> string \<Rightarrow> (exn, kc_link shell, string option) prog" where
  "get_user_email cfg now user_sub = guarded_call cfg now True (\<lambda>kc.
     catch (bnd (a_get_user kc user_sub) (\<lambda>user. ret (Option.bind user ac_email)))
       (\<lambda>e. if is_KeycloakGetError e \<and> response_code e = Some 404 then ret None else raise e))"

text \<open>
  Create an account, run the second call and delete the account again when that fails or is cancelled; the
  delete is shielded, so it runs, and what it raises replaces the first fault.
\<close>

definition created_then :: "kc_server \<Rightarrow> kc_fields \<Rightarrow> (string \<Rightarrow> kc_call) \<Rightarrow> (exn, kc_link, string) prog" where
  "created_then kc payload second =
     bnd (catch (a_create_user kc payload) (\<lambda>e. if is_KeycloakError e then raise (translate e) else raise e)) (\<lambda>user_sub.
       thn (catch (a_write kc (second user_sub))
              (\<lambda>e. if e = ProcessCrash then raise e else thn (a_write kc (DeleteUser user_sub)) (raise e)))
           (ret user_sub))"

definition create_user :: "kc_config \<Rightarrow> timestamp \<Rightarrow> string \<Rightarrow> (exn, kc_link shell, string) prog" where
  "create_user cfg now email = map_admin_errors (guarded_call cfg now False (\<lambda>kc.
     created_then kc
       [(''email'', JStr email), (''username'', JStr email), (''enabled'', JBool True), (''emailVerified'', JBool False),
        (''requiredActions'', JList [JStr ''UPDATE_PASSWORD'', JStr ''VERIFY_EMAIL''])]
       (\<lambda>user_sub. SendUpdateAccount user_sub [''UPDATE_PASSWORD'', ''VERIFY_EMAIL''])))"

record directory_user =
  du_sub :: string
  du_email :: "string option"
  du_enabled :: bool

fun directory_users :: "kc_account list \<Rightarrow> exn + directory_user list" where
  "directory_users [] = Inr []"
| "directory_users (u # us) =
     (case ac_id u of
        None \<Rightarrow> Inl (KeyError ''id'')
      | Some i \<Rightarrow> map_sum id (Cons \<lparr>du_sub = i, du_email = ac_email u, du_enabled = (case ac_enabled u of Some b \<Rightarrow> b | None \<Rightarrow> True)\<rparr>)
                    (directory_users us))"

definition lift_result :: "exn + 'a \<Rightarrow> (exn, 'w, 'a) prog" where
  "lift_result r = (case r of Inl e \<Rightarrow> raise e | Inr x \<Rightarrow> ret x)"

definition users_query :: "string option \<Rightarrow> int \<Rightarrow> int \<Rightarrow> kc_fields" where
  "users_query search first max_results =
     [(''first'', JNum (str_int first)), (''max'', JNum (str_int max_results))] @
     (case search of Some t \<Rightarrow> if t = [] then [] else [(''search'', JStr (''*'' @ t @ ''*''))] | None \<Rightarrow> [])"

definition kc_list_users :: "kc_config \<Rightarrow> timestamp \<Rightarrow> string option \<Rightarrow> int \<Rightarrow> int \<Rightarrow> (exn, kc_link shell, directory_user list) prog" where
  "kc_list_users cfg now search first max_results = map_admin_errors (guarded_call cfg now True (\<lambda>kc.
     bnd (a_get_users kc (users_query search first max_results)) (\<lambda>users. lift_result (directory_users users))))"

definition has_realm_role :: "kc_config \<Rightarrow> timestamp \<Rightarrow> string \<Rightarrow> string \<Rightarrow> (exn, kc_link shell, bool) prog" where
  "has_realm_role cfg now user_sub role = map_admin_errors (guarded_call cfg now True (\<lambda>kc.
     catch (bnd (a_get_realm_roles_of_user kc user_sub) (\<lambda>roles. ret (list_ex (\<lambda>r. r = Some role) roles)))
       (\<lambda>e. if is_KeycloakGetError e \<and> response_code e = Some 404 then ret False else raise e)))"

definition find_sub_by_username :: "kc_config \<Rightarrow> timestamp \<Rightarrow> string \<Rightarrow> (exn, kc_link shell, string option) prog" where
  "find_sub_by_username cfg now username = map_admin_errors (guarded_call cfg now True (\<lambda>kc.
     bnd (a_get_users kc [(''username'', JStr username), (''exact'', JBool True), (''max'', JNum ''1'')]) (\<lambda>users.
       case users of
         [] \<Rightarrow> ret None
       | u # _ \<Rightarrow> (case ac_id u of Some i \<Rightarrow> ret (Some i) | None \<Rightarrow> raise (KeyError ''id'')))))"

definition create_user_with_password ::
  "kc_config \<Rightarrow> timestamp \<Rightarrow> string \<Rightarrow> string \<Rightarrow> string \<Rightarrow> string \<Rightarrow> string \<Rightarrow> (exn, kc_link shell, string) prog" where
  "create_user_with_password cfg now username email password first_name last_name =
     map_admin_errors (guarded_call cfg now False (\<lambda>kc.
       created_then kc
         [(''username'', JStr username), (''email'', JStr email), (''firstName'', JStr first_name), (''lastName'', JStr last_name),
          (''enabled'', JBool True), (''emailVerified'', JBool True)]
         (\<lambda>user_sub. SetUserPassword user_sub password False)))"

definition delete_user :: "kc_config \<Rightarrow> timestamp \<Rightarrow> string \<Rightarrow> (exn, kc_link shell, unit) prog" where
  "delete_user cfg now user_sub = map_admin_errors (guarded_call cfg now True (\<lambda>kc.
     catch (a_write kc (DeleteUser user_sub)) (\<lambda>e. if is_KeycloakError e \<and> response_code e = Some 404 then ret () else raise e)))"

end
