(* ===== verification/Keycloak_Properties.thy ===== *)
theory Keycloak_Properties
  imports Keycloak_Admin
begin

text \<open>
  What the Keycloak client promises: an account is created at most once and never left behind half
  provisioned without an attempt to delete it, and which status a fault of Keycloak is answered with.
\<close>

section \<open>Creating accounts\<close>

text \<open>The calls a create makes: none, a refused create, a finished one, one that is undone, or a dead process.\<close>

definition create_calls :: "(string \<Rightarrow> kc_call) \<Rightarrow> kc_history \<Rightarrow> bool" where
  "create_calls second new \<longleftrightarrow> new = [] \<or>
     (\<exists>p e. new = [(CreateUser p, Inl e)]) \<or>
     (\<exists>p sub. new = [(CreateUser p, Inr (NewSub sub)), (second sub, Inr Void)]) \<or>
     (\<exists>p sub e r. e \<noteq> ProcessCrash \<and> new = [(CreateUser p, Inr (NewSub sub)), (second sub, Inl e), (DeleteUser sub, r)]) \<or>
     (\<exists>p sub. new = [(CreateUser p, Inr (NewSub sub)), (second sub, Inl ProcessCrash)])"

definition created_calls :: "(string \<Rightarrow> kc_call) \<Rightarrow> string \<Rightarrow> kc_history \<Rightarrow> bool" where
  "created_calls second sub new \<longleftrightarrow> (\<exists>p. new = [(CreateUser p, Inr (NewSub sub)), (second sub, Inr Void)])"

definition extends_by :: "(kc_history \<Rightarrow> bool) \<Rightarrow> kc_history \<Rightarrow> kc_link \<Rightarrow> bool" where
  "extends_by P h g \<longleftrightarrow> (\<exists>new. kl_history g = h @ new \<and> P new)"

lemma created_then_calls:
  assumes "created_then kc payload second g = (r, g')"
  shows "extends_by (create_calls second) (kl_history g) g'" "r = Inr sub \<Longrightarrow> extends_by (created_calls second sub) (kl_history g) g'"
  using assms
  by (auto simp: created_then_def bnd_run thn_run catch_run a_create_user_def a_write_def kc_ask_def Let_def extends_by_def
      create_calls_def created_calls_def split: sum.splits if_splits)

lemma client_silent: "kc_client cfg g = (r, g') \<Longrightarrow> kl_history g' = kl_history g"
  by (auto simp: kc_client_def bnd_run split: if_splits)

lemma hoare_on_inner: "hoare P m Q E \<Longrightarrow> hoare (inside P) (on_inner m) (\<lambda>x. inside (Q x)) (\<lambda>e. inside (E e))"
  by (fastforce simp: hoare_def on_inner_def split: prod.splits sum.splits)

lemma guarded_once:
  assumes run: "guarded_call cfg now False op s = (r, s')"
    and op: "\<And>g q g'. op (kx_server cfg) g = (q, g') \<Longrightarrow> extends_by P (kl_history g) g' \<and> (\<forall>x. q = Inr x \<longrightarrow> extends_by (Q x) (kl_history g) g')"
    and P: "P []" and Q: "\<And>x new. Q x new \<Longrightarrow> P new"
  shows "extends_by P (kl_history (sh_inner s)) (sh_inner s') \<and> (\<forall>x. r = Inr x \<longrightarrow> extends_by (Q x) (kl_history (sh_inner s)) (sh_inner s'))"
proof -
  let ?h = "kl_history (sh_inner s)"
  have "hoare (\<lambda>g. kl_history g = ?h) (kc_client (kx_settings cfg)) (\<lambda>_ g. kl_history g = ?h) (\<lambda>_. extends_by P ?h)"
    using client_silent P by (intro hoareI) (auto simp: extends_by_def)
  moreover have "hoare (\<lambda>g. kl_history g = ?h) (op (kx_server cfg)) (\<lambda>x. extends_by (Q x) ?h) (\<lambda>_. extends_by P ?h)"
    using op by (intro hoareI) metis+
  ultimately have "hoare (inside (\<lambda>g. kl_history g = ?h)) (on_inner (thn (kc_client (kx_settings cfg)) (op (kx_server cfg))))
      (\<lambda>x. inside (extends_by (Q x) ?h)) (\<lambda>_. inside (extends_by P ?h))" by (intro hoare_on_inner hoare_thn)
  then have "hoare (inside (\<lambda>g. kl_history g = ?h)) (guarded_call cfg now False op)
      (\<lambda>x. inside (extends_by (Q x) ?h)) (\<lambda>_. inside (extends_by P ?h))"
    unfolding guarded_call_def kc_guarded_def if_False
    by (rule hoare_shell [where rc = "kx_retry cfg\<lparr>rt_attempts := 1\<rparr>", unfolded retry_once]) (auto simp: extends_by_def P intro: Q)
  note goes = hoareD_Inr [OF this, of s] hoareD_Inl [OF this, of s]
  show ?thesis
  proof (cases r)
    case (Inl e)
    then show ?thesis using goes(2) run by simp
  next
    case (Inr x)
    then have "extends_by (Q x) ?h (sh_inner s')" using goes(1) run by simp
    then show ?thesis using Inr Q by (auto simp: extends_by_def)
  qed
qed

lemma map_admin_errors_run: "map_admin_errors m s = (r, s') \<Longrightarrow> \<exists>q. m s = (q, s') \<and> (\<forall>x. r = Inr x \<longrightarrow> q = Inr x)"
  by (auto simp: map_admin_errors_def catch_run split: sum.splits if_splits prod.splits)

lemma create_protocol:
  assumes run: "map_admin_errors (guarded_call cfg now False (\<lambda>kc. created_then kc payload second)) s = (r, s')"
  shows "\<exists>new. kl_history (sh_inner s') = kl_history (sh_inner s) @ new \<and> create_calls second new \<and> (\<forall>sub. r = Inr sub \<longrightarrow> created_calls second sub new)"
proof -
  obtain q where q: "guarded_call cfg now False (\<lambda>kc. created_then kc payload second) s = (q, s')" "\<And>x. r = Inr x \<Longrightarrow> q = Inr x"
    using map_admin_errors_run [OF run] by blast
  have "extends_by (create_calls second) (kl_history (sh_inner s)) (sh_inner s') \<and>
      (\<forall>x. q = Inr x \<longrightarrow> extends_by (created_calls second x) (kl_history (sh_inner s)) (sh_inner s'))"
    by (rule guarded_once [OF q(1)]) (auto dest: created_then_calls simp: create_calls_def created_calls_def)
  then show ?thesis using q(2) by (auto simp: extends_by_def)
qed

text \<open>
  C31. An invitation is atomic as far as the client can make it. Whatever Keycloak answers to each call, cancels or
  loses, and whatever the breaker and the budget are: \<open>create_user\<close> asks Keycloak to create an account at most
  once; if that was answered with an account and sending the set-up link then failed or was cancelled, it asks to delete
  exactly that account; it deletes nothing else; and it returns an account only if Keycloak created it and took the link.
\<close>
theorem create_user_compensates:
  assumes "create_user cfg now email s = (r, s')"
  shows "\<exists>new. kl_history (sh_inner s') = kl_history (sh_inner s) @ new \<and>
    create_calls (\<lambda>sub. SendUpdateAccount sub [''UPDATE_PASSWORD'', ''VERIFY_EMAIL'']) new \<and>
    (\<forall>sub. r = Inr sub \<longrightarrow> created_calls (\<lambda>sub. SendUpdateAccount sub [''UPDATE_PASSWORD'', ''VERIFY_EMAIL'']) sub new)"
  using assms unfolding create_user_def by (rule create_protocol)

section \<open>Faults\<close>

text \<open>An operation that always raises the same fault, in a shell without a budget whose waits are not cancelled.\<close>

lemma retry_from_fails:
  assumes fails: "\<And>w. fst (op w) = Inl e" "\<And>w. f (snd (op w)) = f w" and sleep: "\<And>d w. rt_sleep rc d w = (Inr (), w)"
    and e: "is_Exception e" and n: "1 \<le> n" "n \<le> rt_attempts rc"
  shows "fst (retry_from transient rc n op w) = Inl e \<and> f (snd (retry_from transient rc n op w)) = f w"
  using n
proof (induction "rt_attempts rc - n" arbitrary: n w)
  case 0
  then show ?case using fails [of w] by (subst (1 2) retry_from.simps) (auto simp: catch_run split: sum.splits prod.splits)
next
  case (Suc k)
  then have "fst (retry_from transient rc (Suc n) op v) = Inl e \<and> f (snd (retry_from transient rc (Suc n) op v)) = f v" for v by simp
  then show ?case using fails [of w] e sleep Suc.prems
    by (subst (1 2) retry_from.simps) (auto simp: catch_run thn_run split: sum.splits prod.splits)
qed

definition fault_status :: "keycloak_class \<Rightarrow> int option \<Rightarrow> nat" where
  "fault_status k code =
     (if keycloak_transient (KeycloakError k code) then 503
      else if code = Some 404 then 404 else if code = Some 409 then 409 else if code = Some 400 then 400 else 500)"

lemma fault_status_translate:
  "\<not> keycloak_transient (KeycloakError k code) \<Longrightarrow> http_status (translate (KeycloakError k code)) = Some (fault_status k code)"
  by (cases k) (auto simp: translate_def response_code_def fault_status_def http_status_def mro_def registered_handlers_def)

lemma guarded_fails:
  assumes fails: "\<And>g. fst (op g) = Inl e" and e: "is_Exception e" and retry: "\<And>d w. rt_sleep (kx_retry cfg) d w = (Inr (), w)" "1 \<le> rt_attempts (kx_retry cfg)"
    and admitted: "br_allow now (sh_breaker s) = (True, b)" and budget: "sh_budget s = None"
  shows "\<exists>s'. kc_guarded cfg now again op s =
      (Inl (if keycloak_transient e then DependencyUnavailableError ''Keycloak is unavailable'' else e), s') \<and>
    sh_breaker s' = (if keycloak_transient e then record_failure now b else record_success b)"
proof -
  let ?rc = "(kx_retry cfg)\<lparr>rt_attempts := (if again then rt_attempts (kx_retry cfg) else 1)\<rparr>"
  let ?s = "s\<lparr>sh_breaker := b\<rparr>"
  have "fst (on_inner op w) = Inl e \<and> sh_breaker (snd (on_inner op w)) = sh_breaker w" for w
    using fails [of "sh_inner w"] by (auto simp: on_inner_def split: prod.splits)
  then have "fst (retry_transient keycloak_transient ?rc (on_inner op) ?s) = Inl e \<and>
      sh_breaker (snd (retry_transient keycloak_transient ?rc (on_inner op) ?s)) = b"
    unfolding retry_transient_def using retry_from_fails [of "on_inner op" e sh_breaker ?rc 1 keycloak_transient ?s] e retry by simp
  then obtain t where t: "retry_transient keycloak_transient ?rc (on_inner op) ?s = (Inl e, t)" "sh_breaker t = b" by (cases "retry_transient keycloak_transient ?rc (on_inner op) ?s") auto
  then show ?thesis using admitted budget e
    by (simp add: kc_guarded_def resilient_def bnd_run ask_breaker_def take_permit_def tried_call_def keycloak_shell_def catch_run thn_run
        tell_breaker_def give_permit_back_def)
qed


section \<open>Concrete runs\<close>

text \<open>A Keycloak that creates accounts but whose mail server is down, and one that refuses the admin's token.\<close>

definition mailless :: kc_server where
  "mailless = \<lparr>ks_role = (\<lambda>_ _. Inr JNull), ks_write = (\<lambda>_ c. case c of SendUpdateAccount _ _ \<Rightarrow> Inl TimeoutError | _ \<Rightarrow> Inr ()),
     ks_user = (\<lambda>_ _. Inr None), ks_users = (\<lambda>_ _. Inl (KeycloakError KeycloakGetError (Some 401))), ks_roles = (\<lambda>_ _. Inr []), ks_create = (\<lambda>_ _. Inr ''u1'')\<rparr>"

definition sample_admin :: kc_config where
  "sample_admin = \<lparr>kx_settings = \<lparr>kc_issuer = ''http://kc/realms/shop'', kc_server_url = [], kc_realm = ''shop'', kc_client_id = ''a'', kc_client_secret = ''s''\<rparr>,
     kx_server = mailless, kx_retry = \<lparr>rt_attempts = 3, rt_base = 1, rt_max = 2, rt_jitter = (\<lambda>_. 1), rt_sleep = (\<lambda>_. ret ())\<rparr>\<rparr>"

definition idle_shell :: "kc_link shell" where
  "idle_shell = \<lparr>sh_inner = \<lparr>kl_admin = None, kl_history = []\<rparr>, sh_breaker = new_breaker 5 30, sh_budget = None\<rparr>"

theorem create_user_compensates_witness:
  "(\<exists>new. kl_history (sh_inner (snd (create_user sample_admin 0 ''a@b'' idle_shell))) = kl_history (sh_inner idle_shell) @ new \<and>
     create_calls (\<lambda>sub. SendUpdateAccount sub [''UPDATE_PASSWORD'', ''VERIFY_EMAIL'']) new) \<and>
   map fst (kl_history (sh_inner (snd (create_user sample_admin 0 ''a@b'' idle_shell)))) =
     [CreateUser [(''email'', JStr ''a@b''), (''username'', JStr ''a@b''), (''enabled'', JBool True), (''emailVerified'', JBool False),
        (''requiredActions'', JList [JStr ''UPDATE_PASSWORD'', JStr ''VERIFY_EMAIL''])],
      SendUpdateAccount ''u1'' [''UPDATE_PASSWORD'', ''VERIFY_EMAIL''], DeleteUser ''u1'']"
proof
  show "\<exists>new. kl_history (sh_inner (snd (create_user sample_admin 0 ''a@b'' idle_shell))) = kl_history (sh_inner idle_shell) @ new \<and>
     create_calls (\<lambda>sub. SendUpdateAccount sub [''UPDATE_PASSWORD'', ''VERIFY_EMAIL'']) new"
    using create_user_compensates [OF prod.collapse [symmetric], of sample_admin 0 "''a@b''" idle_shell] by blast
qed code_simp


end
