(* ===== verification/Identity_Directory.thy ===== *)
theory Identity_Directory
  imports Keycloak_Admin Pagination
begin

text \<open>
  \<open>IdentityAdminService\<close> of \<^verbatim>\<open>identity/application/service.py\<close> (the disable is in \<open>Identity\<close>): role grants, invitations
  and the listing of the Keycloak directory as cursor pages. The port it calls is a record of operations; the locale
  \<open>user_directory\<close> says what a standing directory answers, and is interpreted on the Keycloak client.
\<close>

section \<open>JSON objects of scalars\<close>

text \<open>\<open>json.dumps\<close> of a dict whose values are null, non-negative integers or strings.\<close>

fun dump_scalar :: "json \<Rightarrow> string" where
  "dump_scalar (JStr s) = json_quoted s"
| "dump_scalar (JNum t) = t"
| "dump_scalar _ = ''null''"

fun dump_members :: "(string \<times> json) list \<Rightarrow> string" where
  "dump_members [] = []"
| "dump_members [(k, v)] = json_quoted k @ '': '' @ dump_scalar v"
| "dump_members ((k, v) # m # ms) = json_quoted k @ '': '' @ dump_scalar v @ '', '' @ dump_members (m # ms)"

definition json_dumps :: "(string \<times> json) list \<Rightarrow> string" where
  "json_dumps ms = ''{'' @ dump_members ms @ ''}''"

definition scalar :: "json \<Rightarrow> bool" where
  "scalar v \<longleftrightarrow> v = JNull \<or> (\<exists>s. v = JStr s) \<or> (\<exists>n. v = JNum (str_nat n))"

lemma str_nat_zero: "hd (str_nat n) = CHR ''0'' \<Longrightarrow> str_nat n = ''0''"
proof (induction n rule: str_nat.induct)
  case (1 n)
  show ?case
  proof (cases "n < 10")
    case True
    then have "str_nat n = [char_of (48 + n)]" by (subst str_nat.simps) simp
    then show ?thesis using 1(2) by simp
  next
    case False
    then have n: "str_nat n = str_nat (n div 10) @ [char_of (48 + n mod 10)]" by (subst str_nat.simps) simp
    have "str_nat (n div 10) \<noteq> []" using str_nat_digits by blast
    then have "str_nat (n div 10) = ''0''" using 1 False n by simp
    then have "digits_value (str_nat (n div 10)) = 0" by (simp add: digits_value_def)
    then have "n div 10 = 0" by (simp add: digits_value_str_nat)
    then show ?thesis using False by simp
  qed
qed

lemma digits_not: "is_digit c \<Longrightarrow> c \<notin> {CHR 0x22, CHR ''['', CHR ''{'', CHR ''n'', CHR ''t'', CHR ''f'', CHR ''N'', CHR ''I'', CHR ''-''}"
  by (auto simp: is_digit_def)

lemma json_num_str_nat:
  assumes "c = CHR '','' \<or> c = CHR ''}''"
  shows "json_num (str_nat n @ c # r) = Some (str_nat n, c # r)"
proof -
  obtain d ds where d: "str_nat n = d # ds" using str_nat_digits [of n] by (cases "str_nat n") auto
  have ds: "is_digit d" "list_all is_digit ds" using str_nat_digits [of n] by (simp_all add: d)
  have c: "\<not> is_digit c" "json_frac (c # r) = ([], c # r)" "json_exp (c # r) = ([], c # r)"
    using assms by (auto simp: is_digit_def json_frac_def json_exp_def Let_def split: list.splits)
  have "json_int (str_nat n @ c # r) = (str_nat n, c # r)"
  proof (cases "d = CHR ''0''")
    case True
    then have "ds = []" using str_nat_zero [of n] by (simp add: d)
    then show ?thesis by (simp add: json_int_def d True)
  next
    case False
    have "takeWhile is_digit ((d # ds) @ c # r) = d # ds" "dropWhile is_digit ((d # ds) @ c # r) = c # r"
      using ds c(1) by (auto simp: list_all_iff takeWhile_append dropWhile_append)
    then show ?thesis using False by (simp add: json_int_def d)
  qed
  moreover have "d \<noteq> CHR ''-''" using digits_not [OF ds(1)] by simp
  ultimately show ?thesis using c by (simp add: json_num_def d)
qed

lemma json_val_scalar:
  assumes "scalar v" and "c = CHR '','' \<or> c = CHR ''}''"
  shows "json_val (Suc n) (dump_scalar v @ c # r) = Some (v, c # r)"
  using assms(1) unfolding scalar_def
proof (elim disjE exE)
  fix k assume v: "v = JNum (str_nat k)"
  obtain d ds where d: "str_nat k = d # ds" using str_nat_digits [of k] by (cases "str_nat k") auto
  then have "d \<notin> {CHR 0x22, CHR ''['', CHR ''{'', CHR ''n'', CHR ''t'', CHR ''f'', CHR ''N'', CHR ''I'', CHR ''-''}"
    using digits_not str_nat_digits [of k] by simp
  then show ?thesis using json_num_str_nat [OF assms(2), of k r] by (simp add: v d json_word_def)
next
  fix s assume "v = JStr s"
  then show ?thesis by (simp only: dump_scalar.simps json_val_quoted)
qed (simp add: json_word_def)

lemma skip_plain: "\<not> is_json_blank c \<Longrightarrow> skip (c # r) = c # r"
  by (simp add: skip_def)

lemma skip_scalar: "scalar v \<Longrightarrow> skip (dump_scalar v @ r) = dump_scalar v @ r"
proof -
  have "\<not> is_json_blank (hd (dump_scalar v)) \<and> dump_scalar v \<noteq> []" if v: "scalar v"
  proof -
    have "\<not> is_json_blank (hd (str_nat n)) \<and> str_nat n \<noteq> []" for n
      using str_nat_digits [of n] by (cases "str_nat n") (auto simp: is_digit_def is_json_blank_def)
    then show ?thesis using v by (auto simp: scalar_def json_quoted_def is_json_blank_def)
  qed
  then show "scalar v \<Longrightarrow> ?thesis" by (cases "dump_scalar v") (auto intro: skip_plain)
qed

lemma json_members_dump:
  assumes "ms \<noteq> []" and "list_all (\<lambda>m. scalar (snd m)) ms" and "length ms < n"
  shows "json_members n (dump_members ms @ CHR ''}'' # r) = Some (ms, r)"
  using assms
proof (induction ms arbitrary: n rule: dump_members.induct)
  case (2 k v)
  then obtain m where n: "n = Suc (Suc m)" by (auto simp: less_iff_Suc_add)
  have "scalar v" using 2 by simp
  then show ?case
    using skip_scalar [of v "CHR ''}'' # r"] json_val_scalar [of v "CHR ''}''" m r]
    by (simp add: n json_quoted_def json_str_quoted skip_plain is_json_blank_def del: json_val.simps)
next
  case (3 k v m ms)
  then obtain j where n: "n = Suc (Suc j)" "length (m # ms) < Suc j" by (auto simp: less_iff_Suc_add)
  have rest: "json_members (Suc j) (dump_members (m # ms) @ CHR ''}'' # r) = Some (m # ms, r)" using 3(1) [of "Suc j"] 3(3) n by (simp del: json_members.simps)
  have "skip (dump_members (m # ms) @ q) = dump_members (m # ms) @ q" for q by (cases m; cases ms) (simp_all add: json_quoted_def skip_plain is_json_blank_def)
  moreover have "scalar v" using 3 by simp
  moreover define t where "t = dump_members (m # ms)"
  ultimately have "json_members (Suc (Suc j)) (json_quoted k @ '': '' @ dump_scalar v @ '', '' @ t @ CHR ''}'' # r) = Some ((k, v) # m # ms, r)"
    using skip_scalar [of v "CHR '','' # CHR '' '' # t @ CHR ''}'' # r"]
      json_val_scalar [of v "CHR '',''" j "CHR '' '' # t @ CHR ''}'' # r"] rest
    by (subst json_members.simps) (simp add: json_quoted_def json_str_quoted skip_plain is_json_blank_def del: json_val.simps json_members.simps(2))
  then show ?case by (simp only: n t_def dump_members.simps append_assoc append_Cons append_Nil)
qed simp

lemma json_loads_dumps:
  assumes "ms \<noteq> []" and "list_all (\<lambda>m. scalar (snd m)) ms"
  shows "json_loads (json_dumps ms) = Some (JObj ms)"
proof -
  have quote: "\<exists>t. dump_members ms = CHR 0x22 # t" using assms(1) by (cases ms rule: dump_members.cases) (auto simp: json_quoted_def)
  have size: "length ms \<le> length (dump_members ms)" for ms by (induction ms rule: dump_members.induct) (auto simp: json_quoted_def)
  have "json_val (Suc (Suc (2 * length (json_dumps ms)))) (json_dumps ms) = Some (JObj ms, [])"
    using quote json_members_dump [OF assms, where n = "Suc (2 * length (json_dumps ms))" and r = "[]"] size [of ms]
    by (auto simp: json_dumps_def skip_plain is_json_blank_def simp del: json_members.simps)
  then show ?thesis by (simp add: json_loads_def json_dumps_def skip_plain is_json_blank_def del: json_val.simps)
qed

section \<open>The cursor\<close>

definition encode_offset_cursor :: "int \<Rightarrow> int option \<Rightarrow> string option \<Rightarrow> string" where
  "encode_offset_cursor offset limit search =
     b64_encode (json_dumps ((''offset'', JNum (str_int offset)) #
       (case limit of
          None \<Rightarrow> []
        | Some l \<Rightarrow> [(''limit'', JNum (str_int l)), (''search'', case search of None \<Rightarrow> JNull | Some t \<Rightarrow> JStr t)])))"

text \<open>An \<open>int\<close> that is no \<open>bool\<close>: a number token without fraction and exponent.\<close>

definition int_value :: "json \<Rightarrow> int option" where
  "int_value v = (case v of JNum t \<Rightarrow> if list_all (\<lambda>c. is_digit c \<or> c = CHR ''-'') t then py_int t else None | _ \<Rightarrow> None)"

text \<open>\<open>utf8\<close> is what \<open>json.loads\<close> makes of bytes that are not ASCII; the encoder never writes such a document.\<close>

definition decode_offset_cursor :: "(string \<Rightarrow> json option) \<Rightarrow> string \<Rightarrow> exn + int \<times> int option \<times> string option" where
  "decode_offset_cursor utf8 cursor =
     (case b64_decode cursor of
        None \<Rightarrow> Inl (InvalidCursorError cursor)
      | Some raw \<Rightarrow>
          (case (if list_all (\<lambda>c. of_char c < (128 :: nat)) raw then json_loads raw else utf8 raw) of
             Some (JObj members) \<Rightarrow>
               (case int_value (json_get members ''offset'') of
                  None \<Rightarrow> Inl (InvalidCursorError cursor)
                | Some offset \<Rightarrow>
                    if offset < 0 then Inl (InvalidCursorError cursor)
                    else if json_get members ''limit'' = JNull then Inr (offset, None, None)
                    else (case int_value (json_get members ''limit'') of
                       None \<Rightarrow> Inl (InvalidCursorError cursor)
                     | Some l \<Rightarrow>
                         if l < 1 then Inl (InvalidCursorError cursor)
                         else (case json_get members ''search'' of
                            JNull \<Rightarrow> Inr (offset, Some l, None)
                          | JStr t \<Rightarrow> Inr (offset, Some l, Some t)
                          | _ \<Rightarrow> Inl (InvalidCursorError cursor))))
           | _ \<Rightarrow> Inl (InvalidCursorError cursor)))"

section \<open>The service\<close>

record 'w identity_admin_port =
  ap_grant_realm_role :: "string \<Rightarrow> string \<Rightarrow> (exn, 'w, unit) prog"
  ap_revoke_realm_role :: "string \<Rightarrow> string \<Rightarrow> (exn, 'w, unit) prog"
  ap_create_user :: "string \<Rightarrow> (exn, 'w, string) prog"
  ap_list_users :: "string option \<Rightarrow> int \<Rightarrow> int \<Rightarrow> (exn, 'w, directory_user list) prog"
  ap_has_realm_role :: "string \<Rightarrow> string \<Rightarrow> (exn, 'w, bool) prog"

definition svc_grant_merchant :: "'w identity_admin_port \<Rightarrow> string \<Rightarrow> (exn, 'w, unit) prog" where
  "svc_grant_merchant admin sub = ap_grant_realm_role admin sub ''merchant''"

definition svc_revoke_merchant :: "'w identity_admin_port \<Rightarrow> string \<Rightarrow> (exn, 'w, unit) prog" where
  "svc_revoke_merchant admin sub = ap_revoke_realm_role admin sub ''merchant''"

definition svc_create_user :: "'w identity_admin_port \<Rightarrow> string \<Rightarrow> (exn, 'w, string) prog" where
  "svc_create_user admin email = ap_create_user admin email"

record admin_user_response =
  au_sub :: string
  au_email :: "string option"
  au_merchant_role :: bool
  au_disabled :: bool

definition admin_user :: "directory_user \<Rightarrow> bool \<Rightarrow> admin_user_response" where
  "admin_user u flag = \<lparr>au_sub = du_sub u, au_email = du_email u, au_merchant_role = flag, au_disabled = \<not> du_enabled u\<rparr>"

text \<open>\<open>asyncio.gather\<close> of the role lookups: the answers in order; they are issued in order here.\<close>

fun gather :: "('a \<Rightarrow> (exn, 'w, 'b) prog) \<Rightarrow> 'a list \<Rightarrow> (exn, 'w, 'b list) prog" where
  "gather f [] = ret []"
| "gather f (x # xs) = bnd (f x) (\<lambda>y. bnd (gather f xs) (\<lambda>ys. ret (y # ys)))"

definition resume_walk :: "(string \<Rightarrow> json option) \<Rightarrow> string option \<Rightarrow> string option \<Rightarrow> exn + int \<times> int option" where
  "resume_walk utf8 cursor search =
     (case cursor of
        None \<Rightarrow> Inr (0, None)
      | Some c \<Rightarrow>
          (case decode_offset_cursor utf8 c of
             Inl e \<Rightarrow> Inl e
           | Inr (offset, pinned_limit, pinned_search) \<Rightarrow>
               if pinned_limit \<noteq> None \<and> pinned_search \<noteq> search then Inl (InvalidCursorError c) else Inr (offset, pinned_limit)))"

definition svc_list_users ::
  "'w identity_admin_port \<Rightarrow> (string \<Rightarrow> json option) \<Rightarrow> int \<Rightarrow> string option \<Rightarrow> string option \<Rightarrow> (exn, 'w, admin_user_response page) prog" where
  "svc_list_users admin utf8 limit cursor search =
     bnd (lift_result (resume_walk utf8 cursor search)) (\<lambda>(offset, pinned_limit).
       let page_limit = (case pinned_limit of Some l \<Rightarrow> l | None \<Rightarrow> limit) in
       bnd (ap_list_users admin search offset (page_limit + 1)) (\<lambda>found.
         let users = take (nat page_limit) found in
         bnd (gather (\<lambda>u. ap_has_realm_role admin (du_sub u) ''merchant'') users) (\<lambda>flags.
           ret \<lparr>page_items = map2 admin_user users flags,
                next_cursor = (if page_limit < int (length found)
                               then Some (encode_offset_cursor (offset + page_limit) (Some page_limit) search) else None)\<rparr>)))"

text \<open>The port on the Keycloak client.\<close>

definition keycloak_port :: "kc_config \<Rightarrow> timestamp \<Rightarrow> kc_link shell identity_admin_port" where
  "keycloak_port cfg now =
     \<lparr>ap_grant_realm_role = grant_realm_role cfg now, ap_revoke_realm_role = revoke_realm_role cfg now,
      ap_create_user = create_user cfg now, ap_list_users = kc_list_users cfg now, ap_has_realm_role = has_realm_role cfg now\<rparr>"

section \<open>The cursor round trip\<close>

lemma ascii_str_nat: "list_all (\<lambda>c. of_char c < (128 :: nat)) (str_nat n)"
  using str_nat_digits [of n] by (auto simp: list_all_iff is_digit_def)

lemma ascii_quoted: "list_all (\<lambda>c. of_char c < (128 :: nat)) (json_quoted s)"
proof -
  have "list_all (\<lambda>c. of_char c < (128 :: nat)) (concat (map json_char s))"
    by (induction s) (simp_all add: ascii_json_char)
  then show ?thesis by (simp add: json_quoted_def)
qed

lemma ascii_dumps: "list_all (\<lambda>m. scalar (snd m)) ms \<Longrightarrow> list_all (\<lambda>c. of_char c < (128 :: nat)) (json_dumps ms)"
proof -
  have scalar: "list_all (\<lambda>c. of_char c < (128 :: nat)) (dump_scalar v)" if "scalar v" for v
    using that ascii_quoted ascii_str_nat by (auto simp: scalar_def)
  have "list_all (\<lambda>c. of_char c < (128 :: nat)) (dump_members ms)" if "list_all (\<lambda>m. scalar (snd m)) ms"
    using that by (induction ms rule: dump_members.induct) (auto simp: ascii_quoted scalar)
  then show "list_all (\<lambda>m. scalar (snd m)) ms \<Longrightarrow> ?thesis" by (simp add: json_dumps_def)
qed

lemma int_value_str: "int_value (JNum (str_int (int n))) = Some (int n)"
proof -
  have "list_all (\<lambda>c. is_digit c \<or> c = CHR ''-'') (str_nat n)" using str_nat_digits [of n] by (auto simp: list_all_iff)
  then show ?thesis using py_int_str_int [of "int n"] by (simp add: int_value_def str_int_def)
qed

lemma offset_cursor_decodes:
  "decode_offset_cursor utf8 (encode_offset_cursor (int n) (Some (int (Suc l))) search) = Inr (int n, Some (int (Suc l)), search)"
proof -
  define ms where "ms = [(''offset'', JNum (str_int (int n))), (''limit'', JNum (str_int (int (Suc l)))), (''search'', case search of None \<Rightarrow> JNull | Some t \<Rightarrow> JStr t)]"
  have scalar: "list_all (\<lambda>m. scalar (snd m)) ms" by (auto simp: ms_def scalar_def str_int_def split: option.split)
  have "ms \<noteq> []" by (simp add: ms_def)
  then have loads: "json_loads (json_dumps ms) = Some (JObj ms)" using scalar by (rule json_loads_dumps)
  have gets: "json_get ms ''offset'' = JNum (str_int (int n))" "json_get ms ''limit'' = JNum (str_int (int (Suc l)))"
      "json_get ms ''search'' = (case search of None \<Rightarrow> JNull | Some t \<Rightarrow> JStr t)"
    by (simp_all add: json_get_def ms_def)
  have "encode_offset_cursor (int n) (Some (int (Suc l))) search = b64_encode (json_dumps ms)" by (simp add: encode_offset_cursor_def ms_def)
  then show ?thesis
    by (simp add: decode_offset_cursor_def b64_decode_def b64_roundtrip ascii_dumps [OF scalar] loads gets int_value_str del: of_nat_Suc split: option.split)
qed

section \<open>Walking the directory\<close>

text \<open>A client that follows the cursors; \<open>limits\<close> are the page sizes it asks for, request by request.\<close>

fun directory_walk ::
  "'w identity_admin_port \<Rightarrow> (string \<Rightarrow> json option) \<Rightarrow> int list \<Rightarrow> string option \<Rightarrow> string option \<Rightarrow> (exn, 'w, admin_user_response list list) prog" where
  "directory_walk admin utf8 [] cursor search = raise (RuntimeError ''the client gave up'')"
| "directory_walk admin utf8 (limit # limits) cursor search =
     bnd (svc_list_users admin utf8 limit cursor search) (\<lambda>page.
       case next_cursor page of
         None \<Rightarrow> ret [page_items page]
       | Some c \<Rightarrow> bnd (directory_walk admin utf8 limits (Some c) search) (\<lambda>pages. ret (page_items page # pages)))"

text \<open>
  The contract of the port while nothing changes and nothing fails: \<open>accounts\<close> are the accounts a search finds, in
  Keycloak's order, and \<open>merchants\<close> the holders of the role.
\<close>

locale user_directory =
  fixes admin :: "'w identity_admin_port" and standing :: "'w \<Rightarrow> bool"
    and accounts :: "string option \<Rightarrow> directory_user list" and merchants :: "string \<Rightarrow> bool"
  assumes lists: "standing s \<Longrightarrow> 0 \<le> first \<Longrightarrow> 0 \<le> most \<Longrightarrow>
      \<exists>s'. ap_list_users admin search first most s = (Inr (take (nat most) (drop (nat first) (accounts search))), s') \<and> standing s'"
    and flags: "standing s \<Longrightarrow> \<exists>s'. ap_has_realm_role admin sub ''merchant'' s = (Inr (merchants sub), s') \<and> standing s'"
begin

lemma gather_flags: "standing s \<Longrightarrow> \<exists>s'. gather (\<lambda>u. ap_has_realm_role admin (du_sub u) ''merchant'') us s = (Inr (map (\<lambda>u. merchants (du_sub u)) us), s') \<and> standing s'"
proof (induction us arbitrary: s)
  case (Cons u us)
  obtain s1 where s1: "ap_has_realm_role admin (du_sub u) ''merchant'' s = (Inr (merchants (du_sub u)), s1)" "standing s1" using flags [OF Cons.prems] by blast
  obtain s2 where "gather (\<lambda>u. ap_has_realm_role admin (du_sub u) ''merchant'') us s1 = (Inr (map (\<lambda>u. merchants (du_sub u)) us), s2)" "standing s2"
    using Cons.IH [OF s1(2)] by blast
  then show ?case using s1 by (simp add: bnd_run)
qed simp

text \<open>One page from the place a cursor names.\<close>

lemma page_run:
  assumes s: "standing s" and resume: "resume_walk utf8 cursor search = Inr (int n, pinned)" and size: "(case pinned of Some l \<Rightarrow> l | None \<Rightarrow> limit) = int (Suc l)"
  shows "\<exists>s'. svc_list_users admin utf8 limit cursor search s =
      (Inr \<lparr>page_items = map (\<lambda>u. admin_user u (merchants (du_sub u))) (take (Suc l) (drop n (accounts search))),
            next_cursor = (if n + Suc l < length (accounts search) then Some (encode_offset_cursor (int (n + Suc l)) (Some (int (Suc l))) search) else None)\<rparr>, s') \<and>
    standing s'"
proof -
  let ?us = "take (Suc l) (drop n (accounts search))"
  obtain s1 where s1: "ap_list_users admin search (int n) (int (Suc l) + 1) s = (Inr (take (Suc (Suc l)) (drop n (accounts search))), s1)" "standing s1"
    using lists [OF s, of "int n" "int (Suc l) + 1" search] by (auto simp: nat_add_distrib)
  obtain s2 where s2: "gather (\<lambda>u. ap_has_realm_role admin (du_sub u) ''merchant'') ?us s1 = (Inr (map (\<lambda>u. merchants (du_sub u)) ?us), s2)" "standing s2"
    using gather_flags [OF s1(2)] by blast
  have "map2 admin_user us (map f us) = map (\<lambda>u. admin_user u (f u)) us" for us f by (induction us) auto
  moreover have "int (Suc l) < int (length (take (Suc (Suc l)) (drop n (accounts search)))) \<longleftrightarrow> n + Suc l < length (accounts search)" by auto
  moreover have sum: "int n + int (Suc l) = int (Suc (n + l))" by simp
  ultimately show ?thesis using s1 s2 size
    by (simp add: sum svc_list_users_def bnd_run lift_result_def resume Let_def take_take min_def nat_int del: of_nat_Suc)
qed

lemma walk_from:
  assumes "standing s" and "resume_walk utf8 cursor search = Inr (int n, pinned)" and "(case pinned of Some l \<Rightarrow> l | None \<Rightarrow> hd limits) = int (Suc l)"
    and "length (accounts search) - n < length limits"
  shows "\<exists>pages s'. directory_walk admin utf8 limits cursor search s = (Inr pages, s') \<and>
    concat pages = map (\<lambda>u. admin_user u (merchants (du_sub u))) (drop n (accounts search)) \<and> (\<forall>page \<in> set (butlast pages). length page = Suc l) \<and> length (last pages) \<le> Suc l"
  using assms
proof (induction limits arbitrary: s cursor n pinned)
  case (Cons limit limits)
  have size: "(case pinned of Some l \<Rightarrow> l | None \<Rightarrow> limit) = int (Suc l)" using Cons.prems(3) by (simp only: list.sel)
  obtain s1 where s1: "svc_list_users admin utf8 limit cursor search s =
      (Inr \<lparr>page_items = map (\<lambda>u. admin_user u (merchants (du_sub u))) (take (Suc l) (drop n (accounts search))),
            next_cursor = (if n + Suc l < length (accounts search) then Some (encode_offset_cursor (int (n + Suc l)) (Some (int (Suc l))) search) else None)\<rparr>, s1)" "standing s1"
    using page_run [OF Cons.prems(1,2) size] by blast
  show ?case
  proof (cases "n + Suc l < length (accounts search)")
    case True
    let ?c = "encode_offset_cursor (int (n + Suc l)) (Some (int (Suc l))) search"
    have "resume_walk utf8 (Some ?c) search = Inr (int (n + Suc l), Some (int (Suc l)))"
      using offset_cursor_decodes [of utf8 "n + Suc l" l search] by (simp add: resume_walk_def del: of_nat_Suc of_nat_add)
    moreover have "length (accounts search) - (n + Suc l) < length limits" using Cons.prems(4) True by simp
    ultimately obtain pages s2 where rest: "directory_walk admin utf8 limits (Some ?c) search s1 = (Inr pages, s2)"
      "concat pages = map (\<lambda>u. admin_user u (merchants (du_sub u))) (drop (n + Suc l) (accounts search))"
      "\<forall>page \<in> set (butlast pages). length page = Suc l" "length (last pages) \<le> Suc l"
      using Cons.IH [OF s1(2), of "Some ?c" "n + Suc l" "Some (int (Suc l))"] by (auto simp del: of_nat_Suc of_nat_add)
    have "pages \<noteq> []" using rest(2) True by auto
    have "map f (take (Suc l) (drop n xs)) @ map f (drop (n + Suc l) xs) = map f (drop n xs)" for f and xs :: "directory_user list"
      by (metis append_take_drop_id drop_drop add.commute map_append)
    then show ?thesis using s1 rest True \<open>pages \<noteq> []\<close> by (simp add: bnd_run del: of_nat_Suc of_nat_add)
  next
    case False
    then show ?thesis using s1 by (simp add: bnd_run)
  qed
qed simp

end

section \<open>The contract on the Keycloak client\<close>

definition rep_of :: "directory_user \<Rightarrow> kc_account" where
  "rep_of u = \<lparr>ac_id = Some (du_sub u), ac_email = du_email u, ac_enabled = Some (du_enabled u)\<rparr>"

text \<open>Keycloak's documented answers: a slice of what the search finds, and the roles of an account.\<close>

definition answers_directory :: "kc_server \<Rightarrow> (string option \<Rightarrow> directory_user list) \<Rightarrow> (string \<Rightarrow> bool) \<Rightarrow> bool" where
  "answers_directory kc accounts merchants \<longleftrightarrow>
     (\<forall>h search first most. 0 \<le> first \<longrightarrow> 0 \<le> most \<longrightarrow>
        ks_users kc h (users_query search first most) = Inr (map rep_of (take (nat most) (drop (nat first) (accounts search))))) \<and>
     (\<forall>h sub. \<exists>roles. ks_roles kc h sub = Inr roles \<and> (Some ''merchant'' \<in> set roles \<longleftrightarrow> merchants sub))"

text \<open>Connected, the breaker closed, no budget.\<close>

definition kc_healthy :: "kc_link shell \<Rightarrow> bool" where
  "kc_healthy s \<longleftrightarrow> br_state (sh_breaker s) = CLOSED \<and> sh_budget s = None \<and> kl_admin (sh_inner s) \<noteq> None"

lemma directory_users_reps: "directory_users (map rep_of us) = Inr us"
  by (induction us) (simp_all add: rep_of_def)

lemma guarded_healthy:
  assumes s: "kc_healthy s" and attempts: "1 \<le> rt_attempts (kx_retry cfg)"
    and op: "op (kx_server cfg) (sh_inner s) = (Inr x, g)" "kl_admin g \<noteq> None"
  shows "\<exists>s'. map_admin_errors (guarded_call cfg now True op) s = (Inr x, s') \<and> kc_healthy s'"
proof -
  have client: "kc_client (kx_settings cfg) (sh_inner s) = (Inr (), sh_inner s)" using s by (simp add: kc_healthy_def kc_client_def bnd_run)
  have admitted: "br_allow now (sh_breaker s) = (True, sh_breaker s)" using s by (simp add: kc_healthy_def br_allow_def)
  have once: "retry_transient keycloak_transient (kx_retry cfg\<lparr>rt_attempts := rt_attempts (kx_retry cfg)\<rparr>) (on_inner (thn (kc_client (kx_settings cfg)) (op (kx_server cfg)))) s =
      (Inr x, s\<lparr>sh_inner := g\<rparr>)"
    using attempts op client unfolding retry_transient_def by (subst retry_from.simps) (simp add: catch_run on_inner_def thn_run)
  have "br_state (record_success (sh_breaker s)) = CLOSED" using s by (simp add: kc_healthy_def record_success_def)
  then show ?thesis using s op once admitted
    by (simp add: map_admin_errors_def catch_run guarded_call_def kc_guarded_def resilient_def bnd_run ask_breaker_def take_permit_def
        tried_call_def keycloak_shell_def thn_run tell_breaker_def give_permit_back_def kc_healthy_def)
qed

lemma keycloak_directory:
  assumes answers: "answers_directory (kx_server cfg) accounts merchants" and attempts: "1 \<le> rt_attempts (kx_retry cfg)"
  shows "user_directory (keycloak_port cfg now) kc_healthy accounts merchants"
proof
  fix s :: "kc_link shell" and first most :: int and search sub
  assume s: "kc_healthy s"
  show "\<exists>s'. ap_list_users (keycloak_port cfg now) search first most s = (Inr (take (nat most) (drop (nat first) (accounts search))), s') \<and> kc_healthy s'"
    if "0 \<le> first" "0 \<le> most"
    unfolding keycloak_port_def identity_admin_port.simps kc_list_users_def
    by (rule guarded_healthy [OF s attempts],
        use answers that in \<open>simp add: a_get_users_def kc_ask_def bnd_run lift_result_def answers_directory_def directory_users_reps\<close>,
        use s in \<open>simp add: kc_healthy_def\<close>)
  obtain roles where roles: "ks_roles (kx_server cfg) (kl_history (sh_inner s)) sub = Inr roles" "Some ''merchant'' \<in> set roles \<longleftrightarrow> merchants sub"
    using answers unfolding answers_directory_def by blast
  show "\<exists>s'. ap_has_realm_role (keycloak_port cfg now) sub ''merchant'' s = (Inr (merchants sub), s') \<and> kc_healthy s'"
    unfolding keycloak_port_def identity_admin_port.simps has_realm_role_def
    by (rule guarded_healthy [OF s attempts],
        use roles in \<open>simp add: a_get_realm_roles_of_user_def kc_ask_def bnd_run catch_run list_ex_iff\<close>,
        use s in \<open>simp add: kc_healthy_def\<close>)
qed

text \<open>A Keycloak that stands still, whatever else it answers: the contract is met.\<close>

definition query_number :: "kc_fields \<Rightarrow> string \<Rightarrow> nat" where
  "query_number q name = (case int_value (json_get q name) of Some n \<Rightarrow> nat n | None \<Rightarrow> 0)"

definition query_search :: "kc_fields \<Rightarrow> string option" where
  "query_search q = (case json_get q ''search'' of JStr t \<Rightarrow> Some (butlast (tl t)) | _ \<Rightarrow> None)"

definition found_by :: "(string option \<Rightarrow> directory_user list) \<Rightarrow> string option \<Rightarrow> directory_user list" where
  "found_by accounts search = accounts (if search = Some '''' then None else search)"

definition standing_server :: "kc_server \<Rightarrow> (string option \<Rightarrow> directory_user list) \<Rightarrow> (string \<Rightarrow> bool) \<Rightarrow> kc_server" where
  "standing_server kc accounts merchants =
     kc\<lparr>ks_users := (\<lambda>_ q. Inr (map rep_of (take (query_number q ''max'') (drop (query_number q ''first'') (accounts (query_search q)))))),
        ks_roles := (\<lambda>_ sub. Inr (if merchants sub then [Some ''consumer'', Some ''merchant''] else [Some ''consumer'']))\<rparr>"

definition standing_config :: "kc_settings \<Rightarrow> kc_server \<Rightarrow> nat \<Rightarrow> (string option \<Rightarrow> directory_user list) \<Rightarrow> (string \<Rightarrow> bool) \<Rightarrow> kc_config" where
  "standing_config settings kc n accounts merchants =
     \<lparr>kx_settings = settings, kx_server = standing_server kc accounts merchants, kx_retry = shell_retry (Suc n) 1 2 (\<lambda>_. 1) (\<lambda>_. False)\<rparr>"

lemma standing_answers: "answers_directory (standing_server kc accounts merchants) (found_by accounts) merchants"
proof -
  have gets: "json_get (users_query search first most) ''first'' = JNum (str_int first)"
    "json_get (users_query search first most) ''max'' = JNum (str_int most)"
    "query_search (users_query search first most) = (if search = Some '''' then None else search)" for search first most
    by (auto simp: json_get_def users_query_def query_search_def split: option.splits)
  have "int_value (JNum (str_int i)) = Some i" if "0 \<le> i" for i using int_value_str [of "nat i"] that by simp
  then show ?thesis by (simp add: answers_directory_def standing_server_def found_by_def query_number_def gets)
qed

interpretation kcd: user_directory "keycloak_port (standing_config settings kc n accounts merchants) now" kc_healthy "found_by accounts" merchants
  for settings kc n accounts merchants now
  by (rule keycloak_directory) (simp_all add: standing_config_def standing_answers shell_retry_def)

section \<open>Property\<close>

text \<open>
  C33. Following the cursors lists the whole directory: while Keycloak's directory stands still and answers, a client that
  starts without a cursor and follows \<open>next_cursor\<close> under one search gets every account the search finds exactly once,
  in Keycloak's order, with its live merchant flag, whatever page sizes it asks for later; every page but the last has
  exactly the size it first asked for, and the walk ends.
\<close>
theorem directory_walk_complete:
  assumes "answers_directory (kx_server cfg) accounts merchants" and "1 \<le> rt_attempts (kx_retry cfg)" and "kc_healthy s"
    and "1 \<le> hd limits" and "length (accounts search) < length limits"
  shows "\<exists>pages s'. directory_walk (keycloak_port cfg now) utf8 limits None search s = (Inr pages, s') \<and>
    concat pages = map (\<lambda>u. admin_user u (merchants (du_sub u))) (accounts search) \<and>
    (\<forall>page \<in> set (butlast pages). int (length page) = hd limits) \<and> int (length (last pages)) \<le> hd limits"
proof -
  obtain l where l: "hd limits = int (Suc l)" using assms(4) by (metis (no_types, opaque_lifting) int_one_le_iff_zero_less less_imp_Suc_add nat_0_le of_nat_0_less_iff order_less_imp_le zero_less_nat_eq add_0)
  have "resume_walk utf8 None search = Inr (int 0, None)" by (simp add: resume_walk_def)
  then obtain pages s' where "directory_walk (keycloak_port cfg now) utf8 limits None search s = (Inr pages, s')"
      "concat pages = map (\<lambda>u. admin_user u (merchants (du_sub u))) (accounts search)"
      "\<forall>page \<in> set (butlast pages). length page = Suc l" "length (last pages) \<le> Suc l"
    using user_directory.walk_from [OF keycloak_directory [OF assms(1,2)] assms(3), of utf8 None search 0 None limits l now] l assms(5)
    by (auto simp del: of_nat_Suc)
  then show ?thesis using l by auto
qed

definition sample_accounts :: "string option \<Rightarrow> directory_user list" where
  "sample_accounts search = map (\<lambda>t. \<lparr>du_sub = t, du_email = None, du_enabled = t \<noteq> ''c''\<rparr>) [''a'', ''b'', ''c'']"

definition sample_directory :: kc_config where
  "sample_directory = standing_config \<lparr>kc_issuer = ''i'', kc_server_url = [], kc_realm = ''shop'', kc_client_id = ''a'', kc_client_secret = ''s''\<rparr>
     \<lparr>ks_role = (\<lambda>_ _. Inr JNull), ks_write = (\<lambda>_ _. Inr ()), ks_user = (\<lambda>_ _. Inr None), ks_users = (\<lambda>_ _. Inr []), ks_roles = (\<lambda>_ _. Inr []),
      ks_create = (\<lambda>_ _. Inr ''u1'')\<rparr> 2 sample_accounts (\<lambda>sub. sub = ''b'')"

definition connected_shell :: "kc_link shell" where
  "connected_shell = \<lparr>sh_inner = \<lparr>kl_admin = Some \<lparr>cx_server_url = ''i'', cx_realm = ''shop'', cx_client_id = ''a'', cx_secret = ''s''\<rparr>, kl_history = []\<rparr>,
     sh_breaker = new_breaker 5 30, sh_budget = None\<rparr>"

theorem directory_walk_complete_witness:
  "(\<exists>pages s'. directory_walk (keycloak_port sample_directory 0) (\<lambda>_. None) [2, 50, 1, 9] None None connected_shell = (Inr pages, s') \<and>
      concat pages = map (\<lambda>u. admin_user u (du_sub u = ''b'')) (sample_accounts None)) \<and>
   (case fst (directory_walk (keycloak_port sample_directory 0) (\<lambda>_. None) [2, 50, 1, 9] None None connected_shell) of
      Inr pages \<Rightarrow> map (map (\<lambda>i. (au_sub i, au_merchant_role i, au_disabled i))) pages = [[(''a'', False, False), (''b'', True, False)], [(''c'', False, True)]] | Inl _ \<Rightarrow> False)"
proof
  have answers: "answers_directory (kx_server sample_directory) (found_by sample_accounts) (\<lambda>sub. sub = ''b'')"
    by (simp add: sample_directory_def standing_config_def standing_answers)
  have "1 \<le> rt_attempts (kx_retry sample_directory)" by (simp add: sample_directory_def standing_config_def shell_retry_def)
  moreover have "kc_healthy connected_shell" by (simp add: kc_healthy_def connected_shell_def new_breaker_def)
  moreover have "found_by sample_accounts None = sample_accounts None" by (simp add: found_by_def)
  moreover have "length (sample_accounts None) < length [2, 50, 1, 9 :: int]" by (simp add: sample_accounts_def)
  ultimately show "\<exists>pages s'. directory_walk (keycloak_port sample_directory 0) (\<lambda>_. None) [2, 50, 1, 9] None None connected_shell = (Inr pages, s') \<and>
      concat pages = map (\<lambda>u. admin_user u (du_sub u = ''b'')) (sample_accounts None)"
    using directory_walk_complete [OF answers, of connected_shell "[2, 50, 1, 9]" None 0 "\<lambda>_. None"] by fastforce
qed code_simp

end
