(* ===== verification/Authentication.thy ===== *)
theory Authentication
  imports Events
begin

text \<open>
  \<^verbatim>\<open>shared/auth\<close>: from the claims of a verified token to the caller with its roles, and the resolution of signing
  keys with its guard against refetching the key set for every unknown \<open>kid\<close>. PyJWT is outside: the verification of a
  token is an argument, and what a key lookup answers and leaves in the client's cache is up to the environment.
\<close>

section \<open>The caller\<close>

record principal =
  pr_sub :: string
  pr_email :: "string option"
  pr_roles :: "string set"

definition has_role :: "string list \<Rightarrow> principal \<Rightarrow> bool" where
  "has_role roles p = list_ex (\<lambda>role. role \<in> pr_roles p) roles"

definition is_admin :: "principal \<Rightarrow> bool" where
  "is_admin p \<longleftrightarrow> ''admin'' \<in> pr_roles p"

definition require_role :: "string list \<Rightarrow> principal \<Rightarrow> exn + principal" where
  "require_role roles p = (if \<not> has_role roles p then Inl (AuthorizationError ''requires one of roles'') else Inr p)"

text \<open>\<open>claims.get(name, default)\<close>: the default only stands for a missing claim; the last of equal keys counts.\<close>

definition claim :: "(string \<times> json) list \<Rightarrow> string \<Rightarrow> json option" where
  "claim claims name = map_of (rev claims) name"

fun all_strings :: "json list \<Rightarrow> string list option" where
  "all_strings [] = Some []"
| "all_strings (JStr s # vs) = map_option (Cons s) (all_strings vs)"
| "all_strings (v # vs) = None"

definition email_claim :: "(string \<times> json) list \<Rightarrow> exn + string option" where
  "email_claim claims =
     (case claim claims ''email'' of
        None \<Rightarrow> Inr None
      | Some JNull \<Rightarrow> Inr None
      | Some (JStr email) \<Rightarrow> Inr (Some email)
      | Some _ \<Rightarrow> Inl (AuthenticationError ''token 'email' claim is invalid''))"

definition role_claims :: "(string \<times> json) list \<Rightarrow> exn + string list" where
  "role_claims claims =
     (case claim claims ''realm_access'' of
        Some (JObj realm_access) \<Rightarrow>
          (case claim realm_access ''roles'' of
             Some (JList raw_roles) \<Rightarrow>
               (case all_strings raw_roles of
                  Some roles \<Rightarrow> Inr roles
                | None \<Rightarrow> Inl (AuthenticationError ''token 'realm_access.roles' claim is invalid''))
           | Some _ \<Rightarrow> Inl (AuthenticationError ''token 'realm_access.roles' claim is invalid'')
           | None \<Rightarrow> Inr [])
      | Some _ \<Rightarrow> Inl (AuthenticationError ''token 'realm_access' claim is invalid'')
      | None \<Rightarrow> Inr [])"

definition principal_of :: "(string \<times> json) list \<Rightarrow> exn + principal" where
  "principal_of claims =
     (case claim claims ''sub'' of
        None \<Rightarrow> Inl (AuthenticationError ''token has malformed claims'')
      | Some (JStr sub) \<Rightarrow>
          if sub = [] then Inl (AuthenticationError ''token 'sub' claim is missing or invalid'')
          else (case email_claim claims of
             Inl e \<Rightarrow> Inl e
           | Inr email \<Rightarrow>
               (case role_claims claims of
                  Inl e \<Rightarrow> Inl e
                | Inr roles \<Rightarrow> Inr \<lparr>pr_sub = sub, pr_email = email, pr_roles = set roles\<rparr>))
      | Some _ \<Rightarrow> Inl (AuthenticationError ''token 'sub' claim is missing or invalid''))"

section \<open>Signing keys\<close>

text \<open>
  What a lookup in the client ends with: a key, an unreachable endpoint, PyJWT's \<open>PyJWKClientError\<close> (which does not tell
  an unknown \<open>kid\<close> from an unusable key set), a malformed key set, an invalid token, or a cancellation.
\<close>

datatype 'k lookup = Found 'k | Unreachable | ClientError | MalformedSet | InvalidToken | LookupCancelled

datatype auth_error = Unavailable string | UnknownKid | BadToken | AuthCancelled

text \<open>The \<open>kid\<close>s the client has cached: no value where the client keeps no set, the empty set where nothing usable is cached.\<close>

type_synonym kid = "string option"

definition would_fetch :: "kid set option \<Rightarrow> kid \<Rightarrow> bool" where
  "would_fetch cached k \<longleftrightarrow> (case cached of None \<Rightarrow> False | Some kids \<Rightarrow> k \<notin> kids)"

definition lookup_outcome :: "kid set option \<Rightarrow> 'k lookup \<Rightarrow> auth_error + 'k" where
  "lookup_outcome cached r =
     (case r of
        Found k \<Rightarrow> Inr k
      | Unreachable \<Rightarrow> Inl (Unavailable ''identity provider (JWKS) is unreachable'')
      | ClientError \<Rightarrow>
          if (case cached of None \<Rightarrow> False | Some kids \<Rightarrow> kids \<noteq> {}) then Inl UnknownKid
          else Inl (Unavailable ''identity provider (JWKS) returned an unusable key set'')
      | MalformedSet \<Rightarrow> Inl (Unavailable ''identity provider (JWKS) returned a malformed key set'')
      | InvalidToken \<Rightarrow> Inl BadToken
      | LookupCancelled \<Rightarrow> Inl AuthCancelled)"

record refresh_guard =
  rg_lock :: "nat option"
  rg_last_attempt :: timestamp
  rg_last_error :: bool

definition new_guard :: refresh_guard where
  "new_guard = \<lparr>rg_lock = None, rg_last_attempt = 0, rg_last_error = False\<rparr>"

text \<open>
  Where \<open>resolve_signing_key\<close> stands: before its first check, in a lookup outside the lock, waiting for the lock, in a
  lookup inside it that found the \<open>kid\<close> cached meanwhile, in the one that refreshes, or over. The ghost field
  \<open>jw_attempts\<close> holds the times refreshes were begun, newest first.
\<close>

datatype 'k key_stage = Entering | DirectLookup | AwaitingLock | LockedLookup | Refreshing | Resolved "auth_error + 'k"

record 'k jwks_world =
  jw_now :: timestamp
  jw_cached :: "kid set option"
  jw_guard :: "refresh_guard option"
  jw_tasks :: "(kid \<times> 'k key_stage) list"
  jw_attempts :: "timestamp list"

definition guard_of :: "'k jwks_world \<Rightarrow> refresh_guard" where
  "guard_of w = (case jw_guard w of Some g \<Rightarrow> g | None \<Rightarrow> new_guard)"

definition set_guard :: "refresh_guard \<Rightarrow> 'k jwks_world \<Rightarrow> 'k jwks_world" where
  "set_guard g w = w\<lparr>jw_guard := Some g\<rparr>"

text \<open>What runs from taking the lock to the next await: the second check and the throttle.\<close>

definition locked_entry :: "timestamp \<Rightarrow> nat \<Rightarrow> kid \<Rightarrow> 'k jwks_world \<Rightarrow> 'k key_stage \<times> 'k jwks_world" where
  "locked_entry interval i k w =
     (let g = guard_of w in
      if \<not> would_fetch (jw_cached w) k then (LockedLookup, set_guard (g\<lparr>rg_lock := Some i\<rparr>) w)
      else if jw_now w - rg_last_attempt g < interval
      then (Resolved (Inl (if rg_last_error g then Unavailable ''identity provider (JWKS) is unavailable'' else UnknownKid)), w)
      else (Refreshing, set_guard (g\<lparr>rg_lock := Some i, rg_last_attempt := jw_now w, rg_last_error := False\<rparr>)
                          (w\<lparr>jw_attempts := jw_now w # jw_attempts w\<rparr>)))"

text \<open>One await of task i; \<open>r\<close> is what the lookup it awaits answers. No value where the lock is taken.\<close>

fun resolve_step :: "timestamp \<Rightarrow> nat \<Rightarrow> 'k lookup \<Rightarrow> kid \<Rightarrow> 'k key_stage \<Rightarrow> 'k jwks_world \<Rightarrow> ('k key_stage \<times> 'k jwks_world) option" where
  "resolve_step interval i r k Entering w =
     Some (if \<not> would_fetch (jw_cached w) k then (DirectLookup, w) else (AwaitingLock, set_guard (guard_of w) w))"
| "resolve_step interval i r k AwaitingLock w =
     (if rg_lock (guard_of w) = None then Some (locked_entry interval i k w) else None)"
| "resolve_step interval i r k DirectLookup w = Some (Resolved (lookup_outcome (jw_cached w) r), w)"
| "resolve_step interval i r k LockedLookup w =
     Some (Resolved (lookup_outcome (jw_cached w) r), set_guard ((guard_of w)\<lparr>rg_lock := None\<rparr>) w)"
| "resolve_step interval i r k Refreshing w =
     (let out = lookup_outcome (jw_cached w) r in
      Some (Resolved out, set_guard ((guard_of w)\<lparr>rg_lock := None,
        rg_last_error := (case out of Inl (Unavailable _) \<Rightarrow> True | _ \<Rightarrow> rg_last_error (guard_of w))\<rparr>) w))"
| "resolve_step interval i r k (Resolved q) w = None"

text \<open>
  Time passes, the client's cache changes (fetched or expired), a request enters, one takes its next step, one is
  cancelled while it waits for the lock.
\<close>

inductive jwks_step :: "timestamp \<Rightarrow> 'k jwks_world \<Rightarrow> 'k jwks_world \<Rightarrow> bool" for interval where
  jwks_tick: "jw_now w \<le> t \<Longrightarrow> jwks_step interval w (w\<lparr>jw_now := t\<rparr>)"
| jwks_cache: "jwks_step interval w (w\<lparr>jw_cached := kids\<rparr>)"
| jwks_enter: "jwks_step interval w (w\<lparr>jw_tasks := jw_tasks w @ [(k, Entering)]\<rparr>)"
| jwks_advance: "i < length (jw_tasks w) \<Longrightarrow> jw_tasks w ! i = (k, st) \<Longrightarrow> resolve_step interval i r k st w = Some (st', w') \<Longrightarrow>
     jwks_step interval w (w'\<lparr>jw_tasks := (jw_tasks w)[i := (k, st')]\<rparr>)"
| jwks_cancel: "i < length (jw_tasks w) \<Longrightarrow> jw_tasks w ! i = (k, AwaitingLock) \<Longrightarrow>
     jwks_step interval w (w\<lparr>jw_tasks := (jw_tasks w)[i := (k, Resolved (Inl AuthCancelled))]\<rparr>)"

definition fresh_jwks :: "timestamp \<Rightarrow> kid set option \<Rightarrow> 'k jwks_world" where
  "fresh_jwks now kids = \<lparr>jw_now = now, jw_cached = kids, jw_guard = None, jw_tasks = [], jw_attempts = []\<rparr>"

section \<open>The dependency\<close>

record auth_settings =
  as_issuer :: string
  as_audience :: string
  as_algorithm :: string

text \<open>\<open>decode\<close> is \<open>jwt.decode\<close> with the pinned algorithm, audience, issuer and required claims: the claims, or an invalid token.\<close>

definition get_current_user ::
  "auth_settings \<Rightarrow> (string \<Rightarrow> 'k \<Rightarrow> string \<Rightarrow> string \<Rightarrow> string \<Rightarrow> (string \<times> json) list option) \<Rightarrow> string option \<Rightarrow> (string \<Rightarrow> auth_error + 'k) \<Rightarrow> exn + principal" where
  "get_current_user cfg decode credentials resolved =
     (case credentials of
        None \<Rightarrow> Inl (AuthenticationError ''missing bearer token'')
      | Some token \<Rightarrow>
          if as_issuer cfg = [] then Inl (RuntimeError ''KEYCLOAK_ISSUER is not configured'')
          else (case resolved token of
             Inl (Unavailable d) \<Rightarrow> Inl (DependencyUnavailableError d)
           | Inl AuthCancelled \<Rightarrow> Inl (CancelledError Outside)
           | Inl UnknownKid \<Rightarrow> Inl (AuthenticationError ''could not resolve token signing key'')
           | Inl BadToken \<Rightarrow> Inl (AuthenticationError ''could not resolve token signing key'')
           | Inr key \<Rightarrow>
               (case decode token key (as_algorithm cfg) (as_audience cfg) (as_issuer cfg) of
                  None \<Rightarrow> Inl (AuthenticationError ''invalid or expired token'')
                | Some claims \<Rightarrow> principal_of claims)))"

section \<open>Roles\<close>

lemma all_strings_iff: "all_strings vs = Some ss \<longleftrightarrow> vs = map JStr ss"
  by (induction vs arbitrary: ss rule: all_strings.induct) (auto simp: map_eq_Cons_conv Cons_eq_map_conv)

lemma all_strings_map [simp]: "all_strings (map JStr ss) = Some ss"
  by (simp add: all_strings_iff)

lemma email_claim_Inr:
  "email_claim claims = Inr email \<longleftrightarrow> claim claims ''email'' = map_option JStr email \<or> email = None \<and> claim claims ''email'' = Some JNull"
  by (cases email) (auto simp: email_claim_def split: option.splits json.splits)

lemma role_claims_Inr:
  "role_claims claims = Inr roles \<longleftrightarrow>
     (\<exists>access. (claim claims ''realm_access'' = Some (JObj access) \<or> claim claims ''realm_access'' = None \<and> access = []) \<and>
        (claim access ''roles'' = Some (JList (map JStr roles)) \<or> claim access ''roles'' = None \<and> roles = []))"
proof -
  have "claim [] ''roles'' = None" by (simp add: claim_def)
  then show ?thesis by (auto simp: role_claims_def dest: all_strings_iff [THEN iffD1] split: option.splits json.splits)
qed

lemma principal_of_Inr:
  "principal_of claims = Inr p \<longleftrightarrow> claim claims ''sub'' = Some (JStr (pr_sub p)) \<and> pr_sub p \<noteq> [] \<and> email_claim claims = Inr (pr_email p) \<and>
     (\<exists>roles. role_claims claims = Inr roles \<and> pr_roles p = set roles)"
  by (cases p) (auto simp: principal_of_def split: option.splits json.splits sum.splits if_splits)

lemma claim_errors:
  "http_status (AuthenticationError d) = Some 401"
  "email_claim claims = Inl e \<Longrightarrow> http_status e = Some 401" "role_claims claims = Inl e \<Longrightarrow> http_status e = Some 401"
proof -
  show status: "http_status (AuthenticationError d) = Some 401" for d by (simp add: http_status_def mro_def registered_handlers_def)
  show "email_claim claims = Inl e \<Longrightarrow> http_status e = Some 401" "role_claims claims = Inl e \<Longrightarrow> http_status e = Some 401"
    by (auto simp: email_claim_def role_claims_def status split: option.splits json.splits)
qed

text \<open>
  C29. A verified token grants exactly the roles it lists. The claims give a caller if and only if \<open>sub\<close> is a non-empty
  string, \<open>email\<close> is a string, null or absent, and \<open>realm_access.roles\<close> is a list of strings or absent at either level;
  the caller's roles are then the members of that list and nothing else. All other claims are answered with 401.
\<close>
theorem principal_claims_exact:
  "(principal_of claims = Inr p \<longleftrightarrow>
      claim claims ''sub'' = Some (JStr (pr_sub p)) \<and> pr_sub p \<noteq> [] \<and>
      (claim claims ''email'' = map_option JStr (pr_email p) \<or> pr_email p = None \<and> claim claims ''email'' = Some JNull) \<and>
      (\<exists>access roles. (claim claims ''realm_access'' = Some (JObj access) \<or> claim claims ''realm_access'' = None \<and> access = []) \<and>
         (claim access ''roles'' = Some (JList (map JStr roles)) \<or> claim access ''roles'' = None \<and> roles = []) \<and> pr_roles p = set roles)) \<and>
   (\<forall>e. principal_of claims = Inl e \<longrightarrow> http_status e = Some 401)"
proof
  show "\<forall>e. principal_of claims = Inl e \<longrightarrow> http_status e = Some 401"
    unfolding principal_of_def by (auto simp: claim_errors split: option.splits json.splits if_splits sum.splits)
  show "principal_of claims = Inr p \<longleftrightarrow>
      claim claims ''sub'' = Some (JStr (pr_sub p)) \<and> pr_sub p \<noteq> [] \<and>
      (claim claims ''email'' = map_option JStr (pr_email p) \<or> pr_email p = None \<and> claim claims ''email'' = Some JNull) \<and>
      (\<exists>access roles. (claim claims ''realm_access'' = Some (JObj access) \<or> claim claims ''realm_access'' = None \<and> access = []) \<and>
         (claim access ''roles'' = Some (JList (map JStr roles)) \<or> claim access ''roles'' = None \<and> roles = []) \<and> pr_roles p = set roles)"
    unfolding principal_of_Inr email_claim_Inr role_claims_Inr by auto
qed

section \<open>The refresh guard\<close>

definition jwks_ok :: "timestamp \<Rightarrow> 'k jwks_world \<Rightarrow> bool" where
  "jwks_ok interval w \<longleftrightarrow> sorted_wrt (\<lambda>a b. b + interval \<le> a) (jw_attempts w) \<and>
     (jw_attempts w \<noteq> [] \<longrightarrow> rg_last_attempt (guard_of w) = hd (jw_attempts w)) \<and>
     (\<forall>i < length (jw_tasks w). snd (jw_tasks w ! i) = Refreshing \<or> snd (jw_tasks w ! i) = LockedLookup \<longrightarrow> rg_lock (guard_of w) = Some i)"

lemma guard_of_simps [simp]:
  "guard_of (set_guard g w) = g" "jw_attempts (set_guard g w) = jw_attempts w" "jw_tasks (set_guard g w) = jw_tasks w"
  "guard_of (w\<lparr>jw_tasks := ts\<rparr>) = guard_of w" "guard_of (w\<lparr>jw_now := t\<rparr>) = guard_of w" "guard_of (w\<lparr>jw_cached := kids\<rparr>) = guard_of w"
  "guard_of (w\<lparr>jw_attempts := begun\<rparr>) = guard_of w"
  by (simp_all add: guard_of_def set_guard_def)

lemma spaced_extend:
  assumes "sorted_wrt (\<lambda>a b. b + interval \<le> a) ts" and "ts \<noteq> [] \<longrightarrow> hd ts + interval \<le> t" and "0 \<le> (interval :: int)"
  shows "sorted_wrt (\<lambda>a b. b + interval \<le> a) (t # ts)"
  using assms by (cases ts) auto

lemma jwks_ok_step:
  assumes "jwks_step interval w w'" and ok: "jwks_ok interval w" and "0 \<le> interval"
  shows "jwks_ok interval w'"
  using assms(1)
proof cases
  case (jwks_advance i k st r st' v)
  note ok' = ok [unfolded jwks_ok_def]
  have alone': "snd (jw_tasks w ! j) \<noteq> Refreshing \<and> snd (jw_tasks w ! j) \<noteq> LockedLookup"
    if "st = Refreshing \<or> st = LockedLookup" "j < length (jw_tasks w)" "j \<noteq> i" for j
    using ok' that jwks_advance(2,3) by (metis option.inject snd_conv)
  show ?thesis
  proof (cases st)
    case AwaitingLock
    then have free: "rg_lock (guard_of w) = None" and entry: "locked_entry interval i k w = (st', v)"
      using jwks_advance(4) by (auto split: if_splits)
    have alone: "snd (jw_tasks w ! j) \<noteq> Refreshing \<and> snd (jw_tasks w ! j) \<noteq> LockedLookup" if "j < length (jw_tasks w)" for j
      using ok' that free by fastforce
    have "sorted_wrt (\<lambda>a b. b + interval \<le> a) (jw_now w # jw_attempts w)" if "\<not> jw_now w - rg_last_attempt (guard_of w) < interval"
      using ok' that assms(3) by (intro spaced_extend) auto
    then show ?thesis using entry ok' alone jwks_advance(2)
      by (auto simp: jwks_advance(1) jwks_ok_def locked_entry_def Let_def nth_list_update split: if_splits)
  qed (use jwks_advance ok' alone' in \<open>auto simp: jwks_ok_def nth_list_update Let_def split: if_splits\<close>)
qed (use ok in \<open>auto simp: jwks_ok_def nth_append nth_list_update\<close>)

lemma jwks_ok_run: "(jwks_step interval)\<^sup>*\<^sup>* (fresh_jwks now kids) w \<Longrightarrow> 0 \<le> interval \<Longrightarrow> jwks_ok interval w"
proof (induction rule: rtranclp_induct)
  case base
  then show ?case by (simp add: jwks_ok_def fresh_jwks_def)
qed (auto intro: jwks_ok_step)

text \<open>
  C30. Unknown keys cannot be used to hammer the identity provider: however many requests with whatever \<open>kid\<close>s are
  interleaved, whatever their lookups answer and whatever the cache holds, the refreshes of the key set for an
  uncached \<open>kid\<close> begin at least \<open>min_refresh_interval\<close> apart, and no two of them are in flight at once.
\<close>
theorem jwks_refresh_spaced:
  assumes "(jwks_step interval)\<^sup>*\<^sup>* (fresh_jwks now kids) w" and "0 \<le> interval"
  shows "(\<forall>i j. i < j \<longrightarrow> j < length (jw_attempts w) \<longrightarrow> interval \<le> jw_attempts w ! i - jw_attempts w ! j) \<and>
    (\<forall>i j. i < length (jw_tasks w) \<longrightarrow> j < length (jw_tasks w) \<longrightarrow> snd (jw_tasks w ! i) = Refreshing \<longrightarrow> snd (jw_tasks w ! j) = Refreshing \<longrightarrow> i = j)"
proof
  have ok: "jwks_ok interval w" using assms by (rule jwks_ok_run)
  show "\<forall>i j. i < j \<longrightarrow> j < length (jw_attempts w) \<longrightarrow> interval \<le> jw_attempts w ! i - jw_attempts w ! j"
    using ok by (auto simp: jwks_ok_def sorted_wrt_iff_nth_less algebra_simps)
  show "\<forall>i j. i < length (jw_tasks w) \<longrightarrow> j < length (jw_tasks w) \<longrightarrow> snd (jw_tasks w ! i) = Refreshing \<longrightarrow> snd (jw_tasks w ! j) = Refreshing \<longrightarrow> i = j"
    using ok unfolding jwks_ok_def by (metis option.inject)
qed

section \<open>Concrete runs\<close>

definition sample_claims :: "(string \<times> json) list" where
  "sample_claims = [(''sub'', JStr ''u''), (''realm_access'', JObj [(''roles'', JList [JStr ''merchant''])])]"

theorem principal_claims_exact_witness:
  "principal_of sample_claims = Inr \<lparr>pr_sub = ''u'', pr_email = None, pr_roles = {''merchant''}\<rparr> \<and>
   http_status (AuthenticationError ''token 'realm_access.roles' claim is invalid'') = Some 401 \<and>
   principal_of [(''sub'', JStr ''u''), (''realm_access'', JObj [(''roles'', JObj [(''admin'', JBool True)])])] =
     Inl (AuthenticationError ''token 'realm_access.roles' claim is invalid'')"
proof (intro conjI)
  have "claim sample_claims ''realm_access'' = Some (JObj [(''roles'', JList [JStr ''merchant''])]) \<and>
      claim [(''roles'', JList [JStr ''merchant''])] ''roles'' = Some (JList (map JStr [''merchant'']))"
    by (simp add: claim_def sample_claims_def)
  then have "\<exists>access roles. (claim sample_claims ''realm_access'' = Some (JObj access) \<or> claim sample_claims ''realm_access'' = None \<and> access = []) \<and>
      (claim access ''roles'' = Some (JList (map JStr roles)) \<or> claim access ''roles'' = None \<and> roles = []) \<and> {''merchant''} = set roles"
    by (intro exI [of _ "[(''roles'', JList [JStr ''merchant''])]"] exI [of _ "[''merchant'']"]) simp
  then show "principal_of sample_claims = Inr \<lparr>pr_sub = ''u'', pr_email = None, pr_roles = {''merchant''}\<rparr>"
    using principal_claims_exact [of sample_claims "\<lparr>pr_sub = ''u'', pr_email = None, pr_roles = {''merchant''}\<rparr>"]
    by (simp add: claim_def sample_claims_def)
  show bad: "principal_of [(''sub'', JStr ''u''), (''realm_access'', JObj [(''roles'', JObj [(''admin'', JBool True)])])] =
      Inl (AuthenticationError ''token 'realm_access.roles' claim is invalid'')"
    by (simp add: principal_of_def claim_def email_claim_def role_claims_def)
  show "http_status (AuthenticationError ''token 'realm_access.roles' claim is invalid'') = Some 401"
    using principal_claims_exact [of "[(''sub'', JStr ''u''), (''realm_access'', JObj [(''roles'', JObj [(''admin'', JBool True)])])]" undefined] bad by blast
qed

datatype 'k jwks_command = Wait timestamp | Enter kid | Proceed nat "'k lookup"

fun run_jwks :: "timestamp \<Rightarrow> 'k jwks_command list \<Rightarrow> 'k jwks_world \<Rightarrow> 'k jwks_world" where
  "run_jwks interval [] w = w"
| "run_jwks interval (Wait d # cs) w = run_jwks interval cs (if 0 \<le> d then w\<lparr>jw_now := jw_now w + d\<rparr> else w)"
| "run_jwks interval (Enter k # cs) w = run_jwks interval cs (w\<lparr>jw_tasks := jw_tasks w @ [(k, Entering)]\<rparr>)"
| "run_jwks interval (Proceed i r # cs) w =
     run_jwks interval cs
       (if i < length (jw_tasks w)
        then case resolve_step interval i r (fst (jw_tasks w ! i)) (snd (jw_tasks w ! i)) w of
               None \<Rightarrow> w
             | Some (st', w') \<Rightarrow> w'\<lparr>jw_tasks := (jw_tasks w)[i := (fst (jw_tasks w ! i), st')]\<rparr>
        else w)"

lemma run_jwks_steps: "(jwks_step interval)\<^sup>*\<^sup>* w (run_jwks interval cs w)"
proof (induction interval cs w rule: run_jwks.induct)
  case (2 interval d cs w)
  then show ?case using jwks_step.jwks_tick [of w "jw_now w + d" interval] by (auto intro: converse_rtranclp_into_rtranclp)
next
  case (3 interval k cs w)
  then show ?case using jwks_step.jwks_enter [of interval w k] by (simp add: converse_rtranclp_into_rtranclp)
next
  case (4 interval i r cs w)
  let ?w = "if i < length (jw_tasks w)
        then case resolve_step interval i r (fst (jw_tasks w ! i)) (snd (jw_tasks w ! i)) w of
               None \<Rightarrow> w
             | Some (st', w') \<Rightarrow> w'\<lparr>jw_tasks := (jw_tasks w)[i := (fst (jw_tasks w ! i), st')]\<rparr>
        else w"
  have "?w = w \<or> jwks_step interval w ?w" by (auto split: option.splits intro!: jwks_step.jwks_advance)
  then show ?case using 4 by (auto simp del: if_splits intro: converse_rtranclp_into_rtranclp)
qed simp

text \<open>Two unknown \<open>kid\<close>s in one window, and a third one after it.\<close>

definition sample_jwks :: "nat jwks_world" where
  "sample_jwks = run_jwks 10
     [Enter (Some ''x''), Proceed 0 Unreachable, Proceed 0 Unreachable, Proceed 0 Unreachable, Wait 4, Enter (Some ''y''), Proceed 1 Unreachable,
      Proceed 1 Unreachable, Wait 6, Enter (Some ''z''), Proceed 2 Unreachable, Proceed 2 Unreachable] (fresh_jwks 100 (Some {}))"

theorem jwks_refresh_spaced_witness:
  "jw_attempts sample_jwks = [110, 100] \<and> 10 \<le> jw_attempts sample_jwks ! 0 - jw_attempts sample_jwks ! 1 \<and>
   snd (jw_tasks sample_jwks ! 1) = Resolved (Inl (Unavailable ''identity provider (JWKS) is unavailable''))"
proof (intro conjI)
  show attempts: "jw_attempts sample_jwks = [110, 100]" by code_simp
  have "(jwks_step 10)\<^sup>*\<^sup>* (fresh_jwks 100 (Some {})) sample_jwks" unfolding sample_jwks_def by (rule run_jwks_steps)
  then show "10 \<le> jw_attempts sample_jwks ! 0 - jw_attempts sample_jwks ! 1"
    using jwks_refresh_spaced [of 10 100 "Some {}" sample_jwks] by (simp add: attempts)
qed code_simp

text \<open>
  The throttle starts out as if a refresh had been attempted at the origin of the monotonic clock: while the machine
  has been up for less than the interval, a token is refused as unknown although the key set was never fetched.
\<close>

lemma jwks_refused_after_boot:
  "jw_tasks (run_jwks 10 [Enter (Some ''x''), Proceed 0 (Found ()), Proceed 0 (Found ())] (fresh_jwks 5 (Some {}))) = [(Some ''x'', Resolved (Inl UnknownKid))]"
  "jw_attempts (run_jwks 10 [Enter (Some ''x''), Proceed 0 (Found ()), Proceed 0 (Found ())] (fresh_jwks 5 (Some {}))) = []"
  by code_simp+

end
