(* ===== verification/Settings.thy ===== *)
theory Settings
  imports Codec
begin

text \<open>
  \<^verbatim>\<open>shared/config/setting.py\<close>: the relations between settings that are enforced at startup. Only the fields these
  validators and the retention prune read are part of the record; times are in seconds, an unset text is absent. The
  validator of the presign origin (it takes a URL apart with \<open>urlsplit\<close>) is left out.
\<close>

section \<open>The settings\<close>

record app_settings =
  environment :: string
  verbose_error_details :: bool
  payment_stub_pending_token_substring :: string
  payment_reconciliation_grace_seconds :: int
  payment_reconciliation_max_age_seconds :: int
  s3_bucket :: "string option"
  s3_endpoint_url :: "string option"
  s3_public_base_url :: "string option"
  image_visibility_timeout_seconds :: int
  image_upload_reaper_grace_seconds :: int
  bus_topic_arn_prefix :: "string option"
  reservation_ttl_seconds :: int
  checkout_saga_step_timeout_seconds :: int
  checkout_saga_overall_timeout_seconds :: int
  outbox_retention_days :: int
  reservation_retention_days :: int
  saga_log_retention_days :: int
  retention_prune_batch_size :: int

definition truthy :: "string option \<Rightarrow> bool" where
  "truthy v = (case v of Some s \<Rightarrow> s \<noteq> [] | None \<Rightarrow> False)"

section \<open>The validators\<close>

text \<open>\<open>Field(gt=0)\<close>.\<close>

definition positive_fields :: "app_settings \<Rightarrow> bool" where
  "positive_fields s \<longleftrightarrow>
     0 < payment_reconciliation_grace_seconds s \<and> 0 < payment_reconciliation_max_age_seconds s \<and>
     0 < image_visibility_timeout_seconds s \<and> 0 < image_upload_reaper_grace_seconds s \<and>
     0 < reservation_ttl_seconds s \<and> 0 < checkout_saga_step_timeout_seconds s \<and> 0 < checkout_saga_overall_timeout_seconds s \<and>
     0 < outbox_retention_days s \<and> 0 < reservation_retention_days s \<and> 0 < saga_log_retention_days s \<and> 0 < retention_prune_batch_size s"

definition validate_topic_arn_prefix :: "string option \<Rightarrow> exn + string option" where
  "validate_topic_arn_prefix value =
     (case value of
        None \<Rightarrow> Inr None
      | Some v \<Rightarrow>
          if strip v = [] then Inr None
          else let prefix = (if last (strip v) = CHR '':'' then strip v else strip v @ '':''); parts = split_on (CHR '':'') prefix in
            if length parts \<noteq> 6 \<or> parts ! 0 \<noteq> ''arn'' \<or> parts ! 2 \<noteq> ''sns'' \<or> parts ! 3 = [] \<or> parts ! 4 = []
            then Inl (ValueError ''bus_topic_arn_prefix'') else Inr (Some prefix))"

definition image_public_base_url :: "app_settings \<Rightarrow> string option" where
  "image_public_base_url s =
     (if truthy (s3_public_base_url s) then s3_public_base_url s
      else if truthy (s3_endpoint_url s) \<and> truthy (s3_bucket s)
      then Some (the (s3_endpoint_url s) @ ''/'' @ the (s3_bucket s)) else None)"

definition require_public_image_base_in_cloud :: "app_settings \<Rightarrow> bool" where
  "require_public_image_base_in_cloud s \<longleftrightarrow>
     \<not> (truthy (s3_bucket s) \<and> s3_endpoint_url s = None \<and> \<not> truthy (s3_public_base_url s))"

definition require_reaper_grace_above_visibility_timeout :: "app_settings \<Rightarrow> bool" where
  "require_reaper_grace_above_visibility_timeout s \<longleftrightarrow>
     \<not> image_upload_reaper_grace_seconds s \<le> image_visibility_timeout_seconds s"

definition require_saga_step_timeout_below_reservation_ttl :: "app_settings \<Rightarrow> bool" where
  "require_saga_step_timeout_below_reservation_ttl s \<longleftrightarrow>
     \<not> checkout_saga_step_timeout_seconds s \<ge> reservation_ttl_seconds s"

definition require_saga_overall_timeout_below_reservation_ttl :: "app_settings \<Rightarrow> bool" where
  "require_saga_overall_timeout_below_reservation_ttl s \<longleftrightarrow>
     \<not> checkout_saga_overall_timeout_seconds s \<ge> reservation_ttl_seconds s \<and>
     \<not> checkout_saga_overall_timeout_seconds s \<le> checkout_saga_step_timeout_seconds s"

definition refuse_verbose_errors_outside_dev :: "app_settings \<Rightarrow> bool" where
  "refuse_verbose_errors_outside_dev s \<longleftrightarrow> \<not> (environment s \<notin> {''local'', ''dev''} \<and> verbose_error_details s)"

definition refuse_pending_trigger_outside_dev :: "app_settings \<Rightarrow> bool" where
  "refuse_pending_trigger_outside_dev s \<longleftrightarrow>
     \<not> (payment_stub_pending_token_substring s \<noteq> [] \<and> environment s \<notin> {''local'', ''dev''})"

definition require_retention_beyond_reconciliation_window :: "app_settings \<Rightarrow> bool" where
  "require_retention_beyond_reconciliation_window s \<longleftrightarrow>
     list_all (\<lambda>days. \<not> of_int days \<le> (of_int (payment_reconciliation_max_age_seconds s) / 86400 :: rat))
       [reservation_retention_days s, saga_log_retention_days s]"

definition require_reconciliation_max_age_above_grace :: "app_settings \<Rightarrow> bool" where
  "require_reconciliation_max_age_above_grace s \<longleftrightarrow>
     \<not> payment_reconciliation_max_age_seconds s \<le> payment_reconciliation_grace_seconds s"

text \<open>The fields first, then the model validators in the order they are declared.\<close>

definition validated_settings :: "app_settings \<Rightarrow> exn + app_settings" where
  "validated_settings s =
     (if \<not> positive_fields s \<or> environment s \<notin> {''local'', ''dev'', ''staging'', ''prod''} then Inl (ValidationError ''field'')
      else case validate_topic_arn_prefix (bus_topic_arn_prefix s) of
        Inl e \<Rightarrow> Inl (ValidationError ''bus_topic_arn_prefix'')
      | Inr prefix \<Rightarrow>
          if require_public_image_base_in_cloud s \<and> require_reaper_grace_above_visibility_timeout s \<and>
             require_saga_step_timeout_below_reservation_ttl s \<and> require_saga_overall_timeout_below_reservation_ttl s \<and>
             refuse_verbose_errors_outside_dev s \<and> refuse_pending_trigger_outside_dev s \<and>
             require_retention_beyond_reconciliation_window s \<and> require_reconciliation_max_age_above_grace s
          then Inr (s\<lparr>bus_topic_arn_prefix := prefix\<rparr>)
          else Inl (ValidationError ''model''))"

lemma validated_window:
  assumes "validated_settings s = Inr s'"
  shows "payment_reconciliation_max_age_seconds s' < reservation_retention_days s' * 86400"
    "payment_reconciliation_max_age_seconds s' < saga_log_retention_days s' * 86400"
    "0 < retention_prune_batch_size s'"
proof -
  have window: "\<not> of_int days \<le> (of_int age / 86400 :: rat) \<longleftrightarrow> age < days * 86400" for days age :: int
  proof -
    have "of_int days \<le> (of_int age / 86400 :: rat) \<longleftrightarrow> of_int (days * 86400) \<le> (of_int age :: rat)" by (simp add: field_simps)
    also have "\<dots> \<longleftrightarrow> days * 86400 \<le> age" by (simp only: of_int_le_iff)
    finally show ?thesis by linarith
  qed
  show "payment_reconciliation_max_age_seconds s' < reservation_retention_days s' * 86400"
    "payment_reconciliation_max_age_seconds s' < saga_log_retention_days s' * 86400" "0 < retention_prune_batch_size s'"
    using assms by (auto simp: validated_settings_def require_retention_beyond_reconciliation_window_def window positive_fields_def
        split: if_splits sum.splits)
qed

end
