(* ===== verification/Retention.thy ===== *)
theory Retention
  imports Stock_Invariant Settings
begin

text \<open>
  \<^verbatim>\<open>scripts/retention_prune.py\<close>: the sweep that deletes shipped outbox rows, settled reservations and the journal of
  settled orders, in batches. Of a stored event only its id and its two times count. \<open>updated_at\<close> of a reservation, which
  the repository's model does not carry, stands beside the row. A pass is given one time; the loop has fuel, because it
  does not end with a batch size of zero.
\<close>

section \<open>The tables\<close>

record stored_event =
  se_id :: uuid
  se_occurred :: timestamp
  se_published :: "timestamp option"

record hold_row =
  hr_reservation :: reservation
  hr_updated :: timestamp

record retention_db =
  rd_outbox :: "string \<Rightarrow> stored_event list"
  rd_reservations :: "hold_row list"
  rd_orders :: "order list"
  rd_saga_log :: "saga_step list"
  rd_now :: timestamp

definition outbox_schemas :: "string list" where
  "outbox_schemas = [''identity'', ''catalog'', ''inventory'', ''orders'', ''payments'']"

definition days_ago :: "int \<Rightarrow> retention_db \<Rightarrow> timestamp" where
  "days_ago days d = rd_now d - seconds (days * 86400)"

section \<open>The statements\<close>

text \<open>\<open>DELETE .. WHERE id IN (SELECT id .. WHERE p ORDER BY age LIMIT batch)\<close>: how many rows went, and what is left.\<close>

definition delete_oldest :: "('r \<Rightarrow> uuid) \<Rightarrow> ('r \<Rightarrow> timestamp) \<Rightarrow> ('r \<Rightarrow> bool) \<Rightarrow> nat \<Rightarrow> 'r list \<Rightarrow> nat \<times> 'r list" where
  "delete_oldest rid age p batch rows =
     (let gone = map rid (take batch (sort_key age (filter p rows))); left = filter (\<lambda>r. rid r \<notin> set gone) rows in
      (length rows - length left, left))"

definition shipped :: "timestamp \<Rightarrow> stored_event \<Rightarrow> bool" where
  "shipped before e \<longleftrightarrow> se_published e \<noteq> None \<and> se_occurred e < before"

definition settled_hold :: "timestamp \<Rightarrow> hold_row \<Rightarrow> bool" where
  "settled_hold before r \<longleftrightarrow> res_status (hr_reservation r) \<noteq> HELD \<and> hr_updated r < before"

definition settled_order :: "timestamp \<Rightarrow> order \<Rightarrow> bool" where
  "settled_order before q \<longleftrightarrow> order_state q \<noteq> PENDING \<and> order_updated q < before"

definition outbox_sql :: "string \<Rightarrow> app_settings \<Rightarrow> retention_db \<Rightarrow> nat \<times> retention_db" where
  "outbox_sql schema cfg d =
     (let (n, rows) = delete_oldest se_id se_occurred (shipped (days_ago (outbox_retention_days cfg) d))
             (nat (retention_prune_batch_size cfg)) (rd_outbox d schema) in
      (n, d\<lparr>rd_outbox := (rd_outbox d)(schema := rows)\<rparr>))"

definition reservations_sql :: "app_settings \<Rightarrow> retention_db \<Rightarrow> nat \<times> retention_db" where
  "reservations_sql cfg d =
     (let (n, rows) = delete_oldest (\<lambda>r. res_id (hr_reservation r)) hr_updated (settled_hold (days_ago (reservation_retention_days cfg) d))
             (nat (retention_prune_batch_size cfg)) (rd_reservations d) in
      (n, d\<lparr>rd_reservations := rows\<rparr>))"

text \<open>The limit of this one is on the orders.\<close>

definition oldest_settled :: "app_settings \<Rightarrow> retention_db \<Rightarrow> uuid set" where
  "oldest_settled cfg d =
     set (map order_id (take (nat (retention_prune_batch_size cfg))
       (sort_key order_updated (filter (settled_order (days_ago (saga_log_retention_days cfg) d)) (rd_orders d)))))"

definition saga_log_sql :: "app_settings \<Rightarrow> retention_db \<Rightarrow> nat \<times> retention_db" where
  "saga_log_sql cfg d =
     (let left = filter (\<lambda>s. log_order s \<notin> oldest_settled cfg d) (rd_saga_log d) in
      (length (rd_saga_log d) - length left, d\<lparr>rd_saga_log := left\<rparr>))"

section \<open>A pass\<close>

fun prune_batched :: "nat \<Rightarrow> nat \<Rightarrow> ('s \<Rightarrow> nat \<times> 's) \<Rightarrow> 's \<Rightarrow> (nat \<times> 's) option" where
  "prune_batched 0 batch sql s = None"
| "prune_batched (Suc fuel) batch sql s =
     (let (deleted, s') = sql s in
      if deleted < batch then Some (deleted, s')
      else map_option (\<lambda>(total, s''). (deleted + total, s'')) (prune_batched fuel batch sql s'))"

fun prune_outboxes :: "nat \<Rightarrow> app_settings \<Rightarrow> string list \<Rightarrow> retention_db \<Rightarrow> ((string \<times> nat) list \<times> retention_db) option" where
  "prune_outboxes fuel cfg [] d = Some ([], d)"
| "prune_outboxes fuel cfg (schema # schemas) d =
     (case prune_batched fuel (nat (retention_prune_batch_size cfg)) (outbox_sql schema cfg) d of
        None \<Rightarrow> None
      | Some (n, d') \<Rightarrow> map_option (\<lambda>(counts, d''). ((schema @ ''.outbox'', n) # counts, d'')) (prune_outboxes fuel cfg schemas d'))"

definition prune_once :: "nat \<Rightarrow> app_settings \<Rightarrow> retention_db \<Rightarrow> ((string \<times> nat) list \<times> retention_db) option" where
  "prune_once fuel cfg d =
     (case prune_outboxes fuel cfg outbox_schemas d of
        None \<Rightarrow> None
      | Some (counts, d1) \<Rightarrow>
          (case prune_batched fuel (nat (retention_prune_batch_size cfg)) (reservations_sql cfg) d1 of
             None \<Rightarrow> None
           | Some (n, d2) \<Rightarrow>
               (case prune_batched fuel (nat (retention_prune_batch_size cfg)) (saga_log_sql cfg) d2 of
                  None \<Rightarrow> None
                | Some (m, d3) \<Rightarrow> Some (counts @ [(''inventory.reservations'', n), (''orders.saga_log'', m)], d3))))"

text \<open>The scheduled form of \<open>run_prune\<close>; the polling form repeats the pass.\<close>

definition run_prune_once :: "nat \<Rightarrow> app_settings \<Rightarrow> retention_db \<Rightarrow> (nat \<times> retention_db) option" where
  "run_prune_once fuel cfg d = map_option (\<lambda>(counts, d'). (sum_list (map snd counts), d')) (prune_once fuel cfg d)"

section \<open>What the statements delete\<close>

lemma delete_oldest_all:
  assumes "delete_oldest rid age p batch rows = (n, left)" and "distinct (map rid rows)" and "n < batch"
  shows "left = filter (\<lambda>r. \<not> p r) rows"
proof -
  let ?gone = "take batch (sort_key age (filter p rows))"
  have sub: "set ?gone \<subseteq> set (filter p rows)" by (metis set_sort set_take_subset)
  have left: "left = filter (\<lambda>r. rid r \<notin> rid ` set ?gone) rows" and n: "n = length rows - length left"
    using assms(1) by (auto simp: delete_oldest_def Let_def)
  have inj: "inj_on rid (set rows)" using assms(2) by (simp add: distinct_map)
  have "rid r \<in> rid ` set ?gone \<longleftrightarrow> r \<in> set ?gone" if "r \<in> set rows" for r
    using that sub inj by (auto dest: inj_onD)
  then have left': "left = filter (\<lambda>r. r \<notin> set ?gone) rows" unfolding left by (intro filter_cong) auto
  have "distinct rows" using assms(2) by (simp add: distinct_map)
  then have "distinct ?gone" by (simp add: distinct_sort)
  have "length left + length (filter (\<lambda>r. r \<in> set ?gone) rows) = length rows"
    unfolding left' using sum_length_filter_compl [of "\<lambda>r. r \<notin> set ?gone" rows] by simp
  moreover have "length (filter (\<lambda>r. r \<in> set ?gone) rows) = length ?gone"
  proof -
    have "set (filter (\<lambda>r. r \<in> set ?gone) rows) = set ?gone" using sub by auto
    then show ?thesis using \<open>distinct rows\<close> \<open>distinct ?gone\<close> by (metis distinct_card distinct_filter)
  qed
  ultimately have "length ?gone < batch" using n assms(3) by linarith
  then have "length (filter p rows) < batch" by (metis length_sort length_take min_less_iff_conj nat_neq_iff)
  then have "set ?gone = set (filter p rows)" by (simp add: take_all)
  then show ?thesis unfolding left' by (intro filter_cong) auto
qed

lemma delete_oldest_some:
  assumes "delete_oldest rid age p batch rows = (n, left)" and "distinct (map rid rows)"
  shows "filter (\<lambda>r. \<not> p r) left = filter (\<lambda>r. \<not> p r) rows" "distinct (map rid left)" "n = length rows - length left" "length left \<le> length rows"
proof -
  let ?gone = "take batch (sort_key age (filter p rows))"
  have sub: "set ?gone \<subseteq> set (filter p rows)" by (metis set_sort set_take_subset)
  have left: "left = filter (\<lambda>r. rid r \<notin> rid ` set ?gone) rows" and n: "n = length rows - length left"
    using assms(1) by (auto simp: delete_oldest_def Let_def)
  have inj: "inj_on rid (set rows)" using assms(2) by (simp add: distinct_map)
  have "rid r \<notin> rid ` set ?gone" if "r \<in> set rows" "\<not> p r" for r
    using that sub inj by (auto dest: inj_onD)
  then show "filter (\<lambda>r. \<not> p r) left = filter (\<lambda>r. \<not> p r) rows" unfolding left filter_filter by (intro filter_cong) auto
  show "distinct (map rid left)" unfolding left using assms(2) by (rule distinct_map_filter)
  show "n = length rows - length left" "length left \<le> length rows" using n by (simp_all add: left)
qed

lemma prune_table:
  assumes "1 \<le> batch" and "distinct (map rid rows)" and "length rows < fuel"
  shows "\<exists>n. prune_batched fuel batch (delete_oldest rid age p batch) rows = Some (n, filter (\<lambda>r. \<not> p r) rows)"
  using assms(2,3)
proof (induction fuel arbitrary: rows)
  case (Suc fuel)
  obtain n left where step: "delete_oldest rid age p batch rows = (n, left)" by fastforce
  note some = delete_oldest_some [OF step Suc.prems(1)]
  show ?case
  proof (cases "n < batch")
    case True
    then show ?thesis using delete_oldest_all [OF step Suc.prems(1) True] step by simp
  next
    case False
    then have "length left < fuel" using some(3,4) assms(1) Suc.prems(2) by linarith
    then obtain m where "prune_batched fuel batch (delete_oldest rid age p batch) left = Some (m, filter (\<lambda>r. \<not> p r) left)"
      using Suc.IH some(2) by blast
    then show ?thesis using step some(1) False by simp
  qed
qed simp

lemma prune_batched_lift:
  assumes "\<And>x. sql (put x) = (case step x of (n, y) \<Rightarrow> (n, put y))"
  shows "prune_batched fuel batch sql (put x) = map_option (\<lambda>(n, y). (n, put y)) (prune_batched fuel batch step x)"
proof (induction fuel arbitrary: x)
  case (Suc fuel)
  obtain n y where "step x = (n, y)" by fastforce
  then show ?case using Suc by (cases "prune_batched fuel batch step y") (auto simp: assms)
qed simp

section \<open>What a pass deletes\<close>

definition unique_rows :: "retention_db \<Rightarrow> bool" where
  "unique_rows d \<longleftrightarrow> (\<forall>schema. distinct (map se_id (rd_outbox d schema))) \<and> distinct (map (\<lambda>r. res_id (hr_reservation r)) (rd_reservations d))"

lemma prune_outbox:
  assumes "0 < retention_prune_batch_size cfg" and "distinct (map se_id (rd_outbox d schema))" and "length (rd_outbox d schema) < fuel"
  shows "\<exists>n. prune_batched fuel (nat (retention_prune_batch_size cfg)) (outbox_sql schema cfg) d =
    Some (n, d\<lparr>rd_outbox := (rd_outbox d)(schema := filter (\<lambda>e. \<not> shipped (days_ago (outbox_retention_days cfg) d) e) (rd_outbox d schema))\<rparr>)"
proof -
  let ?put = "\<lambda>rows. d\<lparr>rd_outbox := (rd_outbox d)(schema := rows)\<rparr>"
  let ?step = "delete_oldest se_id se_occurred (shipped (days_ago (outbox_retention_days cfg) d)) (nat (retention_prune_batch_size cfg))"
  have "outbox_sql schema cfg (?put x) = (case ?step x of (n, y) \<Rightarrow> (n, ?put y))" for x
    by (simp add: outbox_sql_def days_ago_def split: prod.split)
  note lift = prune_batched_lift [of "outbox_sql schema cfg" ?put ?step, OF this, of fuel _ "rd_outbox d schema"]
  have "1 \<le> nat (retention_prune_batch_size cfg)" using assms(1) by simp
  from prune_table [OF this assms(2,3), of se_occurred "shipped (days_ago (outbox_retention_days cfg) d)"]
  show ?thesis using lift by auto
qed

lemma prune_holds:
  assumes "0 < retention_prune_batch_size cfg" and "distinct (map (\<lambda>r. res_id (hr_reservation r)) (rd_reservations d))" and "length (rd_reservations d) < fuel"
  shows "\<exists>n. prune_batched fuel (nat (retention_prune_batch_size cfg)) (reservations_sql cfg) d =
    Some (n, d\<lparr>rd_reservations := filter (\<lambda>r. \<not> settled_hold (days_ago (reservation_retention_days cfg) d) r) (rd_reservations d)\<rparr>)"
proof -
  let ?put = "\<lambda>rows. d\<lparr>rd_reservations := rows\<rparr>"
  let ?step = "delete_oldest (\<lambda>r. res_id (hr_reservation r)) hr_updated (settled_hold (days_ago (reservation_retention_days cfg) d)) (nat (retention_prune_batch_size cfg))"
  have "reservations_sql cfg (?put x) = (case ?step x of (n, y) \<Rightarrow> (n, ?put y))" for x
    by (simp add: reservations_sql_def days_ago_def split: prod.split)
  note lift = prune_batched_lift [of "reservations_sql cfg" ?put ?step, OF this, of fuel _ "rd_reservations d"]
  have "1 \<le> nat (retention_prune_batch_size cfg)" using assms(1) by simp
  from prune_table [OF this assms(2,3), of hr_updated "settled_hold (days_ago (reservation_retention_days cfg) d)"]
  show ?thesis using lift by auto
qed

text \<open>The second round of the journal finds the same orders and nothing to delete.\<close>

lemma prune_journal:
  assumes "0 < retention_prune_batch_size cfg" and "2 \<le> fuel"
  shows "\<exists>n. prune_batched fuel (nat (retention_prune_batch_size cfg)) (saga_log_sql cfg) d =
    Some (n, d\<lparr>rd_saga_log := filter (\<lambda>s. log_order s \<notin> oldest_settled cfg d) (rd_saga_log d)\<rparr>)"
proof -
  obtain k where k: "fuel = Suc (Suc k)" using assms(2) by (metis add_2_eq_Suc le_Suc_ex)
  have same: "oldest_settled cfg (d\<lparr>rd_saga_log := xs\<rparr>) = oldest_settled cfg d" for xs by (simp add: oldest_settled_def days_ago_def)
  show ?thesis using assms(1) by (simp add: k saga_log_sql_def Let_def same)
qed

lemma prune_outboxes_run:
  assumes "0 < retention_prune_batch_size cfg" and "distinct schemas" and "\<And>schema. schema \<in> set schemas \<Longrightarrow> distinct (map se_id (rd_outbox d schema)) \<and> length (rd_outbox d schema) < fuel"
  shows "\<exists>counts. prune_outboxes fuel cfg schemas d =
    Some (counts, d\<lparr>rd_outbox := (\<lambda>schema. if schema \<in> set schemas
      then filter (\<lambda>e. \<not> shipped (days_ago (outbox_retention_days cfg) d) e) (rd_outbox d schema) else rd_outbox d schema)\<rparr>)"
  using assms(2,3)
proof (induction schemas arbitrary: d)
  case (Cons schema schemas)
  let ?keep = "filter (\<lambda>e. \<not> shipped (days_ago (outbox_retention_days cfg) d) e)"
  let ?d = "d\<lparr>rd_outbox := (rd_outbox d)(schema := ?keep (rd_outbox d schema))\<rparr>"
  obtain n where n: "prune_batched fuel (nat (retention_prune_batch_size cfg)) (outbox_sql schema cfg) d = Some (n, ?d)"
    using prune_outbox [OF assms(1), of d schema fuel] Cons.prems(2) [of schema] by auto
  have now: "days_ago k ?d = days_ago k d" for k by (simp add: days_ago_def)
  have rest: "(\<lambda>s. if s \<in> set schemas then ?keep (rd_outbox ?d s) else rd_outbox ?d s) =
      (\<lambda>s. if s \<in> set (schema # schemas) then ?keep (rd_outbox d s) else rd_outbox d s)" using Cons.prems(1) by auto
  have "\<exists>counts. prune_outboxes fuel cfg schemas ?d =
    Some (counts, ?d\<lparr>rd_outbox := (\<lambda>s. if s \<in> set schemas then filter (\<lambda>e. \<not> shipped (days_ago (outbox_retention_days cfg) ?d) e) (rd_outbox ?d s) else rd_outbox ?d s)\<rparr>)"
    using Cons.prems by (intro Cons.IH) (auto split: if_splits)
  then obtain counts where "prune_outboxes fuel cfg schemas ?d =
      Some (counts, ?d\<lparr>rd_outbox := (\<lambda>s. if s \<in> set (schema # schemas) then ?keep (rd_outbox d s) else rd_outbox d s)\<rparr>)"
    unfolding now rest by blast
  then show ?case unfolding prune_outboxes.simps n by simp
qed simp

definition pruned :: "app_settings \<Rightarrow> retention_db \<Rightarrow> retention_db" where
  "pruned cfg d =
     d\<lparr>rd_outbox := (\<lambda>schema. if schema \<in> set outbox_schemas
         then filter (\<lambda>e. \<not> shipped (days_ago (outbox_retention_days cfg) d) e) (rd_outbox d schema) else rd_outbox d schema),
       rd_reservations := filter (\<lambda>r. \<not> settled_hold (days_ago (reservation_retention_days cfg) d) r) (rd_reservations d),
       rd_saga_log := filter (\<lambda>s. log_order s \<notin> oldest_settled cfg d) (rd_saga_log d)\<rparr>"

definition fuel_enough :: "retention_db \<Rightarrow> nat \<Rightarrow> bool" where
  "fuel_enough d fuel \<longleftrightarrow> 2 \<le> fuel \<and> (\<forall>schema \<in> set outbox_schemas. length (rd_outbox d schema) < fuel) \<and> length (rd_reservations d) < fuel"

lemma prune_once_run:
  assumes batch: "0 < retention_prune_batch_size cfg" and rows: "unique_rows d" and fuel: "fuel_enough d fuel"
  shows "\<exists>counts. prune_once fuel cfg d = Some (counts, pruned cfg d)"
proof -
  let ?d1 = "d\<lparr>rd_outbox := (\<lambda>schema. if schema \<in> set outbox_schemas
      then filter (\<lambda>e. \<not> shipped (days_ago (outbox_retention_days cfg) d) e) (rd_outbox d schema) else rd_outbox d schema)\<rparr>"
  let ?d2 = "?d1\<lparr>rd_reservations := filter (\<lambda>r. \<not> settled_hold (days_ago (reservation_retention_days cfg) ?d1) r) (rd_reservations ?d1)\<rparr>"
  have "distinct outbox_schemas" by (simp add: outbox_schemas_def)
  then obtain counts where outboxes: "prune_outboxes fuel cfg outbox_schemas d = Some (counts, ?d1)"
    using prune_outboxes_run [OF batch, of outbox_schemas d fuel] rows fuel by (auto simp: unique_rows_def fuel_enough_def)
  obtain n where holds: "prune_batched fuel (nat (retention_prune_batch_size cfg)) (reservations_sql cfg) ?d1 = Some (n, ?d2)"
    using prune_holds [OF batch, of ?d1 fuel] rows fuel by (auto simp: unique_rows_def fuel_enough_def)
  obtain m where "prune_batched fuel (nat (retention_prune_batch_size cfg)) (saga_log_sql cfg) ?d2 =
      Some (m, ?d2\<lparr>rd_saga_log := filter (\<lambda>s. log_order s \<notin> oldest_settled cfg ?d2) (rd_saga_log ?d2)\<rparr>)"
    using prune_journal [OF batch, of fuel ?d2] fuel by (auto simp: fuel_enough_def)
  moreover have "oldest_settled cfg ?d2 = oldest_settled cfg d" "days_ago k ?d1 = days_ago k d" for k by (simp_all add: oldest_settled_def days_ago_def)
  ultimately show ?thesis using outboxes holds by (simp add: prune_once_def pruned_def)
qed

text \<open>Dropping settled rows does not touch the counters.\<close>

lemma pruned_stock_ok:
  assumes ok: "stock_ok b" and rows: "reservations b = map hr_reservation rs"
  shows "stock_ok (b\<lparr>reservations := map hr_reservation (filter (\<lambda>r. \<not> settled_hold before r) rs)\<rparr>)" (is "stock_ok ?b")
proof -
  have held: "held_qty ?b s = held_qty b s" for s
  proof -
    have "filter (\<lambda>r. res_sku r = s \<and> res_status r = HELD) (map hr_reservation (filter (\<lambda>r. \<not> settled_hold before r) xs)) =
        filter (\<lambda>r. res_sku r = s \<and> res_status r = HELD) (map hr_reservation xs)" for xs
      by (induction xs) (auto simp: settled_hold_def)
    then show ?thesis by (simp add: held_qty_def weigh_def rows)
  qed
  have sub: "set (reservations ?b) \<subseteq> set (reservations b)" by (auto simp: rows)
  have "distinct (map f (filter p (map hr_reservation (filter q xs))))" if "distinct (map f (filter p (map hr_reservation xs)))"
    for f :: "reservation \<Rightarrow> 'c" and p q xs using that by (induction xs) auto
  from this [of line_key is_active] this [of res_id "\<lambda>_. True"] have "rows_ok ?b"
    using ok sub by (auto simp: stock_ok_def rows_ok_def rows)
  moreover have "counters_ok ?b" using ok unfolding stock_ok_def counters_ok_def held by (simp, metis)
  ultimately show ?thesis by (simp add: stock_ok_def)
qed

section \<open>Property\<close>

text \<open>
  C38. Pruning ends and spares what is still needed. With settings that pass validation a pass returns, and leaves every
  unpublished event, every held reservation, every reservation touched within the payment reconciliation window and
  every journal row of an order that is pending or was touched within it; the stock invariant (the reserved units are
  the live holds) is kept; no shipped event and no settled reservation beyond its retention remains.
\<close>
theorem pruning_spares_the_living:
  assumes "validated_settings given = Inr cfg" and "unique_rows d" and "fuel_enough d fuel"
    and "stock_ok b" and "reservations b = map hr_reservation (rd_reservations d)"
  shows "\<exists>counts d'. prune_once fuel cfg d = Some (counts, d') \<and>
    stock_ok (b\<lparr>reservations := map hr_reservation (rd_reservations d')\<rparr>) \<and>
    (\<forall>schema. \<forall>e \<in> set (rd_outbox d schema). se_published e = None \<longrightarrow> e \<in> set (rd_outbox d' schema)) \<and>
    (\<forall>r \<in> set (rd_reservations d). res_status (hr_reservation r) = HELD \<or> rd_now d - hr_updated r \<le> seconds (payment_reconciliation_max_age_seconds cfg) \<longrightarrow>
       r \<in> set (rd_reservations d')) \<and>
    (\<forall>j \<in> set (rd_saga_log d). (\<forall>q \<in> set (rd_orders d). order_id q = log_order j \<longrightarrow>
         order_state q = PENDING \<or> rd_now d - order_updated q \<le> seconds (payment_reconciliation_max_age_seconds cfg)) \<longrightarrow>
       j \<in> set (rd_saga_log d')) \<and>
    (\<forall>schema \<in> set outbox_schemas. \<forall>e \<in> set (rd_outbox d' schema). \<not> shipped (days_ago (outbox_retention_days cfg) d) e) \<and>
    (\<forall>r \<in> set (rd_reservations d'). \<not> settled_hold (days_ago (reservation_retention_days cfg) d) r)"
proof -
  note window = validated_window [OF assms(1)]
  obtain counts where run: "prune_once fuel cfg d = Some (counts, pruned cfg d)" using prune_once_run [OF window(3) assms(2,3)] by blast
  have recent: "\<not> t < days_ago k d" if "rd_now d - t \<le> seconds (payment_reconciliation_max_age_seconds cfg)" "payment_reconciliation_max_age_seconds cfg < k * 86400" for t k
    using that by (simp add: days_ago_def seconds_def)
  have journal: "log_order j \<notin> oldest_settled cfg d"
    if "\<forall>q \<in> set (rd_orders d). order_id q = log_order j \<longrightarrow> order_state q = PENDING \<or> rd_now d - order_updated q \<le> seconds (payment_reconciliation_max_age_seconds cfg)" for j
  proof
    assume "log_order j \<in> oldest_settled cfg d"
    then obtain q where "q \<in> set (rd_orders d)" "order_id q = log_order j" "settled_order (days_ago (saga_log_retention_days cfg) d) q"
      by (auto simp: oldest_settled_def dest!: in_set_takeD)
    then show False using that recent [OF _ window(2)] by (auto simp: settled_order_def)
  qed
  show ?thesis
    using run pruned_stock_ok [OF assms(4,5), of "days_ago (reservation_retention_days cfg) d"] journal recent [OF _ window(1)]
    by (intro exI [of _ counts] exI [of _ "pruned cfg d"]) (auto simp: pruned_def shipped_def settled_hold_def)
qed

section \<open>Concrete passes\<close>

definition sample_settings :: app_settings where
  "sample_settings = \<lparr>environment = ''prod'', verbose_error_details = False, payment_stub_pending_token_substring = [],
     payment_reconciliation_grace_seconds = 30, payment_reconciliation_max_age_seconds = 604800, s3_bucket = None, s3_endpoint_url = None,
     s3_public_base_url = None, image_visibility_timeout_seconds = 300, image_upload_reaper_grace_seconds = 900,
     bus_topic_arn_prefix = Some ''arn:aws:sns:eu:1'', reservation_ttl_seconds = 900, checkout_saga_step_timeout_seconds = 30,
     checkout_saga_overall_timeout_seconds = 50, outbox_retention_days = 7, reservation_retention_days = 90, saga_log_retention_days = 90,
     retention_prune_batch_size = 1\<rparr>"

definition sample_cfg :: app_settings where
  "sample_cfg = sample_settings\<lparr>bus_topic_arn_prefix := Some ''arn:aws:sns:eu:1:''\<rparr>"

definition paid_order :: "uuid \<Rightarrow> timestamp \<Rightarrow> order" where
  "paid_order i t = \<lparr>order_id = i, order_user = 0, order_state = PAID, order_total = 1, order_items = [], order_created = 0, order_updated = t,
     order_key = [], order_body_hash = [], order_email = []\<rparr>"

definition journal_row :: "uuid \<Rightarrow> saga_step" where
  "journal_row i = \<lparr>log_order = i, log_step = ''reserve'', log_status = ''done'', log_created = 0, log_updated = 0\<rparr>"

definition aged_db :: retention_db where
  "aged_db = \<lparr>rd_outbox = (\<lambda>_. [\<lparr>se_id = 1, se_occurred = 0, se_published = Some 0\<rparr>, \<lparr>se_id = 2, se_occurred = 0, se_published = None\<rparr>]),
     rd_reservations = [\<lparr>hr_reservation = \<lparr>res_id = 5, res_sku = ''a'', res_qty = 1, res_order = 1, res_status = COMMITTED, res_expires = 0\<rparr>, hr_updated = 0\<rparr>],
     rd_orders = [paid_order 1 0, paid_order 2 1], rd_saga_log = [journal_row 1, journal_row 2], rd_now = seconds (100 * 86400)\<rparr>"

lemma sample_settings_valid: "validated_settings sample_settings = Inr sample_cfg"
  by code_simp

theorem pruning_spares_the_living_witness:
  "(\<exists>counts d'. prune_once 9 sample_cfg aged_db = Some (counts, d') \<and>
      stock_ok (empty_database\<lparr>stock := (\<lambda>s. if s = ''a'' then Some \<lparr>on_hand = 0, reserved = 0, version = 1\<rparr> else None), next_uuid := 6, reservations := map hr_reservation (rd_reservations d')\<rparr>)) \<and>
   (case prune_once 9 sample_cfg aged_db of
      Some (counts, d') \<Rightarrow> map se_id (rd_outbox d' ''orders'') = [2] \<and> rd_reservations d' = [] | None \<Rightarrow> False)"
proof
  let ?b = "empty_database\<lparr>stock := (\<lambda>s. if s = ''a'' then Some \<lparr>on_hand = 0, reserved = 0, version = 1\<rparr> else None), next_uuid := 6, reservations := map hr_reservation (rd_reservations aged_db)\<rparr>"
  have "unique_rows aged_db" "fuel_enough aged_db 9" by (simp_all add: unique_rows_def fuel_enough_def aged_db_def outbox_schemas_def)
  moreover have "stock_ok ?b"
    by (simp add: stock_ok_def rows_ok_def counters_ok_def held_qty_def weigh_def empty_database_def aged_db_def)
  ultimately show "\<exists>counts d'. prune_once 9 sample_cfg aged_db = Some (counts, d') \<and>
      stock_ok (empty_database\<lparr>stock := (\<lambda>s. if s = ''a'' then Some \<lparr>on_hand = 0, reserved = 0, version = 1\<rparr> else None), next_uuid := 6, reservations := map hr_reservation (rd_reservations d')\<rparr>)"
    using pruning_spares_the_living [OF sample_settings_valid, of aged_db 9 ?b] by fastforce
  show "case prune_once 9 sample_cfg aged_db of
      Some (counts, d') \<Rightarrow> map se_id (rd_outbox d' ''orders'') = [2] \<and> rd_reservations d' = [] | None \<Rightarrow> False" by code_simp
qed

text \<open>
  The journal is not drained. The statement's limit picks the oldest settled orders, which stay where they are when their
  journal is gone: once it is, no pass ever reaches the journal of the next order, however old it gets.
\<close>

lemma journal_prune_starves:
  assumes "0 < retention_prune_batch_size cfg" and "2 \<le> fuel" and "\<forall>j \<in> set (rd_saga_log d). log_order j \<notin> oldest_settled cfg d"
  shows "\<exists>n. prune_batched fuel (nat (retention_prune_batch_size cfg)) (saga_log_sql cfg) d = Some (n, d)"
proof -
  have "filter (\<lambda>s. log_order s \<notin> oldest_settled cfg d) (rd_saga_log d) = rd_saga_log d" using assms(3) by (simp add: filter_id_conv)
  then show ?thesis using prune_journal [OF assms(1,2), of d] by simp
qed

lemma journal_left_behind:
  "\<exists>c c' d' d''. prune_once 9 sample_cfg aged_db = Some (c, d') \<and> map log_order (rd_saga_log d') = [2] \<and>
     settled_order (days_ago (saga_log_retention_days sample_cfg) d') (paid_order 2 1) \<and>
     prune_once 9 sample_cfg d' = Some (c', d'') \<and> map log_order (rd_saga_log d'') = [2]"
proof -
  have oldest: "oldest_settled sample_cfg (aged_db\<lparr>rd_outbox := x, rd_reservations := y, rd_saga_log := z\<rparr>) = {1}" for x y z
    by (simp add: oldest_settled_def settled_order_def days_ago_def seconds_def aged_db_def sample_cfg_def sample_settings_def paid_order_def)
  have aged: "oldest_settled sample_cfg aged_db = {1}"
    using oldest [where x = "rd_outbox aged_db" and y = "rd_reservations aged_db" and z = "rd_saga_log aged_db"] by simp
  have rows: "unique_rows aged_db" "fuel_enough aged_db 9" by (simp_all add: unique_rows_def fuel_enough_def aged_db_def outbox_schemas_def)
  have rows': "unique_rows (pruned sample_cfg aged_db)" "fuel_enough (pruned sample_cfg aged_db) 9"
    using rows by (auto simp: unique_rows_def fuel_enough_def pruned_def distinct_map_filter intro: le_less_trans [OF length_filter_le])
  have batch: "0 < retention_prune_batch_size sample_cfg" by (simp add: sample_cfg_def sample_settings_def)
  obtain c c' where "prune_once 9 sample_cfg aged_db = Some (c, pruned sample_cfg aged_db)"
    "prune_once 9 sample_cfg (pruned sample_cfg aged_db) = Some (c', pruned sample_cfg (pruned sample_cfg aged_db))"
    using prune_once_run [OF batch rows] prune_once_run [OF batch rows'] by blast
  moreover have "map log_order (rd_saga_log (pruned sample_cfg aged_db)) = [2]"
    by (simp add: pruned_def aged) (simp add: aged_db_def journal_row_def)
  moreover have "map log_order (rd_saga_log (pruned sample_cfg (pruned sample_cfg aged_db))) = [2]"
    by (simp add: pruned_def aged oldest) (simp add: aged_db_def journal_row_def)
  moreover have "settled_order (days_ago (saga_log_retention_days sample_cfg) (pruned sample_cfg aged_db)) (paid_order 2 1)"
    by (simp add: settled_order_def days_ago_def seconds_def pruned_def aged_db_def sample_cfg_def sample_settings_def paid_order_def)
  ultimately show ?thesis by (intro exI conjI)
qed

end
