(* ===== verification/Bus_Publisher.thy ===== *)
theory Bus_Publisher
  imports Settings
begin

text \<open>
  \<^verbatim>\<open>shared/bus/publisher.py\<close>, \<^verbatim>\<open>shared/bus/tracecontext.py\<close> and \<^verbatim>\<open>shared/bus/constants.py\<close>: how an outbox payload
  becomes an SNS message. The SNS client is a parameter with a state of its own, the two draws of \<open>secrets.token_hex\<close> are
  arguments. Between the lookup of a topic and the note of its ARN other publishes only add entries of the same shape.
\<close>

section \<open>Trace context\<close>

definition lower_hex :: "char \<Rightarrow> bool" where
  "lower_hex c \<longleftrightarrow> is_digit c \<or> 97 \<le> (of_char c :: nat) \<and> of_char c \<le> (102 :: nat)"

definition non_hex_removed :: "string \<Rightarrow> string" where
  "non_hex_removed s = filter lower_hex s"

text \<open>\<open>s.strip("0")\<close> is empty.\<close>

definition all_zero :: "string \<Rightarrow> bool" where
  "all_zero s \<longleftrightarrow> list_all (\<lambda>c. c = CHR ''0'') s"

definition ljust :: "nat \<Rightarrow> char \<Rightarrow> string \<Rightarrow> string" where
  "ljust width c s = s @ replicate (width - length s) c"

definition normalise_trace_id :: "string \<Rightarrow> string \<Rightarrow> string" where
  "normalise_trace_id token trace_id =
     (let normalised = take 32 (ljust 32 (CHR ''0'') (non_hex_removed (lower trace_id))) in
      if all_zero normalised then token else normalised)"

definition format_traceparent :: "string \<Rightarrow> string \<Rightarrow> string \<Rightarrow> string" where
  "format_traceparent token span_id trace_id = ''00-'' @ normalise_trace_id token trace_id @ ''-'' @ span_id @ ''-01''"

definition parse_trace_id :: "string option \<Rightarrow> string option" where
  "parse_trace_id traceparent =
     (case traceparent of
        None \<Rightarrow> None
      | Some t \<Rightarrow>
          if t = [] then None
          else let parts = split_on (CHR ''-'') t in
            if length parts < 4 then None
            else let trace_id = parts ! 1 in
              if length trace_id = 32 \<and> non_hex_removed trace_id = trace_id \<and> \<not> all_zero trace_id then Some trace_id else None)"

text \<open>What \<open>secrets.token_hex(n)\<close> returns.\<close>

definition token_hex :: "nat \<Rightarrow> string \<Rightarrow> bool" where
  "token_hex n s \<longleftrightarrow> length s = 2 * n \<and> list_all lower_hex s"

lemma lower_hex_no_dash: "list_all lower_hex s \<Longrightarrow> CHR ''-'' \<notin> set s"
  by (auto simp: list_all_iff lower_hex_def is_digit_def)

lemma normalised_hex:
  assumes "token_hex 16 token"
  shows "length (normalise_trace_id token t) = 32" "list_all lower_hex (normalise_trace_id token t)"
proof -
  have "list_all lower_hex (non_hex_removed (lower t))" by (simp add: non_hex_removed_def list_all_iff)
  moreover have "lower_hex (CHR ''0'')" by (simp add: lower_hex_def is_digit_def)
  ultimately have "list_all lower_hex (take 32 (ljust 32 (CHR ''0'') (non_hex_removed (lower t))))"
    by (auto simp: list_all_iff ljust_def dest: in_set_takeD)
  then show "length (normalise_trace_id token t) = 32" "list_all lower_hex (normalise_trace_id token t)"
    using assms by (auto simp: normalise_trace_id_def ljust_def token_hex_def Let_def min_def)
qed

lemma parse_format:
  assumes "token_hex 16 token" "\<not> all_zero token" "token_hex 8 span_id"
  shows "parse_trace_id (Some (format_traceparent token span_id t)) = Some (normalise_trace_id token t)"
proof -
  let ?n = "normalise_trace_id token t"
  note hex = normalised_hex [OF assms(1), of t]
  have "split_on (CHR ''-'') (?n @ CHR ''-'' # span_id @ CHR ''-'' # ''01'') = [?n, span_id, ''01'']"
    using lower_hex_no_dash [OF hex(2)] lower_hex_no_dash [of span_id] assms(3) by (simp add: split_on_join token_hex_def)
  then have "split_on (CHR ''-'') (format_traceparent token span_id t) = [''00'', ?n, span_id, ''01'']"
    by (simp add: format_traceparent_def)
  moreover have "non_hex_removed ?n = ?n" using hex(2) by (simp add: non_hex_removed_def filter_id_conv list_all_iff)
  moreover have "\<not> all_zero ?n" using assms(2) by (simp add: normalise_trace_id_def Let_def)
  moreover have "format_traceparent token span_id t \<noteq> []" by (simp add: format_traceparent_def)
  ultimately show ?thesis using hex(1) by (simp add: parse_trace_id_def Let_def)
qed

text \<open>The envelope's own ids (\<open>uuid4().hex\<close>) pass unchanged.\<close>

lemma lower_of_hex: "list_all lower_hex t \<Longrightarrow> lower t = t"
  by (auto simp: lower_def list_all_iff lower_hex_def is_digit_def intro!: map_idI)

lemma normalise_request_id: "token_hex 16 t \<Longrightarrow> \<not> all_zero t \<Longrightarrow> normalise_trace_id token t = t"
  by (simp add: normalise_trace_id_def token_hex_def lower_of_hex non_hex_removed_def ljust_def filter_id_conv list_all_iff)

section \<open>The publisher\<close>

definition topic_name :: "string \<Rightarrow> string \<Rightarrow> string" where
  "topic_name prefix ty = prefix @ ty"

record 's sns_client =
  create_topic :: "string \<Rightarrow> (exn, 's, string) prog"
  sns_publish :: "string \<Rightarrow> string \<Rightarrow> string \<Rightarrow> (exn, 's, unit) prog"

record 's publisher =
  pb_sns :: "'s sns_client"
  pb_prefix :: string
  pb_arn_prefix :: "string option"
  pb_arns :: "string \<rightharpoonup> string"
  pb_bus :: 's

definition sns_call :: "('s sns_client \<Rightarrow> (exn, 's, 'a) prog) \<Rightarrow> (exn, 's publisher, 'a) prog" where
  "sns_call m = (\<lambda>p. let (r, s) = m (pb_sns p) (pb_bus p) in (r, p\<lparr>pb_bus := s\<rparr>))"

definition topic_arn :: "string \<Rightarrow> (exn, 's publisher, string) prog" where
  "topic_arn ty = (\<lambda>p.
     case pb_arns p ty of
       Some arn \<Rightarrow> (Inr arn, p)
     | None \<Rightarrow>
         let name = topic_name (pb_prefix p) ty in
         bnd (if truthy (pb_arn_prefix p) then ret (the (pb_arn_prefix p) @ name) else sns_call (\<lambda>sns. create_topic sns name))
           (\<lambda>arn. thn (modify (\<lambda>q. q\<lparr>pb_arns := (pb_arns q)(ty \<mapsto> arn)\<rparr>)) (ret arn)) p)"

text \<open>\<open>json.loads(payload).get("trace_id", "")\<close>; the last of repeated keys counts.\<close>

definition trace_of :: "string \<Rightarrow> exn + json" where
  "trace_of payload =
     (case json_loads payload of
        None \<Rightarrow> Inl (ValueError ''JSONDecodeError'')
      | Some (JObj members) \<Rightarrow> Inr (case map_of (rev members) ''trace_id'' of None \<Rightarrow> JStr [] | Some v \<Rightarrow> v)
      | Some _ \<Rightarrow> Inl (AttributeError ''get''))"

text \<open>\<open>(trace_id or "").lower()\<close>: a value that counts as false is the empty text, another that is no text has no \<open>lower\<close>
  (a number so small that it underflows to zero is not considered).\<close>

definition trace_text :: "json \<Rightarrow> exn + string" where
  "trace_text v =
     (case v of
        JStr t \<Rightarrow> Inr t
      | JNull \<Rightarrow> Inr []
      | JBool b \<Rightarrow> if b then Inl (AttributeError ''lower'') else Inr []
      | JNum n \<Rightarrow> if list_all (\<lambda>c. c \<in> {CHR ''0'', CHR ''-'', CHR ''.''}) (takeWhile (\<lambda>c. c \<notin> {CHR ''e'', CHR ''E''}) n)
                   then Inr [] else Inl (AttributeError ''lower'')
      | JList vs \<Rightarrow> if vs = [] then Inr [] else Inl (AttributeError ''lower'')
      | JObj ms \<Rightarrow> if ms = [] then Inr [] else Inl (AttributeError ''lower''))"

definition publish_event :: "string \<Rightarrow> string \<Rightarrow> string \<Rightarrow> string \<Rightarrow> (exn, 's publisher, unit) prog" where
  "publish_event token span_id ty payload =
     (case trace_of payload of
        Inl e \<Rightarrow> raise e
      | Inr v \<Rightarrow> bnd (topic_arn ty) (\<lambda>arn.
          case trace_text v of
            Inl e \<Rightarrow> raise e
          | Inr t \<Rightarrow> sns_call (\<lambda>sns. sns_publish sns arn payload (format_traceparent token span_id t))))"

section \<open>Publishing under a configured namespace\<close>

definition arns_known :: "string \<Rightarrow> 's publisher \<Rightarrow> bool" where
  "arns_known arn p \<longleftrightarrow> pb_arn_prefix p = Some arn \<and> (\<forall>t a. pb_arns p t = Some a \<longrightarrow> a = arn @ topic_name (pb_prefix p) t)"

lemma topic_arn_known:
  assumes "arns_known arn p" and "arn \<noteq> []"
  shows "\<exists>p'. topic_arn t p = (Inr (arn @ topic_name (pb_prefix p) t), p') \<and> arns_known arn p' \<and>
    pb_bus p' = pb_bus p \<and> pb_sns p' = pb_sns p \<and> pb_prefix p' = pb_prefix p"
proof (cases "pb_arns p t")
  case None
  let ?arn = "arn @ topic_name (pb_prefix p) t"
  have "topic_arn t p = (Inr ?arn, p\<lparr>pb_arns := (pb_arns p)(t \<mapsto> ?arn)\<rparr>)"
    using assms None by (simp add: topic_arn_def arns_known_def truthy_def Let_def prog_simps)
  then show ?thesis using assms(1) by (auto simp: arns_known_def)
qed (use assms in \<open>auto simp: topic_arn_def arns_known_def\<close>)

text \<open>An accepted namespace is a text of five fields and a colon, so that with a topic it is an ARN of six.\<close>

lemma split_on_nonempty: "split_on c s \<noteq> []"
  by (cases s) (auto split: list.split)

lemma split_on_append: "c \<notin> set b \<Longrightarrow> split_on c (a @ b) = butlast (split_on c a) @ [last (split_on c a) @ b]"
proof (induction a)
  case (Cons x a)
  then show ?case using split_on_nonempty [of c a] by (auto split: list.split)
qed (simp add: split_on_none)

lemma split_on_snoc: "split_on c (a @ [c]) = split_on c a @ [[]]"
  by (induction a) (auto simp: split_on_nonempty split: list.split)

lemma accepted_namespace:
  assumes "validate_topic_arn_prefix given = Inr (Some arn)" and "CHR '':'' \<notin> set topic"
  shows "\<exists>partition region account. split_on (CHR '':'') (arn @ topic) = [''arn'', partition, ''sns'', region, account, topic] \<and>
    region \<noteq> [] \<and> account \<noteq> []"
proof -
  let ?parts = "split_on (CHR '':'') arn"
  have ends: "arn \<noteq> []" "last arn = CHR '':''" and n: "length ?parts = 6"
    and parts: "?parts ! 0 = ''arn''" "?parts ! 2 = ''sns''" "?parts ! 3 \<noteq> []" "?parts ! 4 \<noteq> []"
    using assms(1) by (auto simp: validate_topic_arn_prefix_def Let_def split: option.splits if_splits)
  then obtain a where a: "arn = a @ '':''" using append_butlast_last_id [of arn] by metis
  have "?parts = split_on (CHR '':'') a @ [[]]" by (simp add: a split_on_snoc)
  moreover have "length (split_on (CHR '':'') a) = 5" using n calculation by simp
  then obtain b partition d region account where "split_on (CHR '':'') a = [b, partition, d, region, account]"
    by (auto simp: length_Suc_conv numeral_eq_Suc)
  ultimately show ?thesis using parts assms(2) by (simp add: split_on_append)
qed

section \<open>Property\<close>


definition demo_publisher :: "(string \<times> string) list publisher" where
  "demo_publisher = \<lparr>pb_sns = \<lparr>create_topic = (\<lambda>name. ret name), sns_publish = (\<lambda>arn body tp s. (Inr (), (arn, body) # s))\<rparr>,
     pb_prefix = ''shop-'', pb_arn_prefix = Some ''arn:aws:sns:eu:1:'', pb_arns = Map.empty, pb_bus = []\<rparr>"

definition demo_payload :: string where
  "demo_payload = ''{'' @ json_quoted ''trace_id'' @ '':'' @ json_quoted ''0af7651916cd43dd8448eb211c80319c'' @ ''}''"


end
