(* ===== verification/Spec2Isabelle.thy ===== *)
theory Spec2Isabelle
  imports Shop_Properties Payments_Properties Cart_Properties Checkout_Properties
    Resilience_Properties Unit_Of_Work Pagination Rate_Limit Outbox_Relay Bus_Consumer Event_Contracts Cache_Properties
    Notification_Properties Image_Properties Conditional_Requests
    Identity_Properties Keycloak_Properties Identity_Directory Authentication Retention Bus_Publisher
begin

text \<open>
  A verification of the e-commerce backend (\<^verbatim>\<open>src/src\<close>): modules for catalog, cart, inventory, orders,
  payments, identity and notifications that share one Postgres, talk over a transactional outbox, SNS and SQS, and
  keep carts, caches, leases and rate limits in Valkey.

  \<^bold>\<open>How programs are modelled.\<close> A handler is a program of \<open>Prelude\<close>: a function from a state to a result
  (the exception it raised, as a value of \<open>Errors.exn\<close>, or the value it returned) and the state it left;
  \<open>atomic\<close> is a transaction. Concurrency is explicit. In \<open>World\<close> (the shop) and \<open>Sessions\<close> (catalog,
  notifications) a program is a sequence of calls; before each call other requests may have run, given as
  a list of arbitrary steps, and the call may be lost or its answer may be lost; the locales
  \<open>rely_guarantee\<close>, \<open>valkey_rely\<close> and \<open>session_rely\<close> are the proof calculi, interpreted on the contract
  of each component. \<open>Bus_Consumer\<close> and \<open>Catalog_Cache\<close> are step relations over any number of workers,
  one \<open>await\<close> at a time. So a property of all schedules and all faults is a property of every
  interleaving and every failure pattern at the granularity of statements and awaits.

  \<^bold>\<open>Theories and what they model.\<close>
  \<^item> \<open>Prelude\<close>, \<open>Errors\<close> (\<^verbatim>\<open>shared/errors\<close>), \<open>Schema\<close> (tables, enums, events), \<open>Codec\<close> (the JSON, base64,
    integer and UUID texts the code reads and writes).
  \<^item> \<open>Inventory_Repository\<close>, \<open>Inventory_Service\<close>: \<^verbatim>\<open>inventory\<close> with its reaper. \<open>Stock_Invariant\<close>,
    \<open>Stock_Reserve\<close>, \<open>Stock_Ledger\<close>, \<open>Stock_Properties\<close>: reserved units are the live holds and never exceed
    what is on hand, units are conserved, the outbox mirrors the rows, the batch reservation is complete
    and all or nothing.
  \<^item> \<open>Orders_Repository\<close>, \<open>Orders_Service\<close>, \<open>Checkout_Saga\<close>, \<open>Saga_Recovery\<close>: \<^verbatim>\<open>orders\<close> and its wiring in
    \<^verbatim>\<open>bootstrap\<close>. \<open>Shop_Invariant\<close>, \<open>Shop_Steps\<close>, \<open>Shop_Requests\<close>, \<open>Shop_Safety\<close>, \<open>Shop_Properties\<close>,
    \<open>Checkout_Properties\<close>: a paid order owns its stock, money of a cancelled order has a refund on record,
    one \<open>OrderPlaced\<close> per paid order, settled orders stay settled, idempotent checkout; and that the saga
    of this commit cannot pay an order at all, because the unit of work has no \<open>depth\<close>.
  \<^item> \<open>Gateway\<close>, \<open>Payments_Repository\<close>, \<open>Payments_Service\<close>, \<open>Payments_Properties\<close>: \<^verbatim>\<open>payments\<close>, its stub
    provider, webhook and reconciler. The locale \<open>payment_gateway\<close> is the provider's contract.
  \<^item> \<open>Resilience\<close>, \<open>Resilient_Gateway\<close>, \<open>Resilience_Properties\<close>: \<^verbatim>\<open>shared/resilience.py\<close> and the shell
    around the gateway; the shell gives the contract it takes (\<open>resilient_shell\<close> is a sublocale).
  \<^item> \<open>Cart_Domain\<close>, \<open>Cart_Repository\<close>, \<open>Cart_Service\<close>, \<open>Cart_Properties\<close>: \<^verbatim>\<open>cart\<close>, every Lua script.
  \<^item> \<open>Catalog_Keys\<close>, \<open>Catalog_Repository\<close>, \<open>Catalog_Service\<close>, \<open>Catalog_Properties\<close>: \<^verbatim>\<open>catalog\<close>, with what
    counts of SQLAlchemy (dirty columns, version guard, identity map) written out: every version of a
    product is announced by one event, replaced images are reclaimed.
  \<^item> \<open>Conditional_Requests\<close>: \<^verbatim>\<open>shared/api/etag.py\<close>, and that a conditional update replaces exactly the version the
    client read.
  \<^item> \<open>Valkey_Lease\<close>, \<open>Catalog_Cache\<close>, \<open>Cache_Properties\<close>: token-owned leases and the cached product read.
    The locale \<open>token_lease\<close> is interpreted on the consumer's lease and the cache's fill lock.
  \<^item> \<open>Image_Ingest\<close>, \<open>Image_Contract\<close>, \<open>Image_Properties\<close>: the image worker with the bucket and its two sweeps. A
    product never serves an image with a missing object, an upload is only acknowledged when its objects
    are accounted for, and only re-encoded bytes are published.
  \<^item> \<open>Notifications\<close>, \<open>Notification_Properties\<close>: the mail ledger, the handlers and the templates.
  \<^item> \<open>Identity\<close>, \<open>Identity_Properties\<close>: the mirror of the Keycloak accounts, provisioning and disabling as interleaved
    tasks over an advisory lock: a disabled account is not served again. \<open>Keycloak_Admin\<close>, \<open>Keycloak_Properties\<close>: the
    client of the Admin API in the shell of \<open>Resilient_Gateway\<close>; invitations are undone when their mail fails.
    \<open>Identity_Directory\<close>: the admin use cases; the locale \<open>user_directory\<close> is the contract of their port, interpreted on the
    client, and the paged listing is complete. \<open>Authentication\<close>: \<^verbatim>\<open>shared/auth\<close>, claims to roles and the guarded refresh
    of the signing keys.
  \<^item> \<open>Events\<close>, \<open>Event_Contracts\<close>: \<^verbatim>\<open>events\<close> and that the outboxes meet it. \<open>Outbox_Relay\<close>, \<open>Bus_Consumer\<close>:
    \<^verbatim>\<open>shared/bus\<close>, at-least-once delivery and deduplicated handling.
    \<open>Bus_Publisher\<close>: how a payload becomes an SNS message on the topic of its type, and its trace id there and back.
  \<^item> \<open>Settings\<close>: the validators of \<^verbatim>\<open>shared/config/setting.py\<close> that relate settings to each other.
    \<open>Retention\<close>: \<^verbatim>\<open>scripts/retention_prune.py\<close>, which under these settings spares everything still in use; and
    that it never reaches the journal behind the first batch of settled orders.
  \<^item> \<open>Unit_Of_Work\<close>, \<open>Pagination\<close>, \<open>Rate_Limit\<close>: \<^verbatim>\<open>shared/db\<close>, \<^verbatim>\<open>shared/ratelimit\<close>. The nested
    transaction blocks refine \<open>atomic\<close>, which is what the other theories use.

  \<^bold>\<open>Parameters and hypotheses.\<close> Code outside the repository is an argument: pydantic's validation and
  serialisation (\<open>cc_pydantic\<close>, \<open>cf_dump\<close>, \<open>cf_validate\<close> with \<open>serialises\<close>), HMAC, Pillow, libmagic and the digest
  (\<open>imaging\<close>, \<open>hex_digest\<close>), how the database prints
  and casts sort values (\<open>keyset_column\<close>), the payment provider (\<open>payment_gateway\<close>), Keycloak (\<open>kc_server\<close>, any answers to
  any calls), PyJWT (\<open>lookup\<close>, \<open>decode\<close>), the SNS client (\<open>sns_client\<close>) and the digest of the lock key. Fresh UUIDs are drawn
  from a counter. Integers of Python and Postgres are unbounded here; prices are rationals.

  \<^bold>\<open>Loops and fuel.\<close> Loops are structural recursions over what they iterate; the retry loop recurses over
  the attempts that are left; the paging walk, the relay's passes and the prune's batches get fuel that the theorems prove to
  suffice. Waiting for a cache fill is a step relation, so no bound is needed.

  \<^bold>\<open>Not modelled.\<close> HTTP routes, SMTP and SES, the settings no validator relates, logging and metrics, migrations (their constraints are in the
  tables) and the operator scripts but the retention prune.
\<close>

end
